(* ===== verification/Prelude.thy ===== *)
theory Prelude
  imports Main "HOL-Library.Multiset"
begin

text \<open>
  What every component shares: the sum-typed result of a fallible operation with its bind,
  the list lemmas behind \<^verbatim>\<open>UPDATE ... WHERE\<close> over a table, sums over the rows that
  satisfy a predicate, and the collections the component proofs draw on.
\<close>

named_theorems run_simps \<open>what a fallible step returned, taken apart\<close>
named_theorems frame_simps \<open>tables a step leaves alone\<close>
named_theorems inv_intros \<open>invariants kept by a step\<close>

section \<open>Results\<close>

text \<open>
  \<open>Inl e\<close> is a raised exception, \<open>Inr x\<close> a normal return. \<open>bind_r\<close> sequences two calls:
  an exception in the first one skips the second.
\<close>

definition bind_r :: "'e + 'a \<Rightarrow> ('a \<Rightarrow> 'e + 'b) \<Rightarrow> 'e + 'b" where
  "bind_r m f = (case m of Inl e \<Rightarrow> Inl e | Inr x \<Rightarrow> f x)"

lemma bind_r_simps [simp]:
  "bind_r (Inl e) f = Inl e"
  "bind_r (Inr x) f = f x"
  by (simp_all add: bind_r_def)

lemma bind_r_Inr [run_simps]: "bind_r m f = Inr y \<longleftrightarrow> (\<exists>x. m = Inr x \<and> f x = Inr y)"
  by (cases m) auto

lemma bind_r_Inl [run_simps]:
  "bind_r m f = Inl e \<longleftrightarrow> m = Inl e \<or> (\<exists>x. m = Inr x \<and> f x = Inl e)"
  by (cases m) auto

lemma bind_r_assoc: "bind_r (bind_r m f) g = bind_r m (\<lambda>x. bind_r (f x) g)"
  by (cases m) auto

lemma bind_r_cong [fundef_cong]:
  "m = m' \<Longrightarrow> (\<And>x. m' = Inr x \<Longrightarrow> f x = f' x) \<Longrightarrow> bind_r m f = bind_r m' f'"
  by (cases m') auto

text \<open>A loop whose body may raise: \<open>for x in xs: s = f x s\<close>.\<close>

fun fold_r :: "('x \<Rightarrow> 's \<Rightarrow> 'e + 's) \<Rightarrow> 'x list \<Rightarrow> 's \<Rightarrow> 'e + 's" where
  "fold_r f [] s = Inr s"
| "fold_r f (x # xs) s = bind_r (f x s) (fold_r f xs)"

text \<open>A list comprehension whose element expression may raise.\<close>

fun map_r :: "('x \<Rightarrow> 'e + 'y) \<Rightarrow> 'x list \<Rightarrow> 'e + 'y list" where
  "map_r f [] = Inr []"
| "map_r f (x # xs) = bind_r (f x) (\<lambda>y. bind_r (map_r f xs) (\<lambda>ys. Inr (y # ys)))"

lemma map_r_Inr: "map_r f xs = Inr ys \<longleftrightarrow> list_all2 (\<lambda>x y. f x = Inr y) xs ys"
  by (induction xs arbitrary: ys) (auto simp: bind_r_Inr list_all2_Cons1)

lemma fold_r_append: "fold_r f (xs @ ys) s = bind_r (fold_r f xs s) (fold_r f ys)"
  by (induction xs arbitrary: s) (auto simp: bind_r_assoc cong: bind_r_cong)

lemma fold_r_invariant:
  assumes "fold_r f xs s = Inr s'" and "P s"
    and "\<And>x s s'. x \<in> set xs \<Longrightarrow> f x s = Inr s' \<Longrightarrow> P s \<Longrightarrow> P s'"
  shows "P s'"
  using assms
proof (induction xs arbitrary: s)
  case (Cons x xs)
  then obtain t where t: "f x s = Inr t" "fold_r f xs t = Inr s'" by (auto simp: bind_r_Inr)
  have "P t" using Cons.prems(3) [OF _ t(1)] Cons.prems(2) by simp
  with t(2) show ?case using Cons.IH Cons.prems(3) by (metis list.set_intros(2))
qed simp

lemma fold_r_raises:
  "fold_r f xs s = Inl e \<Longrightarrow>
     \<exists>ys x zs t. xs = ys @ x # zs \<and> fold_r f ys s = Inr t \<and> f x t = Inl e"
proof (induction xs arbitrary: s)
  case (Cons x xs)
  show ?case
  proof (cases "f x s")
    case (Inl e')
    with Cons.prems have "x # xs = [] @ x # xs \<and> fold_r f [] s = Inr s \<and> f x s = Inl e" by simp
    then show ?thesis by blast
  next
    case (Inr t)
    with Cons.prems obtain ys y zs u where "xs = ys @ y # zs" "fold_r f ys t = Inr u" "f y u = Inl e"
      using Cons.IH [of t] by auto
    with Inr have "x # xs = (x # ys) @ y # zs \<and> fold_r f (x # ys) s = Inr u \<and> f y u = Inl e" by simp
    then show ?thesis by blast
  qed
qed simp

section \<open>Rows\<close>

text \<open>\<open>upd p f rows\<close>: the rows that satisfy \<open>p\<close> replaced by \<open>f\<close> of them, the others kept.\<close>

definition upd :: "('r \<Rightarrow> bool) \<Rightarrow> ('r \<Rightarrow> 'r) \<Rightarrow> 'r list \<Rightarrow> 'r list" where
  "upd p f rows = map (\<lambda>r. if p r then f r else r) rows"

lemma upd_simps [simp]:
  "upd p f [] = []"
  "upd p f (r # rs) = (if p r then f r else r) # upd p f rs"
  by (simp_all add: upd_def)

lemma length_upd [simp]: "length (upd p f rows) = length rows"
  by (simp add: upd_def)

lemma upd_append [simp]: "upd p f (xs @ ys) = upd p f xs @ upd p f ys"
  by (simp add: upd_def)

lemma upd_none: "\<forall>r \<in> set rows. \<not> p r \<Longrightarrow> upd p f rows = rows"
  by (induction rows) auto

lemma set_upd: "set (upd p f rows) = {if p r then f r else r | r. r \<in> set rows}"
  by (auto simp: upd_def)

lemma map_upd: "(\<And>r. p r \<Longrightarrow> g (f r) = g r) \<Longrightarrow> map g (upd p f rows) = map g rows"
  by (induction rows) auto

lemma filter_upd_stable:
  "(\<And>r. p r \<Longrightarrow> q (f r) = q r) \<Longrightarrow> filter q (upd p f rows) = upd p f (filter q rows)"
  by (induction rows) auto

lemma filter_upd_disjoint:
  assumes "\<And>r. p r \<Longrightarrow> \<not> q r" "\<And>r. p r \<Longrightarrow> \<not> q (f r)"
  shows "filter q (upd p f rows) = filter q rows"
  using assms by (induction rows) auto

text \<open>Sums over the rows that satisfy a predicate: \<open>SELECT sum(g) FROM rows WHERE p\<close>.\<close>

definition sum_where :: "('r \<Rightarrow> int) \<Rightarrow> ('r \<Rightarrow> bool) \<Rightarrow> 'r list \<Rightarrow> int" where
  "sum_where g p rows = sum_list (map g (filter p rows))"

lemma sum_where_simps [simp]:
  "sum_where g p [] = 0"
  "sum_where g p (r # rs) = (if p r then g r else 0) + sum_where g p rs"
  "sum_where g p (xs @ ys) = sum_where g p xs + sum_where g p ys"
  by (simp_all add: sum_where_def)

lemma sum_where_nonneg: "\<forall>r \<in> set rows. p r \<longrightarrow> 0 \<le> g r \<Longrightarrow> 0 \<le> sum_where g p rows"
  by (induction rows) auto

lemma sum_where_mono:
  "\<forall>r \<in> set rows. p r \<longrightarrow> 0 \<le> g r \<Longrightarrow> (\<And>r. q r \<Longrightarrow> p r) \<Longrightarrow>
     sum_where g q rows \<le> sum_where g p rows"
  by (induction rows) auto

lemma sum_where_cong:
  "(\<And>r. r \<in> set rows \<Longrightarrow> p r = q r) \<Longrightarrow> sum_where g p rows = sum_where g q rows"
  unfolding sum_where_def by (metis (mono_tags, lifting) filter_cong)

lemma sum_where_split:
  "sum_where g p rows = sum_where g (\<lambda>r. p r \<and> q r) rows + sum_where g (\<lambda>r. p r \<and> \<not> q r) rows"
  by (induction rows) auto

lemma sum_where_none: "\<forall>r \<in> set rows. \<not> p r \<Longrightarrow> sum_where g p rows = 0"
  by (induction rows) auto

lemma sum_where_member:
  "r \<in> set rows \<Longrightarrow> p r \<Longrightarrow> \<forall>x \<in> set rows. p x \<longrightarrow> 0 \<le> g x \<Longrightarrow> g r \<le> sum_where g p rows"
proof (induction rows)
  case (Cons x xs)
  then show ?case
    using sum_where_nonneg [of xs p g] by (cases "r = x") (force simp: add_increasing add_increasing2)+
qed simp

text \<open>A sum does not depend on the order of the rows.\<close>

lemma sum_where_mset:
  assumes "mset xs = mset ys"
  shows "sum_where g p xs = sum_where g p ys"
proof -
  have "sum_where g p zs = sum_mset (image_mset g (filter_mset p (mset zs)))" for zs
    by (induction zs) auto
  then show ?thesis by (simp only: assms)
qed

lemma sum_where_upd_frame:
  "(\<And>r. p r \<Longrightarrow> q (f r) = q r) \<Longrightarrow> (\<And>r. p r \<Longrightarrow> g (f r) = g r) \<Longrightarrow>
     sum_where g q (upd p f rows) = sum_where g q rows"
  by (induction rows) auto

text \<open>Where exactly one row can match, an update that adds \<open>d\<close> to it adds \<open>d\<close> to the sum.\<close>

lemma sum_where_upd_one:
  assumes "distinct (map k rows)" and "r \<in> set rows" and "p r"
    and "\<And>x. p x \<Longrightarrow> k x = k r"
    and "\<And>x. p x \<Longrightarrow> g (f x) = g x + d"
    and "\<And>x. p x \<Longrightarrow> q x" and "\<And>x. p x \<Longrightarrow> q (f x)"
  shows "sum_where g q (upd p f rows) = sum_where g q rows + d"
  using assms(1,2)
proof (induction rows)
  case (Cons x xs)
  show ?case
  proof (cases "p x")
    case True
    have "\<not> p y" if "y \<in> set xs" for y
      using that Cons.prems(1) assms(4) [OF True] assms(4) [of y] by (auto simp: rev_image_eqI)
    then have "upd p f xs = xs" by (simp add: upd_none)
    with True show ?thesis using assms(5-7) by simp
  next
    case False
    with Cons assms(3) show ?thesis by auto
  qed
qed simp

text \<open>\<open>find\<close> as a query by unique key.\<close>

lemma find_SomeD: "List.find p xs = Some x \<Longrightarrow> x \<in> set xs \<and> p x"
  by (auto simp: find_Some_iff)

lemma find_None_iff': "List.find p xs = None \<longleftrightarrow> (\<forall>x \<in> set xs. \<not> p x)"
  by (auto simp: find_None_iff)

lemma find_append [simp]:
  "List.find p (xs @ ys) = (case List.find p xs of Some x \<Rightarrow> Some x | None \<Rightarrow> List.find p ys)"
  by (induction xs) auto

lemma find_upd:
  "(\<And>r. p r \<Longrightarrow> q (f r) = q r) \<Longrightarrow>
     List.find q (upd p f rows) = map_option (\<lambda>r. if p r then f r else r) (List.find q rows)"
  by (induction rows) auto

lemma find_distinct:
  "distinct (map k rows) \<Longrightarrow> r \<in> set rows \<Longrightarrow> List.find (\<lambda>x. k x = k r) rows = Some r"
  by (induction rows) (auto simp: rev_image_eqI)

lemma distinct_key_unique:
  "distinct (map k rows) \<Longrightarrow> a \<in> set rows \<Longrightarrow> b \<in> set rows \<Longrightarrow> k a = k b \<Longrightarrow> a = b"
  by (simp add: distinct_map inj_on_def)

section \<open>Transactions and races\<close>

text \<open>
  \<^verbatim>\<open>async with session.begin(): ...\<close>: the block's effect is committed when it returns and
  rolled back when it raises.
\<close>

definition in_transaction :: "('s \<Rightarrow> 'e + ('a \<times> 's)) \<Rightarrow> 's \<Rightarrow> ('e + 'a) \<times> 's" where
  "in_transaction f s = (case f s of Inl e \<Rightarrow> (Inl e, s) | Inr (x, s') \<Rightarrow> (Inr x, s'))"

definition no_result :: "('s \<Rightarrow> 'e + 's) \<Rightarrow> 's \<Rightarrow> 'e + (unit \<times> 's)" where
  "no_result f s = bind_r (f s) (\<lambda>s'. Inr ((), s'))"

lemma in_transaction_cases:
  "in_transaction f s = (r, s') \<Longrightarrow>
     (\<exists>e. r = Inl e \<and> f s = Inl e \<and> s' = s) \<or> (\<exists>x. r = Inr x \<and> f s = Inr (x, s'))"
  by (auto simp: in_transaction_def split: sum.splits)

text \<open>
  Contenders for one prize: each makes its own attempt, and between two attempts the environment
  makes a step. \<open>wins\<close> counts the attempts that succeed.
\<close>

fun wins :: "('x \<Rightarrow> 's \<Rightarrow> 's option) \<Rightarrow> ('x \<times> ('s \<Rightarrow> 's)) list \<Rightarrow> 's \<Rightarrow> nat" where
  "wins attempt [] s = 0"
| "wins attempt ((x, e) # es) s =
     (case attempt x s of None \<Rightarrow> wins attempt es (e s) | Some s' \<Rightarrow> Suc (wins attempt es (e s')))"

locale contended =
  fixes attempt :: "'x \<Rightarrow> 's \<Rightarrow> 's option"
    and lost :: "'s \<Rightarrow> bool"
  assumes lost_fails: "lost s \<Longrightarrow> attempt x s = None"
    and winner_takes_all: "attempt x s = Some s' \<Longrightarrow> lost s'"
begin

definition harmless :: "('s \<Rightarrow> 's) \<Rightarrow> bool" where
  "harmless e \<longleftrightarrow> (\<forall>s. lost s \<longrightarrow> lost (e s))"

lemma lost_wins_nothing: "lost s \<Longrightarrow> \<forall>c \<in> set cs. harmless (snd c) \<Longrightarrow> wins attempt cs s = 0"
  by (induction cs arbitrary: s) (auto simp: lost_fails harmless_def)

lemma at_most_one_wins: "\<forall>c \<in> set cs. harmless (snd c) \<Longrightarrow> wins attempt cs s \<le> 1"
proof (induction cs arbitrary: s)
  case (Cons c cs)
  obtain x e where c: "c = (x, e)" by fastforce
  show ?case
  proof (cases "attempt x s")
    case None
    with Cons c show ?thesis by simp
  next
    case (Some s')
    have "lost (e s')" using Cons.prems winner_takes_all [OF Some] by (simp add: c harmless_def)
    with Some Cons.prems show ?thesis by (simp add: c lost_wins_nothing)
  qed
qed simp

text \<open>Where the first contender can win, exactly one does.\<close>

lemma exactly_one_wins:
  assumes "attempt x s = Some s'" and "harmless e" and "\<forall>c \<in> set cs. harmless (snd c)"
  shows "wins attempt ((x, e) # cs) s = 1"
  using lost_wins_nothing [OF _ assms(3), of "e s'"] winner_takes_all [OF assms(1)] assms(1,2)
  by (simp add: harmless_def)

end

end
