(* ===== verification/Domain.thy ===== *)
theory Domain
  imports Prelude Complex_Main
begin

text \<open>
  \<^verbatim>\<open>app/domain\<close>: the shared vocabulary (\<^verbatim>\<open>enums.py\<close>), the value objects
  (\<^verbatim>\<open>address.py\<close>, \<^verbatim>\<open>geo.py\<close>, \<^verbatim>\<open>selection.py\<close>, \<^verbatim>\<open>reservation.py\<close>,
  \<^verbatim>\<open>payment.py\<close>), the exceptions (\<^verbatim>\<open>errors.py\<close>) and the order state machine
  (\<^verbatim>\<open>order_state.py\<close>), with \<^verbatim>\<open>app/db/geo.py\<close> and the wire form of an order that
  \<^verbatim>\<open>app/schemas/order.py\<close> gives the responses.

  A UUID is its 128-bit integer, which is the order Python and PostgreSQL compare it by.
  Text a client sends is the list of its code points (\<open>ustr\<close>); identifiers, header values
  and the program's own messages are \<open>string\<close>. A coordinate or a distance is the rational a
  finite double denotes. A timestamp is a number of microseconds.
\<close>

type_synonym uuid = nat
type_synonym ustr = "nat list"
type_synonym timestamp = int
type_synonym wkb_point = "rat \<times> rat"

definition ustr :: "string \<Rightarrow> ustr" where
  "ustr s = map of_char s"

section \<open>Enums\<close>

datatype order_status = Pending | Reserved | Paid | Confirmed | Payment_failed | Cancelled

datatype payment_status = Payment_pending | Payment_succeeded | Payment_failed_status

datatype reservation_status = Active | Committed | Released | Expired

datatype idempotency_status = In_progress | Completed | Failed

datatype payment_outcome = Outcome_succeeded | Outcome_declined | Outcome_unknown

text \<open>\<^verbatim>\<open>OrderStatus.x.value\<close>\<close>

fun order_status_value :: "order_status \<Rightarrow> string" where
  "order_status_value Pending = ''pending''"
| "order_status_value Reserved = ''reserved''"
| "order_status_value Paid = ''paid''"
| "order_status_value Confirmed = ''confirmed''"
| "order_status_value Payment_failed = ''payment_failed''"
| "order_status_value Cancelled = ''cancelled''"

lemma order_status_value_inj: "order_status_value a = order_status_value b \<Longrightarrow> a = b"
  by (cases a; cases b) auto

section \<open>Value objects\<close>

record postal_address =
  line1 :: ustr
  city :: ustr
  postal_code :: ustr
  country_code :: ustr
  line2 :: "ustr option"

record coordinates =
  lat :: rat
  lon :: rat

record requested_item =
  product_id :: uuid
  quantity :: int

record warehouse_candidate =
  cand_id :: uuid
  cand_code :: string
  cand_name :: string
  distance_m :: rat

record reserved_item =
  res_product_id :: uuid
  res_quantity :: int

record reservation_result =
  res_warehouse_id :: uuid
  res_items :: "reserved_item list"

record released_item =
  rel_warehouse_id :: uuid
  rel_product_id :: uuid
  rel_quantity :: int

record payment_result =
  outcome :: payment_outcome
  reference :: "string option"
  failure_reason :: "string option"
  card_brand :: "string option"
  card_last4 :: "ustr option"

section \<open>The wire form of an order\<close>

record warehouse_out =
  wo_id :: uuid
  wo_code :: string
  wo_name :: string

record order_item_out =
  io_product_id :: uuid
  io_product_sku :: string
  io_product_name :: string
  io_quantity :: int
  io_unit_price_minor :: int
  io_currency :: string
  io_line_total_minor :: int

record order_response =
  resp_id :: uuid
  resp_status :: order_status
  resp_warehouse :: "warehouse_out option"
  resp_items :: "order_item_out list"
  resp_total_minor :: int
  resp_currency :: string
  resp_payment_reference :: "string option"
  resp_created_at :: timestamp

section \<open>Exceptions\<close>

text \<open>
  The subclasses of \<^verbatim>\<open>DomainError\<close> with the arguments they carry, and beside them what
  else the modelled code can raise: \<^verbatim>\<open>ReplayedResponse\<close> (a completed key's stored
  response, \<open>None\<close> for the empty object), the built-in exceptions, and the database's
  \<^verbatim>\<open>IntegrityError\<close> (a named constraint) and \<^verbatim>\<open>DataError\<close> (a value its column type
  cannot hold).
\<close>

datatype domain_error =
    GeocodingFailed string
  | UnknownProduct "uuid set"
  | NoEligibleWarehouse nat nat
  | InsufficientStock uuid int
  | InvalidStateTransition uuid string string
  | MixedCurrencyBasket "string set"
  | IdempotencyKeyRequired
  | IdempotencyKeyReuse string
  | IdempotencyInProgress string
  | PaymentDeclined string
  | PaymentUnresolved string

datatype exc =
    DomainError domain_error
  | ReplayedResponse "order_response option" int
  | IntegrityError string
  | DataError string
  | RuntimeError string
  | LookupError string
  | KeyError uuid
  | ValueError string

text \<open>The constructors that validate (\<^verbatim>\<open>__post_init__\<close>) and \<^verbatim>\<open>to_point\<close>.\<close>

definition mk_coordinates :: "rat \<Rightarrow> rat \<Rightarrow> exc + coordinates" where
  "mk_coordinates la lo =
     (if \<not> (-90 \<le> la \<and> la \<le> 90) then Inl (ValueError ''latitude out of range'')
      else if \<not> (-180 \<le> lo \<and> lo \<le> 180) then Inl (ValueError ''longitude out of range'')
      else Inr \<lparr>lat = la, lon = lo\<rparr>)"

definition mk_requested_item :: "uuid \<Rightarrow> int \<Rightarrow> exc + requested_item" where
  "mk_requested_item pid q =
     (if q \<le> 0 then Inl (ValueError ''quantity must be positive'')
      else Inr \<lparr>product_id = pid, quantity = q\<rparr>)"

definition to_point :: "rat \<Rightarrow> rat \<Rightarrow> exc + wkb_point" where
  "to_point lo la =
     (if \<not> (-180 \<le> lo \<and> lo \<le> 180) then Inl (ValueError ''longitude out of range'')
      else if \<not> (-90 \<le> la \<and> la \<le> 90) then Inl (ValueError ''latitude out of range'')
      else Inr (lo, la))"

lemma to_point_of_coordinates:
  "mk_coordinates la lo = Inr c \<Longrightarrow> to_point (lon c) (lat c) = Inr (lo, la)"
  by (auto simp: mk_coordinates_def to_point_def split: if_splits)

section \<open>The order state machine\<close>

definition ALLOWED :: "(order_status \<times> order_status) list" where
  "ALLOWED =
     [(Pending, Reserved),
      (Pending, Cancelled),
      (Reserved, Paid),
      (Reserved, Payment_failed),
      (Reserved, Cancelled),
      (Paid, Confirmed)]"

definition TERMINAL :: "order_status set" where
  "TERMINAL = {Confirmed, Payment_failed, Cancelled}"

definition is_allowed :: "order_status \<Rightarrow> order_status \<Rightarrow> bool" where
  "is_allowed frm to \<longleftrightarrow> (frm, to) \<in> set ALLOWED"

definition allowed_from :: "order_status \<Rightarrow> order_status set" where
  "allowed_from frm = set (map snd (filter (\<lambda>e. fst e = frm) ALLOWED))"

lemma is_allowed_simps [simp]:
  "is_allowed Pending to \<longleftrightarrow> to = Reserved \<or> to = Cancelled"
  "is_allowed Reserved to \<longleftrightarrow> to = Paid \<or> to = Payment_failed \<or> to = Cancelled"
  "is_allowed Paid to \<longleftrightarrow> to = Confirmed"
  "\<not> is_allowed Confirmed to"
  "\<not> is_allowed Payment_failed to"
  "\<not> is_allowed Cancelled to"
  by (auto simp: is_allowed_def ALLOWED_def)

lemma is_allowed_irrefl: "\<not> is_allowed s s"
  by (cases s) auto

lemma allowed_from_iff: "to \<in> allowed_from frm \<longleftrightarrow> is_allowed frm to"
  by (force simp: allowed_from_def is_allowed_def)

text \<open>How far a status is from the start: every legal change moves one step further.\<close>

fun stage :: "order_status \<Rightarrow> nat" where
  "stage Pending = 0"
| "stage Reserved = 1"
| "stage Paid = 2"
| "stage Confirmed = 3"
| "stage Payment_failed = 3"
| "stage Cancelled = 3"

lemma is_allowed_stage: "is_allowed a b \<Longrightarrow> stage a < stage b"
  by (cases a; cases b) auto

lemma stage_le: "stage s \<le> 3"
  by (cases s) auto

text \<open>A run of the machine: consecutive statuses joined by legal edges.\<close>

fun status_run :: "order_status list \<Rightarrow> bool" where
  "status_run [] \<longleftrightarrow> True"
| "status_run [s] \<longleftrightarrow> True"
| "status_run (s # t # ss) \<longleftrightarrow> is_allowed s t \<and> status_run (t # ss)"

lemma status_run_stages: "status_run (s # ss) \<Longrightarrow> length ss + stage s \<le> 3"
proof (induction ss arbitrary: s)
  case (Cons t ss)
  then show ?case using is_allowed_stage [of s t] by fastforce
qed (simp add: stage_le)

lemma status_run_snoc: "status_run (ss @ [s]) \<Longrightarrow> is_allowed s t \<Longrightarrow> status_run (ss @ [s, t])"
  by (induction ss rule: status_run.induct) auto

end
