(* ===== verification/Sql.thy ===== *)
theory Sql
  imports Domain
begin

text \<open>
  The statements the repositories issue, on a table that is a list of rows in insertion order.
  A table's declaration is a \<open>table_spec\<close>: what its column types can hold, its CHECK
  constraints, its unique constraints and unique indexes (a conflict between two rows) and its
  foreign keys. PostgreSQL tests every row a statement writes against all of them and refuses
  the statement otherwise; the caller's transaction then rolls back, which is \<open>Inl\<close>.
\<close>

record 'r table_spec =
  col_types :: "(string \<times> ('r \<Rightarrow> bool)) list"
  checks :: "(string \<times> ('r \<Rightarrow> bool)) list"
  uniques :: "(string \<times> ('r \<Rightarrow> 'r \<Rightarrow> bool)) list"
  fkeys :: "(string \<times> ('r \<Rightarrow> bool)) list"

text \<open>The ranges of \<^verbatim>\<open>Integer\<close> and \<^verbatim>\<open>BigInteger\<close>, and what \<^verbatim>\<open>text\<close> cannot hold.\<close>

definition fits_int4 :: "int \<Rightarrow> bool" where
  "fits_int4 n \<longleftrightarrow> -(2 ^ 31) \<le> n \<and> n < 2 ^ 31"

definition fits_int8 :: "int \<Rightarrow> bool" where
  "fits_int8 n \<longleftrightarrow> -(2 ^ 63) \<le> n \<and> n < 2 ^ 63"

definition fits_text :: "ustr \<Rightarrow> bool" where
  "fits_text s \<longleftrightarrow> 0 \<notin> set s"

definition violated :: "(string \<times> ('r \<Rightarrow> bool)) list \<Rightarrow> 'r \<Rightarrow> string option" where
  "violated cs r = map_option fst (List.find (\<lambda>c. \<not> snd c r) cs)"

definition conflict :: "(string \<times> ('r \<Rightarrow> 'r \<Rightarrow> bool)) list \<Rightarrow> 'r \<Rightarrow> 'r list \<Rightarrow> string option" where
  "conflict us r rows = map_option fst (List.find (\<lambda>u. list_ex (snd u r) rows) us)"

fun first_dup :: "(string \<times> ('r \<Rightarrow> 'r \<Rightarrow> bool)) list \<Rightarrow> 'r list \<Rightarrow> string option" where
  "first_dup us [] = None"
| "first_dup us (r # rs) =
     (case conflict us r rs of Some n \<Rightarrow> Some n | None \<Rightarrow> first_dup us rs)"

text \<open>The tests on one written row: column types, CHECKs, foreign keys.\<close>

definition check_row :: "'r table_spec \<Rightarrow> 'r \<Rightarrow> exc option" where
  "check_row sp r =
     (case violated (col_types sp) r of Some n \<Rightarrow> Some (DataError n) | None \<Rightarrow>
      case violated (checks sp) r of Some n \<Rightarrow> Some (IntegrityError n) | None \<Rightarrow>
      case violated (fkeys sp) r of Some n \<Rightarrow> Some (IntegrityError n) | None \<Rightarrow> None)"

fun check_rows :: "'r table_spec \<Rightarrow> 'r list \<Rightarrow> exc option" where
  "check_rows sp [] = None"
| "check_rows sp (r # rs) = (case check_row sp r of Some e \<Rightarrow> Some e | None \<Rightarrow> check_rows sp rs)"

text \<open>\<^verbatim>\<open>INSERT\<close>\<close>

definition insert_row :: "'r table_spec \<Rightarrow> 'r \<Rightarrow> 'r list \<Rightarrow> exc + 'r list" where
  "insert_row sp r rows =
     (case check_row sp r of Some e \<Rightarrow> Inl e | None \<Rightarrow>
      case conflict (uniques sp) r rows of Some n \<Rightarrow> Inl (IntegrityError n) | None \<Rightarrow>
        Inr (rows @ [r]))"

text \<open>\<^verbatim>\<open>UPDATE ... SET f WHERE p RETURNING *\<close>: the returned rows and the new table.\<close>

definition update_rows ::
  "'r table_spec \<Rightarrow> ('r \<Rightarrow> bool) \<Rightarrow> ('r \<Rightarrow> 'r) \<Rightarrow> 'r list \<Rightarrow> exc + ('r list \<times> 'r list)" where
  "update_rows sp p f rows =
     (let ret = map f (filter p rows) in
      case check_rows sp ret of Some e \<Rightarrow> Inl e | None \<Rightarrow>
      case (if ret = [] then None else first_dup (uniques sp) (upd p f rows)) of
        Some n \<Rightarrow> Inl (IntegrityError n)
      | None \<Rightarrow> Inr (ret, upd p f rows))"

section \<open>What the statements keep\<close>

definition row_ok :: "'r table_spec \<Rightarrow> 'r \<Rightarrow> bool" where
  "row_ok sp r \<longleftrightarrow> list_all (\<lambda>c. snd c r) (col_types sp @ checks sp @ fkeys sp)"

definition conflict_free :: "(string \<times> ('r \<Rightarrow> 'r \<Rightarrow> bool)) list \<Rightarrow> 'r list \<Rightarrow> bool" where
  "conflict_free us rows \<longleftrightarrow> sorted_wrt (\<lambda>a b. list_all (\<lambda>u. \<not> snd u a b) us) rows"

definition table_ok :: "'r table_spec \<Rightarrow> 'r list \<Rightarrow> bool" where
  "table_ok sp rows \<longleftrightarrow> list_all (row_ok sp) rows \<and> conflict_free (uniques sp) rows"

lemma violated_None: "violated cs r = None \<longleftrightarrow> list_all (\<lambda>c. snd c r) cs"
  unfolding violated_def by (induction cs) auto

lemma check_row_None: "check_row sp r = None \<longleftrightarrow> row_ok sp r"
  by (auto simp: check_row_def row_ok_def violated_None option.case_eq_if split: option.splits)

lemma check_rows_None: "check_rows sp rs = None \<longleftrightarrow> list_all (row_ok sp) rs"
  by (induction rs) (auto simp: check_row_None [symmetric] split: option.splits)

lemma conflict_None:
  "conflict us r rows = None \<longleftrightarrow> (\<forall>x \<in> set rows. list_all (\<lambda>u. \<not> snd u r x) us)"
  unfolding conflict_def by (induction us) (auto simp: list_ex_iff list_all_iff)

lemma first_dup_None: "first_dup us rows = None \<longleftrightarrow> conflict_free us rows"
proof (induction rows)
  case (Cons r rows)
  then show ?case
    using conflict_None [of us r rows]
    by (cases "conflict us r rows") (auto simp: conflict_free_def)
qed (simp add: conflict_free_def)

lemma insert_row_Inr:
  "insert_row sp r rows = Inr rows' \<longleftrightarrow>
     row_ok sp r \<and> conflict (uniques sp) r rows = None \<and> rows' = rows @ [r]"
  by (auto simp: insert_row_def check_row_None [symmetric] split: option.splits)

lemma update_rows_Inr:
  "update_rows sp p f rows = Inr (ret, rows') \<longleftrightarrow>
     ret = map f (filter p rows) \<and> rows' = upd p f rows \<and> list_all (row_ok sp) ret \<and>
     (ret = [] \<or> conflict_free (uniques sp) rows')"
  by (auto simp: update_rows_def Let_def check_rows_None first_dup_None [symmetric]
           simp del: list.map_disc_iff split: option.splits if_splits)
     (auto simp: check_rows_None [symmetric])

text \<open>What the database raises is its own: never an error of the domain.\<close>

lemma check_row_no_domain: "check_row sp r = Some e \<Longrightarrow> e \<noteq> DomainError x"
  by (auto simp: check_row_def split: option.splits)

lemma check_rows_no_domain: "check_rows sp rs = Some e \<Longrightarrow> e \<noteq> DomainError x"
  by (induction rs) (auto split: option.splits dest: check_row_no_domain)

lemma insert_row_no_domain [simp]: "insert_row sp r rows \<noteq> Inl (DomainError x)"
  by (auto simp: insert_row_def dest: check_row_no_domain split: option.splits)

lemma update_rows_no_domain [simp]: "update_rows sp p f rows \<noteq> Inl (DomainError x)"
  by (auto simp: update_rows_def Let_def dest: check_rows_no_domain split: option.splits)

lemma insert_row_succeeds:
  "row_ok sp r \<Longrightarrow> conflict (uniques sp) r rows = None \<Longrightarrow> insert_row sp r rows = Inr (rows @ [r])"
  by (simp add: insert_row_Inr)

lemma conflict_free_append:
  "conflict_free us (rows @ [r]) \<longleftrightarrow>
     conflict_free us rows \<and> (\<forall>x \<in> set rows. list_all (\<lambda>u. \<not> snd u x r) us)"
  by (auto simp: conflict_free_def sorted_wrt_append)

text \<open>A unique constraint is a symmetric conflict, so the order of the two rows is no matter.\<close>

definition sym_uniques :: "(string \<times> ('r \<Rightarrow> 'r \<Rightarrow> bool)) list \<Rightarrow> bool" where
  "sym_uniques us \<longleftrightarrow> (\<forall>u \<in> set us. \<forall>a b. snd u a b = snd u b a)"

lemma insert_row_table_ok:
  "sym_uniques (uniques sp) \<Longrightarrow> insert_row sp r rows = Inr rows' \<Longrightarrow> table_ok sp rows \<Longrightarrow>
     table_ok sp rows'"
  by (auto simp: insert_row_Inr table_ok_def conflict_free_append conflict_None list_all_iff
      sym_uniques_def)

lemma update_rows_table_ok:
  "update_rows sp p f rows = Inr (ret, rows') \<Longrightarrow> table_ok sp rows \<Longrightarrow> table_ok sp rows'"
  by (auto simp: update_rows_Inr table_ok_def list_all_iff set_upd upd_none filter_empty_conv)

text \<open>
  An update that changes no column of a unique constraint cannot violate one, so it succeeds
  exactly when the written rows pass their own tests.
\<close>

lemma conflict_free_upd:
  assumes "conflict_free us rows"
    and "\<And>u a b. u \<in> set us \<Longrightarrow>
      snd u (if p a then f a else a) (if p b then f b else b) \<Longrightarrow> snd u a b"
  shows "conflict_free us (upd p f rows)"
  using assms(1) assms(2)
  unfolding conflict_free_def upd_def sorted_wrt_map list_all_iff
  by (elim sorted_wrt_mono_rel [rotated]) blast

lemma update_rows_succeeds:
  assumes "table_ok sp rows"
    and "\<And>r. r \<in> set rows \<Longrightarrow> p r \<Longrightarrow> row_ok sp (f r)"
    and "\<And>u a b. u \<in> set (uniques sp) \<Longrightarrow>
      snd u (if p a then f a else a) (if p b then f b else b) \<Longrightarrow> snd u a b"
  shows "update_rows sp p f rows = Inr (map f (filter p rows), upd p f rows)"
proof -
  have "conflict_free (uniques sp) (upd p f rows)"
    using assms(1,3) unfolding table_ok_def by (blast intro: conflict_free_upd)
  with assms(2) show ?thesis by (simp add: update_rows_Inr list_all_iff)
qed

text \<open>A unique constraint on one key column (or tuple) makes the keys distinct.\<close>

lemma conflict_free_distinct:
  assumes "conflict_free us rows" and "(n, \<lambda>a b. k a = k b) \<in> set us"
  shows "distinct (map k rows)"
proof -
  have "sorted_wrt (\<lambda>a b. k a \<noteq> k b) rows"
    using assms unfolding conflict_free_def
    by (elim sorted_wrt_mono_rel [rotated]) (auto simp: list_all_iff)
  then show ?thesis by (induction rows) auto
qed

lemma table_ok_distinct:
  "table_ok sp rows \<Longrightarrow> (n, \<lambda>a b. k a = k b) \<in> set (uniques sp) \<Longrightarrow> distinct (map k rows)"
  unfolding table_ok_def by (blast intro: conflict_free_distinct)

end
