(* ===== verification/Schema.thy ===== *)
theory Schema
  imports Sql
begin

text \<open>
  \<^verbatim>\<open>app/models\<close> and \<^verbatim>\<open>migrations/versions\<close>: one record per table with its columns, and
  one \<open>table_spec\<close> per table with its \<^verbatim>\<open>__table_args__\<close>, its column types and its foreign
  keys. \<open>db\<close> is the database a transaction sees; \<open>db_now\<close> is \<^verbatim>\<open>now()\<close> in it, and
  \<open>gen_random_uuid\<close> draws the next value of an arbitrary sequence (a repeated value is a
  primary-key violation, not an assumption).
\<close>

section \<open>Rows\<close>

record customer_row =
  cu_id :: uuid
  cu_email :: string
  cu_full_name :: string
  cu_created_at :: timestamp
  cu_updated_at :: timestamp

record product_row =
  pr_id :: uuid
  pr_sku :: string
  pr_name :: string
  pr_unit_price_minor :: int
  pr_currency :: string
  pr_is_active :: bool
  pr_created_at :: timestamp
  pr_updated_at :: timestamp

record warehouse_row =
  wh_id :: uuid
  wh_code :: string
  wh_name :: string
  wh_location :: wkb_point
  wh_is_active :: bool
  wh_created_at :: timestamp
  wh_updated_at :: timestamp

record address_row =
  ad_id :: uuid
  ad_customer_id :: uuid
  ad_line1 :: ustr
  ad_line2 :: "ustr option"
  ad_city :: ustr
  ad_postal_code :: ustr
  ad_country_code :: ustr
  ad_point :: "wkb_point option"
  ad_created_at :: timestamp
  ad_updated_at :: timestamp

record inventory_row =
  inv_id :: uuid
  inv_warehouse_id :: uuid
  inv_product_id :: uuid
  on_hand :: int
  reserved :: int
  inv_updated_at :: timestamp

record order_row =
  o_id :: uuid
  o_customer_id :: uuid
  o_status :: order_status
  o_warehouse_id :: "uuid option"
  o_currency :: string
  o_total_minor :: int
  shipping_line1 :: ustr
  shipping_line2 :: "ustr option"
  shipping_city :: ustr
  shipping_postal_code :: ustr
  shipping_country_code :: ustr
  o_shipping_point :: "wkb_point option"
  o_created_at :: timestamp
  o_updated_at :: timestamp

record order_item_row =
  oi_id :: uuid
  oi_order_id :: uuid
  oi_product_id :: uuid
  oi_product_sku :: string
  oi_product_name :: string
  oi_unit_price_minor :: int
  oi_currency :: string
  oi_quantity :: int
  oi_created_at :: timestamp

text \<open>The generated column: \<^verbatim>\<open>Computed("quantity * unit_price_minor", persisted=True)\<close>.\<close>

definition line_total_minor :: "order_item_row \<Rightarrow> int" where
  "line_total_minor r = oi_quantity r * oi_unit_price_minor r"

record history_row =
  h_id :: uuid
  h_order_id :: uuid
  from_status :: "order_status option"
  to_status :: order_status
  reason :: "string option"
  occurred_at :: timestamp

record payment_row =
  pay_id :: uuid
  pay_order_id :: uuid
  pay_status :: payment_status
  amount_minor :: int
  pay_currency :: string
  description :: string
  pay_card_brand :: "string option"
  pay_card_last4 :: "ustr option"
  provider :: string
  provider_reference :: "string option"
  pay_failure_reason :: "string option"
  pay_created_at :: timestamp
  pay_updated_at :: timestamp

record reservation_row =
  sr_id :: uuid
  sr_order_id :: uuid
  sr_warehouse_id :: uuid
  sr_product_id :: uuid
  sr_quantity :: int
  sr_status :: reservation_status
  expires_at :: timestamp
  released_at :: "timestamp option"
  sr_created_at :: timestamp

record idempotency_row =
  ik_id :: uuid
  ik_key :: string
  ik_request_hash :: string
  ik_status :: idempotency_status
  ik_response_body :: "order_response option"
  ik_response_status :: "int option"
  ik_order_id :: "uuid option"
  ik_created_at :: timestamp
  ik_updated_at :: timestamp

text \<open>The outbox payload of an \<^verbatim>\<open>order_confirmed\<close> event.\<close>

record event_payload =
  ep_order_id :: uuid
  ep_customer_id :: uuid
  ep_warehouse_id :: "uuid option"
  ep_total_minor :: int
  ep_currency :: string
  ep_payment_reference :: "string option"

record outbox_row =
  ob_id :: uuid
  event_type :: string
  aggregate_type :: string
  aggregate_id :: uuid
  payload :: event_payload
  attempts :: int
  ob_created_at :: timestamp
  processed_at :: "timestamp option"

record db =
  customers :: "customer_row list"
  products :: "product_row list"
  warehouses :: "warehouse_row list"
  addresses :: "address_row list"
  inventory :: "inventory_row list"
  orders :: "order_row list"
  order_items :: "order_item_row list"
  order_status_history :: "history_row list"
  payments :: "payment_row list"
  stock_reservations :: "reservation_row list"
  idempotency_keys :: "idempotency_row list"
  outbox :: "outbox_row list"
  db_now :: timestamp
  uuid_seq :: "nat \<Rightarrow> uuid"
  uuid_pos :: nat

definition gen_random_uuid :: "db \<Rightarrow> uuid \<times> db" where
  "gen_random_uuid d = (uuid_seq d (uuid_pos d), d\<lparr>uuid_pos := Suc (uuid_pos d)\<rparr>)"

section \<open>Formats of the CHECK constraints\<close>

definition upper_ascii :: "nat \<Rightarrow> bool" where
  "upper_ascii c \<longleftrightarrow> 65 \<le> c \<and> c \<le> 90"

definition currency_format :: "string \<Rightarrow> bool" where
  "currency_format s \<longleftrightarrow> length s = 3 \<and> list_all (\<lambda>c. upper_ascii (of_char c)) s"

definition country_code_format :: "ustr \<Rightarrow> bool" where
  "country_code_format s \<longleftrightarrow> length s = 2 \<and> list_all upper_ascii s"

definition card_last4_format :: "ustr \<Rightarrow> bool" where
  "card_last4_format s \<longleftrightarrow> length s = 4 \<and> list_all (\<lambda>c. 48 \<le> c \<and> c \<le> 57) s"

text \<open>A CHECK on a NULL column passes.\<close>

definition null_or :: "('a \<Rightarrow> bool) \<Rightarrow> 'a option \<Rightarrow> bool" where
  "null_or p x \<longleftrightarrow> (case x of None \<Rightarrow> True | Some v \<Rightarrow> p v)"

lemma null_or_simps [simp]: "null_or p None" "null_or p (Some v) = p v"
  by (simp_all add: null_or_def)

section \<open>Table declarations\<close>

text \<open>\<^verbatim>\<open>lower(email)\<close> for the ASCII letters; beyond them the answer is the database's locale.\<close>

definition lower_char :: "char \<Rightarrow> char" where
  "lower_char c = (let n = of_char c :: nat in if 65 \<le> n \<and> n \<le> 90 then char_of (n + 32) else c)"

definition customer_spec :: "customer_row table_spec" where
  "customer_spec =
     \<lparr>col_types = [], checks = [],
      uniques = [(''pk_customers'', \<lambda>a b. cu_id a = cu_id b),
                 (''ix_customers_email_lower'',
                  \<lambda>a b. map lower_char (cu_email a) = map lower_char (cu_email b))],
      fkeys = []\<rparr>"

definition product_spec :: "product_row table_spec" where
  "product_spec =
     \<lparr>col_types = [(''unit_price_minor'', \<lambda>r. fits_int8 (pr_unit_price_minor r)),
                   (''currency'', \<lambda>r. length (pr_currency r) \<le> 3)],
      checks = [(''unit_price_non_negative'', \<lambda>r. pr_unit_price_minor r \<ge> 0),
                (''currency_format'', \<lambda>r. currency_format (pr_currency r))],
      uniques = [(''pk_products'', \<lambda>a b. pr_id a = pr_id b),
                 (''uq_products_sku'', \<lambda>a b. pr_sku a = pr_sku b)],
      fkeys = []\<rparr>"

definition warehouse_spec :: "warehouse_row table_spec" where
  "warehouse_spec =
     \<lparr>col_types = [], checks = [],
      uniques = [(''pk_warehouses'', \<lambda>a b. wh_id a = wh_id b),
                 (''uq_warehouses_code'', \<lambda>a b. wh_code a = wh_code b)],
      fkeys = []\<rparr>"

definition address_spec :: "db \<Rightarrow> address_row table_spec" where
  "address_spec d =
     \<lparr>col_types = [(''country_code'', \<lambda>r. length (ad_country_code r) \<le> 2)],
      checks = [(''country_code_format'', \<lambda>r. country_code_format (ad_country_code r))],
      uniques = [(''pk_addresses'', \<lambda>a b. ad_id a = ad_id b)],
      fkeys = [(''fk_addresses_customer_id_customers'',
                \<lambda>r. ad_customer_id r \<in> cu_id ` set (customers d))]\<rparr>"

definition inventory_spec :: "db \<Rightarrow> inventory_row table_spec" where
  "inventory_spec d =
     \<lparr>col_types = [(''on_hand'', \<lambda>r. fits_int4 (on_hand r)),
                   (''reserved'', \<lambda>r. fits_int4 (reserved r))],
      checks = [(''reserved_non_negative'', \<lambda>r. reserved r \<ge> 0),
                (''on_hand_ge_reserved'', \<lambda>r. on_hand r \<ge> reserved r)],
      uniques = [(''pk_inventory'', \<lambda>a b. inv_id a = inv_id b),
                 (''uq_inventory_warehouse_product'',
                  \<lambda>a b. (inv_warehouse_id a, inv_product_id a) =
                        (inv_warehouse_id b, inv_product_id b))],
      fkeys = [(''fk_inventory_warehouse_id_warehouses'',
                \<lambda>r. inv_warehouse_id r \<in> wh_id ` set (warehouses d)),
               (''fk_inventory_product_id_products'',
                \<lambda>r. inv_product_id r \<in> pr_id ` set (products d))]\<rparr>"

definition order_spec :: "db \<Rightarrow> order_row table_spec" where
  "order_spec d =
     \<lparr>col_types = [(''currency'', \<lambda>r. length (o_currency r) \<le> 3),
                   (''total_minor'', \<lambda>r. fits_int8 (o_total_minor r)),
                   (''shipping_line1'', \<lambda>r. fits_text (shipping_line1 r)),
                   (''shipping_line2'', \<lambda>r. null_or fits_text (shipping_line2 r)),
                   (''shipping_city'', \<lambda>r. fits_text (shipping_city r)),
                   (''shipping_postal_code'', \<lambda>r. fits_text (shipping_postal_code r)),
                   (''shipping_country_code'', \<lambda>r. length (shipping_country_code r) \<le> 2)],
      checks = [(''currency_format'', \<lambda>r. currency_format (o_currency r)),
                (''shipping_country_format'', \<lambda>r. country_code_format (shipping_country_code r)),
                (''total_non_negative'', \<lambda>r. o_total_minor r \<ge> 0),
                (''reserved_requires_warehouse_and_point'',
                 \<lambda>r. o_status r \<in> {Pending, Cancelled} \<or>
                      o_warehouse_id r \<noteq> None \<and> o_shipping_point r \<noteq> None)],
      uniques = [(''pk_orders'', \<lambda>a b. o_id a = o_id b)],
      fkeys = [(''fk_orders_customer_id_customers'',
                \<lambda>r. o_customer_id r \<in> cu_id ` set (customers d)),
               (''fk_orders_warehouse_id_warehouses'',
                \<lambda>r. null_or (\<lambda>w. w \<in> wh_id ` set (warehouses d)) (o_warehouse_id r))]\<rparr>"

definition order_item_spec :: "db \<Rightarrow> order_item_row table_spec" where
  "order_item_spec d =
     \<lparr>col_types = [(''quantity'', \<lambda>r. fits_int4 (oi_quantity r)),
                   (''unit_price_minor'', \<lambda>r. fits_int8 (oi_unit_price_minor r)),
                   (''currency'', \<lambda>r. length (oi_currency r) \<le> 3),
                   (''line_total_minor'', \<lambda>r. fits_int8 (line_total_minor r))],
      checks = [(''quantity_positive'', \<lambda>r. oi_quantity r > 0),
                (''unit_price_non_negative'', \<lambda>r. oi_unit_price_minor r \<ge> 0),
                (''currency_format'', \<lambda>r. currency_format (oi_currency r))],
      uniques = [(''pk_order_items'', \<lambda>a b. oi_id a = oi_id b),
                 (''uq_order_items_order_product'',
                  \<lambda>a b. (oi_order_id a, oi_product_id a) = (oi_order_id b, oi_product_id b))],
      fkeys = [(''fk_order_items_order_id_orders'', \<lambda>r. oi_order_id r \<in> o_id ` set (orders d)),
               (''fk_order_items_product_id_products'',
                \<lambda>r. oi_product_id r \<in> pr_id ` set (products d))]\<rparr>"

definition history_spec :: "db \<Rightarrow> history_row table_spec" where
  "history_spec d =
     \<lparr>col_types = [],
      checks = [(''transition_changes_status'', \<lambda>r. from_status r \<noteq> Some (to_status r))],
      uniques = [(''pk_order_status_history'', \<lambda>a b. h_id a = h_id b)],
      fkeys = [(''fk_order_status_history_order_id_orders'',
                \<lambda>r. h_order_id r \<in> o_id ` set (orders d))]\<rparr>"

definition payment_spec :: "db \<Rightarrow> payment_row table_spec" where
  "payment_spec d =
     \<lparr>col_types = [(''amount_minor'', \<lambda>r. fits_int8 (amount_minor r)),
                   (''currency'', \<lambda>r. length (pay_currency r) \<le> 3),
                   (''card_last4'', \<lambda>r. null_or (\<lambda>s. length s \<le> 4) (pay_card_last4 r))],
      checks = [(''amount_positive'', \<lambda>r. amount_minor r > 0),
                (''currency_format'', \<lambda>r. currency_format (pay_currency r)),
                (''card_last4_format'', \<lambda>r. null_or card_last4_format (pay_card_last4 r)),
                (''failed_requires_reason'',
                 \<lambda>r. pay_status r \<noteq> Payment_failed_status \<or> pay_failure_reason r \<noteq> None)],
      uniques = [(''pk_payments'', \<lambda>a b. pay_id a = pay_id b),
                 (''uq_payments_order_succeeded'',
                  \<lambda>a b. pay_status a = Payment_succeeded \<and> pay_status b = Payment_succeeded \<and>
                        pay_order_id a = pay_order_id b),
                 (''uq_payments_provider_reference'',
                  \<lambda>a b. provider_reference a \<noteq> None \<and> provider_reference b \<noteq> None \<and>
                        (provider a, provider_reference a) =
                        (provider b, provider_reference b))],
      fkeys = [(''fk_payments_order_id_orders'',
                \<lambda>r. pay_order_id r \<in> o_id ` set (orders d))]\<rparr>"

definition reservation_spec :: "db \<Rightarrow> reservation_row table_spec" where
  "reservation_spec d =
     \<lparr>col_types = [(''quantity'', \<lambda>r. fits_int4 (sr_quantity r))],
      checks = [(''quantity_positive'', \<lambda>r. sr_quantity r > 0),
                (''settled_requires_released_at'',
                 \<lambda>r. sr_status r = Active \<or> released_at r \<noteq> None)],
      uniques = [(''pk_stock_reservations'', \<lambda>a b. sr_id a = sr_id b),
                 (''uq_stock_reservations_order_warehouse_product'',
                  \<lambda>a b. (sr_order_id a, sr_warehouse_id a, sr_product_id a) =
                        (sr_order_id b, sr_warehouse_id b, sr_product_id b))],
      fkeys = [(''fk_stock_reservations_order_id_orders'',
                \<lambda>r. sr_order_id r \<in> o_id ` set (orders d)),
               (''fk_stock_reservations_warehouse_id_warehouses'',
                \<lambda>r. sr_warehouse_id r \<in> wh_id ` set (warehouses d)),
               (''fk_stock_reservations_product_id_products'',
                \<lambda>r. sr_product_id r \<in> pr_id ` set (products d))]\<rparr>"

definition idempotency_spec :: "db \<Rightarrow> idempotency_row table_spec" where
  "idempotency_spec d =
     \<lparr>col_types = [(''response_status'', \<lambda>r. null_or fits_int4 (ik_response_status r))],
      checks = [(''request_hash_sha256'', \<lambda>r. length (ik_request_hash r) = 64),
                (''response_status_range'',
                 \<lambda>r. null_or (\<lambda>s. 100 \<le> s \<and> s \<le> 599) (ik_response_status r)),
                (''response_columns_paired'',
                 \<lambda>r. (ik_response_body r = None) = (ik_response_status r = None)),
                (''completed_has_response'',
                 \<lambda>r. ik_status r \<noteq> Completed \<or>
                      ik_response_body r \<noteq> None \<and> ik_response_status r \<noteq> None)],
      uniques = [(''pk_idempotency_keys'', \<lambda>a b. ik_id a = ik_id b),
                 (''uq_idempotency_keys_key'', \<lambda>a b. ik_key a = ik_key b)],
      fkeys = [(''fk_idempotency_keys_order_id_orders'',
                \<lambda>r. null_or (\<lambda>x. x \<in> o_id ` set (orders d)) (ik_order_id r))]\<rparr>"

definition outbox_spec :: "outbox_row table_spec" where
  "outbox_spec =
     \<lparr>col_types = [(''attempts'', \<lambda>r. fits_int4 (attempts r))],
      checks = [(''attempts_non_negative'', \<lambda>r. attempts r \<ge> 0)],
      uniques = [(''pk_outbox'', \<lambda>a b. ob_id a = ob_id b)],
      fkeys = []\<rparr>"

text \<open>Every stored row satisfies its table's declaration, as PostgreSQL guarantees.\<close>

definition db_ok :: "db \<Rightarrow> bool" where
  "db_ok d \<longleftrightarrow>
     table_ok customer_spec (customers d) \<and> table_ok product_spec (products d) \<and>
     table_ok warehouse_spec (warehouses d) \<and> table_ok (address_spec d) (addresses d) \<and>
     table_ok (inventory_spec d) (inventory d) \<and> table_ok (order_spec d) (orders d) \<and>
     table_ok (order_item_spec d) (order_items d) \<and>
     table_ok (history_spec d) (order_status_history d) \<and>
     table_ok (payment_spec d) (payments d) \<and>
     table_ok (reservation_spec d) (stock_reservations d) \<and>
     table_ok (idempotency_spec d) (idempotency_keys d) \<and> table_ok outbox_spec (outbox d)"

text \<open>
  A declaration reads the other tables through their ids only, so it does not change when a
  statement writes a table it does not refer to, nor when the rows it refers to keep their ids.
\<close>

lemma spec_frames [simp]:
  "address_spec (d\<lparr>uuid_pos := n\<rparr>) = address_spec d"
  "address_spec (d\<lparr>db_now := t\<rparr>) = address_spec d"
  "address_spec (d\<lparr>inventory := iv\<rparr>) = address_spec d"
  "address_spec (d\<lparr>orders := ors\<rparr>) = address_spec d"
  "address_spec (d\<lparr>order_items := ois\<rparr>) = address_spec d"
  "address_spec (d\<lparr>order_status_history := hs\<rparr>) = address_spec d"
  "address_spec (d\<lparr>payments := ps\<rparr>) = address_spec d"
  "address_spec (d\<lparr>stock_reservations := srs\<rparr>) = address_spec d"
  "address_spec (d\<lparr>idempotency_keys := iks\<rparr>) = address_spec d"
  "address_spec (d\<lparr>outbox := obs\<rparr>) = address_spec d"
  "inventory_spec (d\<lparr>uuid_pos := n\<rparr>) = inventory_spec d"
  "inventory_spec (d\<lparr>db_now := t\<rparr>) = inventory_spec d"
  "inventory_spec (d\<lparr>inventory := iv\<rparr>) = inventory_spec d"
  "inventory_spec (d\<lparr>orders := ors\<rparr>) = inventory_spec d"
  "inventory_spec (d\<lparr>order_items := ois\<rparr>) = inventory_spec d"
  "inventory_spec (d\<lparr>order_status_history := hs\<rparr>) = inventory_spec d"
  "inventory_spec (d\<lparr>payments := ps\<rparr>) = inventory_spec d"
  "inventory_spec (d\<lparr>stock_reservations := srs\<rparr>) = inventory_spec d"
  "inventory_spec (d\<lparr>idempotency_keys := iks\<rparr>) = inventory_spec d"
  "inventory_spec (d\<lparr>outbox := obs\<rparr>) = inventory_spec d"
  "order_spec (d\<lparr>uuid_pos := n\<rparr>) = order_spec d"
  "order_spec (d\<lparr>db_now := t\<rparr>) = order_spec d"
  "order_spec (d\<lparr>inventory := iv\<rparr>) = order_spec d"
  "order_spec (d\<lparr>orders := ors\<rparr>) = order_spec d"
  "order_spec (d\<lparr>order_items := ois\<rparr>) = order_spec d"
  "order_spec (d\<lparr>order_status_history := hs\<rparr>) = order_spec d"
  "order_spec (d\<lparr>payments := ps\<rparr>) = order_spec d"
  "order_spec (d\<lparr>stock_reservations := srs\<rparr>) = order_spec d"
  "order_spec (d\<lparr>idempotency_keys := iks\<rparr>) = order_spec d"
  "order_spec (d\<lparr>outbox := obs\<rparr>) = order_spec d"
  "order_item_spec (d\<lparr>uuid_pos := n\<rparr>) = order_item_spec d"
  "order_item_spec (d\<lparr>db_now := t\<rparr>) = order_item_spec d"
  "order_item_spec (d\<lparr>inventory := iv\<rparr>) = order_item_spec d"
  "order_item_spec (d\<lparr>order_items := ois\<rparr>) = order_item_spec d"
  "order_item_spec (d\<lparr>order_status_history := hs\<rparr>) = order_item_spec d"
  "order_item_spec (d\<lparr>payments := ps\<rparr>) = order_item_spec d"
  "order_item_spec (d\<lparr>stock_reservations := srs\<rparr>) = order_item_spec d"
  "order_item_spec (d\<lparr>idempotency_keys := iks\<rparr>) = order_item_spec d"
  "order_item_spec (d\<lparr>outbox := obs\<rparr>) = order_item_spec d"
  "history_spec (d\<lparr>uuid_pos := n\<rparr>) = history_spec d"
  "history_spec (d\<lparr>db_now := t\<rparr>) = history_spec d"
  "history_spec (d\<lparr>inventory := iv\<rparr>) = history_spec d"
  "history_spec (d\<lparr>order_items := ois\<rparr>) = history_spec d"
  "history_spec (d\<lparr>order_status_history := hs\<rparr>) = history_spec d"
  "history_spec (d\<lparr>payments := ps\<rparr>) = history_spec d"
  "history_spec (d\<lparr>stock_reservations := srs\<rparr>) = history_spec d"
  "history_spec (d\<lparr>idempotency_keys := iks\<rparr>) = history_spec d"
  "history_spec (d\<lparr>outbox := obs\<rparr>) = history_spec d"
  "payment_spec (d\<lparr>uuid_pos := n\<rparr>) = payment_spec d"
  "payment_spec (d\<lparr>db_now := t\<rparr>) = payment_spec d"
  "payment_spec (d\<lparr>inventory := iv\<rparr>) = payment_spec d"
  "payment_spec (d\<lparr>order_items := ois\<rparr>) = payment_spec d"
  "payment_spec (d\<lparr>order_status_history := hs\<rparr>) = payment_spec d"
  "payment_spec (d\<lparr>payments := ps\<rparr>) = payment_spec d"
  "payment_spec (d\<lparr>stock_reservations := srs\<rparr>) = payment_spec d"
  "payment_spec (d\<lparr>idempotency_keys := iks\<rparr>) = payment_spec d"
  "payment_spec (d\<lparr>outbox := obs\<rparr>) = payment_spec d"
  "reservation_spec (d\<lparr>uuid_pos := n\<rparr>) = reservation_spec d"
  "reservation_spec (d\<lparr>db_now := t\<rparr>) = reservation_spec d"
  "reservation_spec (d\<lparr>inventory := iv\<rparr>) = reservation_spec d"
  "reservation_spec (d\<lparr>order_items := ois\<rparr>) = reservation_spec d"
  "reservation_spec (d\<lparr>order_status_history := hs\<rparr>) = reservation_spec d"
  "reservation_spec (d\<lparr>payments := ps\<rparr>) = reservation_spec d"
  "reservation_spec (d\<lparr>stock_reservations := srs\<rparr>) = reservation_spec d"
  "reservation_spec (d\<lparr>idempotency_keys := iks\<rparr>) = reservation_spec d"
  "reservation_spec (d\<lparr>outbox := obs\<rparr>) = reservation_spec d"
  "idempotency_spec (d\<lparr>uuid_pos := n\<rparr>) = idempotency_spec d"
  "idempotency_spec (d\<lparr>db_now := t\<rparr>) = idempotency_spec d"
  "idempotency_spec (d\<lparr>inventory := iv\<rparr>) = idempotency_spec d"
  "idempotency_spec (d\<lparr>order_items := ois\<rparr>) = idempotency_spec d"
  "idempotency_spec (d\<lparr>order_status_history := hs\<rparr>) = idempotency_spec d"
  "idempotency_spec (d\<lparr>payments := ps\<rparr>) = idempotency_spec d"
  "idempotency_spec (d\<lparr>stock_reservations := srs\<rparr>) = idempotency_spec d"
  "idempotency_spec (d\<lparr>idempotency_keys := iks\<rparr>) = idempotency_spec d"
  "idempotency_spec (d\<lparr>outbox := obs\<rparr>) = idempotency_spec d"
  by (simp_all add: address_spec_def inventory_spec_def order_spec_def order_item_spec_def history_spec_def payment_spec_def reservation_spec_def idempotency_spec_def)

lemma spec_same_ids:
  assumes "o_id ` set (orders d') = o_id ` set (orders d)"
    and "customers d' = customers d" "warehouses d' = warehouses d" "products d' = products d"
  shows "address_spec d' = address_spec d"
    and "inventory_spec d' = inventory_spec d"
    and "order_spec d' = order_spec d"
    and "order_item_spec d' = order_item_spec d"
    and "history_spec d' = history_spec d"
    and "payment_spec d' = payment_spec d"
    and "reservation_spec d' = reservation_spec d"
    and "idempotency_spec d' = idempotency_spec d"
  using assms by (simp_all add: address_spec_def inventory_spec_def order_spec_def order_item_spec_def history_spec_def payment_spec_def reservation_spec_def idempotency_spec_def)

section \<open>Fresh ids\<close>

text \<open>
  What the code relies on of \<^verbatim>\<open>gen_random_uuid()\<close> when an INSERT is to succeed: it does not
  repeat a value, and has not returned a stored id.
\<close>

definition used_ids :: "db \<Rightarrow> uuid set" where
  "used_ids d =
     cu_id ` set (customers d) \<union> pr_id ` set (products d) \<union> wh_id ` set (warehouses d) \<union>
     ad_id ` set (addresses d) \<union> inv_id ` set (inventory d) \<union> o_id ` set (orders d) \<union>
     oi_id ` set (order_items d) \<union> h_id ` set (order_status_history d) \<union>
     pay_id ` set (payments d) \<union> sr_id ` set (stock_reservations d) \<union>
     ik_id ` set (idempotency_keys d) \<union> ob_id ` set (outbox d)"

definition uuids_fresh :: "db \<Rightarrow> bool" where
  "uuids_fresh d \<longleftrightarrow> inj (uuid_seq d) \<and> (\<forall>n \<ge> uuid_pos d. uuid_seq d n \<notin> used_ids d)"

lemma uuids_fresh_next: "uuids_fresh d \<Longrightarrow> uuid_seq d (uuid_pos d) \<notin> used_ids d"
  by (simp add: uuids_fresh_def)

lemma uuids_fresh_step:
  assumes "uuids_fresh d" and "uuid_seq d' = uuid_seq d" and "uuid_pos d \<le> uuid_pos d'"
    and "used_ids d' \<subseteq> used_ids d \<union> uuid_seq d ` {uuid_pos d ..< uuid_pos d'}"
  shows "uuids_fresh d'"
proof -
  have "uuid_seq d n \<notin> used_ids d'" if n: "uuid_pos d' \<le> n" for n
  proof
    assume "uuid_seq d n \<in> used_ids d'"
    with assms(4) have "uuid_seq d n \<in> used_ids d \<or> uuid_seq d n \<in> uuid_seq d ` {uuid_pos d ..< uuid_pos d'}"
      by blast
    then consider "uuid_seq d n \<in> used_ids d" | m where "m < uuid_pos d'" "uuid_seq d n = uuid_seq d m"
      by fastforce
    then show False
    proof cases
      case 1
      with assms(1,3) n show False by (simp add: uuids_fresh_def)
    next
      case 2
      with assms(1) have "n = m" by (simp add: uuids_fresh_def inj_eq)
      with 2 n show False by simp
    qed
  qed
  with assms(1,2) show ?thesis by (simp add: uuids_fresh_def)
qed

text \<open>What PostgreSQL and \<^verbatim>\<open>gen_random_uuid()\<close> promise of a database between transactions.\<close>

definition consistent :: "db \<Rightarrow> bool" where
  "consistent d \<longleftrightarrow> db_ok d \<and> uuids_fresh d"

end
