(* ===== verification/Orders.thy ===== *)
theory Orders
  imports Schema
begin

text \<open>
  \<^verbatim>\<open>app/repositories/order.py\<close>: creating an order with its lines, the compare-and-swap that
  is the only writer of \<^verbatim>\<open>orders.status\<close>, and the read behind a response. The lemmas say
  what each call did to the database on every branch, and that the history rows of an order,
  replayed from nothing, give its status.
\<close>

section \<open>Operations\<close>

definition insert_history :: "uuid \<Rightarrow> order_status option \<Rightarrow> order_status \<Rightarrow> string option \<Rightarrow> db \<Rightarrow> exc + db" where
  "insert_history oid frm to why d =
     (let (hid, d1) = gen_random_uuid d in
      bind_r
        (insert_row (history_spec d1)
          \<lparr>h_id = hid, h_order_id = oid, from_status = frm, to_status = to, reason = why,
           occurred_at = db_now d1\<rparr> (order_status_history d1))
        (\<lambda>rows. Inr (d1\<lparr>order_status_history := rows\<rparr>)))"

definition new_order ::
  "uuid \<Rightarrow> uuid \<Rightarrow> uuid \<Rightarrow> postal_address \<Rightarrow> wkb_point \<Rightarrow> string \<Rightarrow> int \<Rightarrow> timestamp \<Rightarrow> order_row" where
  "new_order oid cid wid addr pt cur tot now =
     \<lparr>o_id = oid, o_customer_id = cid, o_status = Pending, o_warehouse_id = Some wid,
      o_currency = cur, o_total_minor = tot,
      shipping_line1 = line1 addr, shipping_line2 = line2 addr, shipping_city = city addr,
      shipping_postal_code = postal_code addr, shipping_country_code = country_code addr,
      o_shipping_point = Some pt, o_created_at = now, o_updated_at = now\<rparr>"

text \<open>\<^verbatim>\<open>OrderRepository.create\<close>: the row at the column default, then its creation row.\<close>

definition create_order ::
  "uuid \<Rightarrow> uuid \<Rightarrow> postal_address \<Rightarrow> wkb_point \<Rightarrow> string \<Rightarrow> int \<Rightarrow> db \<Rightarrow> exc + (order_row \<times> db)" where
  "create_order cid wid addr pt cur tot d =
     (let (oid, d1) = gen_random_uuid d;
          o1 = new_order oid cid wid addr pt cur tot (db_now d1)
      in bind_r (insert_row (order_spec d1) o1 (orders d1))
        (\<lambda>rows. bind_r
          (insert_history oid None Pending (Some ''order created'') (d1\<lparr>orders := rows\<rparr>))
          (\<lambda>d2. Inr (o1, d2))))"

text \<open>
  \<^verbatim>\<open>OrderRepository.add_items\<close>: one line per item with price, currency, SKU and name as
  they are in \<open>ps\<close>; a product missing from \<open>ps\<close> is the \<^verbatim>\<open>KeyError\<close> of \<^verbatim>\<open>products[id]\<close>.
\<close>

definition add_item :: "uuid \<Rightarrow> (uuid \<rightharpoonup> product_row) \<Rightarrow> uuid \<times> int \<Rightarrow> db \<Rightarrow> exc + db" where
  "add_item oid ps it d =
     (case ps (fst it) of None \<Rightarrow> Inl (KeyError (fst it)) | Some p \<Rightarrow>
      let (iid, d1) = gen_random_uuid d in
      bind_r
        (insert_row (order_item_spec d1)
          \<lparr>oi_id = iid, oi_order_id = oid, oi_product_id = pr_id p, oi_product_sku = pr_sku p,
           oi_product_name = pr_name p, oi_unit_price_minor = pr_unit_price_minor p,
           oi_currency = pr_currency p, oi_quantity = snd it, oi_created_at = db_now d1\<rparr>
          (order_items d1))
        (\<lambda>rows. Inr (d1\<lparr>order_items := rows\<rparr>)))"

definition add_items :: "uuid \<Rightarrow> (uuid \<rightharpoonup> product_row) \<Rightarrow> (uuid \<times> int) list \<Rightarrow> db \<Rightarrow> exc + db" where
  "add_items oid ps its d = fold_r (add_item oid ps) its d"

text \<open>\<^verbatim>\<open>OrderRepository.transition\<close>\<close>

definition transition ::
  "uuid \<Rightarrow> order_status \<Rightarrow> order_status \<Rightarrow> string option \<Rightarrow> db \<Rightarrow> exc + db" where
  "transition oid frm to why d =
     (if \<not> is_allowed frm to
      then Inl (DomainError (InvalidStateTransition oid (order_status_value to)
                              (order_status_value frm)))
      else bind_r
        (update_rows (order_spec d) (\<lambda>r. o_id r = oid \<and> o_status r = frm)
          (\<lambda>r. r\<lparr>o_status := to, o_updated_at := db_now d\<rparr>) (orders d))
        (\<lambda>(moved, rows).
          if moved = [] then
            Inl (DomainError (InvalidStateTransition oid (order_status_value to)
              (case List.find (\<lambda>r. o_id r = oid) (orders d) of
                 Some r \<Rightarrow> order_status_value (o_status r) | None \<Rightarrow> ''missing'')))
          else insert_history oid (Some frm) to why (d\<lparr>orders := rows\<rparr>)))"

text \<open>\<^verbatim>\<open>OrderRepository.get_for_response\<close>: the order, its lines and its warehouse.\<close>

definition get_for_response ::
  "uuid \<Rightarrow> db \<Rightarrow> exc + (order_row \<times> order_item_row list \<times> warehouse_row option)" where
  "get_for_response oid d =
     (case List.find (\<lambda>r. o_id r = oid) (orders d) of
        None \<Rightarrow> Inl (LookupError ''order vanished'')
      | Some r \<Rightarrow> Inr (r, filter (\<lambda>i. oi_order_id i = oid) (order_items d),
          (case o_warehouse_id r of None \<Rightarrow> None
           | Some w \<Rightarrow> List.find (\<lambda>x. wh_id x = w) (warehouses d))))"

section \<open>What the calls did\<close>

lemma gen_random_uuid_simps [simp]:
  "fst (gen_random_uuid d) = uuid_seq d (uuid_pos d)"
  "snd (gen_random_uuid d) = d\<lparr>uuid_pos := Suc (uuid_pos d)\<rparr>"
  by (simp_all add: gen_random_uuid_def)

definition history_entry ::
  "uuid \<Rightarrow> order_status option \<Rightarrow> order_status \<Rightarrow> string option \<Rightarrow> db \<Rightarrow> history_row" where
  "history_entry oid frm to why d =
     \<lparr>h_id = uuid_seq d (uuid_pos d), h_order_id = oid, from_status = frm, to_status = to,
      reason = why, occurred_at = db_now d\<rparr>"

lemma history_entry_simps [simp]:
  "h_order_id (history_entry oid frm to why d) = oid"
  "from_status (history_entry oid frm to why d) = frm"
  "to_status (history_entry oid frm to why d) = to"
  "reason (history_entry oid frm to why d) = why"
  by (simp_all add: history_entry_def)

lemma insert_history_Inr:
  "insert_history oid frm to why d = Inr d' \<longleftrightarrow>
     row_ok (history_spec d) (history_entry oid frm to why d) \<and>
     conflict (uniques (history_spec d)) (history_entry oid frm to why d)
       (order_status_history d) = None \<and>
     d' = d\<lparr>order_status_history := order_status_history d @ [history_entry oid frm to why d],
            uuid_pos := Suc (uuid_pos d)\<rparr>"
  by (auto simp: insert_history_def gen_random_uuid_def bind_r_Inr insert_row_Inr history_spec_def
      history_entry_def)

text \<open>The row update a successful transition makes, and the whole new database.\<close>

definition moved_orders :: "uuid \<Rightarrow> order_status \<Rightarrow> order_status \<Rightarrow> db \<Rightarrow> order_row list" where
  "moved_orders oid frm to d =
     upd (\<lambda>r. o_id r = oid \<and> o_status r = frm)
       (\<lambda>r. r\<lparr>o_status := to, o_updated_at := db_now d\<rparr>) (orders d)"

lemma moved_orders_ids [simp]:
  "map o_id (moved_orders oid frm to d) = map o_id (orders d)"
  "o_id ` set (moved_orders oid frm to d) = o_id ` set (orders d)"
proof -
  show m: "map o_id (moved_orders oid frm to d) = map o_id (orders d)"
    unfolding moved_orders_def by (rule map_upd) simp
  show "o_id ` set (moved_orders oid frm to d) = o_id ` set (orders d)"
    using arg_cong [OF m, of set] by simp
qed

lemma transition_Inr:
  assumes "transition oid frm to why d = Inr d'"
  shows "is_allowed frm to"
    and "\<exists>r \<in> set (orders d). o_id r = oid \<and> o_status r = frm"
    and "d' = d\<lparr>orders := moved_orders oid frm to d,
                order_status_history := order_status_history d @
                  [history_entry oid (Some frm) to why d],
                uuid_pos := Suc (uuid_pos d)\<rparr>"
  using assms
  by (auto simp: transition_def bind_r_Inr update_rows_Inr insert_history_Inr moved_orders_def
      filter_empty_conv history_entry_def split: if_splits)

lemma transition_illegal:
  "\<not> is_allowed frm to \<Longrightarrow>
     transition oid frm to why d =
       Inl (DomainError (InvalidStateTransition oid (order_status_value to)
                          (order_status_value frm)))"
  by (simp add: transition_def)

lemma transition_lost:
  assumes "is_allowed frm to" and "List.find (\<lambda>r. o_id r = oid) (orders d) = Some r"
    and "o_status r \<noteq> frm" and "distinct (map o_id (orders d))"
  shows "transition oid frm to why d =
           Inl (DomainError (InvalidStateTransition oid (order_status_value to)
                              (order_status_value (o_status r))))"
proof -
  have r: "r \<in> set (orders d)" "o_id r = oid" using find_SomeD [OF assms(2)] by auto
  have none: "filter (\<lambda>x. o_id x = oid \<and> o_status x = frm) (orders d) = []"
    using r assms(3) distinct_key_unique [OF assms(4)] by (auto simp: filter_empty_conv)
  have "update_rows (order_spec d) (\<lambda>r. o_id r = oid \<and> o_status r = frm)
          (\<lambda>r. r\<lparr>o_status := to, o_updated_at := db_now d\<rparr>) (orders d) = Inr ([], orders d)"
    using none by (simp add: update_rows_Inr upd_none filter_empty_conv)
  with assms(1,2) show ?thesis by (simp add: transition_def)
qed

lemma create_order_Inr:
  assumes "create_order cid wid addr pt cur tot d = Inr (o1, d')"
  shows "o1 = new_order (uuid_seq d (uuid_pos d)) cid wid addr pt cur tot (db_now d)"
    and "d' = d\<lparr>orders := orders d @ [o1],
                order_status_history := order_status_history d @
                  [history_entry (o_id o1) None Pending (Some ''order created'')
                    (d\<lparr>uuid_pos := Suc (uuid_pos d)\<rparr>)],
                uuid_pos := Suc (Suc (uuid_pos d))\<rparr>"
    and "\<forall>r \<in> set (orders d). o_id r \<noteq> o_id o1"
    and "cid \<in> cu_id ` set (customers d)"
    and "row_ok (order_spec d) o1"
proof -
  let ?o = "new_order (uuid_seq d (uuid_pos d)) cid wid addr pt cur tot (db_now d)"
  have "row_ok (order_spec d) ?o \<and> conflict (uniques (order_spec d)) ?o (orders d) = None \<and>
      insert_history (o_id ?o) None Pending (Some ''order created'')
        (d\<lparr>uuid_pos := Suc (uuid_pos d), orders := orders d @ [?o]\<rparr>) = Inr d' \<and> o1 = ?o"
    using assms
    by (auto simp: create_order_def gen_random_uuid_def Let_def bind_r_Inr insert_row_Inr
        new_order_def)
  then show "o1 = ?o" and "row_ok (order_spec d) o1"
    and "d' = d\<lparr>orders := orders d @ [o1],
                order_status_history := order_status_history d @
                  [history_entry (o_id o1) None Pending (Some ''order created'')
                    (d\<lparr>uuid_pos := Suc (uuid_pos d)\<rparr>)],
                uuid_pos := Suc (Suc (uuid_pos d))\<rparr>"
    and "\<forall>r \<in> set (orders d). o_id r \<noteq> o_id o1"
    by (auto simp: insert_history_Inr history_entry_def order_spec_def conflict_None)
  then show "cid \<in> cu_id ` set (customers d)"
    by (simp add: order_spec_def row_ok_def new_order_def)
qed

definition line_of :: "uuid \<Rightarrow> product_row \<Rightarrow> int \<Rightarrow> uuid \<Rightarrow> timestamp \<Rightarrow> order_item_row" where
  "line_of oid p q iid now =
     \<lparr>oi_id = iid, oi_order_id = oid, oi_product_id = pr_id p, oi_product_sku = pr_sku p,
      oi_product_name = pr_name p, oi_unit_price_minor = pr_unit_price_minor p,
      oi_currency = pr_currency p, oi_quantity = q, oi_created_at = now\<rparr>"

text \<open>A line without its surrogate key: what the snapshot consists of.\<close>

definition line_content :: "order_item_row \<Rightarrow> uuid \<times> uuid \<times> string \<times> string \<times> int \<times> string \<times> int" where
  "line_content r = (oi_order_id r, oi_product_id r, oi_product_sku r, oi_product_name r,
     oi_unit_price_minor r, oi_currency r, oi_quantity r)"

definition snapshot :: "uuid \<Rightarrow> (uuid \<rightharpoonup> product_row) \<Rightarrow> uuid \<times> int \<Rightarrow>
    uuid \<times> uuid \<times> string \<times> string \<times> int \<times> string \<times> int" where
  "snapshot oid ps it = (let p = the (ps (fst it)) in
     (oid, pr_id p, pr_sku p, pr_name p, pr_unit_price_minor p, pr_currency p, snd it))"

lemma add_item_Inr:
  assumes "add_item oid ps it d = Inr d'"
  obtains p where "ps (fst it) = Some p"
    and "d' = d\<lparr>order_items := order_items d @
                 [line_of oid p (snd it) (uuid_seq d (uuid_pos d)) (db_now d)],
                uuid_pos := Suc (uuid_pos d)\<rparr>"
    and "row_ok (order_item_spec d) (line_of oid p (snd it) (uuid_seq d (uuid_pos d)) (db_now d))"
  using assms
  by (auto simp: add_item_def gen_random_uuid_def bind_r_Inr insert_row_Inr line_of_def
      order_item_spec_def split: option.splits)

lemma add_items_Inr:
  assumes "add_items oid ps its d = Inr d'"
  shows "\<exists>ls n. d' = d\<lparr>order_items := order_items d @ ls, uuid_pos := n\<rparr> \<and>
           map line_content ls = map (snapshot oid ps) its \<and>
           (\<forall>it \<in> set its. ps (fst it) \<noteq> None)"
  using assms unfolding add_items_def
proof (induction its arbitrary: d)
  case Nil
  then have "d' = d\<lparr>order_items := order_items d @ [], uuid_pos := uuid_pos d\<rparr>" by simp
  then show ?case by (intro exI [of _ "[]"] exI [of _ "uuid_pos d"]) simp
next
  case (Cons it its)
  then obtain d1 where d1: "add_item oid ps it d = Inr d1" "fold_r (add_item oid ps) its d1 = Inr d'"
    by (auto simp: bind_r_Inr)
  from d1(1) obtain p where p: "ps (fst it) = Some p"
    "d1 = d\<lparr>order_items := order_items d @
              [line_of oid p (snd it) (uuid_seq d (uuid_pos d)) (db_now d)],
            uuid_pos := Suc (uuid_pos d)\<rparr>"
    by (rule add_item_Inr)
  from Cons.IH [OF d1(2)] obtain ls n where ls:
    "d' = d1\<lparr>order_items := order_items d1 @ ls, uuid_pos := n\<rparr>"
    "map line_content ls = map (snapshot oid ps) its" "\<forall>it \<in> set its. ps (fst it) \<noteq> None"
    by blast
  let ?l = "line_of oid p (snd it) (uuid_seq d (uuid_pos d)) (db_now d)"
  have "d' = d\<lparr>order_items := order_items d @ (?l # ls), uuid_pos := n\<rparr>"
    using ls(1) p(2) by simp
  moreover have "line_content ?l = snapshot oid ps it"
    using p(1) by (simp add: line_content_def line_of_def snapshot_def)
  ultimately show ?case using ls(2,3) p(1)
    by (intro exI [of _ "?l # ls"] exI [of _ n]) simp
qed

section \<open>The history replays to the status\<close>

definition history_of :: "db \<Rightarrow> uuid \<Rightarrow> history_row list" where
  "history_of d oid = filter (\<lambda>h. h_order_id h = oid) (order_status_history d)"

text \<open>
  Replaying history rows from a status (\<open>None\<close>: the order does not exist yet): each row must
  start where the last one ended, the first one creates the order as \<open>Pending\<close> and every other
  one is a legal edge.
\<close>

fun replay :: "order_status option \<Rightarrow> history_row list \<Rightarrow> order_status option option" where
  "replay s [] = Some s"
| "replay s (h # hs) =
     (if from_status h = s \<and>
         (case s of None \<Rightarrow> to_status h = Pending | Some f \<Rightarrow> is_allowed f (to_status h))
      then replay (Some (to_status h)) hs else None)"

lemma replay_snoc:
  "replay s hs = Some t \<Longrightarrow> from_status h = t \<Longrightarrow>
   (case t of None \<Rightarrow> to_status h = Pending | Some f \<Rightarrow> is_allowed f (to_status h)) \<Longrightarrow>
     replay s (hs @ [h]) = Some (Some (to_status h))"
  by (induction hs arbitrary: s) (auto split: if_splits option.splits)

lemma replay_length: "replay (Some s) hs = Some (Some t) \<Longrightarrow> length hs + stage s \<le> stage t"
proof (induction hs arbitrary: s)
  case (Cons h hs)
  then have "is_allowed s (to_status h)" "replay (Some (to_status h)) hs = Some (Some t)"
    by (auto split: if_splits)
  with Cons.IH is_allowed_stage show ?case by fastforce
qed simp

definition history_ok :: "db \<Rightarrow> bool" where
  "history_ok d \<longleftrightarrow>
     (\<forall>r \<in> set (orders d). replay None (history_of d (o_id r)) = Some (Some (o_status r))) \<and>
     (\<forall>h \<in> set (order_status_history d). h_order_id h \<in> o_id ` set (orders d))"

lemma history_ok_frame:
  "orders d' = orders d \<Longrightarrow> order_status_history d' = order_status_history d \<Longrightarrow>
     history_ok d' = history_ok d"
  by (simp add: history_ok_def history_of_def)

lemma create_order_history_ok [inv_intros]:
  assumes "create_order cid wid addr pt cur tot d = Inr (o1, d')" and "history_ok d"
  shows "history_ok d'"
proof -
  note c = create_order_Inr [OF assms(1)]
  have old: "history_of d (o_id o1) = []"
    using assms(2) c(3) by (force simp: history_ok_def history_of_def filter_empty_conv)
  have "o_status o1 = Pending" using c(1) by (simp add: new_order_def)
  then show ?thesis
    using assms(2) old c(3) unfolding c(2) history_ok_def history_of_def by auto
qed

lemma transition_history_ok [inv_intros]:
  assumes "transition oid frm to why d = Inr d'" and "history_ok d"
    and "distinct (map o_id (orders d))"
  shows "history_ok d'"
proof -
  note t = transition_Inr [OF assms(1)]
  obtain r0 where r0: "r0 \<in> set (orders d)" "o_id r0 = oid" "o_status r0 = frm" using t(2) by blast
  let ?h = "history_entry oid (Some frm) to why d"
  have one: "o_status r = frm" if "r \<in> set (orders d)" "o_id r = oid" for r
    using distinct_key_unique [OF assms(3) that(1) r0(1)] that(2) r0(2,3) by simp
  have rep: "replay None (history_of d oid @ [?h]) = Some (Some to)"
    using replay_snoc [of None "history_of d oid" "Some frm" ?h] assms(2) r0 t(1)
    by (auto simp: history_ok_def)
  have "replay None (history_of d' (o_id r)) = Some (Some (o_status r))"
    if "r \<in> set (orders d')" for r
  proof -
    from that obtain x where x: "x \<in> set (orders d)"
      "r = (if o_id x = oid \<and> o_status x = frm
            then x\<lparr>o_status := to, o_updated_at := db_now d\<rparr> else x)"
      unfolding t(3) moved_orders_def by (auto simp: set_upd)
    show ?thesis
    proof (cases "o_id x = oid")
      case True
      with x one have "o_status r = to" "o_id r = oid" by auto
      with rep show ?thesis unfolding t(3) history_of_def by simp
    next
      case False
      with x assms(2) show ?thesis unfolding t(3) history_ok_def history_of_def by auto
    qed
  qed
  moreover have "o_id ` set (orders d') = o_id ` set (orders d)"
    unfolding t(3) by simp
  ultimately show ?thesis
    using assms(2) r0(1,2) unfolding history_ok_def t(3) by (auto simp: image_iff)
qed

section \<open>Racing transitions\<close>

text \<open>
  Contenders that all move the order away from \<open>frm\<close>, each to a status and with a reason of its
  own: the compare-and-swap lets one of them through.
\<close>

definition try_move :: "uuid \<Rightarrow> order_status \<Rightarrow> order_status \<times> string option \<Rightarrow> db \<Rightarrow> db option" where
  "try_move oid frm x d = (case transition oid frm (fst x) (snd x) d of Inl _ \<Rightarrow> None | Inr d' \<Rightarrow> Some d')"

definition left :: "uuid \<Rightarrow> order_status \<Rightarrow> db \<Rightarrow> bool" where
  "left oid frm d \<longleftrightarrow> list_all (\<lambda>r. o_id r = oid \<longrightarrow> o_status r \<noteq> frm) (orders d)"

lemma moved_orders_left:
  assumes "to \<noteq> frm" and "r \<in> set (moved_orders oid frm to d)" and "o_id r = oid"
  shows "o_status r \<noteq> frm"
proof -
  obtain x where "r = (if o_id x = oid \<and> o_status x = frm
      then x\<lparr>o_status := to, o_updated_at := db_now d\<rparr> else x)"
    using assms(2) unfolding moved_orders_def set_upd by blast
  with assms(1,3) show ?thesis by (cases "o_id x = oid \<and> o_status x = frm") simp_all
qed

interpretation transition_race: contended "try_move oid frm" "left oid frm"
  for oid frm
proof
  show "try_move oid frm x d = None" if "left oid frm d" for x d
  proof (cases "transition oid frm (fst x) (snd x) d")
    case (Inr d')
    then obtain r where "r \<in> set (orders d)" "o_id r = oid" "o_status r = frm"
      using transition_Inr(2) by blast
    with that show ?thesis unfolding left_def list_all_iff by blast
  qed (simp add: try_move_def)
  show "left oid frm d'" if "try_move oid frm x d = Some d'" for x d d'
  proof -
    have t: "transition oid frm (fst x) (snd x) d = Inr d'"
      using that unfolding try_move_def by (cases "transition oid frm (fst x) (snd x) d") simp_all
    have "fst x \<noteq> frm" using transition_Inr(1) [OF t] is_allowed_irrefl by metis
    then have "\<forall>r \<in> set (moved_orders oid frm (fst x) d). o_id r = oid \<longrightarrow> o_status r \<noteq> frm"
      using moved_orders_left by blast
    moreover have "orders d' = moved_orders oid frm (fst x) d" by (simp add: transition_Inr(3) [OF t])
    ultimately show ?thesis by (simp add: left_def list_all_iff)
  qed
qed

definition never_returns :: "uuid \<Rightarrow> order_status \<Rightarrow> (db \<Rightarrow> db) \<Rightarrow> bool" where
  "never_returns oid frm e \<longleftrightarrow> (\<forall>d. left oid frm d \<longrightarrow> left oid frm (e d))"

lemma never_returns_harmless: "never_returns oid frm e \<longleftrightarrow> transition_race.harmless oid frm e"
  by (simp add: never_returns_def transition_race.harmless_def)

text \<open>Any other transition is such a step, unless it moves this order to \<open>frm\<close>.\<close>

lemma transition_never_returns:
  assumes "oid' \<noteq> oid \<or> to \<noteq> frm"
  shows "never_returns oid frm (\<lambda>d. snd (in_transaction (no_result (transition oid' a to why)) d))"
  unfolding never_returns_def
proof (intro allI impI)
  fix d assume l: "left oid frm d"
  show "left oid frm (snd (in_transaction (no_result (transition oid' a to why)) d))"
  proof (cases "transition oid' a to why d")
    case (Inl e)
    with l show ?thesis by (simp add: in_transaction_def no_result_def)
  next
    case (Inr d')
    have "\<forall>r \<in> set (moved_orders oid' a to d). o_id r = oid \<longrightarrow> o_status r \<noteq> frm"
      using l assms by (auto simp: left_def list_all_iff moved_orders_def set_upd)
    moreover have "orders d' = moved_orders oid' a to d" by (simp add: transition_Inr(3) [OF Inr])
    ultimately have "left oid frm d'" by (simp add: left_def list_all_iff)
    with Inr show ?thesis by (simp add: in_transaction_def no_result_def)
  qed
qed

end
