(* ===== verification/Reservations.thy ===== *)
theory Reservations
  imports Schema "HOL-Library.Product_Lexorder"
begin

text \<open>
  \<^verbatim>\<open>app/repositories/reservation.py\<close>: the operations on the pair \<^verbatim>\<open>inventory\<close> /
  \<^verbatim>\<open>stock_reservations\<close>. Each conditional UPDATE is one statement; an operation is the
  sequence of its statements in one transaction, and \<open>Inl\<close> rolls it back. The lemmas give the
  effect of each operation on the two sums that matter, the units an inventory row counts as
  reserved (\<open>reserved_at\<close>) and the units reservations account for (\<open>held\<close>), and show that their
  difference never changes.
\<close>

section \<open>Operations\<close>

definition lock_order :: "requested_item list \<Rightarrow> uuid \<Rightarrow> requested_item list" where
  "lock_order items wid = sort_key (\<lambda>i. (wid, product_id i)) items"

definition seconds :: "int \<Rightarrow> int" where
  "seconds n = n * 1000000"

definition insert_reservation ::
  "uuid \<Rightarrow> uuid \<Rightarrow> uuid \<Rightarrow> int \<Rightarrow> timestamp \<Rightarrow> db \<Rightarrow> exc + db" where
  "insert_reservation oid wid pid q expiry d =
     (let (rid, d1) = gen_random_uuid d in
      bind_r
        (insert_row (reservation_spec d1)
          \<lparr>sr_id = rid, sr_order_id = oid, sr_warehouse_id = wid, sr_product_id = pid,
           sr_quantity = q, sr_status = Active, expires_at = expiry, released_at = None,
           sr_created_at = db_now d1\<rparr> (stock_reservations d1))
        (\<lambda>rows. Inr (d1\<lparr>stock_reservations := rows\<rparr>)))"

text \<open>
  One round of the loop of \<^verbatim>\<open>reserve_stock\<close>: the conditional UPDATE that tests and takes the
  stock, then the reservation row. The quantity is bound as an \<^verbatim>\<open>Integer\<close> parameter.
\<close>

definition reserve_one :: "int \<Rightarrow> uuid \<Rightarrow> uuid \<Rightarrow> requested_item \<Rightarrow> db \<Rightarrow> exc + db" where
  "reserve_one ttl oid wid it d =
     (if \<not> fits_int4 (quantity it) then Inl (DataError ''quantity'') else
      bind_r
        (update_rows (inventory_spec d)
          (\<lambda>i. inv_warehouse_id i = wid \<and> inv_product_id i = product_id it \<and>
               on_hand i - reserved i \<ge> quantity it)
          (\<lambda>i. i\<lparr>reserved := reserved i + quantity it, inv_updated_at := db_now d\<rparr>)
          (inventory d))
        (\<lambda>(claimed, rows).
          if claimed = [] then
            Inl (DomainError (InsufficientStock (product_id it) (quantity it)))
          else insert_reservation oid wid (product_id it) (quantity it)
                 (db_now d + seconds ttl) (d\<lparr>inventory := rows\<rparr>)))"

definition reserve_stock ::
  "int \<Rightarrow> uuid \<Rightarrow> uuid \<Rightarrow> requested_item list \<Rightarrow> db \<Rightarrow> exc + (reservation_result \<times> db)" where
  "reserve_stock ttl oid wid items d =
     bind_r (fold_r (reserve_one ttl oid wid) (lock_order items wid) d)
       (\<lambda>d'. Inr (\<lparr>res_warehouse_id = wid,
                   res_items = map (\<lambda>i. \<lparr>res_product_id = product_id i,
                                          res_quantity = quantity i\<rparr>) (lock_order items wid)\<rparr>, d'))"

text \<open>The loop of \<^verbatim>\<open>_settle\<close>: give one released quantity back, or find the invariant broken.\<close>

definition hand_back :: "released_item \<Rightarrow> db \<Rightarrow> exc + db" where
  "hand_back it d =
     bind_r
       (update_rows (inventory_spec d)
         (\<lambda>i. inv_warehouse_id i = rel_warehouse_id it \<and> inv_product_id i = rel_product_id it \<and>
              reserved i \<ge> rel_quantity it)
         (\<lambda>i. i\<lparr>reserved := reserved i - rel_quantity it, inv_updated_at := db_now d\<rparr>)
         (inventory d))
       (\<lambda>(decremented, rows).
         if decremented = [] then Inl (RuntimeError ''inventory invariant violated'')
         else Inr (d\<lparr>inventory := rows\<rparr>))"

definition released_of :: "reservation_row \<Rightarrow> released_item" where
  "released_of r = \<lparr>rel_warehouse_id = sr_warehouse_id r, rel_product_id = sr_product_id r,
                    rel_quantity = sr_quantity r\<rparr>"

definition settle ::
  "(reservation_row \<Rightarrow> bool) \<Rightarrow> (reservation_row \<Rightarrow> reservation_row) \<Rightarrow> db \<Rightarrow>
     exc + (released_item list \<times> db)" where
  "settle claim_where claim_values d =
     bind_r (update_rows (reservation_spec d) claim_where claim_values (stock_reservations d))
       (\<lambda>(claimed, rows).
         let released = map released_of claimed in
         bind_r
           (fold_r hand_back
             (sort_key (\<lambda>r. (rel_warehouse_id r, rel_product_id r)) released)
             (d\<lparr>stock_reservations := rows\<rparr>))
           (\<lambda>d'. Inr (released, d')))"

definition stop_holding :: "reservation_status \<Rightarrow> timestamp \<Rightarrow> reservation_row \<Rightarrow> reservation_row" where
  "stop_holding st now r = r\<lparr>sr_status := st, released_at := Some now\<rparr>"

definition release_reservation :: "uuid \<Rightarrow> db \<Rightarrow> exc + (released_item list \<times> db)" where
  "release_reservation oid d =
     settle (\<lambda>r. sr_order_id r = oid \<and> sr_status r = Active) (stop_holding Released (db_now d)) d"

definition settle_for_order :: "uuid \<Rightarrow> reservation_status \<Rightarrow> db \<Rightarrow> exc + db" where
  "settle_for_order oid st d =
     bind_r
       (update_rows (reservation_spec d) (\<lambda>r. sr_order_id r = oid \<and> sr_status r = Active)
         (stop_holding st (db_now d)) (stock_reservations d))
       (\<lambda>(_, rows). Inr (d\<lparr>stock_reservations := rows\<rparr>))"

text \<open>
  The subquery of \<^verbatim>\<open>sweep_expired\<close>: the ids of at most \<open>batch\<close> active reservations past
  their expiry, the oldest expiry first.
\<close>

definition expired_ids :: "nat \<Rightarrow> db \<Rightarrow> uuid list" where
  "expired_ids batch d =
     map sr_id (take batch (sort_key expires_at
       (filter (\<lambda>r. sr_status r = Active \<and> expires_at r < db_now d) (stock_reservations d))))"

definition sweep_expired :: "nat \<Rightarrow> db \<Rightarrow> exc + (released_item list \<times> db)" where
  "sweep_expired batch d =
     settle (\<lambda>r. sr_status r = Active \<and> sr_id r \<in> set (expired_ids batch d))
       (stop_holding Expired (db_now d)) d"

section \<open>The ledger\<close>

abbreviation inv_key :: "inventory_row \<Rightarrow> uuid \<times> uuid" where
  "inv_key \<equiv> \<lambda>i. (inv_warehouse_id i, inv_product_id i)"

definition reserved_at :: "db \<Rightarrow> uuid \<Rightarrow> uuid \<Rightarrow> int" where
  "reserved_at d w p =
     sum_where reserved (\<lambda>i. inv_warehouse_id i = w \<and> inv_product_id i = p) (inventory d)"

definition holding :: "reservation_row \<Rightarrow> bool" where
  "holding r \<longleftrightarrow> sr_status r = Active \<or> sr_status r = Committed"

definition held :: "db \<Rightarrow> uuid \<Rightarrow> uuid \<Rightarrow> int" where
  "held d w p =
     sum_where sr_quantity (\<lambda>r. holding r \<and> sr_warehouse_id r = w \<and> sr_product_id r = p)
       (stock_reservations d)"

text \<open>Units an inventory row counts as reserved that no reservation accounts for.\<close>

definition unattributed :: "db \<Rightarrow> uuid \<Rightarrow> uuid \<Rightarrow> int" where
  "unattributed d w p = reserved_at d w p - held d w p"

definition ledger_ok :: "db \<Rightarrow> bool" where
  "ledger_ok d \<longleftrightarrow>
     table_ok (inventory_spec d) (inventory d) \<and>
     table_ok (reservation_spec d) (stock_reservations d) \<and>
     list_all (\<lambda>r. held d (sr_warehouse_id r) (sr_product_id r) \<le>
                   reserved_at d (sr_warehouse_id r) (sr_product_id r)) (stock_reservations d)"

definition inventory_bounds :: "db \<Rightarrow> bool" where
  "inventory_bounds d \<longleftrightarrow>
     list_all (\<lambda>i. 0 \<le> reserved i \<and> reserved i \<le> on_hand i) (inventory d)"

lemma inventory_row_ok:
  "row_ok (inventory_spec d) i \<longleftrightarrow>
     fits_int4 (on_hand i) \<and> fits_int4 (reserved i) \<and> 0 \<le> reserved i \<and> reserved i \<le> on_hand i \<and>
     inv_warehouse_id i \<in> wh_id ` set (warehouses d) \<and>
     inv_product_id i \<in> pr_id ` set (products d)"
  by (auto simp: row_ok_def inventory_spec_def)

lemma reservation_row_ok:
  "row_ok (reservation_spec d) r \<longleftrightarrow>
     fits_int4 (sr_quantity r) \<and> 0 < sr_quantity r \<and>
     (sr_status r = Active \<or> released_at r \<noteq> None) \<and>
     sr_order_id r \<in> o_id ` set (orders d) \<and> sr_warehouse_id r \<in> wh_id ` set (warehouses d) \<and>
     sr_product_id r \<in> pr_id ` set (products d)"
  by (auto simp: row_ok_def reservation_spec_def)

lemma table_ok_bounds: "table_ok (inventory_spec d) (inventory d) \<Longrightarrow> inventory_bounds d"
  by (auto simp: table_ok_def inventory_bounds_def list_all_iff inventory_row_ok)

lemma inventory_keys_distinct:
  "table_ok (inventory_spec d) (inventory d) \<Longrightarrow> distinct (map inv_key (inventory d))"
  by (erule table_ok_distinct [where n = "''uq_inventory_warehouse_product''"])
    (simp add: inventory_spec_def)

lemma reserved_at_nonneg: "inventory_bounds d \<Longrightarrow> 0 \<le> reserved_at d w p"
  unfolding reserved_at_def
  by (rule sum_where_nonneg) (auto simp: inventory_bounds_def list_all_iff)

lemma reserved_at_row:
  assumes "distinct (map inv_key (inventory d))" and "i \<in> set (inventory d)"
  shows "reserved_at d (inv_warehouse_id i) (inv_product_id i) = reserved i"
proof -
  obtain xs ys where s: "inventory d = xs @ i # ys"
    using assms(2) by (auto simp: in_set_conv_decomp)
  with assms(1) have no: "\<forall>x \<in> set xs. inv_key x \<noteq> inv_key i" "\<forall>x \<in> set ys. inv_key x \<noteq> inv_key i"
    by (auto simp: rev_image_eqI)
  then show ?thesis
    unfolding reserved_at_def s by (subst sum_where_simps(3)) (simp add: sum_where_none)
qed

lemma ledger_ok_iff:
  "ledger_ok d \<longleftrightarrow>
     table_ok (inventory_spec d) (inventory d) \<and>
     table_ok (reservation_spec d) (stock_reservations d) \<and>
     (\<forall>w p. held d w p \<le> reserved_at d w p)"
proof -
  have "held d w p \<le> reserved_at d w p"
    if "table_ok (inventory_spec d) (inventory d)"
      and all: "\<forall>r \<in> set (stock_reservations d).
        held d (sr_warehouse_id r) (sr_product_id r) \<le> reserved_at d (sr_warehouse_id r) (sr_product_id r)"
    for w p
  proof (cases "\<exists>r \<in> set (stock_reservations d). sr_warehouse_id r = w \<and> sr_product_id r = p")
    case True
    with all show ?thesis by auto
  next
    case False
    then have "held d w p = 0" unfolding held_def by (intro sum_where_none) auto
    then show ?thesis using reserved_at_nonneg [OF table_ok_bounds [OF that(1)]] by simp
  qed
  then show ?thesis unfolding ledger_ok_def list_all_iff by blast
qed

lemma ledger_ok_unattributed:
  "ledger_ok d \<longleftrightarrow>
     table_ok (inventory_spec d) (inventory d) \<and>
     table_ok (reservation_spec d) (stock_reservations d) \<and> (\<forall>w p. 0 \<le> unattributed d w p)"
  by (auto simp: ledger_ok_iff unattributed_def)

section \<open>One conditional UPDATE of inventory\<close>

text \<open>
  Both loops write at most one row, the one with the pair's key, and only its \<^verbatim>\<open>reserved\<close>.
\<close>

lemma reserved_at_adjust:
  assumes "distinct (map inv_key (inventory d))" and "i \<in> set (inventory d)" and "c i"
    and c: "\<And>x. c x \<Longrightarrow> inv_warehouse_id x = w \<and> inv_product_id x = p"
    and f: "\<And>x. inv_warehouse_id (f x) = inv_warehouse_id x"
      "\<And>x. inv_product_id (f x) = inv_product_id x" "\<And>x. reserved (f x) = reserved x + \<delta>"
    and d': "inventory d' = upd c f (inventory d)"
  shows "reserved_at d' w' p' = reserved_at d w' p' + (if w' = w \<and> p' = p then \<delta> else 0)"
proof (cases "w' = w \<and> p' = p")
  case True
  have "sum_where reserved (\<lambda>i. inv_warehouse_id i = w \<and> inv_product_id i = p) (upd c f (inventory d)) =
      sum_where reserved (\<lambda>i. inv_warehouse_id i = w \<and> inv_product_id i = p) (inventory d) + \<delta>"
    using c f by (intro sum_where_upd_one [where k = inv_key and r = i])
      (auto simp: c [OF assms(3)] assms(1-3))
  with True show ?thesis by (simp add: reserved_at_def d')
next
  case False
  then have "sum_where reserved (\<lambda>i. inv_warehouse_id i = w' \<and> inv_product_id i = p') (upd c f (inventory d))
      = sum_where reserved (\<lambda>i. inv_warehouse_id i = w' \<and> inv_product_id i = p') (inventory d)"
    unfolding sum_where_def
    by (subst filter_upd_disjoint) (use c f False in auto)
  with False show ?thesis unfolding reserved_at_def d' by auto
qed

lemma map_upd_keys:
  "(\<And>x. inv_warehouse_id (f x) = inv_warehouse_id x) \<Longrightarrow>
   (\<And>x. inv_product_id (f x) = inv_product_id x) \<Longrightarrow>
     map inv_key (upd c f rows) = map inv_key rows"
  by (rule map_upd) simp

section \<open>The effect of reserving\<close>

definition new_reservation ::
  "uuid \<Rightarrow> uuid \<Rightarrow> requested_item \<Rightarrow> timestamp \<Rightarrow> db \<Rightarrow> reservation_row" where
  "new_reservation oid wid it expiry d =
     \<lparr>sr_id = uuid_seq d (uuid_pos d), sr_order_id = oid, sr_warehouse_id = wid,
      sr_product_id = product_id it, sr_quantity = quantity it, sr_status = Active,
      expires_at = expiry, released_at = None, sr_created_at = db_now d\<rparr>"

definition take_stock :: "uuid \<Rightarrow> requested_item \<Rightarrow> db \<Rightarrow> inventory_row list" where
  "take_stock wid it d =
     upd (\<lambda>i. inv_warehouse_id i = wid \<and> inv_product_id i = product_id it \<and>
              on_hand i - reserved i \<ge> quantity it)
       (\<lambda>i. i\<lparr>reserved := reserved i + quantity it, inv_updated_at := db_now d\<rparr>) (inventory d)"

lemma reserve_one_Inr:
  "reserve_one ttl oid wid it d = Inr d' \<longleftrightarrow>
     fits_int4 (quantity it) \<and>
     (\<exists>i \<in> set (inventory d). inv_warehouse_id i = wid \<and> inv_product_id i = product_id it \<and>
        on_hand i - reserved i \<ge> quantity it) \<and>
     update_rows (inventory_spec d)
       (\<lambda>i. inv_warehouse_id i = wid \<and> inv_product_id i = product_id it \<and>
            on_hand i - reserved i \<ge> quantity it)
       (\<lambda>i. i\<lparr>reserved := reserved i + quantity it, inv_updated_at := db_now d\<rparr>) (inventory d) =
       Inr (map (\<lambda>i. i\<lparr>reserved := reserved i + quantity it, inv_updated_at := db_now d\<rparr>)
              (filter (\<lambda>i. inv_warehouse_id i = wid \<and> inv_product_id i = product_id it \<and>
                 on_hand i - reserved i \<ge> quantity it) (inventory d)), take_stock wid it d) \<and>
     row_ok (reservation_spec d) (new_reservation oid wid it (db_now d + seconds ttl) d) \<and>
     conflict (uniques (reservation_spec d))
       (new_reservation oid wid it (db_now d + seconds ttl) d) (stock_reservations d) = None \<and>
     d' = d\<lparr>inventory := take_stock wid it d,
            stock_reservations := stock_reservations d @
              [new_reservation oid wid it (db_now d + seconds ttl) d],
            uuid_pos := Suc (uuid_pos d)\<rparr>"
  by (auto simp: reserve_one_def bind_r_Inr update_rows_Inr insert_reservation_def
      gen_random_uuid_def insert_row_Inr take_stock_def new_reservation_def filter_empty_conv
      split: if_splits)

lemma reserve_one_effect:
  assumes "reserve_one ttl oid wid it d = Inr d'" and "ledger_ok d"
  shows "ledger_ok d'"
    and "reserved_at d' w p =
           reserved_at d w p + (if w = wid \<and> p = product_id it then quantity it else 0)"
    and "unattributed d' w p = unattributed d w p"
proof -
  note r = assms(1) [unfolded reserve_one_Inr]
  have inv: "table_ok (inventory_spec d) (inventory d)"
    and srs: "table_ok (reservation_spec d) (stock_reservations d)"
    and pos: "\<And>w p. 0 \<le> unattributed d w p"
    using assms(2) by (auto simp: ledger_ok_unattributed)
  from r obtain i where i: "i \<in> set (inventory d)" "inv_warehouse_id i = wid"
    "inv_product_id i = product_id it" "on_hand i - reserved i \<ge> quantity it" by blast
  have d': "d' = d\<lparr>inventory := take_stock wid it d,
      stock_reservations := stock_reservations d @
        [new_reservation oid wid it (db_now d + seconds ttl) d],
      uuid_pos := Suc (uuid_pos d)\<rparr>" using r by blast
  have res: "reserved_at d' w p =
      reserved_at d w p + (if w = wid \<and> p = product_id it then quantity it else 0)" for w p
    by (rule reserved_at_adjust [OF inventory_keys_distinct [OF inv] i(1), where
          c = "\<lambda>i. inv_warehouse_id i = wid \<and> inv_product_id i = product_id it \<and>
              on_hand i - reserved i \<ge> quantity it" and
          f = "\<lambda>i. i\<lparr>reserved := reserved i + quantity it, inv_updated_at := db_now d\<rparr>"])
      (use i in \<open>auto simp: d' take_stock_def\<close>)
  have held: "held d' w p =
      held d w p + (if w = wid \<and> p = product_id it then quantity it else 0)" for w p
    unfolding held_def d' by (auto simp: new_reservation_def holding_def)
  have un: "unattributed d' w p = unattributed d w p" for w p
    by (simp add: unattributed_def res held)
  show "reserved_at d' w p =
      reserved_at d w p + (if w = wid \<and> p = product_id it then quantity it else 0)"
    and "unattributed d' w p = unattributed d w p" by (rule res, rule un)
  obtain c f ret where "update_rows (inventory_spec d) c f (inventory d) = Inr (ret, take_stock wid it d)"
    using r by blast
  then have "table_ok (inventory_spec d) (take_stock wid it d)"
    by (rule update_rows_table_ok [OF _ inv])
  then have "table_ok (inventory_spec d') (inventory d')" unfolding d' by simp
  moreover have "table_ok (reservation_spec d') (stock_reservations d')"
  proof -
    have "insert_row (reservation_spec d) (new_reservation oid wid it (db_now d + seconds ttl) d)
        (stock_reservations d) = Inr (stock_reservations d')"
      using r unfolding d' by (simp add: insert_row_Inr)
    moreover have "sym_uniques (uniques (reservation_spec d))"
      by (auto simp: sym_uniques_def reservation_spec_def)
    ultimately have "table_ok (reservation_spec d) (stock_reservations d')"
      using srs by (blast intro: insert_row_table_ok)
    then show ?thesis unfolding d' by simp
  qed
  ultimately show "ledger_ok d'" using pos un by (simp add: ledger_ok_unattributed)
qed

text \<open>What the whole loop appends and how it moves the counters.\<close>

definition reservation_content ::
  "reservation_row \<Rightarrow> uuid \<times> uuid \<times> uuid \<times> int \<times> reservation_status \<times> timestamp" where
  "reservation_content r = (sr_order_id r, sr_warehouse_id r, sr_product_id r, sr_quantity r,
     sr_status r, expires_at r)"

definition requested_units :: "requested_item list \<Rightarrow> uuid \<Rightarrow> int" where
  "requested_units items p = sum_where quantity (\<lambda>i. product_id i = p) items"

lemma requested_units_mset:
  "mset xs = mset ys \<Longrightarrow> requested_units xs p = requested_units ys p"
  unfolding requested_units_def by (rule sum_where_mset)

lemma mset_lock_order [simp]: "mset (lock_order items wid) = mset items"
  by (simp add: lock_order_def)

lemma set_lock_order [simp]: "set (lock_order items wid) = set items"
  by (simp add: lock_order_def)

lemma lock_order_sorted: "sorted (map product_id (lock_order items wid))"
proof -
  have "sorted (map (\<lambda>i. (wid, product_id i)) (lock_order items wid))"
    unfolding lock_order_def by (rule sorted_sort_key)
  then show ?thesis by (simp add: sorted_map sorted_wrt_iff_nth_less)
qed

text \<open>
  What the operations of this component may write: \<^verbatim>\<open>reserved\<close> of existing inventory rows, and
  the reservations.
\<close>

definition only_stock :: "db \<Rightarrow> db \<Rightarrow> bool" where
  "only_stock d d' \<longleftrightarrow>
     (\<exists>rows srs n. d' = d\<lparr>inventory := rows, stock_reservations := srs, uuid_pos := n\<rparr> \<and>
        map inv_key rows = map inv_key (inventory d) \<and> map on_hand rows = map on_hand (inventory d) \<and>
        map inv_id rows = map inv_id (inventory d))"

lemma only_stockI:
  "d' = d\<lparr>inventory := rows, stock_reservations := srs, uuid_pos := n\<rparr> \<Longrightarrow>
   map inv_key rows = map inv_key (inventory d) \<Longrightarrow> map on_hand rows = map on_hand (inventory d) \<Longrightarrow>
   map inv_id rows = map inv_id (inventory d) \<Longrightarrow> only_stock d d'"
  unfolding only_stock_def by blast

lemma only_stock_refl: "only_stock d d"
  by (rule only_stockI [where rows = "inventory d" and srs = "stock_reservations d" and
        n = "uuid_pos d"]) simp_all

lemma only_stock_trans:
  assumes "only_stock d d'" and "only_stock d' d''"
  shows "only_stock d d''"
proof -
  from assms(1) obtain rows srs n where a:
    "d' = d\<lparr>inventory := rows, stock_reservations := srs, uuid_pos := n\<rparr>"
    "map inv_key rows = map inv_key (inventory d)" "map on_hand rows = map on_hand (inventory d)"
    "map inv_id rows = map inv_id (inventory d)"
    unfolding only_stock_def by blast
  from assms(2) obtain rows' srs' n' where b:
    "d'' = d'\<lparr>inventory := rows', stock_reservations := srs', uuid_pos := n'\<rparr>"
    "map inv_key rows' = map inv_key (inventory d')" "map on_hand rows' = map on_hand (inventory d')"
    "map inv_id rows' = map inv_id (inventory d')"
    unfolding only_stock_def by blast
  show ?thesis
    by (rule only_stockI [where rows = rows' and srs = srs' and n = n']) (simp_all add: a b)
qed

lemma only_stock_frame [frame_simps]:
  assumes "only_stock d d'"
  shows "customers d' = customers d" "products d' = products d" "warehouses d' = warehouses d"
    "addresses d' = addresses d" "orders d' = orders d" "order_items d' = order_items d"
    "order_status_history d' = order_status_history d" "payments d' = payments d"
    "idempotency_keys d' = idempotency_keys d" "outbox d' = outbox d" "db_now d' = db_now d"
    "uuid_seq d' = uuid_seq d" "map inv_key (inventory d') = map inv_key (inventory d)"
    "map on_hand (inventory d') = map on_hand (inventory d)"
    "map inv_id (inventory d') = map inv_id (inventory d)"
  using assms unfolding only_stock_def by auto

lemma reserve_one_only_stock: "reserve_one ttl oid wid it d = Inr d' \<Longrightarrow> only_stock d d'"
  unfolding reserve_one_Inr
  by (rule only_stockI [where rows = "take_stock wid it d"]) (auto simp: take_stock_def intro!: map_upd)

lemma reserve_loop_effect:
  assumes "fold_r (reserve_one ttl oid wid) items d = Inr d'" and "ledger_ok d"
  shows "ledger_ok d' \<and> only_stock d d' \<and>
    (\<forall>w p. reserved_at d' w p =
       reserved_at d w p + (if w = wid then requested_units items p else 0)) \<and>
    (\<forall>w p. unattributed d' w p = unattributed d w p) \<and>
    (\<exists>new. stock_reservations d' = stock_reservations d @ new \<and>
       map reservation_content new =
         map (\<lambda>i. (oid, wid, product_id i, quantity i, Active, db_now d + seconds ttl)) items)"
  using assms
proof (induction items arbitrary: d)
  case Nil
  then show ?case by (simp add: only_stock_refl requested_units_def)
next
  case (Cons it items)
  from Cons.prems(1) obtain d1 where
    d1: "reserve_one ttl oid wid it d = Inr d1" "fold_r (reserve_one ttl oid wid) items d1 = Inr d'"
    by (auto simp: bind_r_Inr)
  note one = reserve_one_effect [OF d1(1) Cons.prems(2)]
  have fr: "only_stock d d1" by (rule reserve_one_only_stock [OF d1(1)])
  have new1: "stock_reservations d1 =
      stock_reservations d @ [new_reservation oid wid it (db_now d + seconds ttl) d]"
    using d1(1) unfolding reserve_one_Inr by simp
  from Cons.IH [OF d1(2) one(1)] obtain new where IH: "ledger_ok d'" "only_stock d1 d'"
    "\<forall>w p. reserved_at d' w p = reserved_at d1 w p + (if w = wid then requested_units items p else 0)"
    "\<forall>w p. unattributed d' w p = unattributed d1 w p"
    "stock_reservations d' = stock_reservations d1 @ new"
    "map reservation_content new =
       map (\<lambda>i. (oid, wid, product_id i, quantity i, Active, db_now d1 + seconds ttl)) items"
    by blast
  have "\<exists>new. stock_reservations d' = stock_reservations d @ new \<and>
       map reservation_content new =
         map (\<lambda>i. (oid, wid, product_id i, quantity i, Active, db_now d + seconds ttl)) (it # items)"
    by (rule exI [of _ "new_reservation oid wid it (db_now d + seconds ttl) d # new"])
      (simp add: IH(5,6) new1 only_stock_frame(11) [OF fr] reservation_content_def new_reservation_def)
  moreover have "\<forall>w p. reserved_at d' w p =
      reserved_at d w p + (if w = wid then requested_units (it # items) p else 0)"
    by (auto simp: IH(3) one(2) requested_units_def)
  ultimately show ?case
    using IH(1,2,4) one(3) only_stock_trans [OF fr] by auto
qed

lemma reserve_stock_effect:
  assumes "reserve_stock ttl oid wid items d = Inr (res, d')" and "ledger_ok d"
  shows "ledger_ok d'" and "only_stock d d'"
    and "reserved_at d' w p =
           reserved_at d w p + (if w = wid then requested_units items p else 0)"
    and "unattributed d' w p = unattributed d w p"
    and "\<exists>new. stock_reservations d' = stock_reservations d @ new \<and>
           map reservation_content new =
             map (\<lambda>i. (oid, wid, product_id i, quantity i, Active, db_now d + seconds ttl))
               (lock_order items wid)"
proof -
  from assms(1) have loop: "fold_r (reserve_one ttl oid wid) (lock_order items wid) d = Inr d'"
    by (auto simp: reserve_stock_def bind_r_Inr)
  note e = reserve_loop_effect [OF loop assms(2)]
  have "requested_units (lock_order items wid) p = requested_units items p"
    by (rule requested_units_mset) simp
  with e show "ledger_ok d'" and "only_stock d d'"
    and "reserved_at d' w p =
           reserved_at d w p + (if w = wid then requested_units items p else 0)"
    and "unattributed d' w p = unattributed d w p"
    and "\<exists>new. stock_reservations d' = stock_reservations d @ new \<and>
           map reservation_content new =
             map (\<lambda>i. (oid, wid, product_id i, quantity i, Active, db_now d + seconds ttl))
               (lock_order items wid)" by auto
qed

section \<open>The effect of settling\<close>

definition give_stock :: "released_item \<Rightarrow> db \<Rightarrow> inventory_row list" where
  "give_stock it d =
     upd (\<lambda>i. inv_warehouse_id i = rel_warehouse_id it \<and> inv_product_id i = rel_product_id it \<and>
              reserved i \<ge> rel_quantity it)
       (\<lambda>i. i\<lparr>reserved := reserved i - rel_quantity it, inv_updated_at := db_now d\<rparr>) (inventory d)"

definition released_units :: "released_item list \<Rightarrow> uuid \<Rightarrow> uuid \<Rightarrow> int" where
  "released_units items w p =
     sum_where rel_quantity (\<lambda>r. rel_warehouse_id r = w \<and> rel_product_id r = p) items"

lemma released_units_mset:
  "mset xs = mset ys \<Longrightarrow> released_units xs w p = released_units ys w p"
  unfolding released_units_def by (rule sum_where_mset)

lemma hand_back_Inr:
  assumes "hand_back it d = Inr d'" and "table_ok (inventory_spec d) (inventory d)"
  shows "d' = d\<lparr>inventory := give_stock it d\<rparr>" and "only_stock d d'"
    and "table_ok (inventory_spec d') (inventory d')"
    and "reserved_at d' w p = reserved_at d w p - released_units [it] w p"
proof -
  let ?c = "\<lambda>i. inv_warehouse_id i = rel_warehouse_id it \<and> inv_product_id i = rel_product_id it \<and>
            reserved i \<ge> rel_quantity it"
  let ?f = "\<lambda>i. i\<lparr>reserved := reserved i - rel_quantity it, inv_updated_at := db_now d\<rparr>"
  from assms(1) obtain ret rows where
    u0: "update_rows (inventory_spec d) ?c ?f (inventory d) = Inr (ret, rows)" "ret \<noteq> []"
      "d' = d\<lparr>inventory := rows\<rparr>"
    unfolding hand_back_def bind_r_Inr by (auto split: if_split_asm)
  then have rows: "rows = give_stock it d" and ret: "ret = map ?f (filter ?c (inventory d))"
    unfolding update_rows_Inr give_stock_def by blast+
  note u = u0(1) [unfolded rows]
  have d': "d' = d\<lparr>inventory := give_stock it d\<rparr>" using u0(3) rows by simp
  have ex: "\<exists>i \<in> set (inventory d). ?c i"
    using u0(2) ret by (auto simp: filter_empty_conv)
  show "d' = d\<lparr>inventory := give_stock it d\<rparr>" by (rule d')
  show "only_stock d d'"
    by (rule only_stockI [where rows = "give_stock it d" and srs = "stock_reservations d" and
          n = "uuid_pos d"]) (auto simp: d' give_stock_def intro!: map_upd)
  show "table_ok (inventory_spec d') (inventory d')"
    using update_rows_table_ok [OF u assms(2)] by (simp add: d')
  from ex obtain i where i: "i \<in> set (inventory d)" "inv_warehouse_id i = rel_warehouse_id it"
    "inv_product_id i = rel_product_id it" "reserved i \<ge> rel_quantity it" by blast
  have "reserved_at d' w p = reserved_at d w p +
      (if w = rel_warehouse_id it \<and> p = rel_product_id it then - rel_quantity it else 0)"
    by (rule reserved_at_adjust [OF inventory_keys_distinct [OF assms(2)] i(1), where
          c = "\<lambda>i. inv_warehouse_id i = rel_warehouse_id it \<and> inv_product_id i = rel_product_id it \<and>
            reserved i \<ge> rel_quantity it" and
          f = "\<lambda>i. i\<lparr>reserved := reserved i - rel_quantity it, inv_updated_at := db_now d\<rparr>"])
      (use i in \<open>auto simp: d' give_stock_def\<close>)
  then show "reserved_at d' w p = reserved_at d w p - released_units [it] w p"
    by (auto simp: released_units_def)
qed

end
