(* ===== verification/Ledger.thy ===== *)
theory Ledger
  imports Reservations
begin

text \<open>
  What \<^verbatim>\<open>ReservationRepository\<close> guarantees, over whole operations: releasing and sweeping
  return exactly the claimed units, never find the ledger broken, and are no-ops the second time;
  confirming keeps every counter. The interface \<open>stock_operation\<close> collects what every writer of the
  pair promises.
\<close>

section \<open>The loop of \<open>settle\<close>\<close>

lemma hand_back_loop:
  assumes "fold_r hand_back items d = Inr d'" and "table_ok (inventory_spec d) (inventory d)"
  shows "(\<exists>rows. d' = d\<lparr>inventory := rows\<rparr>) \<and> only_stock d d' \<and>
    table_ok (inventory_spec d') (inventory d') \<and>
    (\<forall>w p. reserved_at d' w p = reserved_at d w p - released_units items w p)"
  using assms
proof (induction items arbitrary: d)
  case Nil
  have "\<exists>rows. d = d\<lparr>inventory := rows\<rparr>" by (rule exI [of _ "inventory d"]) simp
  with Nil show ?case by (simp add: only_stock_refl released_units_def)
next
  case (Cons it items)
  from Cons.prems(1) obtain d1 where d1: "hand_back it d = Inr d1" "fold_r hand_back items d1 = Inr d'"
    by (auto simp: bind_r_Inr)
  note one = hand_back_Inr [OF d1(1) Cons.prems(2)]
  from Cons.IH [OF d1(2) one(3)] obtain rows where IH: "d' = d1\<lparr>inventory := rows\<rparr>" "only_stock d1 d'"
    "table_ok (inventory_spec d') (inventory d')"
    "\<forall>w p. reserved_at d' w p = reserved_at d1 w p - released_units items w p" by blast
  have "d' = d\<lparr>inventory := rows\<rparr>" using IH(1) one(1) by simp
  moreover have "\<forall>w p. reserved_at d' w p = reserved_at d w p - released_units (it # items) w p"
    using IH(4) one(4) by (auto simp: released_units_def)
  ultimately show ?case using IH(2,3) only_stock_trans [OF one(2)] by blast
qed

lemma hand_back_succeeds:
  assumes "table_ok (inventory_spec d) (inventory d)" and "0 < rel_quantity it"
    and "rel_quantity it \<le> reserved_at d (rel_warehouse_id it) (rel_product_id it)"
  shows "\<exists>d'. hand_back it d = Inr d'"
proof -
  let ?c = "\<lambda>i. inv_warehouse_id i = rel_warehouse_id it \<and> inv_product_id i = rel_product_id it \<and>
            reserved i \<ge> rel_quantity it"
  let ?f = "\<lambda>i. i\<lparr>reserved := reserved i - rel_quantity it, inv_updated_at := db_now d\<rparr>"
  have "\<exists>i \<in> set (inventory d). inv_warehouse_id i = rel_warehouse_id it \<and>
      inv_product_id i = rel_product_id it"
  proof (rule ccontr)
    assume "\<not> ?thesis"
    then have "reserved_at d (rel_warehouse_id it) (rel_product_id it) = 0"
      unfolding reserved_at_def by (intro sum_where_none) auto
    with assms(2,3) show False by simp
  qed
  then obtain i where i: "i \<in> set (inventory d)" "inv_warehouse_id i = rel_warehouse_id it"
    "inv_product_id i = rel_product_id it" by blast
  have "reserved i = reserved_at d (rel_warehouse_id it) (rel_product_id it)"
    using reserved_at_row [OF inventory_keys_distinct [OF assms(1)] i(1)] i(2,3) by simp
  with i assms(3) have ne: "filter ?c (inventory d) \<noteq> []" by (auto simp: filter_empty_conv)
  have "update_rows (inventory_spec d) ?c ?f (inventory d) =
      Inr (map ?f (filter ?c (inventory d)), upd ?c ?f (inventory d))"
  proof (rule update_rows_succeeds [OF assms(1)])
    fix r assume r: "r \<in> set (inventory d)" "?c r"
    then have "row_ok (inventory_spec d) r" using assms(1) by (simp add: table_ok_def list_all_iff)
    with r(2) assms(2) show "row_ok (inventory_spec d) (?f r)"
      by (simp add: inventory_row_ok fits_int4_def)
  next
    fix u a b assume "u \<in> set (uniques (inventory_spec d))"
      "snd u (if ?c a then ?f a else a) (if ?c b then ?f b else b)"
    then show "snd u a b" by (auto simp: inventory_spec_def split: if_splits)
  qed
  with ne show ?thesis unfolding hand_back_def by simp
qed

lemma hand_back_loop_succeeds:
  assumes "table_ok (inventory_spec d) (inventory d)" and "\<forall>it \<in> set items. 0 < rel_quantity it"
    and "\<forall>w p. released_units items w p \<le> reserved_at d w p"
  shows "\<exists>d'. fold_r hand_back items d = Inr d'"
  using assms
proof (induction items arbitrary: d)
  case (Cons it items)
  have nn: "0 \<le> released_units items w p" for w p
    unfolding released_units_def by (rule sum_where_nonneg) (use Cons.prems(2) in \<open>force\<close>)
  have "rel_quantity it \<le> released_units (it # items) (rel_warehouse_id it) (rel_product_id it)"
    using nn by (simp add: released_units_def)
  then obtain d1 where d1: "hand_back it d = Inr d1"
    using hand_back_succeeds [OF Cons.prems(1), of it] Cons.prems(2,3) by (metis list.set_intros(1) order_trans)
  note one = hand_back_Inr [OF d1 Cons.prems(1)]
  have "released_units items w p \<le> reserved_at d1 w p" for w p
    using Cons.prems(3) [rule_format, of w p] one(4) [of w p] by (simp add: released_units_def)
  then obtain d' where "fold_r hand_back items d1 = Inr d'" using Cons.IH [OF one(3)] Cons.prems(2) by auto
  with d1 show ?case by simp
qed simp

section \<open>\<open>settle\<close> with a status that stops holding\<close>

lemma stop_holding_simps [simp]:
  "sr_id (stop_holding st t r) = sr_id r"
  "sr_order_id (stop_holding st t r) = sr_order_id r"
  "sr_warehouse_id (stop_holding st t r) = sr_warehouse_id r"
  "sr_product_id (stop_holding st t r) = sr_product_id r"
  "sr_quantity (stop_holding st t r) = sr_quantity r"
  "sr_status (stop_holding st t r) = st"
  "released_at (stop_holding st t r) = Some t"
  "expires_at (stop_holding st t r) = expires_at r"
  by (simp_all add: stop_holding_def)

lemma released_of_simps [simp]:
  "rel_warehouse_id (released_of r) = sr_warehouse_id r"
  "rel_product_id (released_of r) = sr_product_id r"
  "rel_quantity (released_of r) = sr_quantity r"
  by (simp_all add: released_of_def)

lemma released_of_stop_holding [simp]: "released_of (stop_holding st t r) = released_of r"
  by (simp add: released_of_def)

lemma update_reservations_succeeds:
  assumes "table_ok (reservation_spec d) (stock_reservations d)"
  shows "update_rows (reservation_spec d) c (stop_holding st t) (stock_reservations d) =
     Inr (map (stop_holding st t) (filter c (stock_reservations d)),
          upd c (stop_holding st t) (stock_reservations d))"
proof (rule update_rows_succeeds [OF assms])
  fix r assume "r \<in> set (stock_reservations d)"
  then show "row_ok (reservation_spec d) (stop_holding st t r)"
    using assms by (auto simp: table_ok_def list_all_iff reservation_row_ok)
next
  fix u a b assume "u \<in> set (uniques (reservation_spec d))"
    "snd u (if c a then stop_holding st t a else a) (if c b then stop_holding st t b else b)"
  then show "snd u a b" by (auto simp: reservation_spec_def split: if_splits)
qed

text \<open>The units the claim takes out of \<open>held\<close> are the units it reports as released.\<close>

lemma held_after_claim:
  assumes "\<And>r. c r \<Longrightarrow> holding r" and "\<not> holding (stop_holding st t undefined)"
    and "stock_reservations d' = upd c (stop_holding st t) (stock_reservations d)"
  shows "held d' w p = held d w p -
      released_units (map released_of (filter c (stock_reservations d))) w p"
proof -
  have n: "\<not> holding (stop_holding st t r)" for r
    using assms(2) by (simp add: holding_def)
  have "sum_where sr_quantity (\<lambda>r. holding r \<and> sr_warehouse_id r = w \<and> sr_product_id r = p)
      (upd c (stop_holding st t) rows) =
    sum_where sr_quantity (\<lambda>r. holding r \<and> sr_warehouse_id r = w \<and> sr_product_id r = p) rows -
    released_units (map released_of (filter c rows)) w p" for rows
    by (induction rows) (auto simp: n assms(1) released_units_def)
  with assms(3) show ?thesis by (simp add: held_def)
qed

definition claims_active :: "(reservation_row \<Rightarrow> bool) \<Rightarrow> bool" where
  "claims_active c \<longleftrightarrow> (\<forall>r. c r \<longrightarrow> sr_status r = Active)"

lemma claimed_units_le_held:
  assumes "claims_active c" and "table_ok (reservation_spec d) (stock_reservations d)"
  shows "released_units (map released_of (filter c (stock_reservations d))) w p \<le> held d w p"
proof -
  have "\<forall>r \<in> set rows. 0 < sr_quantity r \<Longrightarrow>
     released_units (map released_of (filter c rows)) w p \<le>
     sum_where sr_quantity (\<lambda>r. holding r \<and> sr_warehouse_id r = w \<and> sr_product_id r = p) rows" for rows
    using assms(1) by (induction rows) (auto simp: released_units_def holding_def claims_active_def)
  with assms(2) show ?thesis
    by (auto simp: held_def table_ok_def list_all_iff reservation_row_ok)
qed

lemma settle_effect:
  assumes "settle c (stop_holding st t) d = Inr (rel, d')" and "ledger_ok d"
    and "claims_active c" and st: "st = Released \<or> st = Expired"
  shows "rel = map released_of (filter c (stock_reservations d))"
    and "stock_reservations d' = upd c (stop_holding st t) (stock_reservations d)"
    and "ledger_ok d'" and "only_stock d d'" and "uuid_pos d' = uuid_pos d"
    and "reserved_at d' w p = reserved_at d w p - released_units rel w p"
    and "unattributed d' w p = unattributed d w p"
proof -
  have inv: "table_ok (inventory_spec d) (inventory d)"
    and srs: "table_ok (reservation_spec d) (stock_reservations d)"
    and un: "\<And>w p. 0 \<le> unattributed d w p" using assms(2) by (auto simp: ledger_ok_unattributed)
  let ?rows = "upd c (stop_holding st t) (stock_reservations d)"
  let ?rel = "map released_of (filter c (stock_reservations d))"
  let ?d1 = "d\<lparr>stock_reservations := ?rows\<rparr>"
  have u: "update_rows (reservation_spec d) c (stop_holding st t) (stock_reservations d) =
      Inr (map (stop_holding st t) (filter c (stock_reservations d)), ?rows)"
    by (rule update_reservations_succeeds [OF srs])
  with assms(1) have loop: "fold_r hand_back
      (sort_key (\<lambda>r. (rel_warehouse_id r, rel_product_id r)) ?rel) ?d1 = Inr d'"
    and rel: "rel = ?rel"
    unfolding settle_def by (auto simp: bind_r_Inr Let_def o_def)
  have "table_ok (inventory_spec ?d1) (inventory ?d1)" using inv by simp
  note l = hand_back_loop [OF loop this]
  have "released_units (sort_key (\<lambda>r. (rel_warehouse_id r, rel_product_id r)) ?rel) w p =
      released_units ?rel w p" for w p by (rule released_units_mset) simp
  with l have res: "\<And>w p. reserved_at d' w p = reserved_at d w p - released_units rel w p"
    by (simp add: rel reserved_at_def)
  from l have d'srs: "stock_reservations d' = ?rows" and pos: "uuid_pos d' = uuid_pos d" by auto
  have held: "held d' w p = held d w p - released_units rel w p" for w p
    unfolding rel by (rule held_after_claim [OF _ _ d'srs])
      (use assms(3) st in \<open>auto simp: claims_active_def holding_def\<close>)
  show "rel = ?rel" and "stock_reservations d' = ?rows" and "uuid_pos d' = uuid_pos d"
    by (fact rel, fact d'srs, fact pos)
  show "reserved_at d' w p = reserved_at d w p - released_units rel w p" by (rule res)
  have un': "unattributed d' w p = unattributed d w p" for w p
    by (simp add: unattributed_def res held)
  then show "unattributed d' w p = unattributed d w p" .
  have "only_stock d ?d1"
    by (rule only_stockI [where rows = "inventory d" and srs = ?rows and n = "uuid_pos d"]) simp_all
  then show fr: "only_stock d d'" using l only_stock_trans by blast
  have spec: "reservation_spec d' = reservation_spec d"
    using only_stock_frame [OF fr] by (intro spec_same_ids) simp_all
  have "table_ok (reservation_spec d) ?rows" by (rule update_rows_table_ok [OF u srs])
  then show "ledger_ok d'" using l un un' by (simp add: ledger_ok_unattributed d'srs spec)
qed

lemma settle_succeeds:
  assumes "ledger_ok d" and "claims_active c"
  shows "\<exists>rel d'. settle c (stop_holding st t) d = Inr (rel, d')"
proof -
  have inv: "table_ok (inventory_spec d) (inventory d)"
    and srs: "table_ok (reservation_spec d) (stock_reservations d)"
    and un: "\<And>w p. held d w p \<le> reserved_at d w p" using assms(1) by (auto simp: ledger_ok_iff)
  let ?rows = "upd c (stop_holding st t) (stock_reservations d)"
  let ?rel = "map released_of (filter c (stock_reservations d))"
  let ?sorted = "sort_key (\<lambda>r. (rel_warehouse_id r, rel_product_id r)) ?rel"
  let ?d1 = "d\<lparr>stock_reservations := ?rows\<rparr>"
  have "released_units ?sorted w p \<le> reserved_at ?d1 w p" for w p
    using claimed_units_le_held [OF assms(2) srs, of w p] un [of w p]
      released_units_mset [of ?sorted ?rel w p] by (simp add: reserved_at_def)
  moreover have "\<forall>it \<in> set ?sorted. 0 < rel_quantity it"
    using srs by (auto simp: table_ok_def list_all_iff reservation_row_ok)
  moreover have "table_ok (inventory_spec ?d1) (inventory ?d1)" using inv by simp
  ultimately obtain d' where "fold_r hand_back ?sorted ?d1 = Inr d'"
    using hand_back_loop_succeeds by blast
  then have "settle c (stop_holding st t) d = Inr (?rel, d')"
    unfolding settle_def by (simp add: update_reservations_succeeds [OF srs] Let_def o_def)
  then show ?thesis by blast
qed

section \<open>Release, sweep and confirm\<close>

lemma claims_active_simps [simp]:
  "claims_active (\<lambda>r. sr_order_id r = oid \<and> sr_status r = Active)"
  "claims_active (\<lambda>r. sr_status r = Active \<and> sr_id r \<in> S)"
  by (simp_all add: claims_active_def)

lemma release_effect:
  assumes "release_reservation oid d = Inr (rel, d')" and "ledger_ok d"
  shows "rel = map released_of
           (filter (\<lambda>r. sr_order_id r = oid \<and> sr_status r = Active) (stock_reservations d))"
    and "stock_reservations d' = upd (\<lambda>r. sr_order_id r = oid \<and> sr_status r = Active)
           (stop_holding Released (db_now d)) (stock_reservations d)"
    and "ledger_ok d'" and "only_stock d d'" and "uuid_pos d' = uuid_pos d"
    and "reserved_at d' w p = reserved_at d w p - released_units rel w p"
    and "unattributed d' w p = unattributed d w p"
  using settle_effect [OF assms(1) [unfolded release_reservation_def] assms(2)] by simp_all

lemma release_succeeds:
  "ledger_ok d \<Longrightarrow> \<exists>rel d'. release_reservation oid d = Inr (rel, d')"
  unfolding release_reservation_def by (rule settle_succeeds) simp_all

lemma sweep_effect:
  assumes "sweep_expired batch d = Inr (rel, d')" and "ledger_ok d"
  shows "rel = map released_of
           (filter (\<lambda>r. sr_status r = Active \<and> sr_id r \<in> set (expired_ids batch d)) (stock_reservations d))"
    and "stock_reservations d' = upd (\<lambda>r. sr_status r = Active \<and> sr_id r \<in> set (expired_ids batch d))
           (stop_holding Expired (db_now d)) (stock_reservations d)"
    and "ledger_ok d'" and "only_stock d d'" and "uuid_pos d' = uuid_pos d"
    and "reserved_at d' w p = reserved_at d w p - released_units rel w p"
    and "unattributed d' w p = unattributed d w p"
  using settle_effect [OF assms(1) [unfolded sweep_expired_def] assms(2)] by simp_all

lemma sweep_succeeds:
  "ledger_ok d \<Longrightarrow> \<exists>rel d'. sweep_expired batch d = Inr (rel, d')"
  unfolding sweep_expired_def by (rule settle_succeeds) simp_all

lemma settle_for_order_succeeds:
  assumes "ledger_ok d"
  shows "settle_for_order oid st d =
     Inr (d\<lparr>stock_reservations := upd (\<lambda>r. sr_order_id r = oid \<and> sr_status r = Active)
              (stop_holding st (db_now d)) (stock_reservations d)\<rparr>)"
  using assms by (simp add: settle_for_order_def update_reservations_succeeds ledger_ok_iff)

lemma settle_for_order_frame:
  "settle_for_order oid st d = Inr d' \<Longrightarrow>
     d' = d\<lparr>stock_reservations := upd (\<lambda>r. sr_order_id r = oid \<and> sr_status r = Active)
              (stop_holding st (db_now d)) (stock_reservations d)\<rparr>"
  by (auto simp: settle_for_order_def bind_r_Inr update_rows_Inr)

lemma commit_effect:
  assumes "settle_for_order oid Committed d = Inr d'" and "ledger_ok d"
  shows "ledger_ok d'" and "inventory d' = inventory d" and "held d' w p = held d w p"
    and "unattributed d' w p = unattributed d w p"
proof -
  let ?c = "\<lambda>r. sr_order_id r = oid \<and> sr_status r = Active"
  note d' = settle_for_order_frame [OF assms(1)]
  show inv: "inventory d' = inventory d" by (simp add: d')
  have h: "held d' w p = held d w p" for w p
    unfolding held_def d'
    by (simp, rule sum_where_upd_frame) (auto simp: holding_def)
  then show "held d' w p = held d w p" .
  have un: "unattributed d' w p = unattributed d w p" for w p
    unfolding unattributed_def h by (simp add: reserved_at_def inv)
  then show "unattributed d' w p = unattributed d w p" .
  have "table_ok (reservation_spec d) (stock_reservations d')"
    using assms(2) update_reservations_succeeds [THEN update_rows_table_ok, of d ?c Committed "db_now d"]
    by (simp add: d' ledger_ok_iff)
  then show "ledger_ok d'"
    using assms(2) un by (simp add: ledger_ok_unattributed d')
qed

section \<open>The interface every writer of the pair implements\<close>

locale stock_operation =
  fixes operation :: "'x \<Rightarrow> db \<Rightarrow> exc + ('a \<times> db)"
  assumes keeps_ledger: "operation x d = Inr (a, d') \<Longrightarrow> ledger_ok d \<Longrightarrow> ledger_ok d'"
    and conserves: "operation x d = Inr (a, d') \<Longrightarrow> ledger_ok d \<Longrightarrow>
          unattributed d' w p = unattributed d w p"
    and writes_only_stock: "operation x d = Inr (a, d') \<Longrightarrow> ledger_ok d \<Longrightarrow> only_stock d d'"
begin

lemma transaction_keeps_ledger: "ledger_ok d \<Longrightarrow> ledger_ok (snd (in_transaction (operation x) d))"
  by (auto simp: in_transaction_def intro: keeps_ledger split: sum.splits)

lemma transaction_keeps_bounds:
  "ledger_ok d \<Longrightarrow> inventory_bounds (snd (in_transaction (operation x) d))"
  using transaction_keeps_ledger table_ok_bounds ledger_ok_iff by blast

lemma transaction_conserves:
  "ledger_ok d \<Longrightarrow> unattributed (snd (in_transaction (operation x) d)) w p = unattributed d w p"
  by (auto simp: in_transaction_def dest: conserves split: sum.splits)

lemma transactions_keep_ledger:
  "ledger_ok d \<Longrightarrow> ledger_ok (fold (\<lambda>x d. snd (in_transaction (operation x) d)) xs d)"
  by (induction xs arbitrary: d) (simp_all add: transaction_keeps_ledger)

lemma transactions_conserve:
  "ledger_ok d \<Longrightarrow>
     unattributed (fold (\<lambda>x d. snd (in_transaction (operation x) d)) xs d) w p = unattributed d w p"
  by (induction xs arbitrary: d) (simp_all add: transaction_keeps_ledger transaction_conserves)

end

text \<open>
  The calls a running system makes on the pair, each in its own transaction; the interface holds
  for the four of them together, so for any interleaving of transactions.
\<close>

datatype stock_call =
    Reserve int uuid uuid "requested_item list"
  | Release uuid
  | Commit uuid
  | Sweep nat

fun run_stock_call :: "stock_call \<Rightarrow> db \<Rightarrow> exc + (released_item list \<times> db)" where
  "run_stock_call (Reserve ttl oid wid items) d =
     bind_r (reserve_stock ttl oid wid items d) (\<lambda>(_, d'). Inr ([], d'))"
| "run_stock_call (Release oid) d = release_reservation oid d"
| "run_stock_call (Commit oid) d = bind_r (settle_for_order oid Committed d) (\<lambda>d'. Inr ([], d'))"
| "run_stock_call (Sweep batch) d = sweep_expired batch d"

interpretation stock: stock_operation run_stock_call
proof
  fix x d a d' w p
  assume op: "run_stock_call x d = Inr (a, d')" and ok: "ledger_ok d"
  show "ledger_ok d'"
    using op ok by (cases x) (auto simp: bind_r_Inr dest: reserve_stock_effect(1) release_effect(3)
        commit_effect(1) sweep_effect(3))
  show "unattributed d' w p = unattributed d w p"
    using op ok by (cases x) (auto simp: bind_r_Inr dest: reserve_stock_effect(4) release_effect(7)
        commit_effect(4) sweep_effect(7))
  show "only_stock d d'"
  proof (cases x)
    case (Commit oid)
    with op have "settle_for_order oid Committed d = Inr d'" by (auto simp: bind_r_Inr)
    from settle_for_order_frame [OF this] show ?thesis
      by (intro only_stockI [where rows = "inventory d" and n = "uuid_pos d"]) auto
  qed (use op ok in \<open>auto simp: bind_r_Inr dest: reserve_stock_effect(2) release_effect(4) sweep_effect(4)\<close>)
qed

section \<open>Managing the reference data\<close>

text \<open>
  Products, prices, warehouses, customers and stock levels are written by others than the saga, such
  as the seed script. \<open>managed\<close> is what such a transaction leaves behind: only those five tables are
  written, no unit counted as reserved, and the constraints hold.
\<close>

text \<open>Only the five tables of reference data are written.\<close>

definition only_reference_data :: "db \<Rightarrow> db \<Rightarrow> bool" where
  "only_reference_data d d' \<longleftrightarrow> (\<exists>cs ps ws as iv n.
     d' = d\<lparr>customers := customers d @ cs, products := ps, warehouses := ws, addresses := addresses d @ as,
            inventory := iv, uuid_pos := n\<rparr>)"

text \<open>The units that inventory counts as reserved are never overwritten, only rows are added.\<close>

definition reserved_kept :: "inventory_row list \<Rightarrow> inventory_row list \<Rightarrow> bool" where
  "reserved_kept old rows \<longleftrightarrow>
     (\<exists>new. map (\<lambda>i. (inv_id i, inv_key i, reserved i)) rows =
        map (\<lambda>i. (inv_id i, inv_key i, reserved i)) old @ map (\<lambda>i. (inv_id i, inv_key i, reserved i)) new)"

definition managed :: "db \<Rightarrow> db \<Rightarrow> bool" where
  "managed d d' \<longleftrightarrow> only_reference_data d d' \<and> reserved_kept (inventory d) (inventory d') \<and> consistent d'"

lemma reserved_kept_at:
  assumes "reserved_kept (inventory d) (inventory d')" and "table_ok (inventory_spec d') (inventory d')"
  shows "reserved_at d w p \<le> reserved_at d' w p"
proof -
  let ?f = "\<lambda>i. (inv_id i, inv_key i, reserved i)"
  let ?sum = "sum_where (snd \<circ> snd) (\<lambda>t. fst (snd t) = (w, p))"
  have at: "reserved_at e w p = ?sum (map ?f (inventory e))" for e
  proof -
    have "sum_where reserved (\<lambda>i. inv_warehouse_id i = w \<and> inv_product_id i = p) rows = ?sum (map ?f rows)" for rows
      by (induction rows) auto
    then show ?thesis by (simp add: reserved_at_def)
  qed
  from assms(1) obtain new where new: "map ?f (inventory d') = map ?f (inventory d) @ map ?f new"
    by (auto simp: reserved_kept_def)
  have "set (map ?f new) \<subseteq> set (map ?f (inventory d'))" using new by simp
  then have "\<forall>t \<in> set (map ?f new). 0 \<le> snd (snd t)"
    using table_ok_bounds [OF assms(2)] by (auto simp: inventory_bounds_def list_all_iff image_subset_iff)
  then have "0 \<le> ?sum (map ?f new)" by (intro sum_where_nonneg) simp
  then show ?thesis unfolding at new by (simp add: sum_where_def)
qed

lemma managed_frame:
  assumes "managed d d'"
  shows "orders d' = orders d" "order_items d' = order_items d" "order_status_history d' = order_status_history d"
    "payments d' = payments d" "stock_reservations d' = stock_reservations d"
    "idempotency_keys d' = idempotency_keys d" "outbox d' = outbox d" "db_now d' = db_now d" "uuid_seq d' = uuid_seq d"
  using assms by (auto simp: managed_def only_reference_data_def)

lemma managed_ledger:
  assumes "managed d d'" and "ledger_ok d"
  shows "ledger_ok d'"
proof -
  have ok: "db_ok d'" using assms(1) by (simp add: managed_def consistent_def)
  have "reserved_at d w p \<le> reserved_at d' w p" for w p
    using assms(1) ok by (intro reserved_kept_at) (simp_all add: managed_def db_ok_def)
  moreover have "held d' w p = held d w p" for w p by (simp add: held_def managed_frame [OF assms(1)])
  ultimately show ?thesis using assms(2) ok unfolding ledger_ok_iff db_ok_def by (metis order_trans)
qed

text \<open>A product that was in stock keeps its counter.\<close>

lemma managed_counter:
  assumes "managed d d'" and "i \<in> set (inventory d)" and "table_ok (inventory_spec d) (inventory d)"
  shows "\<exists>j \<in> set (inventory d'). inv_key j = inv_key i"
    and "reserved_at d' (inv_warehouse_id i) (inv_product_id i) = reserved_at d (inv_warehouse_id i) (inv_product_id i)"
proof -
  let ?f = "\<lambda>i. (inv_id i, inv_key i, reserved i)"
  from assms(1) obtain new where "map ?f (inventory d') = map ?f (inventory d) @ map ?f new"
    by (auto simp: managed_def reserved_kept_def)
  then have "set (map ?f (inventory d')) = set (map ?f (inventory d) @ map ?f new)" by (rule arg_cong)
  moreover have "?f i \<in> set (map ?f (inventory d) @ map ?f new)" using assms(2) by simp
  ultimately have "?f i \<in> ?f ` set (inventory d')" by (simp only: set_map)
  then obtain j where j: "j \<in> set (inventory d')" "?f i = ?f j" by (rule imageE)
  then show "\<exists>j \<in> set (inventory d'). inv_key j = inv_key i" by auto
  have "table_ok (inventory_spec d') (inventory d')" using assms(1) by (simp add: managed_def consistent_def db_ok_def)
  from reserved_at_row [OF inventory_keys_distinct [OF this] j(1)] j(2)
    reserved_at_row [OF inventory_keys_distinct [OF assms(3)] assms(2)]
  show "reserved_at d' (inv_warehouse_id i) (inv_product_id i) = reserved_at d (inv_warehouse_id i) (inv_product_id i)"
    by simp
qed

end
