(* ===== verification/Stocking.thy ===== *)
theory Stocking
  imports Ledger
begin

text \<open>
  When \<^verbatim>\<open>reserve_stock\<close> succeeds and when it refuses: with distinct products, which the
  request schema enforces, each item stands or falls with its own inventory row, so the loop
  succeeds exactly when every item is in stock and otherwise names the first item, in lock order,
  that is not.
\<close>

definition stocked :: "db \<Rightarrow> uuid \<Rightarrow> uuid \<Rightarrow> int \<Rightarrow> bool" where
  "stocked d w p q \<longleftrightarrow>
     list_ex (\<lambda>i. inv_warehouse_id i = w \<and> inv_product_id i = p \<and> q \<le> on_hand i - reserved i)
       (inventory d)"

lemma stocked_after_reserve_one:
  assumes "reserve_one ttl oid wid it d = Inr d'" and "p \<noteq> product_id it"
  shows "stocked d' w p q = stocked d w p q"
proof -
  have "inventory d' = take_stock wid it d" using assms(1) unfolding reserve_one_Inr by simp
  then show ?thesis
    using assms(2) by (auto simp: stocked_def list_ex_iff take_stock_def set_upd)
qed

lemma reserve_one_refused:
  assumes "reserve_one ttl oid wid it d = Inl (DomainError e)"
  shows "e = InsufficientStock (product_id it) (quantity it)"
    and "\<not> stocked d wid (product_id it) (quantity it)"
proof -
  let ?c = "\<lambda>i. inv_warehouse_id i = wid \<and> inv_product_id i = product_id it \<and>
             on_hand i - reserved i \<ge> quantity it"
  let ?f = "\<lambda>i. i\<lparr>reserved := reserved i + quantity it, inv_updated_at := db_now d\<rparr>"
  have nodom: "insert_reservation a b c n t x \<noteq> Inl (DomainError e)" for a b c n t x
    by (simp add: insert_reservation_def gen_random_uuid_def bind_r_Inl)
  with assms obtain rows where "update_rows (inventory_spec d) ?c ?f (inventory d) = Inr ([], rows)"
    and e: "e = InsufficientStock (product_id it) (quantity it)"
    unfolding reserve_one_def by (auto simp: bind_r_Inl split: if_split_asm)
  then have "filter ?c (inventory d) = []" by (simp add: update_rows_Inr)
  then show "\<not> stocked d wid (product_id it) (quantity it)"
    by (auto simp: stocked_def list_ex_iff filter_empty_conv)
  show "e = InsufficientStock (product_id it) (quantity it)" by (rule e)
qed

lemma reserve_loop_refused:
  assumes "fold_r (reserve_one ttl oid wid) items d = Inl (DomainError e)"
    and "distinct (map product_id items)"
  shows "\<exists>ys it zs. items = ys @ it # zs \<and>
      e = InsufficientStock (product_id it) (quantity it) \<and>
      \<not> stocked d wid (product_id it) (quantity it) \<and>
      (\<forall>y \<in> set ys. stocked d wid (product_id y) (quantity y))"
  using assms
proof (induction items arbitrary: d)
  case (Cons it items)
  show ?case
  proof (cases "reserve_one ttl oid wid it d")
    case (Inl e')
    with Cons.prems(1) have "reserve_one ttl oid wid it d = Inl (DomainError e)" by simp
    note r = reserve_one_refused [OF this]
    have "it # items = [] @ it # items" by simp
    with r show ?thesis by (metis empty_iff empty_set)
  next
    case (Inr d1)
    with Cons obtain ys x zs where IH: "items = ys @ x # zs"
      "e = InsufficientStock (product_id x) (quantity x)" "\<not> stocked d1 wid (product_id x) (quantity x)"
      "\<forall>y \<in> set ys. stocked d1 wid (product_id y) (quantity y)" by auto metis
    have ne: "product_id y \<noteq> product_id it" if "y \<in> set items" for y
      using Cons.prems(2) that by (auto simp: rev_image_eqI)
    have "stocked d wid (product_id it) (quantity it)"
      using Inr unfolding reserve_one_Inr stocked_def list_ex_iff by auto
    moreover have "\<forall>y \<in> set ys. stocked d wid (product_id y) (quantity y)"
      using IH(1,4) ne stocked_after_reserve_one [OF Inr] by auto
    moreover have "\<not> stocked d wid (product_id x) (quantity x)"
      using IH(1,3) ne stocked_after_reserve_one [OF Inr] by auto
    ultimately show ?thesis using IH(1,2)
      by (intro exI [of _ "it # ys"] exI [of _ x] exI [of _ zs]) auto
  qed
qed simp

text \<open>Conversely a loop that ends has found every item in stock.\<close>

lemma reserve_loop_stocked:
  assumes "fold_r (reserve_one ttl oid wid) items d = Inr d'" and "distinct (map product_id items)"
  shows "\<forall>it \<in> set items. stocked d wid (product_id it) (quantity it)"
  using assms
proof (induction items arbitrary: d)
  case (Cons it items)
  then obtain d1 where one: "reserve_one ttl oid wid it d = Inr d1"
    and rest: "fold_r (reserve_one ttl oid wid) items d1 = Inr d'"
    by (auto simp: bind_r_Inr)
  have "stocked d wid (product_id it) (quantity it)"
    using one unfolding reserve_one_Inr by (auto simp: stocked_def list_ex_iff)
  moreover have "\<forall>x \<in> set items. stocked d1 wid (product_id x) (quantity x)"
    using Cons.IH [OF rest] Cons.prems(2) by simp
  moreover have "\<forall>x \<in> set items. product_id x \<noteq> product_id it" using Cons.prems(2) by (simp add: image_iff) metis
  ultimately show ?case using stocked_after_reserve_one [OF one] by auto
qed simp

section \<open>Enough stock is enough\<close>

definition no_reservation :: "db \<Rightarrow> uuid \<Rightarrow> uuid \<Rightarrow> uuid \<Rightarrow> bool" where
  "no_reservation d oid w p \<longleftrightarrow>
     \<not> list_ex (\<lambda>r. sr_order_id r = oid \<and> sr_warehouse_id r = w \<and> sr_product_id r = p)
         (stock_reservations d)"

lemma reserve_one_succeeds:
  assumes "ledger_ok d" and "uuids_fresh d" and "oid \<in> o_id ` set (orders d)"
    and "0 < quantity it" and "stocked d wid (product_id it) (quantity it)"
    and "no_reservation d oid wid (product_id it)"
  obtains d' where "reserve_one ttl oid wid it d = Inr d'"
proof -
  let ?c = "\<lambda>i. inv_warehouse_id i = wid \<and> inv_product_id i = product_id it \<and>
             on_hand i - reserved i \<ge> quantity it"
  let ?f = "\<lambda>i. i\<lparr>reserved := reserved i + quantity it, inv_updated_at := db_now d\<rparr>"
  let ?r = "new_reservation oid wid it (db_now d + seconds ttl) d"
  have inv: "table_ok (inventory_spec d) (inventory d)" using assms(1) by (simp add: ledger_ok_iff)
  from assms(5) obtain i where i: "i \<in> set (inventory d)" "?c i"
    unfolding stocked_def list_ex_iff by blast
  have i_ok: "row_ok (inventory_spec d) i" using inv i(1) by (simp add: table_ok_def list_all_iff)
  have q: "fits_int4 (quantity it)"
    using i_ok i(2) assms(4) by (simp add: inventory_row_ok fits_int4_def)
  have u: "update_rows (inventory_spec d) ?c ?f (inventory d) =
      Inr (map ?f (filter ?c (inventory d)), upd ?c ?f (inventory d))"
  proof (rule update_rows_succeeds [OF inv])
    fix r assume r: "r \<in> set (inventory d)" "?c r"
    then have "row_ok (inventory_spec d) r" using inv by (simp add: table_ok_def list_all_iff)
    with r(2) assms(4) show "row_ok (inventory_spec d) (?f r)"
      by (simp add: inventory_row_ok fits_int4_def)
  next
    fix u a b assume "u \<in> set (uniques (inventory_spec d))"
      "snd u (if ?c a then ?f a else a) (if ?c b then ?f b else b)"
    then show "snd u a b" by (auto simp: inventory_spec_def split: if_splits)
  qed
  have row: "row_ok (reservation_spec d) ?r"
    using i_ok i(2) q assms(3,4)
    by (auto simp: reservation_row_ok inventory_row_ok new_reservation_def)
  have "uuid_seq d (uuid_pos d) \<notin> sr_id ` set (stock_reservations d)"
    using uuids_fresh_next [OF assms(2)] by (simp add: used_ids_def)
  then have "conflict (uniques (reservation_spec d)) ?r (stock_reservations d) = None"
    using assms(6) by (auto simp: conflict_None reservation_spec_def new_reservation_def
        no_reservation_def list_ex_iff)
  then have "reserve_one ttl oid wid it d = Inr (d\<lparr>inventory := take_stock wid it d,
            stock_reservations := stock_reservations d @ [?r], uuid_pos := Suc (uuid_pos d)\<rparr>)"
    unfolding reserve_one_Inr using q i u row by (auto simp: take_stock_def)
  then show ?thesis by (rule that)
qed

lemma inv_ids_upd [simp]:
  "(\<And>i. inv_id (f i) = inv_id i) \<Longrightarrow> inv_id ` set (upd c f rows) = inv_id ` set rows"
  using map_upd [of c inv_id f rows] by (metis list.set_map)

lemma reserve_one_fresh:
  assumes "reserve_one ttl oid wid it d = Inr d'" and "uuids_fresh d"
  shows "uuids_fresh d'"
proof -
  have d': "d' = d\<lparr>inventory := take_stock wid it d,
            stock_reservations := stock_reservations d @
              [new_reservation oid wid it (db_now d + seconds ttl) d],
            uuid_pos := Suc (uuid_pos d)\<rparr>" using assms(1) unfolding reserve_one_Inr by blast
  show ?thesis
    by (rule uuids_fresh_step [OF assms(2)])
      (auto simp: d' used_ids_def take_stock_def new_reservation_def)
qed

lemma reserve_loop_succeeds:
  assumes "ledger_ok d" and "uuids_fresh d" and "oid \<in> o_id ` set (orders d)"
    and "distinct (map product_id items)"
    and "\<forall>it \<in> set items. 0 < quantity it \<and> stocked d wid (product_id it) (quantity it) \<and>
           no_reservation d oid wid (product_id it)"
  shows "\<exists>d'. fold_r (reserve_one ttl oid wid) items d = Inr d' \<and> uuids_fresh d'"
  using assms
proof (induction items arbitrary: d)
  case (Cons it items)
  have it: "0 < quantity it" "stocked d wid (product_id it) (quantity it)"
    "no_reservation d oid wid (product_id it)" using Cons.prems(5) by simp_all
  obtain d1 where d1: "reserve_one ttl oid wid it d = Inr d1"
    by (rule reserve_one_succeeds [OF Cons.prems(1-3) it])
  note fr = only_stock_frame [OF reserve_one_only_stock [OF d1]]
  have srs: "stock_reservations d1 = stock_reservations d @
      [new_reservation oid wid it (db_now d + seconds ttl) d]"
    using d1 unfolding reserve_one_Inr by simp
  have "\<forall>x \<in> set items. 0 < quantity x \<and> stocked d1 wid (product_id x) (quantity x) \<and>
           no_reservation d1 oid wid (product_id x)"
  proof
    fix x assume x: "x \<in> set items"
    with Cons.prems(4) have ne: "product_id x \<noteq> product_id it" by (auto simp: rev_image_eqI)
    show "0 < quantity x \<and> stocked d1 wid (product_id x) (quantity x) \<and>
        no_reservation d1 oid wid (product_id x)"
      using Cons.prems(5) x ne stocked_after_reserve_one [OF d1 ne]
      by (simp add: no_reservation_def srs new_reservation_def)
  qed
  with Cons.IH [OF reserve_one_effect(1) [OF d1 Cons.prems(1)] reserve_one_fresh [OF d1 Cons.prems(2)]]
    Cons.prems(3,4) fr(5) d1 show ?case by auto
qed simp

lemma distinct_lock_order:
  "distinct (map product_id items) \<Longrightarrow> distinct (map product_id (lock_order items wid))"
proof -
  have "mset (map product_id (lock_order items wid)) = mset (map product_id items)" by simp
  then show "distinct (map product_id items) \<Longrightarrow> ?thesis" by (metis mset_eq_imp_distinct_iff)
qed

lemma reserve_stock_succeeds:
  assumes "ledger_ok d" and "uuids_fresh d" and "oid \<in> o_id ` set (orders d)"
    and "distinct (map product_id items)"
    and "\<forall>it \<in> set items. 0 < quantity it \<and> stocked d wid (product_id it) (quantity it) \<and>
           no_reservation d oid wid (product_id it)"
  shows "\<exists>res d'. reserve_stock ttl oid wid items d = Inr (res, d') \<and> uuids_fresh d'"
proof -
  obtain d' where "fold_r (reserve_one ttl oid wid) (lock_order items wid) d = Inr d'" "uuids_fresh d'"
    using reserve_loop_succeeds [OF assms(1-3) distinct_lock_order [OF assms(4), of wid], of wid ttl]
      assms(5) by auto
  then show ?thesis by (auto simp: reserve_stock_def)
qed

text \<open>And what stops it is the first item, in lock order, that is not in stock.\<close>

lemma stocked_after_loop:
  "fold_r (reserve_one ttl oid wid) items d = Inr d' \<Longrightarrow> p \<notin> product_id ` set items \<Longrightarrow>
     stocked d' wid p q = stocked d wid p q"
proof (induction items arbitrary: d)
  case (Cons it items)
  then obtain d1 where d1: "reserve_one ttl oid wid it d = Inr d1" "fold_r (reserve_one ttl oid wid) items d1 = Inr d'"
    by (auto simp: bind_r_Inr)
  with Cons.IH [OF d1(2)] stocked_after_reserve_one [OF d1(1), where p = p and q = q] Cons.prems(2) show ?case by simp
qed simp

lemma reserve_one_refuses:
  assumes "fits_int4 (quantity it)" and "\<not> stocked d wid (product_id it) (quantity it)"
  shows "reserve_one ttl oid wid it d = Inl (DomainError (InsufficientStock (product_id it) (quantity it)))"
proof -
  have "filter (\<lambda>i. inv_warehouse_id i = wid \<and> inv_product_id i = product_id it \<and>
      on_hand i - reserved i \<ge> quantity it) (inventory d) = []"
    using assms(2) by (auto simp: stocked_def list_ex_iff filter_empty_conv)
  with assms(1) show ?thesis by (simp add: reserve_one_def update_rows_def)
qed

lemma reserve_stock_refuses:
  assumes "ledger_ok d" and "uuids_fresh d" and "oid \<in> o_id ` set (orders d)"
    and dist: "distinct (map product_id items)"
    and each: "\<forall>it \<in> set items. 0 < quantity it \<and> fits_int4 (quantity it) \<and> no_reservation d oid wid (product_id it)"
    and "\<exists>it \<in> set items. \<not> stocked d wid (product_id it) (quantity it)"
  shows "\<exists>ys it zs. lock_order items wid = ys @ it # zs \<and>
    (\<forall>y \<in> set ys. stocked d wid (product_id y) (quantity y)) \<and> \<not> stocked d wid (product_id it) (quantity it) \<and>
    reserve_stock ttl oid wid items d = Inl (DomainError (InsufficientStock (product_id it) (quantity it)))"
proof -
  have "\<exists>it \<in> set (lock_order items wid). \<not> stocked d wid (product_id it) (quantity it)" using assms(6) by simp
  then obtain ys it zs where s: "lock_order items wid = ys @ it # zs" "\<not> stocked d wid (product_id it) (quantity it)"
    "\<forall>y \<in> set ys. stocked d wid (product_id y) (quantity y)"
    using split_list_first_prop [of "lock_order items wid" "\<lambda>it. \<not> stocked d wid (product_id it) (quantity it)"] by blast
  have all: "distinct (map product_id (ys @ it # zs))" using distinct_lock_order [OF dist, of wid] by (simp only: s(1))
  have mem: "set (ys @ it # zs) = set items" by (metis s(1) set_lock_order)
  have "\<forall>y \<in> set ys. 0 < quantity y \<and> stocked d wid (product_id y) (quantity y) \<and> no_reservation d oid wid (product_id y)"
    using each s(3) mem by auto
  then obtain d1 where d1: "fold_r (reserve_one ttl oid wid) ys d = Inr d1"
    using reserve_loop_succeeds [OF assms(1-3), of ys wid ttl] all by auto
  have "\<not> stocked d1 wid (product_id it) (quantity it)" using stocked_after_loop [OF d1] s(2) all by auto
  moreover have "fits_int4 (quantity it)" using each mem by auto
  ultimately have "reserve_one ttl oid wid it d1 = Inl (DomainError (InsufficientStock (product_id it) (quantity it)))"
    by (intro reserve_one_refuses)
  then have "reserve_stock ttl oid wid items d = Inl (DomainError (InsufficientStock (product_id it) (quantity it)))"
    using d1 by (simp add: reserve_stock_def s(1) fold_r_append)
  with s show ?thesis by blast
qed

end
