(* ===== verification/Selection.thy ===== *)
theory Selection
  imports Stocking "HOL-Library.List_Lexorder"
begin

text \<open>
  Choosing a warehouse: \<^verbatim>\<open>app/repositories/product.py\<close>,
  \<^verbatim>\<open>app/repositories/warehouse.py\<close> and \<^verbatim>\<open>app/services/warehouse_selection.py\<close>. The
  database's distance functions and its text collation are parameters (\<open>postgis\<close>). The lemmas show
  that the grouped query means what it is for, an active warehouse that can supply every item, that
  its answer is the nearest one with the code as tie-break, and that a reservation right after it,
  on the same snapshot, cannot fail.
\<close>

section \<open>Operations\<close>

text \<open>
  What the code uses of PostGIS and of the database's collation: \<^verbatim>\<open><->\<close>,
  \<^verbatim>\<open>ST_Distance\<close>, and the sort key by which text values are ordered.
\<close>

record postgis =
  knn_distance :: "wkb_point \<Rightarrow> wkb_point \<Rightarrow> rat"
  st_distance :: "wkb_point \<Rightarrow> wkb_point \<Rightarrow> rat"
  collation_key :: "string \<Rightarrow> nat list"

definition existing_ids :: "uuid set \<Rightarrow> db \<Rightarrow> uuid set" where
  "existing_ids ids d = set (filter (\<lambda>p. p \<in> ids) (map pr_id (products d)))"

definition get_by_ids :: "uuid set \<Rightarrow> db \<Rightarrow> uuid \<rightharpoonup> product_row" where
  "get_by_ids ids d = map_of (map (\<lambda>p. (pr_id p, p)) (filter (\<lambda>p. pr_id p \<in> ids) (products d)))"

text \<open>The CTE of \<^verbatim>\<open>select_best\<close>: join, filter, group by warehouse, count the products.\<close>

definition eligible :: "requested_item list \<Rightarrow> db \<Rightarrow> uuid list" where
  "eligible items d =
     (let joined = [i. i \<leftarrow> inventory d, it \<leftarrow> items,
                       product_id it = inv_product_id i \<and> on_hand i - reserved i \<ge> quantity it]
      in filter (\<lambda>w. length (remdups (map inv_product_id
                        (filter (\<lambda>i. inv_warehouse_id i = w) joined))) =
                      length (remdups (map product_id items)))
           (remdups (map inv_warehouse_id joined)))"

definition warehouse_rank :: "postgis \<Rightarrow> wkb_point \<Rightarrow> warehouse_row \<Rightarrow> rat \<times> nat list" where
  "warehouse_rank pg pt w = (knn_distance pg (wh_location w) pt, collation_key pg (wh_code w))"

definition candidate_of :: "postgis \<Rightarrow> wkb_point \<Rightarrow> warehouse_row \<Rightarrow> warehouse_candidate" where
  "candidate_of pg pt w = \<lparr>cand_id = wh_id w, cand_code = wh_code w, cand_name = wh_name w,
                           distance_m = st_distance pg (wh_location w) pt\<rparr>"

definition select_best ::
  "postgis \<Rightarrow> wkb_point \<Rightarrow> requested_item list \<Rightarrow> db \<Rightarrow> exc + warehouse_candidate option" where
  "select_best pg pt items d =
     (if items = [] then Inr None
      else if \<not> list_all (\<lambda>it. fits_int4 (quantity it)) items then Inl (DataError ''qty'')
      else case sort_key (warehouse_rank pg pt)
                  (filter (\<lambda>w. wh_id w \<in> set (eligible items d) \<and> wh_is_active w) (warehouses d)) of
             [] \<Rightarrow> Inr None
           | w # _ \<Rightarrow> Inr (Some (candidate_of pg pt w)))"

definition count_products_stocked_anywhere :: "uuid set \<Rightarrow> db \<Rightarrow> nat" where
  "count_products_stocked_anywhere ids d =
     length (remdups (map inv_product_id
       (filter (\<lambda>i. inv_product_id i \<in> ids \<and> on_hand i - reserved i > 0) (inventory d))))"

text \<open>\<^verbatim>\<open>WarehouseSelectionService.select\<close>\<close>

definition select_warehouse ::
  "(postal_address \<Rightarrow> exc + coordinates) \<Rightarrow> postgis \<Rightarrow> postal_address \<Rightarrow> requested_item list \<Rightarrow> db \<Rightarrow>
     exc + warehouse_candidate" where
  "select_warehouse geocode pg addr items d =
     (if items = [] then Inl (DomainError (NoEligibleWarehouse 0 0)) else
      let ids = set (map product_id items);
          missing = ids - existing_ids ids d
      in if missing \<noteq> {} then Inl (DomainError (UnknownProduct missing)) else
         bind_r (geocode addr) (\<lambda>c.
         bind_r (to_point (lon c) (lat c)) (\<lambda>pt.
         bind_r (select_best pg pt items d) (\<lambda>best.
           case best of
             None \<Rightarrow> Inl (DomainError (NoEligibleWarehouse (card ids)
                       (count_products_stocked_anywhere ids d)))
           | Some cand \<Rightarrow> Inr cand))))"

section \<open>What the grouped query means\<close>

definition supplies :: "db \<Rightarrow> uuid \<Rightarrow> requested_item list \<Rightarrow> bool" where
  "supplies d w items \<longleftrightarrow> list_all (\<lambda>it. stocked d w (product_id it) (quantity it)) items"

lemma length_remdups_eq_iff:
  assumes "set xs \<subseteq> set ys"
  shows "length (remdups xs) = length (remdups ys) \<longleftrightarrow> set xs = set ys"
proof -
  have "length (remdups xs) = length (remdups ys) \<longleftrightarrow> card (set xs) = card (set ys)"
    by (simp add: length_remdups_card_conv)
  also have "\<dots> \<longleftrightarrow> set xs = set ys" using assms card_subset_eq [of "set ys" "set xs"] by auto
  finally show ?thesis .
qed

lemma eligible_iff:
  assumes "distinct (map product_id items)" and "items \<noteq> []"
  shows "w \<in> set (eligible items d) \<longleftrightarrow> supplies d w items"
proof -
  define joined where "joined = [i. i \<leftarrow> inventory d, it \<leftarrow> items,
      product_id it = inv_product_id i \<and> on_hand i - reserved i \<ge> quantity it]"
  have j: "i \<in> set joined \<longleftrightarrow> i \<in> set (inventory d) \<and>
      (\<exists>it \<in> set items. product_id it = inv_product_id i \<and> on_hand i - reserved i \<ge> quantity it)" for i
    by (auto simp: joined_def)
  let ?mine = "map inv_product_id (filter (\<lambda>i. inv_warehouse_id i = w) joined)"
  have "set ?mine \<subseteq> set (map product_id items)" using j by (auto intro: rev_image_eqI)
  then have len: "length (remdups ?mine) = length (remdups (map product_id items)) \<longleftrightarrow>
      set ?mine = set (map product_id items)" by (rule length_remdups_eq_iff)
  have st: "stocked d w (product_id it) (quantity it) \<longleftrightarrow> product_id it \<in> set ?mine"
    if it: "it \<in> set items" for it
  proof
    assume "product_id it \<in> set ?mine"
    then obtain i it' where i: "i \<in> set (inventory d)" "inv_warehouse_id i = w"
      "inv_product_id i = product_id it" and it': "it' \<in> set items" "product_id it' = product_id it"
      "on_hand i - reserved i \<ge> quantity it'"
      using j by auto
    have "it' = it" using distinct_key_unique [OF assms(1) it'(1) it it'(2)] .
    with i it'(3) show "stocked d w (product_id it) (quantity it)"
      by (auto simp: stocked_def list_ex_iff)
  next
    assume "stocked d w (product_id it) (quantity it)"
    then obtain i where "i \<in> set (inventory d)" "inv_warehouse_id i = w"
      "inv_product_id i = product_id it" "quantity it \<le> on_hand i - reserved i"
      by (auto simp: stocked_def list_ex_iff)
    moreover from this have "i \<in> set joined" using j it by auto
    ultimately show "product_id it \<in> set ?mine" by (auto intro!: rev_image_eqI)
  qed
  have sub: "supplies d w items \<longleftrightarrow> set (map product_id items) \<subseteq> set ?mine"
    using st by (auto simp: supplies_def list_all_iff)
  have "w \<in> set (eligible items d) \<longleftrightarrow>
      w \<in> inv_warehouse_id ` set joined \<and> set ?mine = set (map product_id items)"
    unfolding eligible_def joined_def [symmetric] Let_def using len by auto
  also have "\<dots> \<longleftrightarrow> set ?mine = set (map product_id items)"
    using assms(2) by (cases items) auto
  also have "\<dots> \<longleftrightarrow> supplies d w items"
    using sub \<open>set ?mine \<subseteq> set (map product_id items)\<close> by blast
  finally show ?thesis .
qed

definition able :: "db \<Rightarrow> requested_item list \<Rightarrow> warehouse_row list" where
  "able d items = filter (\<lambda>w. wh_is_active w \<and> supplies d (wh_id w) items) (warehouses d)"

lemma select_best_by_rank:
  assumes "distinct (map product_id items)" and "items \<noteq> []"
    and "list_all (\<lambda>it. fits_int4 (quantity it)) items"
  shows "select_best pg pt items d =
     (case sort_key (warehouse_rank pg pt) (able d items) of
        [] \<Rightarrow> Inr None | w # _ \<Rightarrow> Inr (Some (candidate_of pg pt w)))"
proof -
  have "filter (\<lambda>w. wh_id w \<in> set (eligible items d) \<and> wh_is_active w) (warehouses d) = able d items"
    unfolding able_def by (rule filter_cong) (auto simp: eligible_iff [OF assms(1,2)])
  with assms(2,3) show ?thesis by (simp add: select_best_def)
qed

lemma sort_key_head:
  assumes "sort_key f xs = x # ys"
  shows "x \<in> set xs" and "y \<in> set xs \<Longrightarrow> f x \<le> f y"
proof -
  have s: "set (sort_key f xs) = set xs" by simp
  then show "x \<in> set xs" unfolding assms by auto
  have "sorted (map f (x # ys))" using sorted_sort_key [of f xs] by (simp only: assms)
  then show "y \<in> set xs \<Longrightarrow> f x \<le> f y"
    using s unfolding assms by auto
qed

lemma select_best_Some:
  assumes "select_best pg pt items d = Inr (Some c)" and "distinct (map product_id items)"
  shows "\<exists>w \<in> set (able d items). c = candidate_of pg pt w \<and>
           (\<forall>x \<in> set (able d items). warehouse_rank pg pt w \<le> warehouse_rank pg pt x)"
proof -
  from assms(1) have ne: "items \<noteq> []" and fit: "list_all (\<lambda>it. fits_int4 (quantity it)) items"
    by (auto simp: select_best_def split: if_splits)
  obtain w ws where "sort_key (warehouse_rank pg pt) (able d items) = w # ws"
    "c = candidate_of pg pt w"
    using assms(1) unfolding select_best_by_rank [OF assms(2) ne fit]
    by (auto split: list.split_asm)
  then show ?thesis using sort_key_head by metis
qed

lemma select_best_None:
  assumes "select_best pg pt items d = Inr None" and "distinct (map product_id items)" "items \<noteq> []"
  shows "able d items = []"
proof -
  from assms(1) have fit: "list_all (\<lambda>it. fits_int4 (quantity it)) items"
    using assms(3) by (auto simp: select_best_def split: if_splits)
  have "sort_key (warehouse_rank pg pt) (able d items) = []"
    using assms(1) unfolding select_best_by_rank [OF assms(2,3) fit] by (auto split: list.split_asm)
  then have "length (sort_key (warehouse_rank pg pt) (able d items)) = 0" by simp
  then show ?thesis by (simp only: length_sort length_0_conv)
qed

text \<open>
  Where the collation tells the codes apart, which the unique constraint on them asks of a
  deterministic collation, the winner does not depend on the order of the rows.
\<close>

lemma select_best_order_independent:
  assumes "distinct (map product_id items)"
    and "inj_on (\<lambda>w. collation_key pg (wh_code w)) (set (warehouses d))"
    and "mset (warehouses d') = mset (warehouses d)" and "inventory d' = inventory d"
  shows "select_best pg pt items d' = select_best pg pt items d"
proof (cases "items = [] \<or> \<not> list_all (\<lambda>it. fits_int4 (quantity it)) items")
  case True
  then show ?thesis by (auto simp: select_best_def)
next
  case False
  have st: "supplies d' w items = supplies d w items" for w
    by (simp add: supplies_def stocked_def assms(4))
  have m: "mset (able d' items) = mset (able d items)"
    unfolding able_def st by (metis assms(3) mset_filter)
  have "inj_on (warehouse_rank pg pt) (set (able d items))"
    using assms(2) by (auto simp: inj_on_def warehouse_rank_def able_def)
  then have "sort_key (warehouse_rank pg pt) (able d' items) =
      sort_key (warehouse_rank pg pt) (able d items)"
    using sort_key_inj_key_eq [of "able d' items" "sort_key (warehouse_rank pg pt) (able d items)"
        "warehouse_rank pg pt"] m mset_eq_setD [OF m] by simp
  with False show ?thesis by (simp add: select_best_by_rank [OF assms(1)])
qed

section \<open>The service\<close>

lemma select_warehouse_unknown:
  "items \<noteq> [] \<Longrightarrow> set (map product_id items) - existing_ids (set (map product_id items)) d \<noteq> {} \<Longrightarrow>
     select_warehouse geocode pg addr items d =
       Inl (DomainError (UnknownProduct
         (set (map product_id items) - existing_ids (set (map product_id items)) d)))"
  by (simp add: select_warehouse_def Let_def)

lemma existing_ids_iff: "p \<in> existing_ids ids d \<longleftrightarrow> p \<in> ids \<and> p \<in> pr_id ` set (products d)"
  by (auto simp: existing_ids_def)

lemma select_warehouse_Inr:
  assumes "select_warehouse geocode pg addr items d = Inr c" and "distinct (map product_id items)"
  obtains w co pt where "w \<in> set (able d items)" and "c = candidate_of pg pt w"
    and "geocode addr = Inr co" and "to_point (lon co) (lat co) = Inr pt" and "items \<noteq> []"
    and "\<forall>x \<in> set (able d items). warehouse_rank pg pt w \<le> warehouse_rank pg pt x"
    and "product_id ` set items \<subseteq> pr_id ` set (products d)"
    and "list_all (\<lambda>it. fits_int4 (quantity it)) items"
proof -
  from assms(1) have ne: "items \<noteq> []" and
    known: "set (map product_id items) - existing_ids (set (map product_id items)) d = {}"
    by (auto simp: select_warehouse_def Let_def split: if_splits)
  with assms(1) obtain co pt where p: "geocode addr = Inr co" "to_point (lon co) (lat co) = Inr pt"
    "select_best pg pt items d = Inr (Some c)"
    by (auto simp: select_warehouse_def Let_def bind_r_Inr split: option.splits)
  have sub: "product_id ` set items \<subseteq> pr_id ` set (products d)"
    using known by (auto simp: existing_ids_iff)
  have fit: "list_all (\<lambda>it. fits_int4 (quantity it)) items"
    using p(3) ne by (auto simp: select_best_def split: if_splits)
  from select_best_Some [OF p(3) assms(2)] obtain w where "w \<in> set (able d items)"
    "c = candidate_of pg pt w" "\<forall>x \<in> set (able d items). warehouse_rank pg pt w \<le> warehouse_rank pg pt x"
    by blast
  then show ?thesis using that [of w pt co] p(1,2) ne sub fit by blast
qed

lemma count_stocked_le: "finite ids \<Longrightarrow> count_products_stocked_anywhere ids d \<le> card ids"
  unfolding count_products_stocked_anywhere_def length_remdups_card_conv
  by (rule card_mono) auto

lemma select_warehouse_no_warehouse:
  assumes "select_warehouse geocode pg addr items d = Inl (DomainError (NoEligibleWarehouse n k))"
    and "distinct (map product_id items)" and "items \<noteq> []"
    and "\<And>e. geocode addr = Inl e \<Longrightarrow> \<exists>s. e = DomainError (GeocodingFailed s)"
  shows "n = length items" and "k = count_products_stocked_anywhere (product_id ` set items) d"
    and "k \<le> n" and "able d items = []"
proof -
  have known: "set (map product_id items) - existing_ids (set (map product_id items)) d = {}"
    using assms(1,3) by (auto simp: select_warehouse_def Let_def split: if_splits)
  have nob: "select_best pg pt items d \<noteq> Inl (DomainError x)" for pt x
    by (auto simp: select_best_def split: list.splits)
  have nop: "to_point lo la \<noteq> Inl (DomainError x)" for lo la x by (simp add: to_point_def)
  have nog: "geocode addr \<noteq> Inl (DomainError (NoEligibleWarehouse n k))" using assms(4) by force
  from assms(1,3) known have "bind_r (geocode addr) (\<lambda>c. bind_r (to_point (lon c) (lat c)) (\<lambda>pt.
         bind_r (select_best pg pt items d) (\<lambda>best.
           case best of
             None \<Rightarrow> Inl (DomainError (NoEligibleWarehouse (card (set (map product_id items)))
                       (count_products_stocked_anywhere (set (map product_id items)) d)))
           | Some cand \<Rightarrow> Inr cand))) = Inl (DomainError (NoEligibleWarehouse n k))"
    unfolding select_warehouse_def Let_def by (simp only: if_False simp_thms)
  then obtain pt where p: "select_best pg pt items d = Inr None"
    and n: "n = card (product_id ` set items)"
    and k: "k = count_products_stocked_anywhere (product_id ` set items) d"
    using nob nop nog by (auto simp: bind_r_Inl split: option.split_asm)
  show "n = length items" using n distinct_card [OF assms(2)] by simp
  show "k = count_products_stocked_anywhere (product_id ` set items) d" by (rule k)
  show "k \<le> n" unfolding n k by (rule count_stocked_le) simp
  show "able d items = []" by (rule select_best_None [OF p assms(2,3)])
qed

text \<open>Selected and reserved on the same snapshot: the advisory answer is then a promise.\<close>

lemma selected_can_reserve:
  assumes "select_warehouse geocode pg addr items d = Inr c" and "distinct (map product_id items)"
    and "list_all (\<lambda>it. 0 < quantity it) items"
    and "ledger_ok d'" and "uuids_fresh d'" and "inventory d' = inventory d"
    and "oid \<in> o_id ` set (orders d')" and "\<forall>r \<in> set (stock_reservations d'). sr_order_id r \<noteq> oid"
  shows "\<exists>res d''. reserve_stock ttl oid (cand_id c) items d' = Inr (res, d'') \<and> uuids_fresh d''"
proof -
  obtain w co pt where w: "w \<in> set (able d items)" "c = candidate_of pg pt w"
    by (rule select_warehouse_Inr [OF assms(1,2)])
  then have "supplies d (cand_id c) items" by (simp add: able_def candidate_of_def)
  then have "\<forall>it \<in> set items. 0 < quantity it \<and> stocked d' (cand_id c) (product_id it) (quantity it) \<and>
      no_reservation d' oid (cand_id c) (product_id it)"
    using assms(3,6,8) by (auto simp: supplies_def stocked_def list_all_iff no_reservation_def list_ex_iff)
  then show ?thesis by (rule reserve_stock_succeeds [OF assms(4,5,7,2)])
qed

end
