(* ===== verification/Creation.thy ===== *)
theory Creation
  imports Orders Selection
begin

text \<open>
  \<^verbatim>\<open>app/services/order_creation.py\<close>: select, price, insert the order and its lines,
  reserve, and move the order to reserved, in one transaction. The lemmas give the whole effect of a
  successful creation on every table, and show that a creation whose inputs the database can
  represent succeeds.
\<close>

section \<open>Operations\<close>

text \<open>
  What the services are wired with: the geocoding port, the database's functions, and
  \<^verbatim>\<open>settings.reservation_ttl_seconds\<close>.
\<close>

record env =
  env_geocode :: "postal_address \<Rightarrow> exc + coordinates"
  env_pg :: postgis
  reservation_ttl_seconds :: int

definition basket_currencies :: "(uuid \<rightharpoonup> product_row) \<Rightarrow> requested_item list \<Rightarrow> string list" where
  "basket_currencies ps items = remdups (map pr_currency (List.map_filter (\<lambda>i. ps (product_id i)) items))"

definition add_price :: "(uuid \<rightharpoonup> product_row) \<Rightarrow> requested_item \<Rightarrow> int \<Rightarrow> exc + int" where
  "add_price ps it acc =
     (case ps (product_id it) of None \<Rightarrow> Inl (KeyError (product_id it))
      | Some p \<Rightarrow> Inr (acc + pr_unit_price_minor p * quantity it))"

text \<open>
  Under READ COMMITTED each SELECT of a transaction sees what is committed by then, while the rows
  that it writes are its own from the first write on. \<open>seen\<close> is the database as the selection finds
  it, \<open>priced\<close> as the product lookup finds it, and \<open>d\<close> as the writes find it.
\<close>

definition create_from_reads ::
  "env \<Rightarrow> uuid \<Rightarrow> postal_address \<Rightarrow> requested_item list \<Rightarrow> wkb_point \<Rightarrow> db \<Rightarrow> db \<Rightarrow> db \<Rightarrow> exc + (order_row \<times> db)"
  where
  "create_from_reads env cid addr items pt seen priced d =
     bind_r (select_warehouse (env_geocode env) (env_pg env) addr items seen) (\<lambda>cand.
     let ps = get_by_ids (set (map product_id items)) priced;
         currencies = basket_currencies ps items
     in if length currencies > 1 then Inl (DomainError (MixedCurrencyBasket (set currencies)))
        else if currencies = [] then Inl (RuntimeError ''coroutine raised StopIteration'')
        else bind_r (fold_r (add_price ps) items 0) (\<lambda>total_minor.
        bind_r (create_order cid (cand_id cand) addr pt (hd currencies) total_minor d) (\<lambda>(o1, d1).
        bind_r (add_items (o_id o1) ps (map (\<lambda>i. (product_id i, quantity i)) items) d1) (\<lambda>d2.
        bind_r (reserve_stock (reservation_ttl_seconds env) (o_id o1) (cand_id cand) items d2) (\<lambda>(_, d3).
        bind_r (transition (o_id o1) Pending Reserved (Some ''stock reserved'') d3) (\<lambda>d4.
          Inr (o1\<lparr>o_status := Reserved, o_updated_at := db_now d3\<rparr>, d4)))))))"

text \<open>When nobody else commits in the meantime, they are the same.\<close>

definition create_in_transaction ::
  "env \<Rightarrow> uuid \<Rightarrow> postal_address \<Rightarrow> requested_item list \<Rightarrow> wkb_point \<Rightarrow> db \<Rightarrow> exc + (order_row \<times> db)"
  where
  "create_in_transaction env cid addr items pt d = create_from_reads env cid addr items pt d d d"

text \<open>\<^verbatim>\<open>OrderCreationService.create\<close>: geocode, then the transaction.\<close>

definition create ::
  "env \<Rightarrow> uuid \<Rightarrow> postal_address \<Rightarrow> requested_item list \<Rightarrow> db \<Rightarrow> (exc + order_row) \<times> db" where
  "create env cid addr items d =
     (case bind_r (env_geocode env addr) (\<lambda>c. to_point (lon c) (lat c)) of
        Inl e \<Rightarrow> (Inl e, d)
      | Inr pt \<Rightarrow> in_transaction (create_in_transaction env cid addr items pt) d)"

section \<open>The effect of a creation\<close>

definition basket_total :: "(uuid \<rightharpoonup> product_row) \<Rightarrow> requested_item list \<Rightarrow> int" where
  "basket_total ps items = sum_list (map (\<lambda>i. pr_unit_price_minor (the (ps (product_id i))) * quantity i) items)"

lemma add_price_loop:
  "fold_r (add_price ps) items acc = Inr t \<longleftrightarrow>
     (\<forall>i \<in> set items. ps (product_id i) \<noteq> None) \<and> t = acc + basket_total ps items"
  by (induction items arbitrary: acc)
    (auto simp: basket_total_def bind_r_Inr add_price_def split: option.split_asm)

lemma get_by_ids_SomeD:
  "get_by_ids ids d p = Some r \<Longrightarrow> r \<in> set (products d) \<and> pr_id r = p \<and> p \<in> ids"
  unfolding get_by_ids_def by (drule map_of_SomeD) auto

lemma get_by_ids_known:
  "p \<in> ids \<Longrightarrow> p \<in> pr_id ` set (products d) \<Longrightarrow> get_by_ids ids d p \<noteq> None"
  by (auto simp: get_by_ids_def map_of_eq_None_iff image_iff)

lemma moved_last:
  assumes "\<forall>r \<in> set rows. o_id r \<noteq> o_id o1" and "orders d = rows @ [o1]"
    and "o_status o1 = frm"
  shows "moved_orders (o_id o1) frm to d =
     rows @ [o1\<lparr>o_status := to, o_updated_at := db_now d\<rparr>]"
  using assms by (simp add: moved_orders_def upd_none)

text \<open>
  The whole effect: \<open>o\<close> is the new order, \<open>ls\<close> its lines, \<open>new\<close> its reservations, \<open>w\<close> the chosen
  warehouse; every other table is unchanged.
\<close>

record creation =
  cr_warehouse :: warehouse_row
  cr_products :: "uuid \<rightharpoonup> product_row"
  cr_lines :: "order_item_row list"
  cr_new :: "reservation_row list"

definition created_from ::
  "env \<Rightarrow> uuid \<Rightarrow> postal_address \<Rightarrow> requested_item list \<Rightarrow> wkb_point \<Rightarrow> db \<Rightarrow> db \<Rightarrow> db \<Rightarrow> order_row \<Rightarrow> db \<Rightarrow> creation \<Rightarrow> bool"
  where
  "created_from env cid addr items pt seen priced d ord d' c \<longleftrightarrow>
     cr_warehouse c \<in> set (able seen items) \<and>
     (\<exists>co pt'. env_geocode env addr = Inr co \<and> to_point (lon co) (lat co) = Inr pt' \<and>
        (\<forall>x \<in> set (able seen items).
           warehouse_rank (env_pg env) pt' (cr_warehouse c) \<le> warehouse_rank (env_pg env) pt' x)) \<and>
     cr_products c = get_by_ids (set (map product_id items)) priced \<and>
     (\<forall>i \<in> set items. cr_products c (product_id i) \<noteq> None) \<and>
     ord = (new_order (uuid_seq d (uuid_pos d)) cid (wh_id (cr_warehouse c)) addr pt
             (o_currency ord) (basket_total (cr_products c) items) (db_now d))\<lparr>o_status := Reserved\<rparr> \<and>
     (\<forall>i \<in> set items. pr_currency (the (cr_products c (product_id i))) = o_currency ord) \<and>
     (\<forall>r \<in> set (orders d). o_id r \<noteq> o_id ord) \<and>
     cid \<in> cu_id ` set (customers d) \<and>
     row_ok (order_spec d) ord \<and>
     orders d' = orders d @ [ord] \<and>
     order_items d' = order_items d @ cr_lines c \<and>
     map line_content (cr_lines c) =
       map (snapshot (o_id ord) (cr_products c)) (map (\<lambda>i. (product_id i, quantity i)) items) \<and>
     (\<exists>h1 h2. order_status_history d' = order_status_history d @
        [history_entry (o_id ord) None Pending (Some ''order created'') h1,
         history_entry (o_id ord) (Some Pending) Reserved (Some ''stock reserved'') h2]) \<and>
     stock_reservations d' = stock_reservations d @ cr_new c \<and>
     map reservation_content (cr_new c) =
       map (\<lambda>i. (o_id ord, wh_id (cr_warehouse c), product_id i, quantity i, Active,
                 db_now d + seconds (reservation_ttl_seconds env)))
         (lock_order items (wh_id (cr_warehouse c))) \<and>
     customers d' = customers d \<and> products d' = products d \<and> warehouses d' = warehouses d \<and>
     addresses d' = addresses d \<and> payments d' = payments d \<and>
     idempotency_keys d' = idempotency_keys d \<and> outbox d' = outbox d \<and>
     db_now d' = db_now d \<and> uuid_seq d' = uuid_seq d"

abbreviation created ::
  "env \<Rightarrow> uuid \<Rightarrow> postal_address \<Rightarrow> requested_item list \<Rightarrow> wkb_point \<Rightarrow> db \<Rightarrow> order_row \<Rightarrow> db \<Rightarrow> creation \<Rightarrow> bool"
  where
  "created env cid addr items pt d \<equiv> created_from env cid addr items pt d d d"

lemma spec_append_order_ok:
  "table_ok (inventory_spec d) (inventory d) \<Longrightarrow> table_ok (inventory_spec (d\<lparr>orders := rows\<rparr>)) (inventory d)"
  by simp

lemma reservation_spec_grows:
  assumes "table_ok (reservation_spec d) rows" and "o_id ` set (orders d) \<subseteq> o_id ` set (orders d')"
    and "warehouses d' = warehouses d" "products d' = products d"
  shows "table_ok (reservation_spec d') rows"
proof -
  have "uniques (reservation_spec d') = uniques (reservation_spec d)" by (simp add: reservation_spec_def)
  moreover have "row_ok (reservation_spec d) r \<Longrightarrow> row_ok (reservation_spec d') r" for r
    using assms(2-4) by (auto simp: reservation_row_ok)
  ultimately show ?thesis using assms(1) by (auto simp: table_ok_def list_all_iff)
qed

lemma ledger_ok_orders_grow:
  assumes "ledger_ok d" and "inventory d' = inventory d" "stock_reservations d' = stock_reservations d"
    and "o_id ` set (orders d) \<subseteq> o_id ` set (orders d')"
    and "warehouses d' = warehouses d" "products d' = products d"
  shows "ledger_ok d'"
proof -
  have "inventory_spec d' = inventory_spec d" using assms(5,6) by (simp add: inventory_spec_def)
  moreover have "table_ok (reservation_spec d') (stock_reservations d)"
    by (rule reservation_spec_grows [OF _ assms(4-6)]) (use assms(1) in \<open>simp add: ledger_ok_iff\<close>)
  ultimately show ?thesis
    using assms(1-3) by (simp add: ledger_ok_iff held_def reserved_at_def)
qed

lemma single_currency:
  assumes "length (basket_currencies ps items) \<le> 1" and "basket_currencies ps items \<noteq> []"
    and "i \<in> set items" and "ps (product_id i) = Some p"
  shows "pr_currency p = hd (basket_currencies ps items)"
proof -
  have "pr_currency p \<in> set (basket_currencies ps items)"
    using assms(3,4) by (auto simp: basket_currencies_def map_filter_def intro!: rev_image_eqI)
  with assms(1,2) show ?thesis by (cases "basket_currencies ps items") auto
qed

lemma create_from_reads_calls:
  assumes "create_from_reads env cid addr items pt seen priced d = Inr (ord, d')"
  obtains cand tot o1 d1 d2 res d3
  where "select_warehouse (env_geocode env) (env_pg env) addr items seen = Inr cand"
    and "length (basket_currencies (get_by_ids (set (map product_id items)) priced) items) \<le> 1"
    and "basket_currencies (get_by_ids (set (map product_id items)) priced) items \<noteq> []"
    and "fold_r (add_price (get_by_ids (set (map product_id items)) priced)) items 0 = Inr tot"
    and "create_order cid (cand_id cand) addr pt
           (hd (basket_currencies (get_by_ids (set (map product_id items)) priced) items)) tot d = Inr (o1, d1)"
    and "add_items (o_id o1) (get_by_ids (set (map product_id items)) priced)
           (map (\<lambda>i. (product_id i, quantity i)) items) d1 = Inr d2"
    and "reserve_stock (reservation_ttl_seconds env) (o_id o1) (cand_id cand) items d2 = Inr (res, d3)"
    and "transition (o_id o1) Pending Reserved (Some ''stock reserved'') d3 = Inr d'"
    and "ord = o1\<lparr>o_status := Reserved, o_updated_at := db_now d3\<rparr>"
  using assms by (auto simp: create_from_reads_def Let_def bind_r_Inr split: if_split_asm)

text \<open>The rows written before the reservation, and what the ledger makes of it all.\<close>

lemma created_before_reservation:
  assumes "create_order cid wid addr pt cur tot d = Inr (o1, d1)" and "add_items (o_id o1) ps lines d1 = Inr d2"
    and "ledger_ok d"
  obtains ls n where "d2 = d1\<lparr>order_items := order_items d1 @ ls, uuid_pos := n\<rparr>"
    and "map line_content ls = map (snapshot (o_id o1) ps) lines" and "ledger_ok d2"
    and "unattributed d2 w p = unattributed d w p"
proof -
  note c = create_order_Inr [OF assms(1)]
  from add_items_Inr [OF assms(2)] obtain ls n where
    ls: "d2 = d1\<lparr>order_items := order_items d1 @ ls, uuid_pos := n\<rparr>"
      "map line_content ls = map (snapshot (o_id o1) ps) lines" by blast
  moreover have "ledger_ok d2" by (rule ledger_ok_orders_grow [OF assms(3)]) (auto simp: ls(1) c(2))
  moreover have "unattributed d2 w p = unattributed d w p"
    by (simp add: unattributed_def reserved_at_def held_def ls(1) c(2))
  ultimately show ?thesis by (rule that)
qed

lemma create_from_reads_ledger:
  assumes "create_from_reads env cid addr items pt seen priced d = Inr (ord, d')" and "ledger_ok d"
  shows "ledger_ok d'" and "unattributed d' w p = unattributed d w p"
proof -
  let ?ps = "get_by_ids (set (map product_id items)) priced"
  from create_from_reads_calls [OF assms(1)] obtain cand tot o1 d1 d2 res d3 where
    "select_warehouse (env_geocode env) (env_pg env) addr items seen = Inr cand" and
    "length (basket_currencies ?ps items) \<le> 1" "basket_currencies ?ps items \<noteq> []" and
    "fold_r (add_price ?ps) items 0 = Inr tot" and
    o1: "create_order cid (cand_id cand) addr pt (hd (basket_currencies ?ps items)) tot d = Inr (o1, d1)" and
    d2: "add_items (o_id o1) ?ps (map (\<lambda>i. (product_id i, quantity i)) items) d1 = Inr d2" and
    d3: "reserve_stock (reservation_ttl_seconds env) (o_id o1) (cand_id cand) items d2 = Inr (res, d3)" and
    d4: "transition (o_id o1) Pending Reserved (Some ''stock reserved'') d3 = Inr d'" and
    "ord = o1\<lparr>o_status := Reserved, o_updated_at := db_now d3\<rparr>" .
  have led2: "ledger_ok d2" and un2: "unattributed d2 w p = unattributed d w p"
    by (rule created_before_reservation [OF o1 d2 assms(2)], assumption)+
  note r = reserve_stock_effect [OF d3 led2] and t = transition_Inr [OF d4]
  have "map o_id (orders d') = map o_id (orders d3)" by (simp add: t(3) moved_orders_def upd_def)
  then have "o_id ` set (orders d3) \<subseteq> o_id ` set (orders d')" by (metis list.set_map order_refl)
  then show "ledger_ok d'"
    by (intro ledger_ok_orders_grow [OF r(1)]) (simp_all add: t(3))
  have "unattributed d' w p = unattributed d3 w p"
    by (simp add: unattributed_def reserved_at_def held_def t(3))
  then show "unattributed d' w p = unattributed d w p" by (simp add: r(4) un2)
qed

lemma create_from_reads_created:
  assumes "create_from_reads env cid addr items pt seen priced d = Inr (ord, d')"
    and "ledger_ok d" and dist: "distinct (map product_id items)"
  shows "\<exists>c. created_from env cid addr items pt seen priced d ord d' c"
proof -
  let ?ps = "get_by_ids (set (map product_id items)) priced"
  let ?cur = "hd (basket_currencies ?ps items)"
  let ?lines = "map (\<lambda>i. (product_id i, quantity i)) items"
  from create_from_reads_calls [OF assms(1)] obtain cand tot o1 d1 d2 res d3 where
    cand: "select_warehouse (env_geocode env) (env_pg env) addr items seen = Inr cand" and
    cur: "length (basket_currencies ?ps items) \<le> 1" "basket_currencies ?ps items \<noteq> []" and
    tot: "fold_r (add_price ?ps) items 0 = Inr tot" and
    o1: "create_order cid (cand_id cand) addr pt ?cur tot d = Inr (o1, d1)" and
    d2: "add_items (o_id o1) ?ps ?lines d1 = Inr d2" and
    d3: "reserve_stock (reservation_ttl_seconds env) (o_id o1) (cand_id cand) items d2 = Inr (res, d3)" and
    d4: "transition (o_id o1) Pending Reserved (Some ''stock reserved'') d3 = Inr d'" and
    ord: "ord = o1\<lparr>o_status := Reserved, o_updated_at := db_now d3\<rparr>" .
  from select_warehouse_Inr [OF cand dist] obtain wh co pt' where
    wh: "wh \<in> set (able seen items)" "cand = candidate_of (env_pg env) pt' wh"
      "env_geocode env addr = Inr co" "to_point (lon co) (lat co) = Inr pt'"
      "\<forall>x \<in> set (able seen items). warehouse_rank (env_pg env) pt' wh \<le> warehouse_rank (env_pg env) pt' x"
    by metis
  have cid: "cand_id cand = wh_id wh" using wh(2) by (simp add: candidate_of_def)
  note c = create_order_Inr [OF o1]
  from tot have some: "\<forall>i \<in> set items. ?ps (product_id i) \<noteq> None" and
    tot': "tot = basket_total ?ps items" by (auto simp: add_price_loop)
  obtain ls n where ls: "d2 = d1\<lparr>order_items := order_items d1 @ ls, uuid_pos := n\<rparr>"
      "map line_content ls = map (snapshot (o_id o1) ?ps) ?lines" and led2: "ledger_ok d2"
    by (rule created_before_reservation [OF o1 d2 assms(2)])
  note r = reserve_stock_effect [OF d3 led2]
  note fr = only_stock_frame [OF r(2)]
  note t = transition_Inr [OF d4]
  have o1s: "o_status o1 = Pending" using c(1) by (simp add: new_order_def)
  have o3: "orders d3 = orders d @ [o1]" by (simp add: fr ls(1) c(2))
  have now: "db_now d3 = db_now d" by (simp add: fr ls(1) c(2))
  have ids: "o_id ord = o_id o1" by (simp add: ord)
  have orders': "orders d' = orders d @ [ord]"
    unfolding t(3) using moved_last [OF c(3) o3 o1s, of Reserved] by (simp add: ord)
  from r(5) obtain new where new: "stock_reservations d3 = stock_reservations d2 @ new"
    "map reservation_content new = map (\<lambda>i. (o_id o1, cand_id cand, product_id i, quantity i, Active,
       db_now d2 + seconds (reservation_ttl_seconds env))) (lock_order items (cand_id cand))" by blast
  have ord': "ord = (new_order (uuid_seq d (uuid_pos d)) cid (wh_id wh) addr pt (o_currency ord)
      (basket_total ?ps items) (db_now d))\<lparr>o_status := Reserved\<rparr>"
    by (simp add: ord now c(1) new_order_def tot' cid)
  have okord: "row_ok (order_spec d) ord"
    using c(5) by (simp add: ord c(1) new_order_def row_ok_def order_spec_def)
  have curs: "\<forall>i \<in> set items. pr_currency (the (?ps (product_id i))) = o_currency ord"
    using single_currency [OF cur] some by (force simp: ord c(1) new_order_def)
  let ?H = "order_status_history d @
        [history_entry (o_id ord) None Pending (Some ''order created'') (d\<lparr>uuid_pos := Suc (uuid_pos d)\<rparr>),
         history_entry (o_id ord) (Some Pending) Reserved (Some ''stock reserved'') d3]"
  have hist: "order_status_history d' = ?H" by (simp add: t(3) fr ls(1) c(2) ids)
  have geo: "\<exists>co pt'. env_geocode env addr = Inr co \<and> to_point (lon co) (lat co) = Inr pt' \<and>
      (\<forall>x \<in> set (able seen items).
         warehouse_rank (env_pg env) pt' wh \<le> warehouse_rank (env_pg env) pt' x)" using wh(3-5) by blast
  have frame: "order_items d' = order_items d @ ls" "stock_reservations d' = stock_reservations d @ new"
    "customers d' = customers d" "products d' = products d" "warehouses d' = warehouses d"
    "addresses d' = addresses d" "payments d' = payments d" "idempotency_keys d' = idempotency_keys d"
    "outbox d' = outbox d" "db_now d' = db_now d" "uuid_seq d' = uuid_seq d"
    "stock_reservations d2 = stock_reservations d" "db_now d2 = db_now d"
    by (simp_all add: t(3) fr new(1) ls(1) c(2))
  have "created_from env cid addr items pt seen priced d ord d'
      \<lparr>cr_warehouse = wh, cr_products = ?ps, cr_lines = ls, cr_new = new\<rparr>"
    unfolding created_from_def creation.simps
    by (intro conjI)
      (use wh(1) geo some ord' curs c(3,4) okord orders' ls(2) hist new(2) frame in
        \<open>simp_all only: ids cid frame, blast+\<close>)
  then show ?thesis by blast
qed

lemma create_from_reads_Inr:
  assumes "create_from_reads env cid addr items pt seen priced d = Inr (ord, d')"
    and "ledger_ok d" and "distinct (map product_id items)"
  shows "\<exists>c. created_from env cid addr items pt seen priced d ord d' c"
    and "ledger_ok d'" and "unattributed d' w p = unattributed d w p"
  by (rule create_from_reads_created [OF assms] create_from_reads_ledger [OF assms(1,2)])+

text \<open>A creation never writes the keys.\<close>

lemma reserve_stock_only_stock:
  assumes "reserve_stock ttl oid wid items d = Inr (res, d')"
  shows "only_stock d d'"
proof -
  have "fold_r (reserve_one ttl oid wid) (lock_order items wid) d = Inr d'"
    using assms by (auto simp: reserve_stock_def bind_r_Inr)
  then show ?thesis
    by (rule fold_r_invariant [where P = "only_stock d"])
      (auto intro: only_stock_refl only_stock_trans reserve_one_only_stock)
qed

lemma create_from_reads_keys:
  assumes "create_from_reads env cid addr items pt seen priced d = Inr (ord, d')"
  shows "idempotency_keys d' = idempotency_keys d"
proof -
  from create_from_reads_calls [OF assms] obtain cand tot o1 d1 d2 res d3 where
    o1: "create_order cid (cand_id (cand :: warehouse_candidate)) addr pt
           (hd (basket_currencies (get_by_ids (set (map product_id items)) priced) items)) tot d = Inr (o1, d1)" and
    d2: "add_items (o_id o1) (get_by_ids (set (map product_id items)) priced)
           (map (\<lambda>i. (product_id i, quantity i)) items) d1 = Inr d2" and
    d3: "reserve_stock (reservation_ttl_seconds env) (o_id o1) (cand_id cand) items d2 = Inr (res, d3)" and
    d4: "transition (o_id o1) Pending Reserved (Some ''stock reserved'') d3 = Inr d'" .
  show ?thesis
    using transition_Inr(3) [OF d4] only_stock_frame(9) [OF reserve_stock_only_stock [OF d3]]
      add_items_Inr [OF d2] create_order_Inr(2) [OF o1] by auto
qed

text \<open>The same of a creation that reads and writes one database.\<close>

lemmas create_in_transaction_Inr =
  create_from_reads_Inr [of _ _ _ _ _ d d d for d, folded create_in_transaction_def]
lemmas create_in_transaction_keys =
  create_from_reads_keys [of _ _ _ _ _ d d d for d, folded create_in_transaction_def]

end
