(* ===== verification/Availability.thy ===== *)
theory Availability
  imports Creation
begin

text \<open>
  When the statements of an order succeed: the calls of \<^verbatim>\<open>OrderRepository\<close> one by one, and
  \<^verbatim>\<open>create_in_transaction\<close> as a whole. A creation fails only for a reason its caller can see:
  an unknown id, several currencies, no warehouse that can supply the basket, an address or an amount
  the columns cannot hold.
\<close>

section \<open>The calls of the order repository\<close>

lemma order_row_ok:
  "row_ok (order_spec d) r \<longleftrightarrow>
     fits_int8 (o_total_minor r) \<and> 0 \<le> o_total_minor r \<and> currency_format (o_currency r) \<and>
     fits_text (shipping_line1 r) \<and> null_or fits_text (shipping_line2 r) \<and>
     fits_text (shipping_city r) \<and> fits_text (shipping_postal_code r) \<and>
     country_code_format (shipping_country_code r) \<and>
     (o_status r \<in> {Pending, Cancelled} \<or> o_warehouse_id r \<noteq> None \<and> o_shipping_point r \<noteq> None) \<and>
     o_customer_id r \<in> cu_id ` set (customers d) \<and>
     null_or (\<lambda>w. w \<in> wh_id ` set (warehouses d)) (o_warehouse_id r)"
  by (auto simp: row_ok_def order_spec_def currency_format_def country_code_format_def)

lemma order_ids_distinct: "table_ok (order_spec d) (orders d) \<Longrightarrow> distinct (map o_id (orders d))"
  by (erule table_ok_distinct [where n = "''pk_orders''"]) (simp add: order_spec_def)

lemma insert_history_succeeds:
  assumes "uuids_fresh d" and "oid \<in> o_id ` set (orders d)" and "frm \<noteq> Some to"
  shows "insert_history oid frm to why d =
     Inr (d\<lparr>order_status_history := order_status_history d @ [history_entry oid frm to why d],
            uuid_pos := Suc (uuid_pos d)\<rparr>)"
proof -
  have "row_ok (history_spec d) (history_entry oid frm to why d)"
    using assms(2,3) by (simp add: row_ok_def history_spec_def)
  moreover have "uuid_seq d (uuid_pos d) \<notin> h_id ` set (order_status_history d)"
    using uuids_fresh_next [OF assms(1)] by (simp add: used_ids_def)
  then have "conflict (uniques (history_spec d)) (history_entry oid frm to why d)
      (order_status_history d) = None"
    by (auto simp: conflict_None history_spec_def history_entry_def)
  ultimately show ?thesis by (simp add: insert_history_Inr)
qed

lemma uuids_fresh_history:
  "uuids_fresh d \<Longrightarrow>
     uuids_fresh (d\<lparr>order_status_history := order_status_history d @ [history_entry oid frm to why d],
                   uuid_pos := Suc (uuid_pos d)\<rparr>)"
  by (erule uuids_fresh_step) (auto simp: used_ids_def history_entry_def)

lemma used_ids_frame:
  "o_id ` set rows = o_id ` set (orders d) \<Longrightarrow> used_ids (d\<lparr>orders := rows\<rparr>) = used_ids d"
  by (simp add: used_ids_def)

lemma uuids_fresh_orders:
  "uuids_fresh d \<Longrightarrow> o_id ` set rows = o_id ` set (orders d) \<Longrightarrow> uuids_fresh (d\<lparr>orders := rows\<rparr>)"
  by (simp add: uuids_fresh_def used_ids_frame)

lemma transition_succeeds:
  assumes ok: "table_ok (order_spec d) (orders d)" and fresh: "uuids_fresh d"
    and r: "r \<in> set (orders d)" "o_id r = oid" "o_status r = frm" and edge: "is_allowed frm to"
    and wh: "o_warehouse_id r \<noteq> None" "o_shipping_point r \<noteq> None"
  shows "transition oid frm to why d = Inr (d\<lparr>orders := moved_orders oid frm to d,
            order_status_history := order_status_history d @ [history_entry oid (Some frm) to why d],
            uuid_pos := Suc (uuid_pos d)\<rparr>)"
proof -
  let ?c = "\<lambda>r. o_id r = oid \<and> o_status r = frm"
  let ?f = "\<lambda>r. r\<lparr>o_status := to, o_updated_at := db_now d\<rparr>"
  have one: "x = r" if "x \<in> set (orders d)" "o_id x = oid" for x
    using distinct_key_unique [OF order_ids_distinct [OF ok] that(1) r(1)] that(2) r(2) by simp
  have u: "update_rows (order_spec d) ?c ?f (orders d) =
      Inr (map ?f (filter ?c (orders d)), moved_orders oid frm to d)"
    unfolding moved_orders_def
  proof (rule update_rows_succeeds [OF ok])
    fix x assume "x \<in> set (orders d)" "?c x"
    with one have "x = r" by simp
    moreover have "row_ok (order_spec d) r" using ok r(1) by (simp add: table_ok_def list_all_iff)
    ultimately show "row_ok (order_spec d) (?f x)" using wh by (simp add: order_row_ok)
  next
    fix u a b assume "u \<in> set (uniques (order_spec d))"
      "snd u (if ?c a then ?f a else a) (if ?c b then ?f b else b)"
    then show "snd u a b" by (auto simp: order_spec_def split: if_splits)
  qed
  have ne: "filter ?c (orders d) \<noteq> []" using r by (auto simp: filter_empty_conv)
  let ?d1 = "d\<lparr>orders := moved_orders oid frm to d\<rparr>"
  have f1: "uuids_fresh ?d1" using uuids_fresh_orders [OF fresh] by simp
  have "oid \<in> o_id ` set (orders ?d1)" using r by auto
  moreover have "Some frm \<noteq> Some to" using edge is_allowed_irrefl by auto
  ultimately have "insert_history oid (Some frm) to why ?d1 =
      Inr (?d1\<lparr>order_status_history := order_status_history d @ [history_entry oid (Some frm) to why ?d1],
               uuid_pos := Suc (uuid_pos d)\<rparr>)"
    using insert_history_succeeds [OF f1] by simp
  with u ne edge show ?thesis by (simp add: transition_def history_entry_def)
qed

lemma transition_fresh:
  assumes "transition oid frm to why d = Inr d'" and "uuids_fresh d"
  shows "uuids_fresh d'"
proof -
  note t = transition_Inr [OF assms(1)]
  let ?d1 = "d\<lparr>orders := moved_orders oid frm to d\<rparr>"
  have "uuids_fresh ?d1" using uuids_fresh_orders [OF assms(2)] by simp
  from uuids_fresh_history [OF this, of oid "Some frm" to why] show ?thesis
    unfolding t(3) by (simp add: history_entry_def)
qed

lemma transition_keeps_orders:
  assumes "transition oid frm to why d = Inr d'" and "table_ok (order_spec d) (orders d)"
  shows "table_ok (order_spec d') (orders d')"
proof -
  obtain ret where "update_rows (order_spec d) (\<lambda>r. o_id r = oid \<and> o_status r = frm)
      (\<lambda>r. r\<lparr>o_status := to, o_updated_at := db_now d\<rparr>) (orders d) = Inr (ret, moved_orders oid frm to d)"
    using assms(1) by (auto simp: transition_def bind_r_Inr update_rows_Inr moved_orders_def
        split: if_split_asm)
  then have "table_ok (order_spec d) (moved_orders oid frm to d)"
    by (rule update_rows_table_ok [OF _ assms(2)])
  then show ?thesis using transition_Inr(3) [OF assms(1)] by simp
qed

lemma create_order_succeeds:
  assumes "uuids_fresh d"
    and "row_ok (order_spec d) (new_order (uuid_seq d (uuid_pos d)) cid wid addr pt cur tot (db_now d))"
  shows "\<exists>o1 d'. create_order cid wid addr pt cur tot d = Inr (o1, d') \<and> uuids_fresh d'"
proof -
  let ?o = "new_order (uuid_seq d (uuid_pos d)) cid wid addr pt cur tot (db_now d)"
  let ?d1 = "d\<lparr>uuid_pos := Suc (uuid_pos d), orders := orders d @ [?o]\<rparr>"
  have id: "o_id ?o = uuid_seq d (uuid_pos d)" by (simp add: new_order_def)
  have "uuid_seq d (uuid_pos d) \<notin> o_id ` set (orders d)"
    using uuids_fresh_next [OF assms(1)] by (simp add: used_ids_def)
  then have "conflict (uniques (order_spec d)) ?o (orders d) = None"
    using id by (auto simp: conflict_None order_spec_def)
  with assms(2) have ins: "insert_row (order_spec d) ?o (orders d) = Inr (orders d @ [?o])"
    by (simp add: insert_row_Inr)
  have f1: "uuids_fresh ?d1"
    by (rule uuids_fresh_step [OF assms(1)]) (auto simp: used_ids_def id)
  have "insert_history (o_id ?o) None Pending (Some ''order created'') ?d1 =
      Inr (?d1\<lparr>order_status_history := order_status_history ?d1 @
            [history_entry (o_id ?o) None Pending (Some ''order created'') ?d1],
          uuid_pos := Suc (uuid_pos ?d1)\<rparr>)"
    by (rule insert_history_succeeds [OF f1]) simp_all
  with ins have "create_order cid wid addr pt cur tot d = Inr (?o, ?d1\<lparr>order_status_history :=
      order_status_history ?d1 @ [history_entry (o_id ?o) None Pending (Some ''order created'') ?d1],
          uuid_pos := Suc (uuid_pos ?d1)\<rparr>)"
    by (simp add: create_order_def gen_random_uuid_def Let_def id)
  with uuids_fresh_history [OF f1] show ?thesis by blast
qed

section \<open>The lines\<close>

lemma item_row_ok:
  "row_ok (order_item_spec d) r \<longleftrightarrow>
     fits_int4 (oi_quantity r) \<and> 0 < oi_quantity r \<and> fits_int8 (oi_unit_price_minor r) \<and>
     0 \<le> oi_unit_price_minor r \<and> currency_format (oi_currency r) \<and> fits_int8 (line_total_minor r) \<and>
     oi_order_id r \<in> o_id ` set (orders d) \<and> oi_product_id r \<in> pr_id ` set (products d)"
  by (auto simp: row_ok_def order_item_spec_def currency_format_def)

lemma product_row_ok:
  "row_ok product_spec p \<longleftrightarrow>
     fits_int8 (pr_unit_price_minor p) \<and> 0 \<le> pr_unit_price_minor p \<and> currency_format (pr_currency p)"
  by (auto simp: row_ok_def product_spec_def currency_format_def)

text \<open>What one line asks of the columns, and that the loop over distinct products then succeeds.\<close>

definition line_fits :: "(uuid \<rightharpoonup> product_row) \<Rightarrow> uuid \<times> int \<Rightarrow> bool" where
  "line_fits ps it \<longleftrightarrow>
     (case ps (fst it) of None \<Rightarrow> False
      | Some p \<Rightarrow> pr_id p = fst it \<and> row_ok product_spec p \<and> fits_int4 (snd it) \<and> 0 < snd it \<and>
                  fits_int8 (snd it * pr_unit_price_minor p))"

lemma add_items_succeeds:
  assumes "uuids_fresh d" and "oid \<in> o_id ` set (orders d)" and "distinct (map fst its)"
    and "\<forall>it \<in> set its. line_fits ps it \<and> fst it \<in> pr_id ` set (products d) \<and>
           (\<forall>r \<in> set (order_items d). \<not> (oi_order_id r = oid \<and> oi_product_id r = fst it))"
  shows "\<exists>d'. add_items oid ps its d = Inr d' \<and> uuids_fresh d'"
  using assms unfolding add_items_def
proof (induction its arbitrary: d)
  case (Cons it its)
  obtain p where p: "ps (fst it) = Some p" "pr_id p = fst it" "row_ok product_spec p"
    "fits_int4 (snd it)" "0 < snd it" "fits_int8 (snd it * pr_unit_price_minor p)"
    using Cons.prems(4) by (auto simp: line_fits_def split: option.splits)
  let ?l = "line_of oid p (snd it) (uuid_seq d (uuid_pos d)) (db_now d)"
  let ?d1 = "d\<lparr>order_items := order_items d @ [?l], uuid_pos := Suc (uuid_pos d)\<rparr>"
  have "row_ok (order_item_spec d) ?l"
    using p Cons.prems(2,4) by (simp add: item_row_ok line_of_def line_total_minor_def product_row_ok)
  moreover have "uuid_seq d (uuid_pos d) \<notin> oi_id ` set (order_items d)"
    using uuids_fresh_next [OF Cons.prems(1)] by (simp add: used_ids_def)
  then have "conflict (uniques (order_item_spec d)) ?l (order_items d) = None"
    using Cons.prems(4) p(2) by (auto simp: conflict_None order_item_spec_def line_of_def)
  ultimately have one: "add_item oid ps it d = Inr ?d1"
    using p(1) by (simp add: add_item_def gen_random_uuid_def insert_row_Inr bind_r_Inr line_of_def
        order_item_spec_def)
  have f1: "uuids_fresh ?d1"
    by (rule uuids_fresh_step [OF Cons.prems(1)]) (auto simp: used_ids_def line_of_def)
  have "\<exists>d'. fold_r (add_item oid ps) its ?d1 = Inr d' \<and> uuids_fresh d'"
  proof (rule Cons.IH [OF f1])
    show "oid \<in> o_id ` set (orders ?d1)" using Cons.prems(2) by simp
    show "distinct (map fst its)" using Cons.prems(3) by simp
    have "fst it \<noteq> fst x" if "x \<in> set its" for x
      using Cons.prems(3) that by (auto simp: rev_image_eqI)
    then show "\<forall>x \<in> set its. line_fits ps x \<and> fst x \<in> pr_id ` set (products ?d1) \<and>
        (\<forall>r \<in> set (order_items ?d1). \<not> (oi_order_id r = oid \<and> oi_product_id r = fst x))"
      using Cons.prems(4) p(2) by (simp add: line_of_def)
  qed
  with one show ?case by simp
qed simp

section \<open>Creation as a whole\<close>

text \<open>What the caller can check beforehand.\<close>

definition orderable :: "env \<Rightarrow> uuid \<Rightarrow> postal_address \<Rightarrow> requested_item list \<Rightarrow> db \<Rightarrow> bool" where
  "orderable env cid addr items d \<longleftrightarrow>
     cid \<in> cu_id ` set (customers d) \<and> items \<noteq> [] \<and> distinct (map product_id items) \<and>
     (\<forall>i \<in> set items. 0 < quantity i \<and> product_id i \<in> pr_id ` set (products d)) \<and>
     (\<exists>cur. \<forall>i \<in> set items. \<forall>p \<in> set (products d). pr_id p = product_id i \<longrightarrow> pr_currency p = cur) \<and>
     (\<forall>i \<in> set items. \<forall>p \<in> set (products d). pr_id p = product_id i \<longrightarrow>
        fits_int8 (quantity i * pr_unit_price_minor p)) \<and>
     fits_int8 (basket_total (get_by_ids (set (map product_id items)) d) items) \<and>
     fits_text (line1 addr) \<and> null_or fits_text (line2 addr) \<and> fits_text (city addr) \<and>
     fits_text (postal_code addr) \<and> country_code_format (country_code addr) \<and>
     (\<exists>co pt. env_geocode env addr = Inr co \<and> to_point (lon co) (lat co) = Inr pt) \<and>
     able d items \<noteq> []"

lemma supplies_fits:
  assumes "table_ok (inventory_spec d) (inventory d)" and "supplies d w items" and "i \<in> set items"
    and "0 < quantity i"
  shows "fits_int4 (quantity i)"
proof -
  obtain r where r: "r \<in> set (inventory d)" "quantity i \<le> on_hand r - reserved r"
    using assms(2,3) by (auto simp: supplies_def list_all_iff stocked_def list_ex_iff)
  then have "row_ok (inventory_spec d) r" using assms(1) by (simp add: table_ok_def list_all_iff)
  with r(2) assms(4) show ?thesis by (simp add: inventory_row_ok fits_int4_def)
qed

lemma orderable_selects:
  assumes "orderable env cid addr items d" and "table_ok (inventory_spec d) (inventory d)"
  shows "\<exists>cand. select_warehouse (env_geocode env) (env_pg env) addr items d = Inr cand"
proof -
  note o = assms(1) [unfolded orderable_def]
  have fit: "list_all (\<lambda>it. fits_int4 (quantity it)) items"
  proof -
    have "able d items \<noteq> []" using o by blast
    then obtain w where "w \<in> set (able d items)" by (cases "able d items") auto
    then have "supplies d (wh_id w) items" by (simp add: able_def)
    moreover have "\<forall>i \<in> set items. 0 < quantity i" using o by blast
    ultimately show ?thesis using supplies_fits [OF assms(2)] by (simp add: list_all_iff)
  qed
  obtain co pt where g: "env_geocode env addr = Inr co" "to_point (lon co) (lat co) = Inr pt" using o by blast
  have known: "product_id ` set items \<subseteq> existing_ids (product_id ` set items) d"
    using o by (auto simp: existing_ids_iff)
  have "length (sort_key (warehouse_rank (env_pg env) pt) (able d items)) \<noteq> 0"
    using o by (simp only: length_sort length_0_conv) simp
  then obtain w ws where "sort_key (warehouse_rank (env_pg env) pt) (able d items) = w # ws"
    by (cases "sort_key (warehouse_rank (env_pg env) pt) (able d items)") auto
  then have "select_best (env_pg env) pt items d = Inr (Some (candidate_of (env_pg env) pt w))"
    using o fit by (simp add: select_best_by_rank)
  with g known o show ?thesis by (simp add: select_warehouse_def Let_def)
qed

lemma basket_total_nonneg:
  "(\<forall>i \<in> set items. 0 < quantity i \<and> 0 \<le> pr_unit_price_minor (the (ps (product_id i)))) \<Longrightarrow>
     0 \<le> basket_total ps items"
  unfolding basket_total_def by (rule sum_list_nonneg) auto

lemma map_filter_nonempty:
  "xs \<noteq> [] \<Longrightarrow> \<forall>x \<in> set xs. f x \<noteq> None \<Longrightarrow> List.map_filter f xs \<noteq> []"
  by (cases xs) (auto simp: map_filter_def)

lemma one_currency_list:
  assumes "items \<noteq> []" and "\<forall>i \<in> set items. \<exists>p. ps (product_id i) = Some p \<and> pr_currency p = cur"
  shows "basket_currencies ps items = [cur]"
proof -
  let ?xs = "map pr_currency (List.map_filter (\<lambda>i. ps (product_id i)) items)"
  have "set ?xs = {cur}"
    using assms by (cases items) (auto simp: map_filter_def)
  then have "set (remdups ?xs) = {cur}" and "distinct (remdups ?xs)" by simp_all
  moreover have "xs = [c]" if "set xs = {c}" "distinct xs" for xs :: "string list" and c
    using that by (cases xs; cases "tl xs") auto
  ultimately show ?thesis unfolding basket_currencies_def by blast
qed

text \<open>No line or reservation refers to an order that does not exist: the foreign keys.\<close>

definition refs_ok :: "db \<Rightarrow> bool" where
  "refs_ok d \<longleftrightarrow>
     (\<forall>r \<in> set (order_items d). oi_order_id r \<in> o_id ` set (orders d)) \<and>
     (\<forall>r \<in> set (stock_reservations d). sr_order_id r \<in> o_id ` set (orders d))"

text \<open>
  Up to the reservation nothing can fail, whatever others did to the stock since the selection: the
  chosen warehouse is one that could supply the basket then.
\<close>

text \<open>The prices of an orderable basket: every product has its row, in one currency, and the total is a price.\<close>

lemma orderable_prices:
  assumes "orderable env cid addr items seen" and "table_ok product_spec (products seen)"
  obtains cur where "basket_currencies (get_by_ids (set (map product_id items)) seen) items = [cur]"
    and "fold_r (add_price (get_by_ids (set (map product_id items)) seen)) items 0 =
      Inr (basket_total (get_by_ids (set (map product_id items)) seen) items)"
    and "currency_format cur" and "0 \<le> basket_total (get_by_ids (set (map product_id items)) seen) items"
    and "\<forall>i \<in> set items. \<exists>p. get_by_ids (set (map product_id items)) seen (product_id i) = Some p \<and>
      p \<in> set (products seen) \<and> pr_id p = product_id i \<and> row_ok product_spec p \<and> pr_currency p = cur"
proof -
  note oo = assms(1) [unfolded orderable_def]
  have ne: "items \<noteq> []" using oo by blast
  let ?ps = "get_by_ids (set (map product_id items)) seen"
  obtain cur where cur: "\<forall>i \<in> set items. \<forall>p \<in> set (products seen). pr_id p = product_id i \<longrightarrow> pr_currency p = cur"
    using oo by blast
  have prod: "\<exists>p. ?ps (product_id i) = Some p \<and> p \<in> set (products seen) \<and> pr_id p = product_id i \<and>
      row_ok product_spec p \<and> pr_currency p = cur" if i: "i \<in> set items" for i
  proof -
    have "?ps (product_id i) \<noteq> None" using oo i by (intro get_by_ids_known) auto
    then obtain p where p: "?ps (product_id i) = Some p" by blast
    note m = get_by_ids_SomeD [OF p]
    then have "row_ok product_spec p" using assms(2) by (simp add: table_ok_def list_all_iff)
    with p m cur i show ?thesis by blast
  qed
  have cl: "basket_currencies ?ps items = [cur]"
    by (rule one_currency_list [OF ne]) (use prod in blast)
  have tot: "fold_r (add_price ?ps) items 0 = Inr (basket_total ?ps items)"
    unfolding add_price_loop using prod by fastforce
  have fmt: "currency_format cur"
  proof -
    obtain i where "i \<in> set items" using ne by (cases items) auto
    from prod [OF this] show ?thesis by (auto simp: product_row_ok)
  qed
  have nn: "0 \<le> basket_total ?ps items"
    by (rule basket_total_nonneg) (use prod oo in \<open>fastforce simp: product_row_ok\<close>)
  show ?thesis by (rule that [OF cl tot fmt nn]) (use prod in blast)
qed

lemma creation_reaches_reservation:
  assumes o: "orderable env cid addr items seen" and inv: "table_ok (inventory_spec seen) (inventory seen)"
    and prods: "table_ok product_spec (products seen)" and priced: "products priced = products seen"
    and same: "customers d = customers seen" "products d = products seen" "warehouses d = warehouses seen"
    and led: "ledger_ok d" and fresh: "uuids_fresh d" and ords: "table_ok (order_spec d) (orders d)" and refs: "refs_ok d"
  obtains w o1 d2 where
    "\<exists>cand. select_warehouse (env_geocode env) (env_pg env) addr items seen = Inr cand \<and> cand_id cand = wh_id w"
    and "w \<in> set (able seen items)"
    and "create_from_reads env cid addr items pt seen priced d =
      bind_r (reserve_stock (reservation_ttl_seconds env) (o_id o1) (wh_id w) items d2) (\<lambda>(_, d3).
      bind_r (transition (o_id o1) Pending Reserved (Some ''stock reserved'') d3) (\<lambda>d4.
        Inr (o1\<lparr>o_status := Reserved, o_updated_at := db_now d3\<rparr>, d4)))"
    and "ledger_ok d2" "uuids_fresh d2" "inventory d2 = inventory d" "orders d2 = orders d @ [o1]"
    and "o_status o1 = Pending \<and> o_warehouse_id o1 = Some (wh_id w) \<and> o_shipping_point o1 \<noteq> None"
    and "table_ok (order_spec d2) (orders d2)" and "\<forall>r \<in> set (stock_reservations d2). sr_order_id r \<noteq> o_id o1"
    and "\<forall>i \<in> set items. fits_int4 (quantity i)"
proof -
  note oo = o [unfolded orderable_def]
  have dist: "distinct (map product_id items)" and ne: "items \<noteq> []" using oo by blast+
  let ?ps = "get_by_ids (set (map product_id items)) seen"
  let ?lines = "map (\<lambda>i. (product_id i, quantity i)) items"
  obtain cand where cand: "select_warehouse (env_geocode env) (env_pg env) addr items seen = Inr cand"
    using orderable_selects [OF o inv] by blast
  obtain w where w: "w \<in> set (able seen items)" and cid: "cand_id cand = wh_id w"
    by (rule select_warehouse_Inr [OF cand dist]) (simp add: candidate_of_def)
  have wset: "w \<in> set (warehouses d)" and sup: "supplies seen (wh_id w) items"
    using w by (simp_all add: able_def same)
  obtain cur where cl: "basket_currencies ?ps items = [cur]"
    and tot: "fold_r (add_price ?ps) items 0 = Inr (basket_total ?ps items)"
    and fmt: "currency_format cur" "0 \<le> basket_total ?ps items"
    and prod: "\<forall>i \<in> set items. \<exists>p. ?ps (product_id i) = Some p \<and> p \<in> set (products seen) \<and>
      pr_id p = product_id i \<and> row_ok product_spec p \<and> pr_currency p = cur"
    by (rule orderable_prices [OF o prods])
  have row: "row_ok (order_spec d) (new_order (uuid_seq d (uuid_pos d)) cid (cand_id cand) addr pt
      cur (basket_total ?ps items) (db_now d))"
    using oo wset fmt by (auto simp: order_row_ok new_order_def cid same)
  from create_order_succeeds [OF fresh row] obtain o1 d1 where
    o1: "create_order cid (cand_id cand) addr pt cur (basket_total ?ps items) d = Inr (o1, d1)"
    and f1: "uuids_fresh d1" by blast
  note c = create_order_Inr [OF o1]
  have d2ex: "\<exists>d2. add_items (o_id o1) ?ps ?lines d1 = Inr d2 \<and> uuids_fresh d2"
  proof (rule add_items_succeeds [OF f1])
    show "o_id o1 \<in> o_id ` set (orders d1)" by (simp add: c(2))
    show "distinct (map fst ?lines)" using dist by (simp add: o_def)
    have old: "oi_order_id r \<noteq> o_id o1" if "r \<in> set (order_items d)" for r
      using refs c(3) that by (auto simp: refs_ok_def)
    have lf: "line_fits ?ps (product_id i, quantity i)" if i: "i \<in> set items" for i
      using prod oo i supplies_fits [OF inv sup i] by (auto simp: line_fits_def)
    show "\<forall>it \<in> set ?lines. line_fits ?ps it \<and> fst it \<in> pr_id ` set (products d1) \<and>
        (\<forall>r \<in> set (order_items d1). \<not> (oi_order_id r = o_id o1 \<and> oi_product_id r = fst it))"
      using lf old oo by (auto simp: c(2) same)
  qed
  then obtain d2 where d2: "add_items (o_id o1) ?ps ?lines d1 = Inr d2" and f2: "uuids_fresh d2" by blast
  from add_items_Inr [OF d2] obtain ls n where
    d2': "d2 = d1\<lparr>order_items := order_items d1 @ ls, uuid_pos := n\<rparr>" by blast
  have sp: "order_spec d2 = order_spec d" by (simp add: order_spec_def d2' c(2))
  have "insert_row (order_spec d) o1 (orders d) = Inr (orders d @ [o1])"
    using c(3,5) by (auto simp: insert_row_Inr conflict_None order_spec_def)
  then have ords2: "table_ok (order_spec d2) (orders d @ [o1])"
    unfolding sp by (rule insert_row_table_ok [rotated, OF _ ords]) (auto simp: sym_uniques_def order_spec_def)
  have ps: "get_by_ids (set (map product_id items)) priced = ?ps" by (simp add: get_by_ids_def priced)
  show ?thesis
  proof (rule that [of w o1 d2])
    show "create_from_reads env cid addr items pt seen priced d =
        bind_r (reserve_stock (reservation_ttl_seconds env) (o_id o1) (wh_id w) items d2) (\<lambda>(_, d3).
        bind_r (transition (o_id o1) Pending Reserved (Some ''stock reserved'') d3) (\<lambda>d4.
          Inr (o1\<lparr>o_status := Reserved, o_updated_at := db_now d3\<rparr>, d4)))"
      using cand cl tot o1 d2 by (simp add: create_from_reads_def Let_def ps cid del: set_map)
    show "ledger_ok d2" by (rule ledger_ok_orders_grow [OF led]) (auto simp: d2' c(2))
    show "\<forall>r \<in> set (stock_reservations d2). sr_order_id r \<noteq> o_id o1"
      using refs c(3) by (auto simp: refs_ok_def d2' c(2))
    show "\<forall>i \<in> set items. fits_int4 (quantity i)" using supplies_fits [OF inv sup] oo by blast
  qed (use cand cid w f2 ords2 in \<open>simp_all add: d2' c(1,2) new_order_def\<close>)
qed

text \<open>Once the stock is reserved, the rest of the creation succeeds.\<close>

lemma reserved_creation_succeeds:
  assumes "reserve_stock ttl (o_id o1) wid items d2 = Inr (res, d3)" and "ledger_ok d2" and f3: "uuids_fresh d3"
    and o2: "orders d2 = rows @ [o1]"
      "o_status o1 = Pending \<and> o_warehouse_id o1 \<noteq> None \<and> o_shipping_point o1 \<noteq> None" and ords: "table_ok (order_spec d2) (orders d2)"
  shows "\<exists>d'. transition (o_id o1) Pending Reserved (Some ''stock reserved'') d3 = Inr d' \<and> uuids_fresh d' \<and>
    table_ok (order_spec d') (orders d')"
proof -
  note fr = only_stock_frame [OF reserve_stock_effect(2) [OF assms(1,2)]]
  have ords3: "table_ok (order_spec d3) (orders d3)" using ords by (simp add: order_spec_def fr)
  from transition_succeeds [OF ords3 f3, of o1 "o_id o1" Pending Reserved "Some ''stock reserved''"]
  obtain d4 where d4: "transition (o_id o1) Pending Reserved (Some ''stock reserved'') d3 = Inr d4"
    using o2(2) by (auto simp: fr o2(1))
  with transition_fresh [OF d4 f3] transition_keeps_orders [OF d4 ords3] show ?thesis by blast
qed

lemma create_in_transaction_succeeds:
  assumes o: "orderable env cid addr items d" and led: "ledger_ok d" and fresh: "uuids_fresh d"
    and prods: "table_ok product_spec (products d)" and ords: "table_ok (order_spec d) (orders d)"
    and refs: "refs_ok d"
  shows "\<exists>ord d'. create_in_transaction env cid addr items pt d = Inr (ord, d') \<and> uuids_fresh d' \<and>
    table_ok (order_spec d') (orders d')"
proof -
  have inv: "table_ok (inventory_spec d) (inventory d)" using led by (simp add: ledger_ok_iff)
  obtain w o1 d2 where c:
    "\<exists>cand. select_warehouse (env_geocode env) (env_pg env) addr items d = Inr cand \<and> cand_id cand = wh_id w"
    "create_from_reads env cid addr items pt d d d =
      bind_r (reserve_stock (reservation_ttl_seconds env) (o_id o1) (wh_id w) items d2) (\<lambda>(_, d3).
      bind_r (transition (o_id o1) Pending Reserved (Some ''stock reserved'') d3) (\<lambda>d4.
        Inr (o1\<lparr>o_status := Reserved, o_updated_at := db_now d3\<rparr>, d4)))"
    and d2: "ledger_ok d2" "uuids_fresh d2" "inventory d2 = inventory d" "orders d2 = orders d @ [o1]"
      "o_status o1 = Pending \<and> o_warehouse_id o1 = Some (wh_id w) \<and> o_shipping_point o1 \<noteq> None"
      "table_ok (order_spec d2) (orders d2)" "\<forall>r \<in> set (stock_reservations d2). sr_order_id r \<noteq> o_id o1"
    and "w \<in> set (able d items)" "\<forall>i \<in> set items. fits_int4 (quantity i)"
    by (rule creation_reaches_reservation [OF o inv prods refl refl refl refl led fresh ords refs])
  have "distinct (map product_id items)" "list_all (\<lambda>it. 0 < quantity it) items"
    using o by (auto simp: orderable_def list_all_iff)
  with c(1) selected_can_reserve [OF _ _ _ d2(1-3) _ d2(7)] d2(4) obtain res d3 where
    d3: "reserve_stock (reservation_ttl_seconds env) (o_id o1) (wh_id w) items d2 = Inr (res, d3)" "uuids_fresh d3"
    by fastforce
  from reserved_creation_succeeds [OF d3(1) d2(1) d3(2) d2(4) _ d2(6)] d2(5) c(2) d3(1) show ?thesis
    by (auto simp: create_in_transaction_def)
qed

end
