(* ===== verification/Idempotency.thy ===== *)
theory Idempotency
  imports Schema
begin

text \<open>
  \<^verbatim>\<open>app/repositories/idempotency.py\<close> and \<^verbatim>\<open>OrderCheckoutService._claim_key\<close>: one row per
  \<^verbatim>\<open>Idempotency-Key\<close>, taken by an \<^verbatim>\<open>INSERT ... ON CONFLICT DO NOTHING\<close>, settled as
  completed with the response a replay returns, or as failed so that a retry may take it again. The
  lemmas give the decision table of \<open>claim_key\<close> and show that a key nobody marks failed is
  taken once.
\<close>

section \<open>Operations\<close>

definition key_row :: "string \<Rightarrow> db \<Rightarrow> idempotency_row option" where
  "key_row key d = List.find (\<lambda>r. ik_key r = key) (idempotency_keys d)"

text \<open>
  \<^verbatim>\<open>claim\<close>: the defaults (a fresh id, the timestamps) are computed and the CHECKs tested before
  the conflict on \<^verbatim>\<open>key\<close> is looked at; a conflict returns no id and writes nothing.
\<close>

definition claim :: "string \<Rightarrow> string \<Rightarrow> db \<Rightarrow> exc + (uuid option \<times> db)" where
  "claim key hashed d =
     (let (iid, d1) = gen_random_uuid d;
          row = \<lparr>ik_id = iid, ik_key = key, ik_request_hash = hashed, ik_status = In_progress,
                 ik_response_body = None, ik_response_status = None, ik_order_id = None,
                 ik_created_at = db_now d1, ik_updated_at = db_now d1\<rparr>
      in case check_row (idempotency_spec d1) row of Some e \<Rightarrow> Inl e | None \<Rightarrow>
         if list_ex (\<lambda>r. ik_key r = key) (idempotency_keys d1) then Inr (None, d1)
         else bind_r (insert_row (idempotency_spec d1) row (idempotency_keys d1))
                (\<lambda>rows. Inr (Some iid, d1\<lparr>idempotency_keys := rows\<rparr>)))"

definition get_key :: "string \<Rightarrow> db \<Rightarrow> idempotency_row option" where
  "get_key key d = key_row key d"

definition reclaim_failed :: "string \<Rightarrow> db \<Rightarrow> exc + (bool \<times> db)" where
  "reclaim_failed key d =
     bind_r
       (update_rows (idempotency_spec d) (\<lambda>r. ik_key r = key \<and> ik_status r = Failed)
         (\<lambda>r. r\<lparr>ik_status := In_progress, ik_response_body := None, ik_response_status := None,
                ik_updated_at := db_now d\<rparr>) (idempotency_keys d))
       (\<lambda>(reclaimed, rows). Inr (reclaimed \<noteq> [], d\<lparr>idempotency_keys := rows\<rparr>))"

definition settle_completed :: "string \<Rightarrow> order_response \<Rightarrow> int \<Rightarrow> uuid \<Rightarrow> db \<Rightarrow> exc + db" where
  "settle_completed key body st oid d =
     bind_r
       (update_rows (idempotency_spec d) (\<lambda>r. ik_key r = key)
         (\<lambda>r. r\<lparr>ik_status := Completed, ik_response_body := Some body,
                ik_response_status := Some st, ik_order_id := Some oid,
                ik_updated_at := db_now d\<rparr>) (idempotency_keys d))
       (\<lambda>(_, rows). Inr (d\<lparr>idempotency_keys := rows\<rparr>))"

definition mark_key_failed :: "string \<Rightarrow> uuid option \<Rightarrow> db \<Rightarrow> exc + db" where
  "mark_key_failed key oid d =
     bind_r
       (update_rows (idempotency_spec d) (\<lambda>r. ik_key r = key)
         (\<lambda>r. r\<lparr>ik_status := Failed, ik_response_body := None, ik_response_status := None,
                ik_order_id := oid, ik_updated_at := db_now d\<rparr>) (idempotency_keys d))
       (\<lambda>(_, rows). Inr (d\<lparr>idempotency_keys := rows\<rparr>))"

text \<open>\<^verbatim>\<open>_claim_key\<close>: take the key, or decide what the existing one means.\<close>

definition claim_key :: "string \<Rightarrow> string \<Rightarrow> db \<Rightarrow> exc + db" where
  "claim_key key hashed d =
     bind_r (claim key hashed d) (\<lambda>(claimed, d1).
       if claimed \<noteq> None then Inr d1 else
       case get_key key d1 of None \<Rightarrow> Inl (DomainError (IdempotencyInProgress key)) | Some existing \<Rightarrow>
       if ik_request_hash existing \<noteq> hashed then Inl (DomainError (IdempotencyKeyReuse key))
       else if ik_status existing = Completed then
         Inl (ReplayedResponse (ik_response_body existing)
               (case ik_response_status existing of None \<Rightarrow> 200
                | Some s \<Rightarrow> if s = 0 then 200 else s))
       else if ik_status existing = Failed then
         bind_r (reclaim_failed key d1) (\<lambda>(ok, d2).
           if ok then Inr d2 else Inl (DomainError (IdempotencyInProgress key)))
       else Inl (DomainError (IdempotencyInProgress key)))"

section \<open>The rows the operations write\<close>

lemma idempotency_row_ok:
  "row_ok (idempotency_spec d) r \<longleftrightarrow>
     null_or fits_int4 (ik_response_status r) \<and> length (ik_request_hash r) = 64 \<and>
     null_or (\<lambda>s. 100 \<le> s \<and> s \<le> 599) (ik_response_status r) \<and>
     (ik_response_body r = None) = (ik_response_status r = None) \<and>
     (ik_status r = Completed \<longrightarrow> ik_response_body r \<noteq> None \<and> ik_response_status r \<noteq> None) \<and>
     null_or (\<lambda>x. x \<in> o_id ` set (orders d)) (ik_order_id r)"
  by (auto simp: row_ok_def idempotency_spec_def)

lemma keys_distinct:
  "table_ok (idempotency_spec d) (idempotency_keys d) \<Longrightarrow> distinct (map ik_key (idempotency_keys d))"
  by (erule table_ok_distinct [where n = "''uq_idempotency_keys_key''"])
    (simp add: idempotency_spec_def)

lemma key_row_SomeD: "key_row key d = Some r \<Longrightarrow> r \<in> set (idempotency_keys d) \<and> ik_key r = key"
  unfolding key_row_def by (drule find_SomeD) simp

lemma key_row_None: "key_row key d = None \<longleftrightarrow> \<not> list_ex (\<lambda>r. ik_key r = key) (idempotency_keys d)"
  by (auto simp: key_row_def find_None_iff' list_ex_iff)

lemma key_row_frame [simp]:
  "key_row key (d\<lparr>uuid_pos := n\<rparr>) = key_row key d"
  "key_row key (d\<lparr>idempotency_keys := rows\<rparr>) = List.find (\<lambda>r. ik_key r = key) rows"
  by (simp_all add: key_row_def)

text \<open>An update of the key's row that keeps its id and key never runs into a unique constraint.\<close>

lemma update_keys_succeeds:
  assumes "table_ok (idempotency_spec d) (idempotency_keys d)"
    and "\<And>r. ik_id (f r) = ik_id r" "\<And>r. ik_key (f r) = ik_key r"
    and "\<And>r. row_ok (idempotency_spec d) r \<Longrightarrow> c r \<Longrightarrow> row_ok (idempotency_spec d) (f r)"
  shows "update_rows (idempotency_spec d) c f (idempotency_keys d) =
     Inr (map f (filter c (idempotency_keys d)), upd c f (idempotency_keys d))"
proof (rule update_rows_succeeds [OF assms(1)])
  fix r assume "r \<in> set (idempotency_keys d)" "c r"
  then show "row_ok (idempotency_spec d) (f r)"
    using assms(1,4) by (auto simp: table_ok_def list_all_iff)
next
  fix u a b assume "u \<in> set (uniques (idempotency_spec d))"
    "snd u (if c a then f a else a) (if c b then f b else b)"
  then show "snd u a b" using assms(2,3) by (auto simp: idempotency_spec_def split: if_splits)
qed

text \<open>The row \<open>claim\<close> writes for a key nobody has used.\<close>

definition fresh_key_row :: "string \<Rightarrow> string \<Rightarrow> db \<Rightarrow> idempotency_row" where
  "fresh_key_row key hashed d =
     \<lparr>ik_id = uuid_seq d (uuid_pos d), ik_key = key, ik_request_hash = hashed,
      ik_status = In_progress, ik_response_body = None, ik_response_status = None,
      ik_order_id = None, ik_created_at = db_now d, ik_updated_at = db_now d\<rparr>"

lemma fresh_key_row_simps [simp]:
  "ik_id (fresh_key_row key hashed d) = uuid_seq d (uuid_pos d)"
  "ik_key (fresh_key_row key hashed d) = key"
  "ik_request_hash (fresh_key_row key hashed d) = hashed"
  "ik_status (fresh_key_row key hashed d) = In_progress"
  "ik_order_id (fresh_key_row key hashed d) = None"
  by (simp_all add: fresh_key_row_def)

lemma fresh_key_row_ok: "row_ok (idempotency_spec d) (fresh_key_row key hashed d) \<longleftrightarrow> length hashed = 64"
  by (simp add: idempotency_row_ok fresh_key_row_def)

lemma claim_Inr:
  "claim key hashed d = Inr (c, d') \<longleftrightarrow>
     length hashed = 64 \<and>
     (if key_row key d \<noteq> None then c = None \<and> d' = d\<lparr>uuid_pos := Suc (uuid_pos d)\<rparr>
      else c = Some (uuid_seq d (uuid_pos d)) \<and>
           uuid_seq d (uuid_pos d) \<notin> ik_id ` set (idempotency_keys d) \<and>
           d' = d\<lparr>idempotency_keys := idempotency_keys d @ [fresh_key_row key hashed d],
                  uuid_pos := Suc (uuid_pos d)\<rparr>)"
proof -
  have ok: "check_row (idempotency_spec d) (fresh_key_row key hashed d) = None \<longleftrightarrow> length hashed = 64"
    by (simp add: check_row_None fresh_key_row_ok)
  have conf: "conflict (uniques (idempotency_spec d)) (fresh_key_row key hashed d)
      (idempotency_keys d) = None \<longleftrightarrow>
      key_row key d = None \<and> uuid_seq d (uuid_pos d) \<notin> ik_id ` set (idempotency_keys d)"
    by (auto simp: conflict_None idempotency_spec_def key_row_None list_ex_iff image_iff)
  have "claim key hashed d =
     (case check_row (idempotency_spec d) (fresh_key_row key hashed d) of Some e \<Rightarrow> Inl e | None \<Rightarrow>
         if key_row key d \<noteq> None then Inr (None, d\<lparr>uuid_pos := Suc (uuid_pos d)\<rparr>)
         else bind_r (insert_row (idempotency_spec d) (fresh_key_row key hashed d) (idempotency_keys d))
                (\<lambda>rows. Inr (Some (uuid_seq d (uuid_pos d)),
                             d\<lparr>uuid_pos := Suc (uuid_pos d), idempotency_keys := rows\<rparr>)))"
    using key_row_None [of key d]
    by (auto simp: claim_def gen_random_uuid_def fresh_key_row_def Let_def split: option.splits)
  then show ?thesis
    using ok conf
    by (auto simp: bind_r_Inr insert_row_Inr check_row_None [symmetric] split: option.splits)
qed

section \<open>The decision table\<close>

definition reclaimed :: "idempotency_row \<Rightarrow> timestamp \<Rightarrow> idempotency_row" where
  "reclaimed r now = r\<lparr>ik_status := In_progress, ik_response_body := None,
                       ik_response_status := None, ik_updated_at := now\<rparr>"

lemma reclaimed_simps [simp]:
  "ik_id (reclaimed r now) = ik_id r" "ik_key (reclaimed r now) = ik_key r"
  "ik_request_hash (reclaimed r now) = ik_request_hash r"
  "ik_status (reclaimed r now) = In_progress"
  "ik_response_body (reclaimed r now) = None" "ik_response_status (reclaimed r now) = None"
  "ik_order_id (reclaimed r now) = ik_order_id r"
  by (simp_all add: reclaimed_def)

lemma reclaim_failed_succeeds:
  assumes "table_ok (idempotency_spec d) (idempotency_keys d)" and "key_row key d = Some r"
    and "ik_status r = Failed"
  shows "reclaim_failed key d =
    Inr (True, d\<lparr>idempotency_keys := upd (\<lambda>x. ik_key x = key \<and> ik_status x = Failed)
                   (\<lambda>x. reclaimed x (db_now d)) (idempotency_keys d)\<rparr>)"
proof -
  note r = key_row_SomeD [OF assms(2)]
  have "update_rows (idempotency_spec d) (\<lambda>x. ik_key x = key \<and> ik_status x = Failed)
      (\<lambda>x. reclaimed x (db_now d)) (idempotency_keys d) =
    Inr (map (\<lambda>x. reclaimed x (db_now d))
           (filter (\<lambda>x. ik_key x = key \<and> ik_status x = Failed) (idempotency_keys d)),
         upd (\<lambda>x. ik_key x = key \<and> ik_status x = Failed) (\<lambda>x. reclaimed x (db_now d))
           (idempotency_keys d))"
    by (rule update_keys_succeeds [OF assms(1)]) (auto simp: idempotency_row_ok)
  moreover have "filter (\<lambda>x. ik_key x = key \<and> ik_status x = Failed) (idempotency_keys d) \<noteq> []"
    using r assms(3) by (auto simp: filter_empty_conv)
  ultimately show ?thesis by (simp add: reclaim_failed_def reclaimed_def)
qed

text \<open>What \<open>_claim_key\<close> does, by what is stored under the key.\<close>

fun claim_key_spec :: "idempotency_row option \<Rightarrow> string \<Rightarrow> string \<Rightarrow> db \<Rightarrow> exc + db" where
  "claim_key_spec None key hashed d =
     Inr (d\<lparr>idempotency_keys := idempotency_keys d @ [fresh_key_row key hashed d],
            uuid_pos := Suc (uuid_pos d)\<rparr>)"
| "claim_key_spec (Some r) key hashed d =
     (if ik_request_hash r \<noteq> hashed then Inl (DomainError (IdempotencyKeyReuse key)) else
      case ik_status r of
        Completed \<Rightarrow> Inl (ReplayedResponse (ik_response_body r) (the (ik_response_status r)))
      | Failed \<Rightarrow> Inr (d\<lparr>idempotency_keys := upd (\<lambda>x. ik_key x = key \<and> ik_status x = Failed)
                   (\<lambda>x. reclaimed x (db_now d)) (idempotency_keys d), uuid_pos := Suc (uuid_pos d)\<rparr>)
      | In_progress \<Rightarrow> Inl (DomainError (IdempotencyInProgress key)))"

lemma claim_key_by_row:
  assumes ok: "table_ok (idempotency_spec d) (idempotency_keys d)"
    and h: "length hashed = 64" and fresh: "uuid_seq d (uuid_pos d) \<notin> ik_id ` set (idempotency_keys d)"
  shows "claim_key key hashed d = claim_key_spec (key_row key d) key hashed d"
proof (cases "key_row key d")
  case None
  have "claim key hashed d = Inr (Some (uuid_seq d (uuid_pos d)),
      d\<lparr>idempotency_keys := idempotency_keys d @ [fresh_key_row key hashed d],
        uuid_pos := Suc (uuid_pos d)\<rparr>)" using None h fresh by (simp add: claim_Inr)
  with None show ?thesis by (simp add: claim_key_def)
next
  case (Some r)
  let ?d1 = "d\<lparr>uuid_pos := Suc (uuid_pos d)\<rparr>"
  have c: "claim key hashed d = Inr (None, ?d1)" using Some h by (simp add: claim_Inr)
  have r1: "key_row key ?d1 = Some r" using Some by simp
  have ok1: "table_ok (idempotency_spec ?d1) (idempotency_keys ?d1)" using ok by simp
  have "row_ok (idempotency_spec d) r"
    using ok key_row_SomeD [OF Some] by (auto simp: table_ok_def list_all_iff)
  then have "ik_status r = Completed \<Longrightarrow> \<exists>s. ik_response_status r = Some s \<and> s \<noteq> 0"
    by (auto simp: idempotency_row_ok)
  then show ?thesis
    using c r1 Some reclaim_failed_succeeds [OF ok1 r1]
    by (cases "ik_status r") (auto simp: claim_key_def get_key_def)
qed

section \<open>Who owns a key\<close>

text \<open>A key is taken when its row is in progress or completed: no claim of it can succeed.\<close>

definition taken :: "string \<Rightarrow> db \<Rightarrow> bool" where
  "taken key d \<longleftrightarrow> (case key_row key d of None \<Rightarrow> False | Some r \<Rightarrow> ik_status r \<noteq> Failed)"

definition try_claim :: "string \<Rightarrow> string \<Rightarrow> db \<Rightarrow> db option" where
  "try_claim key hashed d = (case claim_key key hashed d of Inl _ \<Rightarrow> None | Inr d' \<Rightarrow> Some d')"

lemma claim_key_Inr_cases:
  assumes "claim_key key hashed d = Inr d'"
  obtains (Fresh) "key_row key d = None"
      "uuid_seq d (uuid_pos d) \<notin> ik_id ` set (idempotency_keys d)" "length hashed = 64"
      "d' = d\<lparr>idempotency_keys := idempotency_keys d @ [fresh_key_row key hashed d],
              uuid_pos := Suc (uuid_pos d)\<rparr>"
    | (Again) r where "key_row key d = Some r" "ik_status r = Failed" "ik_request_hash r = hashed"
      "d' = d\<lparr>idempotency_keys := upd (\<lambda>x. ik_key x = key \<and> ik_status x = Failed)
                   (\<lambda>x. reclaimed x (db_now d)) (idempotency_keys d), uuid_pos := Suc (uuid_pos d)\<rparr>"
  using assms
  by (auto simp: claim_key_def bind_r_Inr claim_Inr get_key_def reclaim_failed_def update_rows_Inr
      reclaimed_def split: if_split_asm option.split_asm)

lemma claim_key_takes:
  assumes "claim_key key hashed d = Inr d'"
  shows "\<exists>r. key_row key d' = Some r \<and> ik_status r = In_progress \<and> ik_request_hash r = hashed"
  using assms
proof (cases rule: claim_key_Inr_cases)
  case Fresh
  then show ?thesis by (simp add: key_row_def)
next
  case (Again r)
  have "key_row key d' = map_option
      (\<lambda>x. if ik_key x = key \<and> ik_status x = Failed then reclaimed x (db_now d) else x) (key_row key d)"
    unfolding Again(4) key_row_def by (simp, rule find_upd) simp
  then show ?thesis using Again(1-3) key_row_SomeD [OF Again(1)] by simp
qed

lemma taken_refuses: "taken key d \<Longrightarrow> claim_key key hashed d \<noteq> Inr d'"
  by (auto simp: taken_def elim: claim_key_Inr_cases split: option.splits)

text \<open>
  The race for a key: contenders call \<^verbatim>\<open>_claim_key\<close> with hashes of their own, and in between
  the rest of the system makes any steps that leave a taken key taken, that is anything but marking
  this key failed.
\<close>

interpretation key_race: contended "\<lambda>hashed. try_claim key hashed" "taken key"
  for key
proof
  show "try_claim key hashed d = None" if "taken key d" for hashed d
    using taken_refuses [OF that] by (auto simp: try_claim_def split: sum.splits)
  show "taken key d'" if "try_claim key hashed d = Some d'" for hashed d d'
    using that claim_key_takes [of key hashed d d']
    by (auto simp: try_claim_def taken_def split: sum.splits)
qed

definition leaves_taken :: "string \<Rightarrow> (db \<Rightarrow> db) \<Rightarrow> bool" where
  "leaves_taken key e \<longleftrightarrow> (\<forall>d. taken key d \<longrightarrow> taken key (e d))"

lemma leaves_taken_harmless: "leaves_taken key e \<longleftrightarrow> key_race.harmless key e"
  by (simp add: leaves_taken_def key_race.harmless_def)

text \<open>The steps the code makes are such steps.\<close>

lemma settle_completed_Inr:
  "settle_completed key body st oid d = Inr d' \<Longrightarrow>
     d' = d\<lparr>idempotency_keys := upd (\<lambda>r. ik_key r = key)
         (\<lambda>r. r\<lparr>ik_status := Completed, ik_response_body := Some body,
                ik_response_status := Some st, ik_order_id := Some oid,
                ik_updated_at := db_now d\<rparr>) (idempotency_keys d)\<rparr>"
  by (auto simp: settle_completed_def bind_r_Inr update_rows_Inr)

lemma mark_key_failed_Inr:
  "mark_key_failed key oid d = Inr d' \<Longrightarrow>
     d' = d\<lparr>idempotency_keys := upd (\<lambda>r. ik_key r = key)
         (\<lambda>r. r\<lparr>ik_status := Failed, ik_response_body := None, ik_response_status := None,
                ik_order_id := oid, ik_updated_at := db_now d\<rparr>) (idempotency_keys d)\<rparr>"
  by (auto simp: mark_key_failed_def bind_r_Inr update_rows_Inr)

lemma key_row_upd:
  "(\<And>r. ik_key (f r) = ik_key r) \<Longrightarrow>
     key_row k (d\<lparr>idempotency_keys := upd (\<lambda>r. ik_key r = key) f (idempotency_keys d)\<rparr>) =
       map_option (\<lambda>r. if ik_key r = key then f r else r) (key_row k d)"
  unfolding key_row_def by (simp, rule find_upd) simp

lemma settle_completed_key_row:
  "settle_completed key body st oid d = Inr d' \<Longrightarrow>
     key_row k d' = map_option (\<lambda>r. if k = key then r\<lparr>ik_status := Completed,
         ik_response_body := Some body, ik_response_status := Some st, ik_order_id := Some oid,
         ik_updated_at := db_now d\<rparr> else r) (key_row k d)"
  by (drule settle_completed_Inr, simp only:, subst key_row_upd)
    (auto simp: option.map_sel dest: key_row_SomeD intro!: option.map_cong)

lemma mark_key_failed_key_row:
  "mark_key_failed key oid d = Inr d' \<Longrightarrow>
     key_row k d' = map_option (\<lambda>r. if k = key then r\<lparr>ik_status := Failed,
         ik_response_body := None, ik_response_status := None, ik_order_id := oid,
         ik_updated_at := db_now d\<rparr> else r) (key_row k d)"
  by (drule mark_key_failed_Inr, simp only:, subst key_row_upd)
    (auto simp: option.map_sel dest: key_row_SomeD intro!: option.map_cong)

lemma settle_completed_taken: "settle_completed k body st oid d = Inr d' \<Longrightarrow> taken key d \<Longrightarrow> taken key d'"
  by (drule settle_completed_key_row [where k = key]) (auto simp: taken_def split: option.splits)

lemma mark_key_failed_taken:
  "mark_key_failed k oid d = Inr d' \<Longrightarrow> k \<noteq> key \<Longrightarrow> taken key d \<Longrightarrow> taken key d'"
  by (drule mark_key_failed_key_row [where k = key]) (auto simp: taken_def split: option.splits)

lemma claim_key_other_row:
  assumes "claim_key k hashed d = Inr d'" and "key \<noteq> k"
  shows "key_row key d' = key_row key d"
  using assms(1)
proof (cases rule: claim_key_Inr_cases)
  case Fresh
  with assms(2) show ?thesis by (auto simp: key_row_def split: option.splits)
next
  case (Again r)
  have "key_row key d' = map_option
      (\<lambda>x. if ik_key x = k \<and> ik_status x = Failed then reclaimed x (db_now d) else x) (key_row key d)"
    unfolding Again(4) key_row_def by (simp, rule find_upd) simp
  with assms(2) show ?thesis
    by (cases "key_row key d") (auto dest: key_row_SomeD)
qed

end
