(* ===== verification/Payments.thy ===== *)
theory Payments
  imports Schema
begin

text \<open>
  \<^verbatim>\<open>app/repositories/payment.py\<close>: the payment row, inserted pending before the charge and
  updated by its id once the provider has answered. The lemmas say exactly which columns of which row
  each call writes, and when a constraint refuses the write: an amount of zero, a second succeeded
  payment of the order, a provider reference already on file, a \<^verbatim>\<open>card_last4\<close> that is not
  four ASCII digits.
\<close>

section \<open>Operations\<close>

definition new_payment :: "uuid \<Rightarrow> uuid \<Rightarrow> int \<Rightarrow> string \<Rightarrow> string \<Rightarrow> string \<Rightarrow> timestamp \<Rightarrow> payment_row" where
  "new_payment pid oid amt cur descr prov now =
     \<lparr>pay_id = pid, pay_order_id = oid, pay_status = Payment_pending, amount_minor = amt,
      pay_currency = cur, description = descr, pay_card_brand = None, pay_card_last4 = None,
      provider = prov, provider_reference = None, pay_failure_reason = None,
      pay_created_at = now, pay_updated_at = now\<rparr>"

definition create_pending ::
  "uuid \<Rightarrow> int \<Rightarrow> string \<Rightarrow> string \<Rightarrow> string \<Rightarrow> db \<Rightarrow> exc + (payment_row \<times> db)" where
  "create_pending oid amt cur descr prov d =
     (let (pid, d1) = gen_random_uuid d;
          p = new_payment pid oid amt cur descr prov (db_now d1)
      in bind_r (insert_row (payment_spec d1) p (payments d1))
           (\<lambda>rows. Inr (p, d1\<lparr>payments := rows\<rparr>)))"

definition update_payment :: "uuid \<Rightarrow> (payment_row \<Rightarrow> payment_row) \<Rightarrow> db \<Rightarrow> exc + db" where
  "update_payment pid f d =
     bind_r (update_rows (payment_spec d) (\<lambda>r. pay_id r = pid) f (payments d))
       (\<lambda>(_, rows). Inr (d\<lparr>payments := rows\<rparr>))"

definition mark_succeeded ::
  "uuid \<Rightarrow> string option \<Rightarrow> string option \<Rightarrow> ustr option \<Rightarrow> db \<Rightarrow> exc + db" where
  "mark_succeeded pid ref brand last4 d =
     update_payment pid
       (\<lambda>r. r\<lparr>pay_status := Payment_succeeded, provider_reference := ref, pay_card_brand := brand,
              pay_card_last4 := last4, pay_updated_at := db_now d\<rparr>) d"

definition mark_payment_failed ::
  "uuid \<Rightarrow> string \<Rightarrow> string option \<Rightarrow> ustr option \<Rightarrow> db \<Rightarrow> exc + db" where
  "mark_payment_failed pid why brand last4 d =
     update_payment pid
       (\<lambda>r. r\<lparr>pay_status := Payment_failed_status, pay_failure_reason := Some why,
              pay_card_brand := brand, pay_card_last4 := last4, pay_updated_at := db_now d\<rparr>) d"

definition mark_unknown ::
  "uuid \<Rightarrow> string \<Rightarrow> string option \<Rightarrow> ustr option \<Rightarrow> db \<Rightarrow> exc + db" where
  "mark_unknown pid why brand last4 d =
     update_payment pid
       (\<lambda>r. r\<lparr>pay_failure_reason := Some why, pay_card_brand := brand, pay_card_last4 := last4,
              pay_updated_at := db_now d\<rparr>) d"

text \<open>\<^verbatim>\<open>unresolved_before\<close>: the cutoff is taken from the client's clock, the argument \<open>now\<close>.\<close>

definition unresolved_before :: "int \<Rightarrow> timestamp \<Rightarrow> db \<Rightarrow> payment_row list" where
  "unresolved_before grace_seconds now d =
     filter (\<lambda>r. pay_status r = Payment_pending \<and> pay_created_at r < now - grace_seconds * 1000000)
       (payments d)"

section \<open>What the calls did\<close>

lemma payment_row_ok:
  "row_ok (payment_spec d) r \<longleftrightarrow>
     fits_int8 (amount_minor r) \<and> 0 < amount_minor r \<and> currency_format (pay_currency r) \<and>
     null_or card_last4_format (pay_card_last4 r) \<and>
     (pay_status r = Payment_failed_status \<longrightarrow> pay_failure_reason r \<noteq> None) \<and>
     pay_order_id r \<in> o_id ` set (orders d)"
  by (cases "pay_card_last4 r")
    (auto simp: row_ok_def payment_spec_def currency_format_def card_last4_format_def)

lemma payment_ids_distinct:
  "table_ok (payment_spec d) (payments d) \<Longrightarrow> distinct (map pay_id (payments d))"
  by (erule table_ok_distinct [where n = "''pk_payments''"]) (simp add: payment_spec_def)

lemma new_payment_simps [simp]:
  "pay_id (new_payment pid oid amt cur descr prov now) = pid"
  "pay_order_id (new_payment pid oid amt cur descr prov now) = oid"
  "pay_status (new_payment pid oid amt cur descr prov now) = Payment_pending"
  "amount_minor (new_payment pid oid amt cur descr prov now) = amt"
  "pay_currency (new_payment pid oid amt cur descr prov now) = cur"
  "provider (new_payment pid oid amt cur descr prov now) = prov"
  "provider_reference (new_payment pid oid amt cur descr prov now) = None"
  "pay_failure_reason (new_payment pid oid amt cur descr prov now) = None"
  "pay_card_last4 (new_payment pid oid amt cur descr prov now) = None"
  by (simp_all add: new_payment_def)

lemma create_pending_Inr:
  "create_pending oid amt cur descr prov d = Inr (p, d') \<longleftrightarrow>
     p = new_payment (uuid_seq d (uuid_pos d)) oid amt cur descr prov (db_now d) \<and>
     row_ok (payment_spec d) p \<and> pay_id p \<notin> pay_id ` set (payments d) \<and>
     d' = d\<lparr>payments := payments d @ [p], uuid_pos := Suc (uuid_pos d)\<rparr>"
  by (auto simp: create_pending_def gen_random_uuid_def Let_def bind_r_Inr insert_row_Inr
      conflict_None payment_spec_def image_iff)

lemma create_pending_zero:
  assumes "amt \<le> 0" and "fits_int8 amt" and "length cur \<le> 3"
  shows "create_pending oid amt cur descr prov d = Inl (IntegrityError ''amount_positive'')"
proof -
  let ?p = "new_payment (uuid_seq d (uuid_pos d)) oid amt cur descr prov (db_now d)"
  have "violated (col_types (payment_spec d)) ?p = None"
    using assms by (simp add: violated_None payment_spec_def)
  moreover have "violated (checks (payment_spec d)) ?p = Some ''amount_positive''"
    using assms by (simp add: violated_def payment_spec_def)
  ultimately have "check_row (payment_spec d) ?p = Some (IntegrityError ''amount_positive'')"
    by (simp add: check_row_def)
  then show ?thesis by (simp add: create_pending_def gen_random_uuid_def insert_row_def Let_def)
qed

lemma update_payment_Inr:
  "update_payment pid f d = Inr d' \<Longrightarrow> d' = d\<lparr>payments := upd (\<lambda>r. pay_id r = pid) f (payments d)\<rparr>"
  by (auto simp: update_payment_def bind_r_Inr update_rows_Inr)

lemmas marks = mark_succeeded_def mark_payment_failed_def mark_unknown_def

lemma update_payment_ok:
  assumes "update_payment pid f d = Inr d'" and "table_ok (payment_spec d) (payments d)"
  shows "table_ok (payment_spec d') (payments d')"
  using assms by (auto simp: update_payment_def bind_r_Inr dest: update_rows_table_ok)

text \<open>
  A call that settles a payment without a provider reference and not as succeeded can run into no
  unique index; it succeeds when the written row passes its CHECKs.
\<close>

lemma update_payment_succeeds:
  assumes "table_ok (payment_spec d) (payments d)"
    and "\<And>r. pay_id (f r) = pay_id r" "\<And>r. pay_order_id (f r) = pay_order_id r"
      "\<And>r. provider (f r) = provider r" "\<And>r. provider_reference (f r) = provider_reference r"
      "\<And>r. pay_status (f r) = Payment_succeeded \<Longrightarrow> pay_status r = Payment_succeeded"
    and "\<And>r. row_ok (payment_spec d) r \<Longrightarrow> row_ok (payment_spec d) (f r)"
  shows "update_payment pid f d = Inr (d\<lparr>payments := upd (\<lambda>r. pay_id r = pid) f (payments d)\<rparr>)"
proof -
  have "update_rows (payment_spec d) (\<lambda>r. pay_id r = pid) f (payments d) =
      Inr (map f (filter (\<lambda>r. pay_id r = pid) (payments d)),
           upd (\<lambda>r. pay_id r = pid) f (payments d))"
  proof (rule update_rows_succeeds [OF assms(1)])
    fix r assume "r \<in> set (payments d)"
    then show "row_ok (payment_spec d) (f r)"
      using assms(1,7) by (auto simp: table_ok_def list_all_iff)
  next
    fix u a b assume "u \<in> set (uniques (payment_spec d))"
      "snd u (if pay_id a = pid then f a else a) (if pay_id b = pid then f b else b)"
    then show "snd u a b" using assms(2-6) by (auto simp: payment_spec_def split: if_splits)
  qed
  then show ?thesis by (simp add: update_payment_def)
qed

lemma mark_payment_failed_succeeds:
  assumes "table_ok (payment_spec d) (payments d)" and "null_or card_last4_format last4"
  shows "mark_payment_failed pid why brand last4 d = Inr (d\<lparr>payments := upd (\<lambda>r. pay_id r = pid)
     (\<lambda>r. r\<lparr>pay_status := Payment_failed_status, pay_failure_reason := Some why,
            pay_card_brand := brand, pay_card_last4 := last4, pay_updated_at := db_now d\<rparr>)
     (payments d)\<rparr>)"
  unfolding mark_payment_failed_def
  by (rule update_payment_succeeds [OF assms(1)]) (use assms(2) in \<open>auto simp: payment_row_ok\<close>)

lemma mark_unknown_succeeds:
  assumes "table_ok (payment_spec d) (payments d)" and "null_or card_last4_format last4"
  shows "mark_unknown pid why brand last4 d = Inr (d\<lparr>payments := upd (\<lambda>r. pay_id r = pid)
     (\<lambda>r. r\<lparr>pay_failure_reason := Some why, pay_card_brand := brand, pay_card_last4 := last4,
            pay_updated_at := db_now d\<rparr>) (payments d)\<rparr>)"
  unfolding mark_unknown_def
  by (rule update_payment_succeeds [OF assms(1)]) (use assms(2) in \<open>auto simp: payment_row_ok\<close>)

text \<open>
  \<open>mark_succeeded\<close> succeeds when no other payment of the order has succeeded and no other payment
  carries the reference.
\<close>

lemma mark_succeeded_succeeds:
  assumes ok: "table_ok (payment_spec d) (payments d)" and l4: "null_or card_last4_format last4"
    and p: "p \<in> set (payments d)"
    and one: "\<forall>r \<in> set (payments d). pay_id r \<noteq> pay_id p \<longrightarrow>
       \<not> (pay_status r = Payment_succeeded \<and> pay_order_id r = pay_order_id p) \<and>
       \<not> (ref \<noteq> None \<and> provider r = provider p \<and> provider_reference r = ref)"
  shows "mark_succeeded (pay_id p) ref brand last4 d = Inr (d\<lparr>payments := upd (\<lambda>r. pay_id r = pay_id p)
     (\<lambda>r. r\<lparr>pay_status := Payment_succeeded, provider_reference := ref, pay_card_brand := brand,
            pay_card_last4 := last4, pay_updated_at := db_now d\<rparr>) (payments d)\<rparr>)"
proof -
  let ?f = "\<lambda>r. r\<lparr>pay_status := Payment_succeeded, provider_reference := ref, pay_card_brand := brand,
            pay_card_last4 := last4, pay_updated_at := db_now d\<rparr>"
  let ?rows = "upd (\<lambda>r. pay_id r = pay_id p) ?f (payments d)"
  note dist = payment_ids_distinct [OF ok]
  have eq: "r = p" if "r \<in> set (payments d)" "pay_id r = pay_id p" for r
    using distinct_key_unique [OF dist that(1) p that(2)] .
  have rows: "\<forall>r \<in> set (payments d). row_ok (payment_spec d) r"
    and cf: "conflict_free (uniques (payment_spec d)) (payments d)"
    using ok by (simp_all add: table_ok_def list_all_iff)
  have "conflict_free (uniques (payment_spec d)) ?rows"
  proof -
    let ?R = "\<lambda>a b. list_all (\<lambda>u. \<not> snd u a b) (uniques (payment_spec d))"
    let ?g = "\<lambda>r. if pay_id r = pay_id p then ?f r else r"
    have step: "?R (?g a) (?g b)"
      if a: "a \<in> set (payments d)" and b: "b \<in> set (payments d)" and R: "?R a b" for a b
    proof -
      have ne: "pay_id a \<noteq> pay_id b" using R by (simp add: payment_spec_def)
      consider "a = p" "pay_id b \<noteq> pay_id p" | "b = p" "pay_id a \<noteq> pay_id p"
        | "pay_id a \<noteq> pay_id p" "pay_id b \<noteq> pay_id p"
        using eq a b ne by metis
      then show ?thesis
        using one a b R ne by cases (auto simp: payment_spec_def)
    qed
    have "sorted_wrt ?R (payments d)" using cf by (simp add: conflict_free_def)
    then have "sorted_wrt (\<lambda>a b. ?R (?g a) (?g b)) (payments d)"
      by (rule sorted_wrt_mono_rel [rotated]) (use step in blast)
    then show ?thesis by (simp add: conflict_free_def upd_def sorted_wrt_map)
  qed
  moreover have "list_all (row_ok (payment_spec d)) (map ?f (filter (\<lambda>r. pay_id r = pay_id p) (payments d)))"
    using rows l4 by (auto simp: list_all_iff payment_row_ok)
  ultimately have "update_rows (payment_spec d) (\<lambda>r. pay_id r = pay_id p) ?f (payments d) =
      Inr (map ?f (filter (\<lambda>r. pay_id r = pay_id p) (payments d)), ?rows)"
    by (simp add: update_rows_Inr)
  then show ?thesis by (simp add: mark_succeeded_def update_payment_def)
qed

text \<open>A \<^verbatim>\<open>card_last4\<close> of four characters that are not ASCII digits is refused.\<close>

lemma mark_succeeded_bad_last4:
  assumes "p \<in> set (payments d)" and "length l4 = 4" and "\<not> card_last4_format l4"
    and "table_ok (payment_spec d) (payments d)"
  shows "mark_succeeded (pay_id p) ref brand (Some l4) d = Inl (IntegrityError ''card_last4_format'')"
proof -
  let ?f = "\<lambda>r. r\<lparr>pay_status := Payment_succeeded, provider_reference := ref, pay_card_brand := brand,
            pay_card_last4 := Some l4, pay_updated_at := db_now d\<rparr>"
  have bad: "check_row (payment_spec d) (?f r) = Some (IntegrityError ''card_last4_format'')"
    if "r \<in> set (payments d)" for r
  proof -
    have "row_ok (payment_spec d) r" using assms(4) that by (simp add: table_ok_def list_all_iff)
    then have "fits_int8 (amount_minor r)" "0 < amount_minor r" "currency_format (pay_currency r)"
      by (simp_all add: payment_row_ok)
    then have "violated (col_types (payment_spec d)) (?f r) = None"
      "violated (checks (payment_spec d)) (?f r) = Some ''card_last4_format''"
      using assms(2,3) by (simp_all add: violated_None violated_def payment_spec_def currency_format_def)
    then show ?thesis by (simp add: check_row_def)
  qed
  obtain r rs where "filter (\<lambda>r. pay_id r = pay_id p) (payments d) = r # rs"
    "r \<in> set (payments d)"
    using assms(1) by (metis (mono_tags, lifting) filter_empty_conv filter_eq_Cons_iff in_set_conv_decomp
        neq_Nil_conv)
  then have "check_rows (payment_spec d) (map ?f (filter (\<lambda>r. pay_id r = pay_id p) (payments d))) =
      Some (IntegrityError ''card_last4_format'')"
    using bad by simp
  then show ?thesis by (simp add: mark_succeeded_def update_payment_def update_rows_def Let_def)
qed

end
