(* ===== verification/Outbox.thy ===== *)
theory Outbox
  imports Schema
begin

text \<open>
  \<^verbatim>\<open>app/repositories/outbox.py\<close>: events written in the transaction of the change they
  describe, claimed oldest first, and marked processed after they were published. The rows another
  worker holds locked are an argument of \<open>claim_batch\<close>: \<^verbatim>\<open>SKIP LOCKED\<close> passes over them.
\<close>

definition add_event :: "string \<Rightarrow> uuid \<Rightarrow> event_payload \<Rightarrow> string \<Rightarrow> db \<Rightarrow> exc + db" where
  "add_event ty agg body aggty d =
     (let (eid, d1) = gen_random_uuid d in
      bind_r (insert_row outbox_spec
          \<lparr>ob_id = eid, event_type = ty, aggregate_type = aggty, aggregate_id = agg, payload = body,
           attempts = 0, ob_created_at = db_now d1, processed_at = None\<rparr> (outbox d1))
        (\<lambda>rows. Inr (d1\<lparr>outbox := rows\<rparr>)))"

definition claim_batch :: "nat \<Rightarrow> uuid set \<Rightarrow> db \<Rightarrow> outbox_row list" where
  "claim_batch batch locked d =
     take batch (sort_key ob_created_at
       (filter (\<lambda>e. processed_at e = None \<and> ob_id e \<notin> locked) (outbox d)))"

definition mark_processed :: "uuid list \<Rightarrow> db \<Rightarrow> exc + db" where
  "mark_processed ids d =
     (if ids = [] then Inr d else
      bind_r (update_rows outbox_spec (\<lambda>e. ob_id e \<in> set ids)
          (\<lambda>e. e\<lparr>processed_at := Some (db_now d), attempts := attempts e + 1\<rparr>) (outbox d))
        (\<lambda>(_, rows). Inr (d\<lparr>outbox := rows\<rparr>)))"

section \<open>What the calls did\<close>

definition new_event :: "string \<Rightarrow> uuid \<Rightarrow> event_payload \<Rightarrow> string \<Rightarrow> db \<Rightarrow> outbox_row" where
  "new_event ty agg body aggty d =
     \<lparr>ob_id = uuid_seq d (uuid_pos d), event_type = ty, aggregate_type = aggty, aggregate_id = agg,
      payload = body, attempts = 0, ob_created_at = db_now d, processed_at = None\<rparr>"

lemma new_event_simps [simp]:
  "ob_id (new_event ty agg body aggty d) = uuid_seq d (uuid_pos d)"
  "event_type (new_event ty agg body aggty d) = ty"
  "aggregate_id (new_event ty agg body aggty d) = agg"
  "payload (new_event ty agg body aggty d) = body"
  "attempts (new_event ty agg body aggty d) = 0"
  "processed_at (new_event ty agg body aggty d) = None"
  by (simp_all add: new_event_def)

lemma outbox_row_ok: "row_ok outbox_spec e \<longleftrightarrow> fits_int4 (attempts e) \<and> 0 \<le> attempts e"
  by (auto simp: row_ok_def outbox_spec_def)

lemma add_event_Inr:
  "add_event ty agg body aggty d = Inr d' \<longleftrightarrow>
     uuid_seq d (uuid_pos d) \<notin> ob_id ` set (outbox d) \<and>
     d' = d\<lparr>outbox := outbox d @ [new_event ty agg body aggty d], uuid_pos := Suc (uuid_pos d)\<rparr>"
proof -
  have "row_ok outbox_spec (new_event ty agg body aggty d)" by (simp add: outbox_row_ok fits_int4_def)
  moreover have "conflict (uniques outbox_spec) (new_event ty agg body aggty d) (outbox d) = None \<longleftrightarrow>
      uuid_seq d (uuid_pos d) \<notin> ob_id ` set (outbox d)"
    by (auto simp: conflict_None outbox_spec_def image_iff)
  ultimately show ?thesis
    by (auto simp: add_event_def gen_random_uuid_def Let_def bind_r_Inr insert_row_Inr new_event_def)
qed

lemma claim_batch_length: "length (claim_batch batch locked d) \<le> batch"
  by (simp add: claim_batch_def)

lemma claim_batch_sound:
  "e \<in> set (claim_batch batch locked d) \<Longrightarrow>
     e \<in> set (outbox d) \<and> processed_at e = None \<and> ob_id e \<notin> locked"
  by (auto simp: claim_batch_def dest: in_set_takeD)

text \<open>Oldest first: what is claimed is no newer than what is left behind.\<close>

lemma take_sorted_prefix:
  assumes "x \<in> set (take n (sort_key f xs))" and "y \<in> set (drop n (sort_key f xs))"
  shows "f x \<le> f y"
proof -
  have "sorted (map f (take n (sort_key f xs) @ drop n (sort_key f xs)))" by simp
  then have "sorted (map f (take n (sort_key f xs)) @ map f (drop n (sort_key f xs)))"
    by (simp only: map_append)
  with assms show ?thesis by (auto simp: sorted_append)
qed

lemma claim_batch_oldest:
  assumes "e \<in> set (claim_batch batch locked d)" and "x \<in> set (outbox d)"
    and "processed_at x = None" "ob_id x \<notin> locked" and "x \<notin> set (claim_batch batch locked d)"
  shows "ob_created_at e \<le> ob_created_at x"
proof -
  let ?q = "sort_key ob_created_at
       (filter (\<lambda>e. processed_at e = None \<and> ob_id e \<notin> locked) (outbox d))"
  have "x \<in> set (take batch ?q @ drop batch ?q)"
    unfolding append_take_drop_id using assms(2-4) by simp
  with assms(5) have "x \<in> set (drop batch ?q)"
    unfolding claim_batch_def set_append by blast
  with assms(1) show ?thesis unfolding claim_batch_def by (rule take_sorted_prefix)
qed

lemma claim_batch_drains:
  "claim_batch batch {} d = [] \<Longrightarrow> 0 < batch \<Longrightarrow> \<forall>e \<in> set (outbox d). processed_at e \<noteq> None"
proof -
  assume "claim_batch batch {} d = []" "0 < batch"
  then have "length (sort_key ob_created_at (filter (\<lambda>e. processed_at e = None) (outbox d))) = 0"
    by (simp add: claim_batch_def)
  then have "filter (\<lambda>e. processed_at e = None) (outbox d) = []" by (simp only: length_sort length_0_conv)
  then show ?thesis by (simp only: filter_empty_conv)
qed

text \<open>A batch is free of repetitions, and a batch claimed while it is locked is disjoint from it.\<close>

lemma claim_batch_distinct:
  "distinct (map ob_id (outbox d)) \<Longrightarrow> distinct (map ob_id (claim_batch batch locked d))"
proof -
  assume "distinct (map ob_id (outbox d))"
  then have "distinct (map ob_id (filter p (outbox d)))" for p by (simp add: distinct_map_filter)
  moreover have "mset (map ob_id (sort_key ob_created_at xs)) = mset (map ob_id xs)" for xs
    by simp
  ultimately have "distinct (map ob_id (sort_key ob_created_at (filter p (outbox d))))" for p
    by (metis mset_eq_imp_distinct_iff)
  then show ?thesis by (simp add: claim_batch_def take_map [symmetric])
qed

lemma claim_batches_disjoint:
  "set (map ob_id (claim_batch n (set (map ob_id (claim_batch m locked d))) d)) \<inter>
     set (map ob_id (claim_batch m locked d)) = {}"
proof -
  have "ob_id e \<notin> set (map ob_id (claim_batch m locked d))"
    if "e \<in> set (claim_batch n (set (map ob_id (claim_batch m locked d))) d)" for e
    using claim_batch_sound [OF that] by blast
  then show ?thesis by auto
qed

lemma mark_processed_Inr:
  "mark_processed ids d = Inr d' \<Longrightarrow>
     d' = d\<lparr>outbox := upd (\<lambda>e. ob_id e \<in> set ids)
         (\<lambda>e. e\<lparr>processed_at := Some (db_now d), attempts := attempts e + 1\<rparr>) (outbox d)\<rparr>"
  by (auto simp: mark_processed_def bind_r_Inr update_rows_Inr upd_none split: if_splits)

text \<open>The counter of attempts is what can overflow: below its limit marking always succeeds.\<close>

lemma mark_processed_succeeds:
  assumes "table_ok outbox_spec (outbox d)"
    and "\<forall>e \<in> set (outbox d). ob_id e \<in> set ids \<longrightarrow> attempts e < 2 ^ 31 - 1"
  shows "mark_processed ids d = Inr (d\<lparr>outbox := upd (\<lambda>e. ob_id e \<in> set ids)
         (\<lambda>e. e\<lparr>processed_at := Some (db_now d), attempts := attempts e + 1\<rparr>) (outbox d)\<rparr>)"
proof -
  let ?f = "\<lambda>e. e\<lparr>processed_at := Some (db_now d), attempts := attempts e + 1\<rparr>"
  have "update_rows outbox_spec (\<lambda>e. ob_id e \<in> set ids) ?f (outbox d) =
      Inr (map ?f (filter (\<lambda>e. ob_id e \<in> set ids) (outbox d)), upd (\<lambda>e. ob_id e \<in> set ids) ?f (outbox d))"
  proof (rule update_rows_succeeds [OF assms(1)])
    fix e assume e: "e \<in> set (outbox d)" "ob_id e \<in> set ids"
    then have "row_ok outbox_spec e" using assms(1) by (simp add: table_ok_def list_all_iff)
    with assms(2) e show "row_ok outbox_spec (?f e)"
      by (force simp: outbox_row_ok fits_int4_def)
  next
    fix u a b assume "u \<in> set (uniques outbox_spec)"
      "snd u (if ob_id a \<in> set ids then ?f a else a) (if ob_id b \<in> set ids then ?f b else b)"
    then show "snd u a b" by (auto simp: outbox_spec_def split: if_splits)
  qed
  then show ?thesis by (simp add: mark_processed_def upd_none)
qed

end
