(* ===== verification/Text.thy ===== *)
theory Text
  imports Domain "HOL-Library.Char_ord" "HOL-Library.List_Lexorder"
begin

text \<open>
  Text the program builds: the decimal form of a number, the text form of a UUID, Python's
  \<^verbatim>\<open>repr\<close> of a header value, and the messages of the domain errors
  (\<^verbatim>\<open>app/domain/errors.py\<close>).
\<close>

section \<open>Numbers\<close>

fun nat_str :: "nat \<Rightarrow> string" where
  "nat_str n = (if n < 10 then [char_of (48 + n)] else nat_str (n div 10) @ [char_of (48 + n mod 10)])"

declare nat_str.simps [simp del]

definition int_str :: "int \<Rightarrow> string" where
  "int_str i = (if i < 0 then ''-'' @ nat_str (nat (- i)) else nat_str (nat i))"

section \<open>The text form of a UUID\<close>

definition hex_digit :: "nat \<Rightarrow> char" where
  "hex_digit n = ''0123456789abcdef'' ! (n mod 16)"

fun hex :: "nat \<Rightarrow> nat \<Rightarrow> string" where
  "hex 0 n = []"
| "hex (Suc k) n = hex k (n div 16) @ [hex_digit n]"

definition uuid_str :: "uuid \<Rightarrow> string" where
  "uuid_str u = (let h = hex 32 u in
     take 8 h @ ''-'' @ take 4 (drop 8 h) @ ''-'' @ take 4 (drop 12 h) @ ''-'' @
     take 4 (drop 16 h) @ ''-'' @ drop 20 h)"

lemma length_hex [simp]: "length (hex k n) = k"
  by (induction k arbitrary: n) auto

lemma hex_digit_inj: "hex_digit m = hex_digit n \<Longrightarrow> m mod 16 = n mod 16"
proof -
  have "distinct ''0123456789abcdef''" and "length ''0123456789abcdef'' = 16" by simp_all
  moreover have "m mod 16 < 16" "n mod 16 < (16::nat)" by simp_all
  ultimately show "hex_digit m = hex_digit n \<Longrightarrow> m mod 16 = n mod 16"
    unfolding hex_digit_def by (metis nth_eq_iff_index_eq)
qed

lemma hex_inj: "hex k m = hex k n \<Longrightarrow> m < 16 ^ k \<Longrightarrow> n < 16 ^ k \<Longrightarrow> m = n"
proof (induction k arbitrary: m n)
  case (Suc k)
  have e: "hex k (m div 16) @ [hex_digit m] = hex k (n div 16) @ [hex_digit n]"
    using Suc.prems(1) by simp
  have h: "hex k (m div 16) = hex k (n div 16)" using e by (simp only: append1_eq_conv)
  have d: "m mod 16 = n mod 16" by (rule hex_digit_inj) (use e in \<open>simp only: append1_eq_conv\<close>)
  have "m div 16 < 16 ^ k" "n div 16 < 16 ^ k"
    using Suc.prems(2,3) by (simp_all add: less_mult_imp_div_less mult.commute)
  from Suc.IH [OF h this] d show ?case by (metis div_mult_mod_eq)
qed simp

lemma take_hex: "j \<le> k \<Longrightarrow> take j (hex k n) = hex j (n div 16 ^ (k - j))"
proof (induction k arbitrary: n)
  case (Suc k)
  show ?case
  proof (cases "j = Suc k")
    case False
    with Suc.prems have "j \<le> k" by simp
    moreover from this have "Suc k - j = Suc (k - j)" by simp
    ultimately show ?thesis using Suc.IH [of "n div 16"] by (simp add: div_mult2_eq [symmetric])
  qed simp
qed simp

lemma uuid_str_hex: "uuid_str u = uuid_str v \<Longrightarrow> hex 32 u = hex 32 v"
proof -
  have step: "drop n h = take 4 (drop n h) @ drop (n + 4) h" for n and h :: string
    by (metis add.commute append_take_drop_id drop_drop)
  have s8: "drop 8 h = take 4 (drop 8 h) @ drop 12 h" and
    s12: "drop 12 h = take 4 (drop 12 h) @ drop 16 h" and
    s16: "drop 16 h = take 4 (drop 16 h) @ drop 20 h" for h :: string
    using step [where n = 8 and h = h] step [where n = 12 and h = h] step [where n = 16 and h = h] by simp_all
  assume "uuid_str u = uuid_str v"
  then have "take 8 (hex 32 u) = take 8 (hex 32 v)"
    "take 4 (drop 8 (hex 32 u)) = take 4 (drop 8 (hex 32 v))"
    "take 4 (drop 12 (hex 32 u)) = take 4 (drop 12 (hex 32 v))"
    "take 4 (drop 16 (hex 32 u)) = take 4 (drop 16 (hex 32 v))"
    "drop 20 (hex 32 u) = drop 20 (hex 32 v)"
    by (simp_all add: uuid_str_def Let_def)
  then have "drop 16 (hex 32 u) = drop 16 (hex 32 v)" using s16 by metis
  then have "drop 12 (hex 32 u) = drop 12 (hex 32 v)"
    using s12 \<open>take 4 (drop 12 (hex 32 u)) = _\<close> by metis
  then have "drop 8 (hex 32 u) = drop 8 (hex 32 v)"
    using s8 \<open>take 4 (drop 8 (hex 32 u)) = _\<close> by metis
  then show ?thesis using \<open>take 8 (hex 32 u) = _\<close> by (metis append_take_drop_id)
qed

lemma uuid_str_inj: "uuid_str u = uuid_str v \<Longrightarrow> u < 2 ^ 128 \<Longrightarrow> v < 2 ^ 128 \<Longrightarrow> u = v"
  using hex_inj [of 32 u v] uuid_str_hex [of u v] by simp

section \<open>Messages\<close>

text \<open>
  \<^verbatim>\<open>repr\<close> of a Latin-1 string: double quotes when it holds single quotes only, backslash escapes,
  and \<^verbatim>\<open>\xhh\<close> for what is not printable.
\<close>

definition repr_char :: "char \<Rightarrow> char \<Rightarrow> string" where
  "repr_char q c =
     (let n = (of_char c :: nat) in
      if c = q \<or> n = 92 then [char_of (92::nat), c]
      else if n = 9 then [char_of (92::nat), CHR ''t'']
      else if n = 10 then [char_of (92::nat), CHR ''n'']
      else if n = 13 then [char_of (92::nat), CHR ''r'']
      else if n < 32 \<or> (127 \<le> n \<and> n \<le> 160) \<or> n = 173
        then [char_of (92::nat), CHR ''x''] @ hex 2 n
      else [c])"

definition py_repr :: "string \<Rightarrow> string" where
  "py_repr s =
     (let single = char_of (39::nat); double = char_of (34::nat);
          q = (if single \<in> set s \<and> double \<notin> set s then double else single)
      in [q] @ concat (map (repr_char q) s) @ [q])"

fun join :: "string \<Rightarrow> string list \<Rightarrow> string" where
  "join sep [] = []"
| "join sep [x] = x"
| "join sep (x # y # xs) = x @ sep @ join sep (y # xs)"

fun domain_error_str :: "domain_error \<Rightarrow> string" where
  "domain_error_str (GeocodingFailed why) = ''geocoding failed: '' @ why"
| "domain_error_str (UnknownProduct ids) =
     ''unknown product ids: '' @ join '', '' (map uuid_str (sorted_list_of_set ids))"
| "domain_error_str (NoEligibleWarehouse requested stocked) =
     ''no single warehouse can fulfill all '' @ nat_str requested @ '' product(s); '' @
     nat_str stocked @ '' of them are stocked somewhere''"
| "domain_error_str (InsufficientStock pid requested) =
     ''insufficient stock for product '' @ uuid_str pid @ '': '' @ int_str requested @ '' requested''"
| "domain_error_str (InvalidStateTransition oid expected actual) =
     ''order '' @ uuid_str oid @ '': cannot move from '' @ py_repr actual @ '' to '' @ py_repr expected"
| "domain_error_str (MixedCurrencyBasket currencies) =
     ''basket spans multiple currencies: '' @ join '', '' (sorted_list_of_set currencies)"
| "domain_error_str IdempotencyKeyRequired = ''the Idempotency-Key header is required''"
| "domain_error_str (IdempotencyKeyReuse key) =
     ''idempotency key '' @ py_repr key @ '' was already used for a different request''"
| "domain_error_str (IdempotencyInProgress key) =
     ''a request with idempotency key '' @ py_repr key @ '' is already in progress''"
| "domain_error_str (PaymentDeclined why) = ''payment declined: '' @ why"
| "domain_error_str (PaymentUnresolved why) = ''payment outcome unknown: '' @ why"

end
