(* ===== verification/Provider.thy ===== *)
theory Provider
  imports Text
begin

text \<open>
  The payment port (\<^verbatim>\<open>app/ports/payment.py\<close>) and its in-process implementation
  (\<^verbatim>\<open>app/adapters/payment_mock.py\<close>). The port is the locale \<open>payment_port\<close>: a provider that is
  idempotent by key. The mock is interpreted in it, so a key is charged once however often it is sent.
\<close>

section \<open>The port\<close>

record charge_request =
  cr_card :: ustr
  cr_amount_minor :: int
  cr_currency :: string
  cr_description :: string
  cr_idempotency_key :: string

fun charge_all :: "(charge_request \<Rightarrow> 'p \<Rightarrow> payment_result \<times> 'p) \<Rightarrow> charge_request list \<Rightarrow> 'p \<Rightarrow> 'p" where
  "charge_all charge [] p = p"
| "charge_all charge (rq # rqs) p = charge_all charge rqs (snd (charge rq p))"

locale payment_port =
  fixes charge :: "charge_request \<Rightarrow> 'p \<Rightarrow> payment_result \<times> 'p"
    and answer :: "string \<Rightarrow> 'p \<Rightarrow> payment_result option"
    and charged :: "'p \<Rightarrow> string list"
    and sound :: "'p \<Rightarrow> bool"
  assumes replays: "answer (cr_idempotency_key rq) p = Some r \<Longrightarrow> charge rq p = (r, p)"
    and records: "charge rq p = (r, p') \<Longrightarrow> answer (cr_idempotency_key rq) p' = Some r"
    and keeps: "charge rq p = (r', p') \<Longrightarrow> answer k p = Some r \<Longrightarrow> answer k p' = Some r"
    and logs: "answer (cr_idempotency_key rq) p = None \<Longrightarrow> charge rq p = (r, p') \<Longrightarrow>
          charged p' = charged p @ [cr_idempotency_key rq]"
    and sound_charge: "sound p \<Longrightarrow> charge rq p = (r, p') \<Longrightarrow> sound p'"
    and sound_logged: "sound p \<Longrightarrow> k \<in> set (charged p) \<Longrightarrow> answer k p \<noteq> None"
begin

lemma charged_after:
  "charge rq p = (r, p') \<Longrightarrow>
     charged p' = charged p @ (if answer (cr_idempotency_key rq) p = None then [cr_idempotency_key rq] else [])"
  by (cases "answer (cr_idempotency_key rq) p") (auto simp: replays dest: logs)

lemma charge_distinct:
  assumes "sound p" and "distinct (charged p)" and "charge rq p = (r, p')"
  shows "distinct (charged p')"
  using assms sound_logged [OF assms(1), of "cr_idempotency_key rq"] by (auto simp: charged_after)

lemma charge_all_distinct:
  "sound p \<Longrightarrow> distinct (charged p) \<Longrightarrow> distinct (charged (charge_all charge rqs p))"
proof (induction rqs arbitrary: p)
  case (Cons rq rqs)
  obtain r p' where c: "charge rq p = (r, p')" by fastforce
  with Cons show ?case by (simp add: charge_distinct [OF Cons.prems c] sound_charge [OF Cons.prems(1) c])
qed simp

lemma charge_all_keeps: "answer k p = Some r \<Longrightarrow> answer k (charge_all charge rqs p) = Some r"
proof (induction rqs arbitrary: p)
  case (Cons rq rqs)
  obtain r' p' where c: "charge rq p = (r', p')" by fastforce
  with Cons keeps [OF c Cons.prems] show ?case by simp
qed simp

text \<open>Once a key has been charged, every later charge of it returns the same answer and does nothing.\<close>

lemma retry_is_replay:
  assumes "charge rq p = (r, p')" and "cr_idempotency_key rq' = cr_idempotency_key rq"
  shows "charge rq' (charge_all charge rqs p') = (r, charge_all charge rqs p')"
  using charge_all_keeps [OF records [OF assms(1)]] assms(2) by (intro replays) simp

end

section \<open>The mock\<close>

record mock =
  charged_keys :: "string list"
  results :: "string \<rightharpoonup> payment_result"

definition new_mock :: mock where
  "new_mock = \<lparr>charged_keys = [], results = Map.empty\<rparr>"

text \<open>\<^verbatim>\<open>_brand\<close>: the prefixes of the number, as code points (\<open>52\<close> is \<^verbatim>\<open>'4'\<close>).\<close>

definition card_brand_of :: "ustr \<Rightarrow> string" where
  "card_brand_of digits =
     (if take 1 digits = ustr ''4'' then ''visa''
      else if take 2 digits \<in> {ustr ''51'', ustr ''52'', ustr ''53'', ustr ''54'', ustr ''55''}
        then ''mastercard''
      else if take 2 digits \<in> {ustr ''34'', ustr ''37''} then ''amex''
      else ''unknown'')"

text \<open>\<^verbatim>\<open>.replace(" ", "").replace("-", "")\<close> and the slice \<^verbatim>\<open>[-4:]\<close>\<close>

definition card_digits :: "ustr \<Rightarrow> ustr" where
  "card_digits raw = filter (\<lambda>c. c \<noteq> 32 \<and> c \<noteq> 45) raw"

definition last4_of :: "ustr \<Rightarrow> ustr" where
  "last4_of digits = drop (length digits - 4) digits"

definition mock_outcome :: "ustr \<Rightarrow> string \<Rightarrow> payment_result" where
  "mock_outcome pan key =
     (let digits = card_digits pan; last4 = last4_of digits; brand = card_brand_of digits in
      if last4 = ustr ''0002'' then
        \<lparr>outcome = Outcome_declined, reference = None, failure_reason = Some ''card declined'',
         card_brand = Some brand, card_last4 = Some last4\<rparr>
      else if last4 = ustr ''0069'' then
        \<lparr>outcome = Outcome_unknown, reference = None, failure_reason = Some ''provider timeout'',
         card_brand = Some brand, card_last4 = Some last4\<rparr>
      else if last4 = ustr ''0119'' then
        \<lparr>outcome = Outcome_unknown, reference = None, failure_reason = Some ''provider error'',
         card_brand = Some brand, card_last4 = Some last4\<rparr>
      else
        \<lparr>outcome = Outcome_succeeded, reference = Some (''mock_'' @ take 12 key),
         failure_reason = None, card_brand = Some brand, card_last4 = Some last4\<rparr>)"

definition mock_charge :: "charge_request \<Rightarrow> mock \<Rightarrow> payment_result \<times> mock" where
  "mock_charge rq p =
     (case results p (cr_idempotency_key rq) of
        Some r \<Rightarrow> (r, p)
      | None \<Rightarrow>
          let r = mock_outcome (cr_card rq) (cr_idempotency_key rq) in
          (r, p\<lparr>charged_keys := charged_keys p @ [cr_idempotency_key rq],
               results := (results p)(cr_idempotency_key rq \<mapsto> r)\<rparr>))"

definition get_by_idempotency_key :: "string \<Rightarrow> mock \<Rightarrow> payment_result option" where
  "get_by_idempotency_key key p = results p key"

definition mock_sound :: "mock \<Rightarrow> bool" where
  "mock_sound p \<longleftrightarrow> list_all (\<lambda>k. results p k \<noteq> None) (charged_keys p)"

interpretation mock: payment_port mock_charge get_by_idempotency_key charged_keys mock_sound
  by unfold_locales
    (auto simp: mock_charge_def get_by_idempotency_key_def mock_sound_def Let_def list_all_iff
      split: option.splits if_splits)

text \<open>The mock leaves the answers to other keys alone, and answers a new key by its card alone.\<close>

lemma mock_charge_new:
  "results p (cr_idempotency_key rq) = None \<Longrightarrow>
     mock_charge rq p = (mock_outcome (cr_card rq) (cr_idempotency_key rq),
       p\<lparr>charged_keys := charged_keys p @ [cr_idempotency_key rq],
         results := (results p)(cr_idempotency_key rq \<mapsto>
           mock_outcome (cr_card rq) (cr_idempotency_key rq))\<rparr>)"
  by (simp add: mock_charge_def Let_def)

lemma mock_outcome_simps:
  "card_last4 (mock_outcome pan key) = Some (last4_of (card_digits pan))"
  "outcome (mock_outcome pan key) = Outcome_succeeded \<longleftrightarrow>
     last4_of (card_digits pan) \<notin> {ustr ''0002'', ustr ''0069'', ustr ''0119''}"
  "outcome (mock_outcome pan key) = Outcome_succeeded \<Longrightarrow>
     reference (mock_outcome pan key) = Some (''mock_'' @ take 12 key)"
  "outcome (mock_outcome pan key) \<noteq> Outcome_succeeded \<Longrightarrow>
     reference (mock_outcome pan key) = None \<and> failure_reason (mock_outcome pan key) \<noteq> None"
  by (auto simp: mock_outcome_def Let_def split: if_splits)

text \<open>
  The reference keeps twelve characters of the key, eleven hexadecimal digits and a hyphen: two keys
  get the same reference exactly when the top 44 bits of their UUIDs agree.
\<close>

lemma take12_uuid_str:
  "take 12 (uuid_str u) = take 8 (hex 32 u) @ ''-'' @ take 3 (drop 8 (hex 32 u))"
  by (simp add: uuid_str_def Let_def)

lemma reference_collision:
  assumes "u < 2 ^ 128" and "v < 2 ^ 128"
  shows "take 12 (uuid_str u) = take 12 (uuid_str v) \<longleftrightarrow> u div 2 ^ 84 = v div 2 ^ 84"
proof -
  have t11: "take 11 h = take 8 h @ take 3 (drop 8 h)" for h :: string
    using take_add [of 8 3 h] by simp
  have "take 12 (uuid_str u) = take 12 (uuid_str v) \<longleftrightarrow> take 11 (hex 32 u) = take 11 (hex 32 v)"
    unfolding take12_uuid_str t11 by simp
  also have "\<dots> \<longleftrightarrow> hex 11 (u div 16 ^ 21) = hex 11 (v div 16 ^ 21)" by (simp add: take_hex)
  also have "\<dots> \<longleftrightarrow> u div 16 ^ 21 = v div 16 ^ 21"
  proof
    assume "hex 11 (u div 16 ^ 21) = hex 11 (v div 16 ^ 21)"
    moreover have "u div 16 ^ 21 < 16 ^ 11" "v div 16 ^ 21 < 16 ^ 11"
      using assms by (simp_all add: less_mult_imp_div_less)
    ultimately show "u div 16 ^ 21 = v div 16 ^ 21" by (rule hex_inj)
  qed simp
  also have "(16::nat) ^ 21 = 2 ^ 84" by simp
  finally show ?thesis .
qed

end
