(* ===== verification/Checkout.thy ===== *)
theory Checkout
  imports Availability Idempotency Payments Outbox Provider
begin

text \<open>
  \<^verbatim>\<open>app/services/order_checkout.py\<close>: the saga. \<open>checkout_tx1\<close> claims the key, creates the
  order and its pending payment; the charge happens between the transactions; \<open>checkout_tx2\<close>
  finishes, compensates or annotates. \<open>checkout\<close> composes them over the database and the state of the
  payment provider, with the work other sessions commit during the charge as an argument.
\<close>

section \<open>Operations\<close>

record checkout_request =
  rq_key :: string
  rq_hash :: string
  rq_customer :: uuid
  rq_address :: postal_address
  rq_items :: "requested_item list"
  rq_card :: ustr

record checkout_result =
  co_order_id :: uuid
  co_body :: order_response
  co_status_code :: int

text \<open>\<^verbatim>\<open>result.failure_reason or "declined"\<close>: an empty string counts as missing.\<close>

definition or_else :: "string option \<Rightarrow> string \<Rightarrow> string" where
  "or_else x d = (case x of None \<Rightarrow> d | Some s \<Rightarrow> if s = '''' then d else s)"

text \<open>
  \<open>seen\<close> and \<open>priced\<close> are what the transaction's two SELECTs find (theory \<open>Creation\<close>); the key is
  claimed before them and stays locked.
\<close>

definition checkout_tx1_from_reads ::
  "env \<Rightarrow> checkout_request \<Rightarrow> wkb_point \<Rightarrow> db \<Rightarrow> db \<Rightarrow> db \<Rightarrow> exc + ((order_row \<times> payment_row) \<times> db)" where
  "checkout_tx1_from_reads env rq pt seen priced d =
     bind_r (claim_key (rq_key rq) (rq_hash rq) d) (\<lambda>d1.
     bind_r (create_from_reads env (rq_customer rq) (rq_address rq) (rq_items rq) pt seen priced d1) (\<lambda>(ord, d2).
     bind_r (create_pending (o_id ord) (o_total_minor ord) (o_currency ord)
               (''Order '' @ uuid_str (o_id ord)) ''mock'' d2) (\<lambda>(pay, d3).
       Inr ((ord, pay), d3))))"

definition checkout_tx1 ::
  "env \<Rightarrow> checkout_request \<Rightarrow> wkb_point \<Rightarrow> db \<Rightarrow> exc + ((order_row \<times> payment_row) \<times> db)" where
  "checkout_tx1 env rq pt d =
     bind_r (claim_key (rq_key rq) (rq_hash rq) d) (\<lambda>d1.
     bind_r (create_in_transaction env (rq_customer rq) (rq_address rq) (rq_items rq) pt d1) (\<lambda>(ord, d2).
     bind_r (create_pending (o_id ord) (o_total_minor ord) (o_currency ord)
               (''Order '' @ uuid_str (o_id ord)) ''mock'' d2) (\<lambda>(pay, d3).
       Inr ((ord, pay), d3))))"

definition charge_request_of :: "checkout_request \<Rightarrow> order_row \<Rightarrow> charge_request" where
  "charge_request_of rq ord =
     \<lparr>cr_card = rq_card rq, cr_amount_minor = o_total_minor ord, cr_currency = o_currency ord,
      cr_description = ''Order '' @ uuid_str (o_id ord), cr_idempotency_key = uuid_str (o_id ord)\<rparr>"

definition warehouse_out_of :: "warehouse_row \<Rightarrow> warehouse_out" where
  "warehouse_out_of w = \<lparr>wo_id = wh_id w, wo_code = wh_code w, wo_name = wh_name w\<rparr>"

definition item_out_of :: "order_item_row \<Rightarrow> order_item_out" where
  "item_out_of i = \<lparr>io_product_id = oi_product_id i, io_product_sku = oi_product_sku i,
     io_product_name = oi_product_name i, io_quantity = oi_quantity i,
     io_unit_price_minor = oi_unit_price_minor i, io_currency = oi_currency i,
     io_line_total_minor = line_total_minor i\<rparr>"

definition render :: "uuid \<Rightarrow> string option \<Rightarrow> db \<Rightarrow> exc + order_response" where
  "render oid ref d =
     bind_r (get_for_response oid d) (\<lambda>(o1, items, wh).
       Inr \<lparr>resp_id = o_id o1, resp_status = o_status o1,
            resp_warehouse = map_option warehouse_out_of wh,
            resp_items = map item_out_of items, resp_total_minor = o_total_minor o1,
            resp_currency = o_currency o1, resp_payment_reference = ref,
            resp_created_at = o_created_at o1\<rparr>)"

definition confirmed_payload :: "order_row \<Rightarrow> string option \<Rightarrow> event_payload" where
  "confirmed_payload ord ref =
     \<lparr>ep_order_id = o_id ord, ep_customer_id = o_customer_id ord, ep_warehouse_id = o_warehouse_id ord,
      ep_total_minor = o_total_minor ord, ep_currency = o_currency ord, ep_payment_reference = ref\<rparr>"

definition complete ::
  "order_row \<Rightarrow> uuid \<Rightarrow> payment_result \<Rightarrow> string \<Rightarrow> db \<Rightarrow> exc + (order_response \<times> db)" where
  "complete ord pid result key d =
     bind_r (mark_succeeded pid (reference result) (card_brand result) (card_last4 result) d) (\<lambda>d1.
     bind_r (transition (o_id ord) Reserved Paid (Some ''payment succeeded'') d1) (\<lambda>d2.
     bind_r (transition (o_id ord) Paid Confirmed (Some ''order confirmed'') d2) (\<lambda>d3.
     bind_r (settle_for_order (o_id ord) Committed d3) (\<lambda>d4.
     bind_r (add_event ''order_confirmed'' (o_id ord) (confirmed_payload ord (reference result))
               ''order'' d4) (\<lambda>d5.
     bind_r (render (o_id ord) (reference result) d5) (\<lambda>body.
     bind_r (settle_completed key body 201 (o_id ord) d5) (\<lambda>d6.
       Inr (body, d6))))))))"

definition compensate :: "order_row \<Rightarrow> uuid \<Rightarrow> payment_result \<Rightarrow> string \<Rightarrow> db \<Rightarrow> exc + db" where
  "compensate ord pid result key d =
     bind_r (mark_payment_failed pid (or_else (failure_reason result) ''declined'')
               (card_brand result) (card_last4 result) d) (\<lambda>d1.
     bind_r (release_reservation (o_id ord) d1) (\<lambda>(_, d2).
     bind_r (transition (o_id ord) Reserved Payment_failed
               (Some (or_else (failure_reason result) ''declined'')) d2) (\<lambda>d3.
       mark_key_failed key (Some (o_id ord)) d3)))"

definition leave_unresolved :: "uuid \<Rightarrow> payment_result \<Rightarrow> db \<Rightarrow> exc + db" where
  "leave_unresolved pid result d =
     mark_unknown pid (or_else (failure_reason result) ''unknown'')
       (card_brand result) (card_last4 result) d"

definition checkout_tx2 ::
  "order_row \<Rightarrow> uuid \<Rightarrow> payment_result \<Rightarrow> string \<Rightarrow> db \<Rightarrow> exc + (order_response option \<times> db)" where
  "checkout_tx2 ord pid result key d =
     (case outcome result of
        Outcome_succeeded \<Rightarrow> bind_r (complete ord pid result key d) (\<lambda>(body, d'). Inr (Some body, d'))
      | Outcome_declined \<Rightarrow> bind_r (compensate ord pid result key d) (\<lambda>d'. Inr (None, d'))
      | Outcome_unknown \<Rightarrow> bind_r (leave_unresolved pid result d) (\<lambda>d'. Inr (None, d')))"

text \<open>What the caller gets once tx2 has committed.\<close>

definition checkout_answer :: "order_row \<Rightarrow> payment_result \<Rightarrow> order_response option \<Rightarrow> exc + checkout_result" where
  "checkout_answer ord result body =
     (case outcome result of
        Outcome_declined \<Rightarrow> Inl (DomainError (PaymentDeclined (or_else (failure_reason result) ''declined'')))
      | Outcome_unknown \<Rightarrow> Inl (DomainError (PaymentUnresolved (or_else (failure_reason result) ''unknown'')))
      | Outcome_succeeded \<Rightarrow>
          (case body of None \<Rightarrow> Inl (RuntimeError ''body is unbound'')
           | Some b \<Rightarrow> Inr \<lparr>co_order_id = o_id ord, co_body = b, co_status_code = 201\<rparr>))"

text \<open>
  The whole saga on a pair of the database and the provider; \<open>between\<close> is what other sessions
  commit while the provider is being asked.
\<close>

definition checkout ::
  "env \<Rightarrow> (charge_request \<Rightarrow> 'p \<Rightarrow> payment_result \<times> 'p) \<Rightarrow> (db \<Rightarrow> db) \<Rightarrow> checkout_request \<Rightarrow> db \<times> 'p \<Rightarrow>
     (exc + checkout_result) \<times> (db \<times> 'p)" where
  "checkout env charge between rq s =
     (case bind_r (env_geocode env (rq_address rq)) (\<lambda>c. to_point (lon c) (lat c)) of
        Inl e \<Rightarrow> (Inl e, s)
      | Inr pt \<Rightarrow>
        (case in_transaction (checkout_tx1 env rq pt) (fst s) of
           (Inl e, d1) \<Rightarrow> (Inl e, (d1, snd s))
         | (Inr (ord, pay), d1) \<Rightarrow>
             let (result, p1) = charge (charge_request_of rq ord) (snd s) in
             (case in_transaction (checkout_tx2 ord (pay_id pay) result (rq_key rq)) (between d1) of
                (Inl e, d2) \<Rightarrow> (Inl e, (d2, p1))
              | (Inr body, d2) \<Rightarrow> (checkout_answer ord result body, (d2, p1)))))"

section \<open>The first transaction\<close>

text \<open>Claiming a key touches only the keys, so it keeps what a creation needs.\<close>

definition only_keys :: "db \<Rightarrow> db \<Rightarrow> bool" where
  "only_keys d d' \<longleftrightarrow> (\<exists>rows n. d' = d\<lparr>idempotency_keys := rows, uuid_pos := n\<rparr>)"

lemma claim_key_only_keys: "claim_key key hashed d = Inr d' \<Longrightarrow> only_keys d d'"
  by (erule claim_key_Inr_cases) (auto simp: only_keys_def)

lemma only_keys_frame [frame_simps]:
  assumes "only_keys d d'"
  shows "customers d' = customers d" "products d' = products d" "warehouses d' = warehouses d"
    "addresses d' = addresses d" "inventory d' = inventory d" "orders d' = orders d"
    "order_items d' = order_items d" "order_status_history d' = order_status_history d"
    "payments d' = payments d" "stock_reservations d' = stock_reservations d" "outbox d' = outbox d"
    "db_now d' = db_now d" "uuid_seq d' = uuid_seq d"
    "ledger_ok d' = ledger_ok d" "unattributed d' = unattributed d" "able d' = able d"
  using assms
  by (auto simp: only_keys_def ledger_ok_iff held_def reserved_at_def unattributed_def able_def
      supplies_def stocked_def fun_eq_iff)

lemma checkout_tx1_Inr:
  assumes "checkout_tx1 env rq pt d = Inr ((ord, pay), d')"
  obtains d1 d2 where "claim_key (rq_key rq) (rq_hash rq) d = Inr d1"
    and "create_in_transaction env (rq_customer rq) (rq_address rq) (rq_items rq) pt d1 = Inr (ord, d2)"
    and "create_pending (o_id ord) (o_total_minor ord) (o_currency ord)
           (''Order '' @ uuid_str (o_id ord)) ''mock'' d2 = Inr (pay, d')"
  using assms by (auto simp: checkout_tx1_def bind_r_Inr)

lemma checkout_tx1_from_reads_Inr:
  assumes "checkout_tx1_from_reads env rq pt seen priced d = Inr ((ord, pay), d')"
  obtains d1 d2 where "claim_key (rq_key rq) (rq_hash rq) d = Inr d1"
    and "create_from_reads env (rq_customer rq) (rq_address rq) (rq_items rq) pt seen priced d1 = Inr (ord, d2)"
    and "create_pending (o_id ord) (o_total_minor ord) (o_currency ord)
           (''Order '' @ uuid_str (o_id ord)) ''mock'' d2 = Inr (pay, d')"
  using assms by (auto simp: checkout_tx1_from_reads_def bind_r_Inr)

text \<open>The claim changes nothing that the reads could see.\<close>

lemma only_keys_reads:
  assumes "only_keys d d'"
  shows "select_warehouse geocode pg addr items d' = select_warehouse geocode pg addr items d"
    and "get_by_ids ids d' = get_by_ids ids d"
proof -
  note fr = only_keys_frame [OF assms]
  have "eligible items d' = eligible items d" for items by (simp only: eligible_def fr)
  then have "existing_ids ids d' = existing_ids ids d" "select_best pg pt items d' = select_best pg pt items d"
    "count_products_stocked_anywhere ids d' = count_products_stocked_anywhere ids d" for ids pt items
    by (simp_all only: existing_ids_def select_best_def count_products_stocked_anywhere_def fr)
  then show "select_warehouse geocode pg addr items d' = select_warehouse geocode pg addr items d"
    by (simp only: select_warehouse_def)
  show "get_by_ids ids d' = get_by_ids ids d" by (simp only: get_by_ids_def fr)
qed

lemma checkout_tx1_reads: "checkout_tx1 env rq pt d = checkout_tx1_from_reads env rq pt d d d"
proof -
  have "create_in_transaction env cid addr items pt d1 = create_from_reads env cid addr items pt d d d1"
    if "claim_key (rq_key rq) (rq_hash rq) d = Inr d1" for d1 cid addr items
    unfolding create_in_transaction_def create_from_reads_def only_keys_reads [OF claim_key_only_keys [OF that]] ..
  then show ?thesis
    unfolding checkout_tx1_def checkout_tx1_from_reads_def by (intro bind_r_cong) simp_all
qed

text \<open>
  The state after tx1: the caller owns the key, one order is new and reserved, its stock is held,
  its payment is pending for exactly its total.
\<close>

lemma checkout_tx1_from_reads_effect:
  assumes tx1: "checkout_tx1_from_reads env rq pt seen priced d = Inr ((ord, pay), d')" and led: "ledger_ok d"
    and dist: "distinct (map product_id (rq_items rq))"
  shows "orders d' = orders d @ [ord]" and "o_status ord = Reserved"
    and "\<forall>r \<in> set (orders d). o_id r \<noteq> o_id ord"
    and "payments d' = payments d @ [pay]" and "pay_order_id pay = o_id ord"
    and "pay_status pay = Payment_pending" and "amount_minor pay = o_total_minor ord"
    and "pay_currency pay = o_currency ord" and "0 < o_total_minor ord"
    and "\<exists>r. key_row (rq_key rq) d' = Some r \<and> ik_status r = In_progress \<and> ik_request_hash r = rq_hash rq"
    and "ledger_ok d'" and "unattributed d' w p = unattributed d w p"
    and "outbox d' = outbox d" and "db_now d' = db_now d" and "uuid_seq d' = uuid_seq d"
    and "customers d' = customers d" "products d' = products d" "warehouses d' = warehouses d"
    and "k \<noteq> rq_key rq \<Longrightarrow> key_row k d' = key_row k d"
    and "\<exists>h1 h2. order_status_history d' = order_status_history d @
        [history_entry (o_id ord) None Pending (Some ''order created'') h1,
         history_entry (o_id ord) (Some Pending) Reserved (Some ''stock reserved'') h2]"
proof -
  from checkout_tx1_from_reads_Inr [OF tx1] obtain d1 d2 where
    d1: "claim_key (rq_key rq) (rq_hash rq) d = Inr d1" and
    d2: "create_from_reads env (rq_customer rq) (rq_address rq) (rq_items rq) pt seen priced d1 = Inr (ord, d2)" and
    d3: "create_pending (o_id ord) (o_total_minor ord) (o_currency ord)
           (''Order '' @ uuid_str (o_id ord)) ''mock'' d2 = Inr (pay, d')" .
  note k = only_keys_frame [OF claim_key_only_keys [OF d1]]
  have led1: "ledger_ok d1" using led by (simp add: k)
  note cr = create_from_reads_Inr [OF d2 led1 dist]
  from cr(1) obtain c where c: "created_from env (rq_customer rq) (rq_address rq) (rq_items rq) pt seen priced d1 ord d2 c" ..
  note cc = c [unfolded created_from_def]
  note p = d3 [unfolded create_pending_Inr]
  have d': "d' = d2\<lparr>payments := payments d2 @ [pay], uuid_pos := Suc (uuid_pos d2)\<rparr>" using p by blast
  have pay: "pay = new_payment (uuid_seq d2 (uuid_pos d2)) (o_id ord) (o_total_minor ord)
      (o_currency ord) (''Order '' @ uuid_str (o_id ord)) ''mock'' (db_now d2)" using p by blast
  have "orders d2 = orders d1 @ [ord]" using cc by blast
  then show "orders d' = orders d @ [ord]" by (simp add: d' k)
  obtain a b e f where
    "ord = (new_order (uuid_seq d1 (uuid_pos d1)) (rq_customer rq) a (rq_address rq) pt b e f)
             \<lparr>o_status := Reserved\<rparr>" using cc by blast
  then show "o_status ord = Reserved" by (metis order_row.select_convs(3) order_row.surjective order_row.update_convs(3))
  have "\<forall>r \<in> set (orders d1). o_id r \<noteq> o_id ord" using cc by blast
  then show "\<forall>r \<in> set (orders d). o_id r \<noteq> o_id ord" by (simp add: k)
  have "payments d2 = payments d1" using cc by blast
  then show "payments d' = payments d @ [pay]" by (simp add: d' k)
  show "pay_order_id pay = o_id ord" "pay_status pay = Payment_pending"
    "amount_minor pay = o_total_minor ord" "pay_currency pay = o_currency ord" by (simp_all add: pay)
  have "row_ok (payment_spec d2) pay" using p by blast
  then show "0 < o_total_minor ord" by (simp add: payment_row_ok pay)
  have keys: "idempotency_keys d' = idempotency_keys d1" using cc by (simp add: d')
  then have kr: "key_row x d' = key_row x d1" for x by (simp add: key_row_def)
  then show "\<exists>r. key_row (rq_key rq) d' = Some r \<and> ik_status r = In_progress \<and> ik_request_hash r = rq_hash rq"
    using claim_key_takes [OF d1] by simp
  show "key_row k d' = key_row k d" if "k \<noteq> rq_key rq"
    using claim_key_other_row [OF d1 that] kr by simp
  show "ledger_ok d'"
    by (rule ledger_ok_orders_grow [OF cr(2)]) (simp_all add: d')
  show "unattributed d' w p = unattributed d w p"
    using cr(3) [of w p] by (simp add: unattributed_def reserved_at_def held_def d' k(5,10))
  have "outbox d2 = outbox d1" "db_now d2 = db_now d1" "uuid_seq d2 = uuid_seq d1"
    "customers d2 = customers d1" "products d2 = products d1" "warehouses d2 = warehouses d1"
    using cc by blast+
  then show "outbox d' = outbox d" "db_now d' = db_now d" "uuid_seq d' = uuid_seq d"
    "customers d' = customers d" "products d' = products d" "warehouses d' = warehouses d"
    by (simp_all add: d' k)
  have "\<exists>h1 h2. order_status_history d2 = order_status_history d1 @
        [history_entry (o_id ord) None Pending (Some ''order created'') h1,
         history_entry (o_id ord) (Some Pending) Reserved (Some ''stock reserved'') h2]" using cc by blast
  then show "\<exists>h1 h2. order_status_history d' = order_status_history d @
        [history_entry (o_id ord) None Pending (Some ''order created'') h1,
         history_entry (o_id ord) (Some Pending) Reserved (Some ''stock reserved'') h2]"
    by (simp add: d' k)
qed

lemma checkout_tx1_from_reads_rows:
  assumes tx1: "checkout_tx1_from_reads env rq pt seen priced d = Inr ((ord, pay), d')" and led: "ledger_ok d"
    and dist: "distinct (map product_id (rq_items rq))"
  shows "\<exists>n. o_id ord = uuid_seq d n" and "pay_id pay \<notin> pay_id ` set (payments d)"
    and "\<exists>w new. w \<in> set (able seen (rq_items rq)) \<and> o_warehouse_id ord = Some (wh_id w) \<and>
           stock_reservations d' = stock_reservations d @ new \<and>
           map reservation_content new =
             map (\<lambda>i. (o_id ord, wh_id w, product_id i, quantity i, Active,
                       db_now d + seconds (reservation_ttl_seconds env)))
               (lock_order (rq_items rq) (wh_id w))"
    and "\<exists>ls. order_items d' = order_items d @ ls \<and> (\<forall>l \<in> set ls. oi_order_id l = o_id ord) \<and>
           o_total_minor ord = sum_list (map line_total_minor ls) \<and> length ls = length (rq_items rq)"
proof -
  from checkout_tx1_from_reads_Inr [OF tx1] obtain d1 d2 where
    d1: "claim_key (rq_key rq) (rq_hash rq) d = Inr d1" and
    d2: "create_from_reads env (rq_customer rq) (rq_address rq) (rq_items rq) pt seen priced d1 = Inr (ord, d2)" and
    d3: "create_pending (o_id ord) (o_total_minor ord) (o_currency ord)
           (''Order '' @ uuid_str (o_id ord)) ''mock'' d2 = Inr (pay, d')" .
  note k = only_keys_frame [OF claim_key_only_keys [OF d1]]
  have led1: "ledger_ok d1" using led by (simp add: k)
  from create_from_reads_Inr(1) [OF d2 led1 dist] obtain c where
    c: "created_from env (rq_customer rq) (rq_address rq) (rq_items rq) pt seen priced d1 ord d2 c" ..
  note cc = c [unfolded created_from_def]
  have d': "d' = d2\<lparr>payments := payments d2 @ [pay], uuid_pos := Suc (uuid_pos d2)\<rparr>"
    and fresh: "pay_id pay \<notin> pay_id ` set (payments d2)"
    using d3 [unfolded create_pending_Inr] by blast+
  have ord: "ord = (new_order (uuid_seq d1 (uuid_pos d1)) (rq_customer rq) (wh_id (cr_warehouse c))
      (rq_address rq) pt (o_currency ord) (basket_total (cr_products c) (rq_items rq)) (db_now d1))
      \<lparr>o_status := Reserved\<rparr>" using cc by blast
  have id: "o_id ord = uuid_seq d1 (uuid_pos d1)" and wid: "o_warehouse_id ord = Some (wh_id (cr_warehouse c))"
    and total: "o_total_minor ord = basket_total (cr_products c) (rq_items rq)"
    by (subst ord, simp add: new_order_def)+
  show "\<exists>n. o_id ord = uuid_seq d n" using id by (simp add: k) blast
  have "payments d2 = payments d1" using cc by blast
  with fresh show "pay_id pay \<notin> pay_id ` set (payments d)" by (simp add: k)
  have "stock_reservations d2 = stock_reservations d1 @ cr_new c" and
    "map reservation_content (cr_new c) =
       map (\<lambda>i. (o_id ord, wh_id (cr_warehouse c), product_id i, quantity i, Active,
                 db_now d1 + seconds (reservation_ttl_seconds env)))
         (lock_order (rq_items rq) (wh_id (cr_warehouse c)))"
    and "cr_warehouse c \<in> set (able seen (rq_items rq))" using cc by blast+
  with wid show "\<exists>w new. w \<in> set (able seen (rq_items rq)) \<and> o_warehouse_id ord = Some (wh_id w) \<and>
      stock_reservations d' = stock_reservations d @ new \<and>
      map reservation_content new = map (\<lambda>i. (o_id ord, wh_id w, product_id i, quantity i, Active,
        db_now d + seconds (reservation_ttl_seconds env))) (lock_order (rq_items rq) (wh_id w))"
    by (intro exI [of _ "cr_warehouse c"] exI [of _ "cr_new c"]) (simp add: d' k)
  have items: "order_items d2 = order_items d1 @ cr_lines c" and
    content: "map line_content (cr_lines c) = map (snapshot (o_id ord) (cr_products c))
       (map (\<lambda>i. (product_id i, quantity i)) (rq_items rq))" using cc by blast+
  have len: "length (cr_lines c) = length (rq_items rq)" using arg_cong [OF content, of length] by simp
  have each: "line_content (cr_lines c ! n) =
      snapshot (o_id ord) (cr_products c) (product_id (rq_items rq ! n), quantity (rq_items rq ! n))"
    if "n < length (rq_items rq)" for n
    using arg_cong [OF content, of "\<lambda>xs. xs ! n"] that len by simp
  have "map line_total_minor (cr_lines c) =
      map (\<lambda>i. pr_unit_price_minor (the (cr_products c (product_id i))) * quantity i) (rq_items rq)"
    by (rule nth_equalityI) (use len each in
      \<open>auto simp: line_content_def snapshot_def Let_def line_total_minor_def mult.commute\<close>)
  then have "o_total_minor ord = sum_list (map line_total_minor (cr_lines c))"
    by (simp add: total basket_total_def)
  moreover have "\<forall>l \<in> set (cr_lines c). oi_order_id l = o_id ord"
    using each len by (auto simp: in_set_conv_nth line_content_def snapshot_def Let_def)
  ultimately show "\<exists>ls. order_items d' = order_items d @ ls \<and> (\<forall>l \<in> set ls. oi_order_id l = o_id ord) \<and>
      o_total_minor ord = sum_list (map line_total_minor ls) \<and> length ls = length (rq_items rq)"
    using items len by (intro exI [of _ "cr_lines c"]) (simp add: d' k)
qed

text \<open>The same where nobody else commits in the meantime.\<close>

lemmas checkout_tx1_effect =
  checkout_tx1_from_reads_effect [of _ _ _ d d d for d, folded checkout_tx1_reads]
lemmas checkout_tx1_rows =
  checkout_tx1_from_reads_rows [of _ _ _ d d d for d, folded checkout_tx1_reads]

section \<open>The second transaction\<close>

text \<open>The rows tx2 writes, named: the order with its new status, the settled payment.\<close>

definition at_status :: "uuid \<Rightarrow> order_status \<Rightarrow> db \<Rightarrow> order_row list" where
  "at_status oid st d =
     upd (\<lambda>r. o_id r = oid) (\<lambda>r. r\<lparr>o_status := st, o_updated_at := db_now d\<rparr>) (orders d)"

definition paid :: "payment_result \<Rightarrow> timestamp \<Rightarrow> payment_row \<Rightarrow> payment_row" where
  "paid result now r = r\<lparr>pay_status := Payment_succeeded, provider_reference := reference result,
     pay_card_brand := card_brand result, pay_card_last4 := card_last4 result, pay_updated_at := now\<rparr>"

definition declined :: "payment_result \<Rightarrow> timestamp \<Rightarrow> payment_row \<Rightarrow> payment_row" where
  "declined result now r = r\<lparr>pay_status := Payment_failed_status,
     pay_failure_reason := Some (or_else (failure_reason result) ''declined''),
     pay_card_brand := card_brand result, pay_card_last4 := card_last4 result, pay_updated_at := now\<rparr>"

definition unresolved :: "payment_result \<Rightarrow> timestamp \<Rightarrow> payment_row \<Rightarrow> payment_row" where
  "unresolved result now r = r\<lparr>pay_failure_reason := Some (or_else (failure_reason result) ''unknown''),
     pay_card_brand := card_brand result, pay_card_last4 := card_last4 result, pay_updated_at := now\<rparr>"

lemma settled_simps [simp]:
  "pay_id (paid result now r) = pay_id r" "pay_order_id (paid result now r) = pay_order_id r"
  "amount_minor (paid result now r) = amount_minor r" "pay_currency (paid result now r) = pay_currency r"
  "pay_status (paid result now r) = Payment_succeeded" "provider (paid result now r) = provider r"
  "pay_id (declined result now r) = pay_id r" "pay_order_id (declined result now r) = pay_order_id r"
  "amount_minor (declined result now r) = amount_minor r"
  "pay_currency (declined result now r) = pay_currency r"
  "pay_status (declined result now r) = Payment_failed_status"
  "pay_id (unresolved result now r) = pay_id r" "pay_order_id (unresolved result now r) = pay_order_id r"
  "amount_minor (unresolved result now r) = amount_minor r"
  "pay_currency (unresolved result now r) = pay_currency r"
  "pay_status (unresolved result now r) = pay_status r"
  by (simp_all add: paid_def declined_def unresolved_def)

lemma at_status_ids [simp]:
  "map o_id (at_status oid st d) = map o_id (orders d)"
  "o_id ` set (at_status oid st d) = o_id ` set (orders d)"
proof -
  show m: "map o_id (at_status oid st d) = map o_id (orders d)"
    unfolding at_status_def by (rule map_upd) simp
  show "o_id ` set (at_status oid st d) = o_id ` set (orders d)"
    using arg_cong [OF m, of set] by simp
qed

text \<open>With unique ids, a transition from the order's status moves exactly its row.\<close>

lemma moved_orders_at_status:
  assumes "distinct (map o_id (orders d))" and "r \<in> set (orders d)" "o_id r = oid" "o_status r = frm"
  shows "moved_orders oid frm to d = at_status oid to d"
  unfolding moved_orders_def at_status_def upd_def
  using distinct_key_unique [OF assms(1) _ assms(2)] assms(3,4) by (auto intro!: map_cong)

lemma transition_moves:
  assumes "transition oid frm to why d = Inr d'" and "distinct (map o_id (orders d))"
  shows "d' = d\<lparr>orders := at_status oid to d,
                order_status_history := order_status_history d @ [history_entry oid (Some frm) to why d],
                uuid_pos := Suc (uuid_pos d)\<rparr>"
    and "\<exists>r \<in> set (orders d). o_id r = oid \<and> o_status r = frm" and "is_allowed frm to"
  using transition_Inr [OF assms(1)] moved_orders_at_status [OF assms(2)] by auto

lemma at_status_twice:
  "db_now d' = db_now d \<Longrightarrow> orders d' = at_status oid st d \<Longrightarrow> at_status oid st' d' = at_status oid st' d"
  by (simp add: at_status_def upd_def)

lemma complete_effect:
  assumes c: "complete ord pid result key d = Inr (body, d')" and dist: "distinct (map o_id (orders d))"
  shows "orders d' = at_status (o_id ord) Confirmed d"
    and "\<exists>r \<in> set (orders d). o_id r = o_id ord \<and> o_status r = Reserved"
    and "payments d' = upd (\<lambda>r. pay_id r = pid) (paid result (db_now d)) (payments d)"
    and "stock_reservations d' = upd (\<lambda>r. sr_order_id r = o_id ord \<and> sr_status r = Active)
           (stop_holding Committed (db_now d)) (stock_reservations d)"
    and "inventory d' = inventory d"
    and "\<exists>e. outbox d' = outbox d @ [e] \<and> event_type e = ''order_confirmed'' \<and>
           aggregate_id e = o_id ord \<and> payload e = confirmed_payload ord (reference result) \<and>
           processed_at e = None"
    and "\<exists>h1 h2. order_status_history d' = order_status_history d @
           [history_entry (o_id ord) (Some Reserved) Paid (Some ''payment succeeded'') h1,
            history_entry (o_id ord) (Some Paid) Confirmed (Some ''order confirmed'') h2]"
    and "idempotency_keys d' = upd (\<lambda>r. ik_key r = key)
         (\<lambda>r. r\<lparr>ik_status := Completed, ik_response_body := Some body,
                ik_response_status := Some 201, ik_order_id := Some (o_id ord),
                ik_updated_at := db_now d\<rparr>) (idempotency_keys d)"
    and "render (o_id ord) (reference result) d' = Inr body"
    and "customers d' = customers d" "products d' = products d" "warehouses d' = warehouses d"
      "addresses d' = addresses d" "order_items d' = order_items d" "db_now d' = db_now d"
      "uuid_seq d' = uuid_seq d"
proof -
  from c obtain d1 d2 d3 d4 d5 where
    d1: "mark_succeeded pid (reference result) (card_brand result) (card_last4 result) d = Inr d1" and
    d2: "transition (o_id ord) Reserved Paid (Some ''payment succeeded'') d1 = Inr d2" and
    d3: "transition (o_id ord) Paid Confirmed (Some ''order confirmed'') d2 = Inr d3" and
    d4: "settle_for_order (o_id ord) Committed d3 = Inr d4" and
    d5: "add_event ''order_confirmed'' (o_id ord) (confirmed_payload ord (reference result)) ''order'' d4 = Inr d5" and
    body: "render (o_id ord) (reference result) d5 = Inr body" and
    d6: "settle_completed key body 201 (o_id ord) d5 = Inr d'"
    by (auto simp: complete_def bind_r_Inr)
  have e1: "d1 = d\<lparr>payments := upd (\<lambda>r. pay_id r = pid) (paid result (db_now d)) (payments d)\<rparr>"
    using update_payment_Inr [OF d1 [unfolded mark_succeeded_def]] by (simp add: paid_def [abs_def])
  have dist1: "distinct (map o_id (orders d1))" using dist by (simp add: e1)
  note e2 = transition_moves [OF d2 dist1]
  have dist2: "distinct (map o_id (orders d2))" using dist1 by (simp add: e2(1))
  note e3 = transition_moves [OF d3 dist2]
  note e4 = settle_for_order_frame [OF d4]
  have e5: "d5 = d4\<lparr>outbox := outbox d4 @ [new_event ''order_confirmed'' (o_id ord)
      (confirmed_payload ord (reference result)) ''order'' d4], uuid_pos := Suc (uuid_pos d4)\<rparr>"
    using d5 [unfolded add_event_Inr] by blast
  note e6 = settle_completed_Inr [OF d6]
  note es = e6 e5 e4 e3(1) e2(1) e1
  have "at_status (o_id ord) Confirmed d2 = at_status (o_id ord) Confirmed d"
    by (rule at_status_twice) (simp_all add: e2(1) e1 at_status_def)
  then show "orders d' = at_status (o_id ord) Confirmed d" by (simp add: e6 e5 e4 e3(1))
  show "\<exists>r \<in> set (orders d). o_id r = o_id ord \<and> o_status r = Reserved" using e2(2) by (simp add: e1)
  show "\<exists>e. outbox d' = outbox d @ [e] \<and> event_type e = ''order_confirmed'' \<and>
           aggregate_id e = o_id ord \<and> payload e = confirmed_payload ord (reference result) \<and>
           processed_at e = None" by (simp add: es)
  show "\<exists>h1 h2. order_status_history d' = order_status_history d @
           [history_entry (o_id ord) (Some Reserved) Paid (Some ''payment succeeded'') h1,
            history_entry (o_id ord) (Some Paid) Confirmed (Some ''order confirmed'') h2]"
    by (simp add: e6 e5 e4 e3(1) e2(1)) (auto simp: e1)
  have "orders d' = orders d5" "order_items d' = order_items d5" "warehouses d' = warehouses d5"
    by (simp_all add: e6)
  then have "render (o_id ord) (reference result) d' = render (o_id ord) (reference result) d5"
    by (simp add: render_def get_for_response_def cong: option.case_cong)
  then show "render (o_id ord) (reference result) d' = Inr body" using body by simp
  show "payments d' = upd (\<lambda>r. pay_id r = pid) (paid result (db_now d)) (payments d)"
    "stock_reservations d' = upd (\<lambda>r. sr_order_id r = o_id ord \<and> sr_status r = Active)
       (stop_holding Committed (db_now d)) (stock_reservations d)"
    "inventory d' = inventory d"
    "idempotency_keys d' = upd (\<lambda>r. ik_key r = key)
       (\<lambda>r. r\<lparr>ik_status := Completed, ik_response_body := Some body,
              ik_response_status := Some 201, ik_order_id := Some (o_id ord),
              ik_updated_at := db_now d\<rparr>) (idempotency_keys d)"
    "customers d' = customers d" "products d' = products d" "warehouses d' = warehouses d"
    "addresses d' = addresses d" "order_items d' = order_items d" "db_now d' = db_now d"
    "uuid_seq d' = uuid_seq d" by (simp_all add: es)
qed

lemma compensate_effect:
  assumes c: "compensate ord pid result key d = Inr d'" and dist: "distinct (map o_id (orders d))"
    and led: "ledger_ok d"
  shows "orders d' = at_status (o_id ord) Payment_failed d"
    and "\<exists>r \<in> set (orders d). o_id r = o_id ord \<and> o_status r = Reserved"
    and "payments d' = upd (\<lambda>r. pay_id r = pid) (declined result (db_now d)) (payments d)"
    and "stock_reservations d' = upd (\<lambda>r. sr_order_id r = o_id ord \<and> sr_status r = Active)
           (stop_holding Released (db_now d)) (stock_reservations d)"
    and "ledger_ok d'" and "unattributed d' w p = unattributed d w p"
    and "reserved_at d' w p = reserved_at d w p - released_units (map released_of
           (filter (\<lambda>r. sr_order_id r = o_id ord \<and> sr_status r = Active) (stock_reservations d))) w p"
    and "outbox d' = outbox d"
    and "\<exists>h. order_status_history d' = order_status_history d @
           [history_entry (o_id ord) (Some Reserved) Payment_failed
             (Some (or_else (failure_reason result) ''declined'')) h]"
    and "idempotency_keys d' = upd (\<lambda>r. ik_key r = key)
         (\<lambda>r. r\<lparr>ik_status := Failed, ik_response_body := None, ik_response_status := None,
                ik_order_id := Some (o_id ord), ik_updated_at := db_now d\<rparr>) (idempotency_keys d)"
    and "customers d' = customers d" "products d' = products d" "warehouses d' = warehouses d"
      "addresses d' = addresses d" "order_items d' = order_items d" "db_now d' = db_now d"
      "uuid_seq d' = uuid_seq d" "map inv_key (inventory d') = map inv_key (inventory d)"
proof -
  from c obtain d1 rel d2 d3 where
    d1: "mark_payment_failed pid (or_else (failure_reason result) ''declined'')
           (card_brand result) (card_last4 result) d = Inr d1" and
    d2: "release_reservation (o_id ord) d1 = Inr (rel, d2)" and
    d3: "transition (o_id ord) Reserved Payment_failed
           (Some (or_else (failure_reason result) ''declined'')) d2 = Inr d3" and
    d4: "mark_key_failed key (Some (o_id ord)) d3 = Inr d'"
    by (auto simp: compensate_def bind_r_Inr)
  have e1: "d1 = d\<lparr>payments := upd (\<lambda>r. pay_id r = pid) (declined result (db_now d)) (payments d)\<rparr>"
    using update_payment_Inr [OF d1 [unfolded mark_payment_failed_def]] by (simp add: declined_def [abs_def])
  have led1: "ledger_ok d1"
    using led by (rule ledger_ok_orders_grow) (simp_all add: e1)
  note r = release_effect [OF d2 led1]
  note fr = only_stock_frame [OF r(4)]
  have dist2: "distinct (map o_id (orders d2))" using dist by (simp add: fr e1)
  note e3 = transition_moves [OF d3 dist2]
  note e4 = mark_key_failed_Inr [OF d4]
  note es = e4 e3(1) fr
  show "orders d' = at_status (o_id ord) Payment_failed d"
    by (simp add: e4 e3(1)) (simp add: at_status_def fr e1)
  show "\<exists>r \<in> set (orders d). o_id r = o_id ord \<and> o_status r = Reserved" using e3(2) by (simp add: fr e1)
  show "stock_reservations d' = upd (\<lambda>r. sr_order_id r = o_id ord \<and> sr_status r = Active)
           (stop_holding Released (db_now d)) (stock_reservations d)"
    by (simp add: e4 e3(1) r(2) e1)
  show "ledger_ok d'" by (rule ledger_ok_orders_grow [OF r(3)]) (simp_all add: e4 e3(1))
  have "unattributed d' w p = unattributed d2 w p"
    by (simp add: unattributed_def reserved_at_def held_def e4 e3(1))
  with r(7) [of w p] show "unattributed d' w p = unattributed d w p"
    by (simp add: unattributed_def reserved_at_def held_def e1)
  have "reserved_at d' w p = reserved_at d2 w p" by (simp add: reserved_at_def e4 e3(1))
  with r(1) r(6) [of w p] show "reserved_at d' w p = reserved_at d w p - released_units (map released_of
      (filter (\<lambda>r. sr_order_id r = o_id ord \<and> sr_status r = Active) (stock_reservations d))) w p"
    by (simp add: reserved_at_def e1)
  show "\<exists>h. order_status_history d' = order_status_history d @
           [history_entry (o_id ord) (Some Reserved) Payment_failed
             (Some (or_else (failure_reason result) ''declined'')) h]"
    by (simp add: e4 e3(1)) (auto simp: fr e1)
  show "idempotency_keys d' = upd (\<lambda>r. ik_key r = key)
         (\<lambda>r. r\<lparr>ik_status := Failed, ik_response_body := None, ik_response_status := None,
                ik_order_id := Some (o_id ord), ik_updated_at := db_now d\<rparr>) (idempotency_keys d)"
    by (simp add: e4 e3(1)) (simp add: fr e1)
  have f: "payments d' = payments d2" "outbox d' = outbox d2" "customers d' = customers d2"
    "products d' = products d2" "warehouses d' = warehouses d2" "addresses d' = addresses d2"
    "order_items d' = order_items d2" "db_now d' = db_now d2" "uuid_seq d' = uuid_seq d2"
    "inventory d' = inventory d2" by (simp_all add: e4 e3(1))
  show "payments d' = upd (\<lambda>r. pay_id r = pid) (declined result (db_now d)) (payments d)"
    "outbox d' = outbox d" "customers d' = customers d" "products d' = products d"
    "warehouses d' = warehouses d" "addresses d' = addresses d" "order_items d' = order_items d"
    "db_now d' = db_now d" "uuid_seq d' = uuid_seq d"
    "map inv_key (inventory d') = map inv_key (inventory d)"
    unfolding f fr by (simp_all add: e1)
qed

lemma leave_unresolved_effect:
  "leave_unresolved pid result d = Inr d' \<Longrightarrow>
     d' = d\<lparr>payments := upd (\<lambda>r. pay_id r = pid) (unresolved result (db_now d)) (payments d)\<rparr>"
  unfolding leave_unresolved_def mark_unknown_def
  by (drule update_payment_Inr) (simp add: unresolved_def [abs_def])

end
