(* ===== verification/Jobs.thy ===== *)
theory Jobs
  imports Checkout
begin

text \<open>
  \<^verbatim>\<open>app/jobs\<close> and \<^verbatim>\<open>app/adapters/event_log.py\<close>: the sweeper, the outbox relay and
  reconciliation. The two drain loops are \<open>partial_function\<close>s, because nothing in the code bounds
  them; that they end, and what they have done then, is proved. The clock may move between rounds.
\<close>

section \<open>The sweeper\<close>

definition sweep_once :: "nat \<Rightarrow> db \<Rightarrow> (exc + nat) \<times> db" where
  "sweep_once batch d =
     in_transaction (\<lambda>d. bind_r (sweep_expired batch d) (\<lambda>(released, d'). Inr (length released, d'))) d"

partial_function (option) sweep_main ::
  "(nat \<Rightarrow> timestamp) \<Rightarrow> nat \<Rightarrow> nat \<Rightarrow> nat \<Rightarrow> db \<Rightarrow> ((exc + nat) \<times> db) option" where
  [code]: "sweep_main clock batch k tot d =
     (case sweep_once batch (d\<lparr>db_now := clock k\<rparr>) of
        (Inl e, d') \<Rightarrow> Some (Inl e, d')
      | (Inr n, d') \<Rightarrow>
          if 0 < n then sweep_main clock batch (Suc k) (tot + n) d' else Some (Inr tot, d'))"

definition overdue :: "db \<Rightarrow> reservation_row list" where
  "overdue d = filter (\<lambda>r. sr_status r = Active \<and> expires_at r < db_now d) (stock_reservations d)"

definition active_count :: "db \<Rightarrow> nat" where
  "active_count d = length (filter (\<lambda>r. sr_status r = Active) (stock_reservations d))"

lemma expired_ids_alt: "expired_ids batch d = map sr_id (take batch (sort_key expires_at (overdue d)))"
  by (simp add: expired_ids_def overdue_def)

lemma reservation_ids_distinct:
  "table_ok (reservation_spec d) (stock_reservations d) \<Longrightarrow> distinct (map sr_id (stock_reservations d))"
  by (erule table_ok_distinct [where n = "''pk_stock_reservations''"]) (simp add: reservation_spec_def)

lemma expired_ids_sub: "set (expired_ids batch d) \<subseteq> sr_id ` set (overdue d)"
  by (auto simp: expired_ids_alt dest: in_set_takeD)

lemma expired_ids_length: "length (expired_ids batch d) = min batch (length (overdue d))"
  by (simp add: expired_ids_alt min.commute)

lemma expired_ids_distinct:
  assumes "distinct (map sr_id (stock_reservations d))"
  shows "distinct (expired_ids batch d)"
proof -
  have "distinct (map sr_id (overdue d))"
    unfolding overdue_def using assms by (simp add: distinct_map_filter)
  moreover have "mset (map sr_id (sort_key expires_at (overdue d))) = mset (map sr_id (overdue d))" by simp
  ultimately have "distinct (map sr_id (sort_key expires_at (overdue d)))"
    by (metis mset_eq_imp_distinct_iff)
  then show ?thesis by (simp add: expired_ids_alt take_map [symmetric])
qed

text \<open>A sweep claims exactly the overdue reservations of its batch.\<close>

lemma swept_rows:
  assumes "distinct (map sr_id (stock_reservations d))"
  shows "filter (\<lambda>r. sr_status r = Active \<and> sr_id r \<in> set (expired_ids batch d)) (stock_reservations d) =
         filter (\<lambda>r. sr_id r \<in> set (expired_ids batch d)) (stock_reservations d)"
    and "length (filter (\<lambda>r. sr_id r \<in> set (expired_ids batch d)) (stock_reservations d)) =
         min batch (length (overdue d))"
proof -
  have act: "sr_status r = Active" if r: "r \<in> set (stock_reservations d)" "sr_id r \<in> set (expired_ids batch d)" for r
  proof -
    obtain x where x: "x \<in> set (overdue d)" "sr_id x = sr_id r" using r(2) expired_ids_sub by fastforce
    then have "x \<in> set (stock_reservations d)" by (simp add: overdue_def)
    with distinct_key_unique [OF assms this r(1) x(2)] x(1) show ?thesis by (simp add: overdue_def)
  qed
  show "filter (\<lambda>r. sr_status r = Active \<and> sr_id r \<in> set (expired_ids batch d)) (stock_reservations d) =
        filter (\<lambda>r. sr_id r \<in> set (expired_ids batch d)) (stock_reservations d)"
    by (rule filter_cong) (use act in auto)
  let ?f = "filter (\<lambda>r. sr_id r \<in> set (expired_ids batch d)) (stock_reservations d)"
  have "distinct (map sr_id ?f)" using assms by (simp add: distinct_map_filter)
  moreover have "set (map sr_id ?f) = set (expired_ids batch d)"
    using expired_ids_sub [of batch d] by (auto simp: overdue_def)
  ultimately have "length (map sr_id ?f) = length (expired_ids batch d)"
    using expired_ids_distinct [OF assms, of batch] by (metis distinct_card)
  then show "length ?f = min batch (length (overdue d))" by (simp add: expired_ids_length)
qed

lemma active_after_claim:
  assumes "\<And>r. c r \<Longrightarrow> sr_status r = Active" and "st \<noteq> Active"
  shows "length (filter (\<lambda>r. sr_status r = Active) (upd c (stop_holding st t) rows)) + length (filter c rows) =
     length (filter (\<lambda>r. sr_status r = Active) rows)"
  by (induction rows) (use assms in auto)

lemma sweep_once_effect:
  assumes "ledger_ok d"
  shows "\<exists>d'. sweep_once batch d = (Inr (min batch (length (overdue d))), d') \<and> ledger_ok d' \<and>
     active_count d' + min batch (length (overdue d)) = active_count d \<and> db_now d' = db_now d \<and>
     stock_reservations d' = upd (\<lambda>r. sr_status r = Active \<and> sr_id r \<in> set (expired_ids batch d))
        (stop_holding Expired (db_now d)) (stock_reservations d) \<and>
     only_stock d d' \<and> (\<forall>w p. unattributed d' w p = unattributed d w p)"
proof -
  obtain rel d' where s: "sweep_expired batch d = Inr (rel, d')" using sweep_succeeds [OF assms] by blast
  note e = sweep_effect [OF s assms]
  have dist: "distinct (map sr_id (stock_reservations d))"
    using assms by (intro reservation_ids_distinct) (simp add: ledger_ok_iff)
  have n: "length rel = min batch (length (overdue d))"
    unfolding e(1) length_map swept_rows(1) [OF dist] by (rule swept_rows(2) [OF dist])
  have "active_count d' + length rel = active_count d"
    unfolding active_count_def e(2) e(1) length_map by (rule active_after_claim) auto
  with s n e(2,3,4,7) only_stock_frame(11) [OF e(4)] show ?thesis
    by (auto simp: sweep_once_def in_transaction_def)
qed

lemma overdue_none_after:
  assumes "ledger_ok d" and "sweep_once batch d = (Inr 0, d')" and "0 < batch"
  shows "overdue d' = []"
proof -
  obtain d'' where e: "sweep_once batch d = (Inr (min batch (length (overdue d))), d'')"
    "stock_reservations d'' = upd (\<lambda>r. sr_status r = Active \<and> sr_id r \<in> set (expired_ids batch d))
        (stop_holding Expired (db_now d)) (stock_reservations d)" "db_now d'' = db_now d"
    using sweep_once_effect [OF assms(1)] by blast
  with assms(2,3) have "overdue d = []" by (auto simp: min_def split: if_splits)
  moreover from this have "expired_ids batch d = []" by (simp add: expired_ids_alt)
  ultimately show ?thesis using e assms(2) by (simp add: overdue_def upd_none)
qed

lemma ledger_ok_now [simp]: "ledger_ok (d\<lparr>db_now := t\<rparr>) = ledger_ok d"
  by (simp add: ledger_ok_iff held_def reserved_at_def)

lemma active_count_now [simp]: "active_count (d\<lparr>db_now := t\<rparr>) = active_count d"
  by (simp add: active_count_def)

text \<open>
  The drain loop ends: every round that releases anything lowers the number of active reservations.
  When it ends nothing is overdue, and the total it prints is the number of reservations it released.
\<close>

lemma sweep_main_ends:
  assumes "ledger_ok d" and "0 < batch"
  shows "\<exists>n d' k'. sweep_main clock batch k tot d = Some (Inr (tot + n), d') \<and> ledger_ok d' \<and>
     active_count d' + n = active_count d \<and> db_now d' = clock k' \<and> overdue d' = []"
  using assms(1)
proof (induction "active_count d" arbitrary: d k tot rule: less_induct)
  case less
  let ?d = "d\<lparr>db_now := clock k\<rparr>"
  have led: "ledger_ok ?d" using less.prems by simp
  obtain d1 where d1: "sweep_once batch ?d = (Inr (min batch (length (overdue ?d))), d1)" "ledger_ok d1"
    "active_count d1 + min batch (length (overdue ?d)) = active_count d" "db_now d1 = clock k"
    using sweep_once_effect [OF led, of batch] by auto
  show ?case
  proof (cases "min batch (length (overdue ?d)) = 0")
    case True
    have once: "sweep_once batch ?d = (Inr 0, d1)" using d1(1) by (simp only: True)
    then have "overdue d1 = []" using overdue_none_after [OF led _ assms(2)] by blast
    moreover have "sweep_main clock batch k tot d = Some (Inr tot, d1)"
      by (subst sweep_main.simps) (simp add: once)
    moreover have "active_count d1 + 0 = active_count d" using d1(3) True by linarith
    ultimately show ?thesis using d1(2,4) by (metis add_0_right)
  next
    case False
    with d1(3) have lt: "active_count d1 < active_count d" by linarith
    from less.hyps [OF lt d1(2), of "Suc k" "tot + min batch (length (overdue ?d))"]
    obtain n d' k' where r: "sweep_main clock batch (Suc k) (tot + min batch (length (overdue ?d))) d1 =
        Some (Inr (tot + min batch (length (overdue ?d)) + n), d')" "ledger_ok d'"
      "active_count d' + n = active_count d1" "db_now d' = clock k'" "overdue d' = []" by blast
    have "sweep_main clock batch k tot d = sweep_main clock batch (Suc k)
        (tot + min batch (length (overdue ?d))) d1"
      using d1(1) False by (subst sweep_main.simps) simp
    moreover have "active_count d' + (min batch (length (overdue ?d)) + n) = active_count d"
      using r(3) d1(3) by simp
    ultimately show ?thesis using r
      by (intro exI [of _ "min batch (length (overdue ?d)) + n"] exI [of _ d'] exI [of _ k'])
        (simp add: add.assoc)
  qed
qed

text \<open>
  What the drain loop keeps: it writes nothing but stock and the clock, and the reservations it
  leaves holding are rows it did not touch.
\<close>

definition drained_from :: "db \<Rightarrow> db \<Rightarrow> bool" where
  "drained_from d d' \<longleftrightarrow> ledger_ok d' \<and> orders d' = orders d \<and>
     (\<forall>w p. unattributed d' w p = unattributed d w p) \<and>
     filter (\<lambda>r. sr_status r = Committed) (stock_reservations d') =
       filter (\<lambda>r. sr_status r = Committed) (stock_reservations d) \<and>
     (\<forall>r \<in> set (stock_reservations d'). sr_status r = Active \<longrightarrow> r \<in> set (stock_reservations d))"

lemma sweep_once_drains:
  assumes "ledger_ok d" and "sweep_once batch (d\<lparr>db_now := t\<rparr>) = (r, d')"
  shows "drained_from d d'"
proof -
  have led: "ledger_ok (d\<lparr>db_now := t\<rparr>)" using assms(1) by simp
  obtain d'' where e: "sweep_once batch (d\<lparr>db_now := t\<rparr>) = (Inr (min batch (length (overdue (d\<lparr>db_now := t\<rparr>)))), d'')"
    "ledger_ok d''" "only_stock (d\<lparr>db_now := t\<rparr>) d''"
    "\<forall>w p. unattributed d'' w p = unattributed (d\<lparr>db_now := t\<rparr>) w p"
    and rows: "stock_reservations d'' = upd (\<lambda>r. sr_status r = Active \<and>
        sr_id r \<in> set (expired_ids batch (d\<lparr>db_now := t\<rparr>)))
      (stop_holding Expired t) (stock_reservations d)"
    using sweep_once_effect [OF led, of batch] by auto
  have "d'' = d'" using e(1) assms(2) by simp
  moreover have "unattributed (d\<lparr>db_now := t\<rparr>) w p = unattributed d w p" for w p
    by (simp add: unattributed_def reserved_at_def held_def)
  moreover have "filter (\<lambda>r. sr_status r = Committed) (stock_reservations d'') =
      filter (\<lambda>r. sr_status r = Committed) (stock_reservations d)"
    unfolding rows by (rule filter_upd_disjoint) auto
  moreover have "\<forall>r \<in> set (stock_reservations d''). sr_status r = Active \<longrightarrow> r \<in> set (stock_reservations d)"
    by (auto simp: rows set_upd)
  ultimately show ?thesis using e only_stock_frame(5) [OF e(3)] by (simp add: drained_from_def)
qed

lemma drained_from_trans: "drained_from d d' \<Longrightarrow> drained_from d' d'' \<Longrightarrow> drained_from d d''"
  by (auto simp: drained_from_def)

lemma sweep_main_drains:
  assumes "sweep_main clock batch k tot d = Some (r, d')" and "ledger_ok d"
  shows "drained_from d d'"
  using assms
proof (induction "active_count d" arbitrary: d k tot rule: less_induct)
  case less
  obtain n d1 where once: "sweep_once batch (d\<lparr>db_now := clock k\<rparr>) = (Inr n, d1)"
    "active_count d1 + n = active_count d" "ledger_ok d1"
    using sweep_once_effect [of "d\<lparr>db_now := clock k\<rparr>" batch] less.prems(2) by auto
  have one: "drained_from d d1" by (rule sweep_once_drains [OF less.prems(2) once(1)])
  show ?case
  proof (cases "n = 0")
    case True
    with once(1) less.prems(1) have "d' = d1" by (subst (asm) sweep_main.simps) simp
    with one show ?thesis by simp
  next
    case False
    with once(1) less.prems(1) have "sweep_main clock batch (Suc k) (tot + n) d1 = Some (r, d')"
      by (subst (asm) sweep_main.simps) simp
    moreover have "active_count d1 < active_count d" using once(2) False by simp
    ultimately have "drained_from d1 d'" using less.hyps once(3) by blast
    with one show ?thesis by (rule drained_from_trans)
  qed
qed

text \<open>When every active reservation is overdue, the sweeper releases them all.\<close>

lemma sweep_main_releases_all:
  assumes "ledger_ok d" and "0 < batch"
    and late: "\<forall>r \<in> set (stock_reservations d). sr_status r = Active \<longrightarrow> (\<forall>k. expires_at r < clock k)"
  shows "\<exists>d'. sweep_main clock batch k 0 d = Some (Inr (active_count d), d') \<and> drained_from d d' \<and>
    (\<forall>r \<in> set (stock_reservations d'). sr_status r \<noteq> Active) \<and>
    (\<forall>w p. reserved_at d' w p = unattributed d w p + sum_where sr_quantity
       (\<lambda>r. sr_status r = Committed \<and> sr_warehouse_id r = w \<and> sr_product_id r = p) (stock_reservations d))"
proof -
  obtain n d' k' where e: "sweep_main clock batch k 0 d = Some (Inr n, d')"
    "active_count d' + n = active_count d" "db_now d' = clock k'" "overdue d' = []"
    using sweep_main_ends [OF assms(1,2), of clock k 0] by auto
  have dr: "drained_from d d'" by (rule sweep_main_drains [OF e(1) assms(1)])
  have none: "\<forall>r \<in> set (stock_reservations d'). sr_status r \<noteq> Active"
  proof (rule ballI, rule notI)
    fix r assume r: "r \<in> set (stock_reservations d')" "sr_status r = Active"
    then have "r \<in> set (stock_reservations d)" using dr by (simp add: drained_from_def)
    with late r(2) have "expires_at r < db_now d'" by (simp add: e(3))
    with r have "r \<in> set (overdue d')" by (simp add: overdue_def)
    with e(4) show False by simp
  qed
  then have "active_count d' = 0" by (simp add: active_count_def)
  with e have "sweep_main clock batch k 0 d = Some (Inr (active_count d), d')" by simp
  moreover have "reserved_at d' w p = unattributed d w p + sum_where sr_quantity
       (\<lambda>r. sr_status r = Committed \<and> sr_warehouse_id r = w \<and> sr_product_id r = p) (stock_reservations d)" for w p
  proof -
    let ?q = "\<lambda>r. sr_status r = Committed \<and> sr_warehouse_id r = w \<and> sr_product_id r = p"
    have held: "held d' w p = sum_where sr_quantity ?q (stock_reservations d')"
      unfolding held_def by (rule sum_where_cong) (use none in \<open>auto simp: holding_def\<close>)
    have only: "sum_where sr_quantity ?q rows = sum_where sr_quantity (\<lambda>r. sr_warehouse_id r = w \<and> sr_product_id r = p)
        (filter (\<lambda>r. sr_status r = Committed) rows)" for rows
      by (induction rows) auto
    have "held d' w p = sum_where sr_quantity ?q (stock_reservations d)"
      unfolding held only using dr by (simp add: drained_from_def)
    moreover have "unattributed d' w p = unattributed d w p" using dr by (simp add: drained_from_def)
    ultimately show ?thesis by (simp add: unattributed_def [of d'])
  qed
  ultimately show ?thesis using dr none by blast
qed

section \<open>The outbox relay\<close>

text \<open>
  A publisher is a state with a call that may raise; what it did stays done when the transaction
  around it rolls back. \<^verbatim>\<open>LoggingEventPublisher\<close> keeps the list of what it published.
\<close>

fun publish_all :: "(outbox_row \<Rightarrow> 'l \<Rightarrow> exc option \<times> 'l) \<Rightarrow> outbox_row list \<Rightarrow> 'l \<Rightarrow> exc option \<times> 'l" where
  "publish_all publish [] l = (None, l)"
| "publish_all publish (e # es) l =
     (case publish e l of (Some x, l') \<Rightarrow> (Some x, l') | (None, l') \<Rightarrow> publish_all publish es l')"

definition publish_once ::
  "(outbox_row \<Rightarrow> 'l \<Rightarrow> exc option \<times> 'l) \<Rightarrow> nat \<Rightarrow> uuid set \<Rightarrow> db \<times> 'l \<Rightarrow> (exc + nat) \<times> (db \<times> 'l)" where
  "publish_once publish batch locked s =
     (let b = claim_batch batch locked (fst s) in
      case publish_all publish b (snd s) of
        (Some x, l') \<Rightarrow> (Inl x, (fst s, l'))
      | (None, l') \<Rightarrow>
          (case mark_processed (map ob_id b) (fst s) of
             Inl x \<Rightarrow> (Inl x, (fst s, l'))
           | Inr d' \<Rightarrow> (Inr (length b), (d', l'))))"

definition log_publish :: "outbox_row \<Rightarrow> (string \<times> uuid) list \<Rightarrow> exc option \<times> (string \<times> uuid) list" where
  "log_publish e l = (None, l @ [(event_type e, aggregate_id e)])"

partial_function (option) publish_main ::
  "(outbox_row \<Rightarrow> 'l \<Rightarrow> exc option \<times> 'l) \<Rightarrow> nat \<Rightarrow> nat \<Rightarrow> db \<times> 'l \<Rightarrow> ((exc + nat) \<times> (db \<times> 'l)) option" where
  [code]: "publish_main publish batch tot s =
     (case publish_once publish batch {} s of
        (Inl e, s') \<Rightarrow> Some (Inl e, s')
      | (Inr n, s') \<Rightarrow> if 0 < n then publish_main publish batch (tot + n) s' else Some (Inr tot, s'))"

definition queue :: "db \<Rightarrow> outbox_row list" where
  "queue d = sort_key ob_created_at (filter (\<lambda>e. processed_at e = None) (outbox d))"

definition event_sig :: "outbox_row \<Rightarrow> string \<times> uuid" where
  "event_sig e = (event_type e, aggregate_id e)"

lemma claim_batch_queue: "claim_batch batch {} d = take batch (queue d)"
  by (simp add: claim_batch_def queue_def)

lemma publish_all_log: "publish_all log_publish es l = (None, l @ map event_sig es)"
  by (induction es arbitrary: l) (auto simp: log_publish_def event_sig_def)

lemma filter_take_drop:
  assumes "distinct (map f xs)"
  shows "filter (\<lambda>x. f x \<notin> set (map f (take n xs))) xs = drop n xs"
proof -
  have "filter (\<lambda>x. f x \<notin> set (map f ys)) (ys @ zs) = zs" if "distinct (map f (ys @ zs))" for ys zs
    using that by (auto simp: filter_empty_conv intro!: filter_True)
  from this [of "take n xs" "drop n xs"] assms show ?thesis by simp
qed

text \<open>Marking a claimed batch takes it off the front of the queue and leaves the rest in order.\<close>

lemma queue_after_mark:
  assumes "distinct (map ob_id (outbox d))"
    and "outbox d' = upd (\<lambda>e. ob_id e \<in> set (map ob_id (take n (queue d))))
         (\<lambda>e. e\<lparr>processed_at := Some t, attempts := attempts e + 1\<rparr>) (outbox d)"
  shows "queue d' = drop n (queue d)"
proof -
  let ?ids = "set (map ob_id (take n (queue d)))"
  have u: "filter (\<lambda>e. processed_at e = None) (upd (\<lambda>e. ob_id e \<in> ids)
      (\<lambda>e. e\<lparr>processed_at := Some t, attempts := attempts e + 1\<rparr>) rows) =
    filter (\<lambda>e. ob_id e \<notin> ids) (filter (\<lambda>e. processed_at e = None) rows)" for ids rows
    by (induction rows) auto
  have "queue d' = sort_key ob_created_at (filter (\<lambda>e. ob_id e \<notin> ?ids)
      (filter (\<lambda>e. processed_at e = None) (outbox d)))"
    unfolding queue_def [of d'] assms(2) u ..
  also have "\<dots> = filter (\<lambda>e. ob_id e \<notin> ?ids) (queue d)"
    unfolding queue_def [of d] by (rule filter_sort [symmetric])
  finally have "queue d' = filter (\<lambda>e. ob_id e \<notin> ?ids) (queue d)" .
  moreover have "distinct (map ob_id (queue d))"
    using claim_batch_distinct [OF assms(1), of "length (queue d)" "{}"] by (simp add: claim_batch_queue)
  ultimately show ?thesis using filter_take_drop by metis
qed

definition can_mark :: "db \<Rightarrow> bool" where
  "can_mark d \<longleftrightarrow> table_ok outbox_spec (outbox d) \<and>
     (\<forall>e \<in> set (outbox d). processed_at e = None \<longrightarrow> attempts e < 2 ^ 31 - 1)"

lemma outbox_ids_distinct: "table_ok outbox_spec (outbox d) \<Longrightarrow> distinct (map ob_id (outbox d))"
  by (erule table_ok_distinct [where n = "''pk_outbox''"]) (simp add: outbox_spec_def)

lemma publish_once_log:
  assumes "can_mark d"
  shows "\<exists>d'. publish_once log_publish batch {} (d, l) =
      (Inr (length (take batch (queue d))), (d', l @ map event_sig (take batch (queue d)))) \<and>
     queue d' = drop batch (queue d) \<and> can_mark d' \<and> (\<exists>rows. d' = d\<lparr>outbox := rows\<rparr>)"
proof -
  let ?ids = "map ob_id (take batch (queue d))"
  let ?f = "\<lambda>e. e\<lparr>processed_at := Some (db_now d), attempts := attempts e + 1\<rparr>"
  let ?d' = "d\<lparr>outbox := upd (\<lambda>e. ob_id e \<in> set ?ids) ?f (outbox d)\<rparr>"
  have ok: "table_ok outbox_spec (outbox d)" using assms by (simp add: can_mark_def)
  note dist = outbox_ids_distinct [OF ok]
  have pend: "processed_at e = None" if e: "e \<in> set (outbox d)" "ob_id e \<in> set ?ids" for e
  proof -
    obtain x where x: "x \<in> set (take batch (queue d))" "ob_id x = ob_id e" using e(2) by auto
    then have "x \<in> set (outbox d) \<and> processed_at x = None"
      using claim_batch_sound [of x batch "{}" d] by (simp add: claim_batch_queue)
    with distinct_key_unique [OF dist _ e(1) x(2)] show ?thesis by blast
  qed
  have "mark_processed ?ids d = Inr ?d'"
    by (rule mark_processed_succeeds [OF ok]) (use assms pend in \<open>auto simp: can_mark_def\<close>)
  then have "publish_once log_publish batch {} (d, l) =
      (Inr (length (take batch (queue d))), (?d', l @ map event_sig (take batch (queue d))))"
    by (simp add: publish_once_def claim_batch_queue publish_all_log Let_def)
  moreover have "queue ?d' = drop batch (queue d)" by (rule queue_after_mark [OF dist]) simp
  moreover have "table_ok outbox_spec (outbox ?d')"
  proof (cases "?ids = []")
    case False
    with \<open>mark_processed ?ids d = Inr ?d'\<close> obtain ret where
      "update_rows outbox_spec (\<lambda>e. ob_id e \<in> set ?ids) ?f (outbox d) = Inr (ret, outbox ?d')"
      by (auto simp: mark_processed_def bind_r_Inr update_rows_Inr)
    then show ?thesis by (rule update_rows_table_ok [OF _ ok])
  next
    case True
    then have "upd (\<lambda>e. ob_id e \<in> set ?ids) ?f (outbox d) = outbox d" by (intro upd_none) auto
    with ok show ?thesis by simp
  qed
  then have "can_mark ?d'" using assms by (auto simp: can_mark_def set_upd split: if_splits)
  ultimately show ?thesis by blast
qed

text \<open>
  The drain loop of the relay ends and publishes every pending event once, oldest first; marking is
  what makes the next round see the rest of the queue.
\<close>

lemma publish_main_ends:
  assumes "can_mark d" and "0 < batch"
  shows "\<exists>d'. publish_main log_publish batch tot (d, l) =
      Some (Inr (tot + length (queue d)), (d', l @ map event_sig (queue d))) \<and> queue d' = []"
  using assms(1)
proof (induction "length (queue d)" arbitrary: d tot l rule: less_induct)
  case less
  obtain d1 where d1: "publish_once log_publish batch {} (d, l) =
      (Inr (length (take batch (queue d))), (d1, l @ map event_sig (take batch (queue d))))"
    "queue d1 = drop batch (queue d)" "can_mark d1" using publish_once_log [OF less.prems] by blast
  show ?case
  proof (cases "queue d = []")
    case True
    then have "publish_main log_publish batch tot (d, l) = Some (Inr tot, (d1, l))"
      using d1(1) by (subst publish_main.simps) simp
    with True d1(2) show ?thesis by simp
  next
    case False
    with assms(2) have pos: "0 < length (take batch (queue d))" by (cases "queue d") auto
    have lt: "length (queue d1) < length (queue d)" using False assms(2) by (simp add: d1(2))
    from less.hyps [OF lt d1(3), of "tot + length (take batch (queue d))" "l @ map event_sig (take batch (queue d))"]
    obtain d' where r: "publish_main log_publish batch (tot + length (take batch (queue d)))
        (d1, l @ map event_sig (take batch (queue d))) =
      Some (Inr (tot + length (take batch (queue d)) + length (queue d1)),
        (d', (l @ map event_sig (take batch (queue d))) @ map event_sig (queue d1)))" "queue d' = []" by blast
    have "publish_main log_publish batch tot (d, l) =
        publish_main log_publish batch (tot + length (take batch (queue d)))
          (d1, l @ map event_sig (take batch (queue d)))"
      using pos by (subst publish_main.simps) (simp only: d1(1) prod.case sum.case if_True)
    moreover have "length (take batch (queue d)) + length (queue d1) = length (queue d)"
      unfolding d1(2) by (metis append_take_drop_id length_append)
    moreover have "map event_sig (take batch (queue d)) @ map event_sig (queue d1) = map event_sig (queue d)"
      unfolding d1(2) by (metis append_take_drop_id map_append)
    ultimately show ?thesis using r by (metis add.assoc append.assoc)
  qed
qed

text \<open>
  At least once, with any publisher: what a round newly marks has been handed to the publisher in
  that round, and a round that raises marks nothing, whatever it has already published.
\<close>

lemma publish_all_append:
  assumes "publish_all publish es l = (None, l')"
  shows "\<forall>e \<in> set es. \<exists>l1 l2. publish e l1 = (None, l2)"
  using assms by (induction es arbitrary: l) (auto split: prod.splits option.splits)

lemma publish_once_failed:
  "publish_once publish batch locked s = (Inl x, s') \<Longrightarrow> fst s' = fst s"
  by (auto simp: publish_once_def Let_def split: prod.splits option.splits sum.splits)

section \<open>Reconciliation\<close>

text \<open>
  \<^verbatim>\<open>reconcile_once\<close> reads, asks and counts; it writes nothing. \<open>reconcile_main\<close> asks a provider
  it has just constructed.
\<close>

definition reconcile_once ::
  "(string \<Rightarrow> 'p \<Rightarrow> payment_result option) \<Rightarrow> int \<Rightarrow> timestamp \<Rightarrow> db \<Rightarrow> 'p \<Rightarrow> nat \<times> db" where
  "reconcile_once answer grace_seconds now d p =
     (length (filter (\<lambda>pay. case answer (uuid_str (pay_order_id pay)) p of
                       None \<Rightarrow> False | Some a \<Rightarrow> outcome a \<noteq> Outcome_unknown)
        (unresolved_before grace_seconds now d)), d)"

definition reconcile_main :: "timestamp \<Rightarrow> db \<Rightarrow> nat \<times> db" where
  "reconcile_main now d = reconcile_once get_by_idempotency_key 60 now d new_mock"

lemma reconcile_main_counts_nothing: "reconcile_main now d = (0, d)"
  by (simp add: reconcile_main_def reconcile_once_def get_by_idempotency_key_def new_mock_def)

end
