(* ===== verification/Demo.thy ===== *)
theory Demo
  imports Checkout
begin

text \<open>
  A small shop on which the theorems are exercised: one customer, two products, two warehouses, of
  which only the first stocks both, and a checkout of one basket. Everything here is evaluated with
  the definitions of the model.
\<close>

definition demo_address :: postal_address where
  "demo_address = \<lparr>line1 = ustr ''Gran Via 1'', city = ustr ''Madrid'', postal_code = ustr ''28013'',
     country_code = ustr ''ES'', line2 = None\<rparr>"

definition demo_product :: "uuid \<Rightarrow> string \<Rightarrow> int \<Rightarrow> product_row" where
  "demo_product pid sku price =
     \<lparr>pr_id = pid, pr_sku = sku, pr_name = sku, pr_unit_price_minor = price, pr_currency = ''EUR'',
      pr_is_active = True, pr_created_at = 0, pr_updated_at = 0\<rparr>"

definition demo_warehouse :: "uuid \<Rightarrow> string \<Rightarrow> wkb_point \<Rightarrow> warehouse_row" where
  "demo_warehouse wid code loc =
     \<lparr>wh_id = wid, wh_code = code, wh_name = code, wh_location = loc, wh_is_active = True,
      wh_created_at = 0, wh_updated_at = 0\<rparr>"

definition demo_stock :: "uuid \<Rightarrow> uuid \<Rightarrow> uuid \<Rightarrow> int \<Rightarrow> inventory_row" where
  "demo_stock iid wid pid n =
     \<lparr>inv_id = iid, inv_warehouse_id = wid, inv_product_id = pid, on_hand = n, reserved = 0,
      inv_updated_at = 0\<rparr>"

definition demo_db :: db where
  "demo_db =
     \<lparr>customers = [\<lparr>cu_id = 1, cu_email = ''a@b.c'', cu_full_name = ''A'', cu_created_at = 0,
                   cu_updated_at = 0\<rparr>],
      products = [demo_product 10 ''SKU-1'' 1250, demo_product 11 ''SKU-2'' 300],
      warehouses = [demo_warehouse 20 ''MAD-01'' (0, 0), demo_warehouse 21 ''BCN-01'' (1, 0)],
      addresses = [],
      inventory = [demo_stock 30 20 10 5, demo_stock 31 20 11 3, demo_stock 32 21 10 10],
      orders = [], order_items = [], order_status_history = [], payments = [],
      stock_reservations = [], idempotency_keys = [], outbox = [], db_now = 0,
      uuid_seq = (\<lambda>n. n + 100), uuid_pos = 0\<rparr>"

definition demo_pg :: postgis where
  "demo_pg =
     \<lparr>knn_distance = (\<lambda>p q. abs (fst p - fst q) + abs (snd p - snd q)),
      st_distance = (\<lambda>p q. abs (fst p - fst q) + abs (snd p - snd q)),
      collation_key = map of_char\<rparr>"

definition demo_env :: env where
  "demo_env = \<lparr>env_geocode = (\<lambda>_. Inr \<lparr>lat = 0, lon = 1\<rparr>), env_pg = demo_pg,
               reservation_ttl_seconds = 900\<rparr>"

definition demo_items :: "requested_item list" where
  "demo_items = [\<lparr>product_id = 11, quantity = 1\<rparr>, \<lparr>product_id = 10, quantity = 2\<rparr>]"

definition demo_hash :: string where
  "demo_hash = replicate 64 (CHR ''a'')"

definition demo_request :: checkout_request where
  "demo_request = \<lparr>rq_key = ''k1'', rq_hash = demo_hash, rq_customer = 1, rq_address = demo_address,
     rq_items = demo_items, rq_card = ustr ''4242 4242 4242 4242''\<rparr>"

definition is_Inr :: "'e + 'a \<Rightarrow> bool" where
  "is_Inr m = (case m of Inl _ \<Rightarrow> False | Inr _ \<Rightarrow> True)"

lemma is_Inr_iff: "is_Inr m \<longleftrightarrow> (\<exists>x. m = Inr x)"
  by (cases m) (auto simp: is_Inr_def)

definition get_Inr :: "'e + 'a \<Rightarrow> 'a" where
  "get_Inr m = (case m of Inr x \<Rightarrow> x)"

lemma is_Inr_get: "is_Inr m \<Longrightarrow> m = Inr (get_Inr m)"
  by (cases m) (auto simp: is_Inr_def get_Inr_def)

lemmas demo_defs = demo_address_def demo_product_def demo_warehouse_def demo_stock_def demo_db_def
  demo_pg_def demo_env_def demo_items_def demo_request_def

lemma demo_claim:
  "claim_key ''k1'' demo_hash demo_db =
     Inr (demo_db\<lparr>idempotency_keys := [fresh_key_row ''k1'' demo_hash demo_db], uuid_pos := 1\<rparr>)"
  by (simp add: claim_key_def claim_def gen_random_uuid_def demo_db_def check_row_def violated_def
      idempotency_spec_def insert_row_def conflict_def fresh_key_row_def demo_hash_def Let_def)

lemma demo_eligible: "eligible demo_items demo_db = [20]"
  by (simp add: eligible_def demo_defs Let_def)

lemma demo_select:
  "select_warehouse (env_geocode demo_env) (env_pg demo_env) demo_address demo_items demo_db =
     Inr \<lparr>cand_id = 20, cand_code = ''MAD-01'', cand_name = ''MAD-01'', distance_m = 1\<rparr>"
  using demo_eligible
  by (simp add: select_warehouse_def existing_ids_def select_best_def demo_defs to_point_def
      fits_int4_def candidate_of_def Let_def)

text \<open>The rows the first transaction leaves behind.\<close>

definition demo_order :: order_row where
  "demo_order = (new_order 101 1 20 demo_address (1, 0) ''EUR'' 2800 0)\<lparr>o_status := Reserved\<rparr>"

definition demo_payment :: payment_row where
  "demo_payment = new_payment 108 101 2800 ''EUR'' (''Order '' @ uuid_str 101) ''mock'' 0"

definition demo_line :: "uuid \<Rightarrow> uuid \<Rightarrow> string \<Rightarrow> int \<Rightarrow> int \<Rightarrow> order_item_row" where
  "demo_line iid pid sku price q = \<lparr>oi_id = iid, oi_order_id = 101, oi_product_id = pid,
     oi_product_sku = sku, oi_product_name = sku, oi_unit_price_minor = price, oi_currency = ''EUR'',
     oi_quantity = q, oi_created_at = 0\<rparr>"

definition demo_hold :: "uuid \<Rightarrow> uuid \<Rightarrow> int \<Rightarrow> reservation_row" where
  "demo_hold rid pid q = \<lparr>sr_id = rid, sr_order_id = 101, sr_warehouse_id = 20, sr_product_id = pid,
     sr_quantity = q, sr_status = Active, expires_at = 900000000, released_at = None, sr_created_at = 0\<rparr>"

definition demo_history :: "uuid \<Rightarrow> order_status option \<Rightarrow> order_status \<Rightarrow> string \<Rightarrow> history_row" where
  "demo_history hid frm to why = \<lparr>h_id = hid, h_order_id = 101, from_status = frm, to_status = to,
     reason = Some why, occurred_at = 0\<rparr>"

definition demo_db1 :: db where
  "demo_db1 = demo_db
     \<lparr>idempotency_keys := [fresh_key_row ''k1'' demo_hash demo_db],
      orders := [demo_order],
      order_status_history := [demo_history 102 None Pending ''order created'',
                               demo_history 107 (Some Pending) Reserved ''stock reserved''],
      order_items := [demo_line 103 11 ''SKU-2'' 300 1, demo_line 104 10 ''SKU-1'' 1250 2],
      inventory := [(demo_stock 30 20 10 5)\<lparr>reserved := 2\<rparr>, (demo_stock 31 20 11 3)\<lparr>reserved := 1\<rparr>,
                    demo_stock 32 21 10 10],
      stock_reservations := [demo_hold 105 10 2, demo_hold 106 11 1],
      payments := [demo_payment],
      uuid_pos := 9\<rparr>"

lemmas demo_rows = demo_order_def demo_payment_def demo_line_def demo_hold_def demo_history_def

text \<open>Step by step, with the state between the steps.\<close>

lemma select_warehouse_frame:
  assumes "products d' = products d" "inventory d' = inventory d" "warehouses d' = warehouses d"
  shows "select_warehouse g pg addr items d' = select_warehouse g pg addr items d"
proof -
  have "existing_ids ids d' = existing_ids ids d" for ids by (simp add: existing_ids_def assms)
  moreover have "select_best pg pt items d' = select_best pg pt items d" for pt
    by (simp add: select_best_def eligible_def assms)
  moreover have "count_products_stocked_anywhere ids d' = count_products_stocked_anywhere ids d" for ids
    by (simp add: count_products_stocked_anywhere_def assms)
  ultimately show ?thesis by (simp only: select_warehouse_def)
qed

definition demo_ps :: "uuid \<rightharpoonup> product_row" where
  "demo_ps = get_by_ids (set (map product_id demo_items)) demo_db"

lemma demo_ps_simps [simp]:
  "demo_ps 10 = Some (demo_product 10 ''SKU-1'' 1250)"
  "demo_ps 11 = Some (demo_product 11 ''SKU-2'' 300)"
  by (simp_all add: demo_ps_def get_by_ids_def demo_defs)

definition demo_a :: db where
  "demo_a = demo_db\<lparr>idempotency_keys := [fresh_key_row ''k1'' demo_hash demo_db], uuid_pos := 1\<rparr>"

definition demo_b :: db where
  "demo_b = demo_a\<lparr>orders := [demo_order\<lparr>o_status := Pending\<rparr>],
     order_status_history := [demo_history 102 None Pending ''order created''], uuid_pos := 3\<rparr>"

definition demo_c :: db where
  "demo_c = demo_b\<lparr>order_items := [demo_line 103 11 ''SKU-2'' 300 1, demo_line 104 10 ''SKU-1'' 1250 2],
     uuid_pos := 5\<rparr>"

definition demo_d :: db where
  "demo_d = demo_c\<lparr>inventory := inventory demo_db1, stock_reservations := stock_reservations demo_db1,
     uuid_pos := 7\<rparr>"

lemma demo_basket:
  "basket_currencies demo_ps demo_items = [''EUR'']" "fold_r (add_price demo_ps) demo_items 0 = Inr 2800"
  by (simp_all add: basket_currencies_def map_filter_def add_price_def demo_items_def demo_product_def)

lemma demo_create_order:
  "create_order 1 20 demo_address (1, 0) ''EUR'' 2800 demo_a = Inr (demo_order\<lparr>o_status := Pending\<rparr>, demo_b)"
  by (simp add: create_order_def insert_history_def gen_random_uuid_def Let_def insert_row_def
      check_row_def violated_def conflict_def order_spec_def history_spec_def new_order_def
      demo_order_def demo_b_def demo_a_def demo_defs demo_history_def fits_int8_def fits_text_def
      currency_format_def country_code_format_def upper_ascii_def ustr_def)

lemma demo_add_items:
  "add_items 101 demo_ps [(11, 1), (10, 2)] demo_b = Inr demo_c"
  by (simp add: add_items_def add_item_def gen_random_uuid_def insert_row_def check_row_def
      violated_def conflict_def order_item_spec_def line_total_minor_def fits_int4_def fits_int8_def
      currency_format_def upper_ascii_def demo_c_def demo_b_def demo_a_def demo_db_def demo_line_def
      demo_product_def demo_order_def new_order_def)

lemma demo_lock_order: "lock_order demo_items 20 = [\<lparr>product_id = 10, quantity = 2\<rparr>, \<lparr>product_id = 11, quantity = 1\<rparr>]"
  by (simp add: lock_order_def demo_items_def)

lemma demo_reserve:
  "reserve_stock 900 101 20 demo_items demo_c =
     Inr (\<lparr>res_warehouse_id = 20, res_items = [\<lparr>res_product_id = 10, res_quantity = 2\<rparr>,
            \<lparr>res_product_id = 11, res_quantity = 1\<rparr>]\<rparr>, demo_d)"
  by (simp add: reserve_stock_def demo_lock_order reserve_one_def update_rows_def Let_def
      insert_reservation_def gen_random_uuid_def insert_row_def check_row_def violated_def conflict_def
      inventory_spec_def reservation_spec_def fits_int4_def seconds_def
      demo_d_def demo_c_def demo_b_def demo_a_def demo_db1_def demo_db_def demo_stock_def demo_hold_def
      demo_product_def demo_warehouse_def demo_order_def new_order_def)

lemma demo_transition:
  "transition 101 Pending Reserved (Some ''stock reserved'') demo_d =
     Inr (demo_db1\<lparr>payments := [], uuid_pos := 8\<rparr>)"
  by (simp add: transition_def update_rows_def Let_def insert_history_def gen_random_uuid_def
      insert_row_def check_row_def violated_def conflict_def order_spec_def history_spec_def
      demo_d_def demo_c_def demo_b_def demo_a_def demo_db1_def demo_history_def
      demo_defs demo_order_def new_order_def
      fits_int8_def fits_text_def currency_format_def country_code_format_def upper_ascii_def ustr_def)

lemma demo_create:
  "create_in_transaction demo_env 1 demo_address demo_items (1, 0) demo_a =
     Inr (demo_order, demo_db1\<lparr>payments := [], uuid_pos := 8\<rparr>)"
proof -
  have sel: "select_warehouse (env_geocode demo_env) (env_pg demo_env) demo_address demo_items demo_a =
      Inr \<lparr>cand_id = 20, cand_code = ''MAD-01'', cand_name = ''MAD-01'', distance_m = 1\<rparr>"
    using demo_select select_warehouse_frame [of demo_a demo_db] by (simp add: demo_a_def)
  have ps: "get_by_ids (set (map product_id demo_items)) demo_a = demo_ps"
    by (simp add: demo_ps_def get_by_ids_def demo_a_def)
  have ids: "map (\<lambda>i. (product_id i, quantity i)) demo_items = [(11, 1), (10, 2)]"
    "o_id (demo_order\<lparr>o_status := Pending\<rparr>) = 101" "reservation_ttl_seconds demo_env = 900"
    by (simp_all add: demo_items_def demo_order_def new_order_def demo_env_def)
  have ord: "demo_order\<lparr>o_status := Pending, o_status := Reserved, o_updated_at := db_now demo_d\<rparr> = demo_order"
    by (simp add: demo_order_def new_order_def demo_d_def demo_c_def demo_b_def demo_a_def demo_db_def)
  show ?thesis
    unfolding create_in_transaction_def create_from_reads_def sel ps Let_def demo_basket
    using demo_create_order demo_add_items demo_reserve demo_transition ord
    by (simp add: ids demo_basket)
qed

lemma demo_pending:
  "create_pending 101 2800 ''EUR'' (''Order '' @ uuid_str 101) ''mock'' (demo_db1\<lparr>payments := [], uuid_pos := 8\<rparr>) =
     Inr (demo_payment, demo_db1)"
  by (simp add: create_pending_def gen_random_uuid_def insert_row_def check_row_def violated_def
      conflict_def payment_spec_def demo_payment_def demo_db1_def demo_db_def new_payment_def Let_def
      fits_int8_def currency_format_def upper_ascii_def demo_order_def new_order_def)

lemma demo_tx1:
  "checkout_tx1 demo_env demo_request (1, 0) demo_db = Inr ((demo_order, demo_payment), demo_db1)"
proof -
  have "o_id demo_order = 101" "o_total_minor demo_order = 2800" "o_currency demo_order = ''EUR''"
    by (simp_all add: demo_order_def new_order_def)
  then show ?thesis
    using demo_claim demo_create demo_pending
    by (simp add: checkout_tx1_def demo_request_def demo_a_def)
qed

text \<open>The provider's answer to the demo card, and what the two settlements leave behind.\<close>

definition demo_result :: payment_result where
  "demo_result = mock_outcome (ustr ''4242 4242 4242 4242'') (uuid_str 101)"

definition demo_refusal :: payment_result where
  "demo_refusal = mock_outcome (ustr ''4000 0000 0000 0002'') (uuid_str 101)"

lemma demo_result_simps:
  "outcome demo_result = Outcome_succeeded" "card_last4 demo_result = Some (ustr ''4242'')"
  "failure_reason demo_result = None" "card_brand demo_result = Some ''visa''"
  by (simp_all add: demo_result_def mock_outcome_def card_digits_def last4_of_def card_brand_of_def
      ustr_def Let_def)

lemma demo_refusal_simps:
  "outcome demo_refusal = Outcome_declined" "card_last4 demo_refusal = Some (ustr ''0002'')"
  "failure_reason demo_refusal = Some ''card declined''" "reference demo_refusal = None"
  by (simp_all add: demo_refusal_def mock_outcome_def card_digits_def last4_of_def card_brand_of_def
      ustr_def Let_def)

lemma demo_ref: "\<exists>r. reference demo_result = Some r"
  using demo_result_simps(1) by (auto simp: demo_result_def mock_outcome_simps)

lemma demo_complete: "\<exists>body d'. complete demo_order 108 demo_result ''k1'' demo_db1 = Inr (body, d')"
proof -
  obtain r where "reference demo_result = Some r" using demo_ref ..
  then show ?thesis
    by (simp add: complete_def mark_succeeded_def update_payment_def update_rows_def Let_def
        demo_result_simps transition_def insert_history_def gen_random_uuid_def insert_row_def
        check_row_def violated_def conflict_def payment_spec_def order_spec_def history_spec_def
        settle_for_order_def reservation_spec_def stop_holding_def add_event_def outbox_spec_def
        render_def get_for_response_def settle_completed_def idempotency_spec_def
        demo_db1_def demo_rows demo_defs new_order_def new_payment_def demo_history_def
        fresh_key_row_def demo_hash_def card_last4_format_def
        fits_int8_def fits_int4_def fits_text_def currency_format_def country_code_format_def
        upper_ascii_def ustr_def)
qed

text \<open>The shop satisfies what the theorems ask of a database.\<close>

lemma demo_inventory_ok: "table_ok (inventory_spec demo_db) (inventory demo_db)"
  by (simp add: table_ok_def conflict_free_def inventory_spec_def row_ok_def demo_db_def demo_stock_def
      demo_product_def demo_warehouse_def fits_int4_def)

lemma demo_ledger: "ledger_ok demo_db"
  using demo_inventory_ok
  by (simp add: ledger_ok_def) (simp add: table_ok_def conflict_free_def demo_db_def)

lemma demo_products_ok: "table_ok product_spec (products demo_db)"
  by (simp add: table_ok_def conflict_free_def product_spec_def row_ok_def demo_db_def demo_product_def
      fits_int8_def currency_format_def upper_ascii_def)

lemma demo_fresh: "uuids_fresh demo_db"
  by (auto simp: uuids_fresh_def used_ids_def demo_db_def demo_product_def demo_warehouse_def
      demo_stock_def inj_def)

lemma demo_keys_ok: "table_ok (idempotency_spec demo_db) (idempotency_keys demo_db)"
  by (simp add: table_ok_def conflict_free_def demo_db_def)

lemma demo_orders_ok: "table_ok (order_spec demo_db) (orders demo_db)"
  by (simp add: table_ok_def conflict_free_def demo_db_def)

lemma demo_distinct: "distinct (map product_id demo_items)"
  by (simp add: demo_items_def)

lemma demo_able: "able demo_db demo_items = [demo_warehouse 20 ''MAD-01'' (0, 0)]"
  by (simp add: able_def supplies_def stocked_def demo_db_def demo_items_def demo_warehouse_def
      demo_stock_def)

text \<open>And so does the state after the first transaction.\<close>

lemma demo_ledger1: "ledger_ok demo_db1"
  by (rule checkout_tx1_effect(11) [OF demo_tx1 demo_ledger])
    (simp add: demo_request_def demo_distinct)

lemma demo_dist1: "distinct (map o_id (orders demo_db1))"
  by (simp add: demo_db1_def)

lemma demo_ledger_c: "ledger_ok demo_c"
  using demo_inventory_ok
  by (simp add: ledger_ok_def) (simp add: table_ok_def conflict_free_def demo_c_def demo_b_def
      demo_a_def demo_db_def inventory_spec_def)

lemma demo_fresh_c: "uuids_fresh demo_c"
  by (auto simp: uuids_fresh_def used_ids_def demo_c_def demo_b_def demo_a_def demo_db_def
      demo_product_def demo_warehouse_def demo_stock_def demo_line_def demo_history_def demo_order_def
      new_order_def inj_def)

lemma demo_orders_ok1: "table_ok (order_spec demo_db1) (orders demo_db1)"
  by (simp add: table_ok_def conflict_free_def order_row_ok demo_db1_def demo_order_def new_order_def
      demo_db_def demo_address_def demo_warehouse_def fits_int8_def fits_text_def currency_format_def
      country_code_format_def upper_ascii_def ustr_def)

lemma demo_fresh1: "uuids_fresh demo_db1"
  by (auto simp: uuids_fresh_def used_ids_def demo_db1_def demo_db_def demo_product_def
      demo_warehouse_def demo_stock_def demo_rows new_order_def new_payment_def fresh_key_row_def inj_def)

text \<open>The same state after every hold has expired.\<close>

definition demo_late :: db where
  "demo_late = demo_db1\<lparr>db_now := 900000001\<rparr>"

lemma demo_ledger_late: "ledger_ok demo_late"
  using demo_ledger1 by (simp add: demo_late_def ledger_ok_iff held_def reserved_at_def)

lemma demo_orderable: "orderable demo_env 1 demo_address demo_items demo_db"
  by (simp add: orderable_def demo_able demo_distinct)
    (simp add: demo_defs to_point_def basket_total_def get_by_ids_def fits_int8_def fits_text_def
      country_code_format_def upper_ascii_def ustr_def)

end
