(* ===== verification/Stock_Properties.thy ===== *)
theory Stock_Properties
  imports Jobs Stocking Demo
begin

text \<open>
  What \<^verbatim>\<open>app/repositories/reservation.py\<close> and the sweeper promise their callers, each with
  the demo shop as an instance.
\<close>

section \<open>The ledger under every interleaving\<close>

definition run_stock_calls :: "stock_call list \<Rightarrow> db \<Rightarrow> db" where
  "run_stock_calls calls d = fold (\<lambda>c d. snd (in_transaction (run_stock_call c) d)) calls d"

text \<open>
  whatever sequence of reservations, releases, commits and sweeps is run, each in its own
  transaction and some of them failing, the inventory and reservation tables keep all their
  constraints, no row is oversold, and the units reserved without a reservation that accounts for
  them stay the same at every warehouse and product.
\<close>

theorem stock_calls_keep_ledger:
  assumes "ledger_ok d"
  shows "ledger_ok (run_stock_calls calls d) \<and> inventory_bounds (run_stock_calls calls d) \<and>
    (\<forall>w p. unattributed (run_stock_calls calls d) w p = unattributed d w p)"
proof -
  have "ledger_ok (run_stock_calls calls d)"
    unfolding run_stock_calls_def by (rule stock.transactions_keep_ledger [OF assms])
  then show ?thesis
    using stock.transactions_conserve [OF assms] table_ok_bounds
    by (auto simp: run_stock_calls_def ledger_ok_iff)
qed

theorem stock_calls_keep_ledger_witness:
  "ledger_ok (run_stock_calls [Reserve 900 101 20 demo_items, Release 101, Sweep 10] demo_db)"
  using stock_calls_keep_ledger [OF demo_ledger] by blast

section \<open>Reserving\<close>

text \<open>
  C18: reserving is all or nothing. When \<^verbatim>\<open>reserve_stock\<close> raises, its transaction leaves the
  database as it was; when it returns, every requested quantity has been added to its inventory
  row's counter and to nothing else, and there is one new active reservation per item, in lock
  order, expiring after the configured time to live.
\<close>

theorem reserve_all_or_nothing:
  assumes "in_transaction (reserve_stock ttl oid wid items) d = (r, d')" and "ledger_ok d"
  shows "case r of
      Inl _ \<Rightarrow> d' = d
    | Inr _ \<Rightarrow> ledger_ok d' \<and> only_stock d d' \<and>
        (\<forall>w p. reserved_at d' w p =
           reserved_at d w p + (if w = wid then requested_units items p else 0)) \<and>
        (\<exists>new. stock_reservations d' = stock_reservations d @ new \<and>
           map reservation_content new =
             map (\<lambda>i. (oid, wid, product_id i, quantity i, Active, db_now d + seconds ttl))
               (lock_order items wid))"
proof (cases r)
  case (Inl e)
  with assms(1) show ?thesis by (auto simp: in_transaction_def split: sum.splits)
next
  case (Inr res)
  with assms(1) have "reserve_stock ttl oid wid items d = Inr (res, d')"
    by (auto simp: in_transaction_def split: sum.splits)
  from reserve_stock_effect [OF this assms(2)] Inr show ?thesis by simp
qed

theorem reserve_all_or_nothing_witness:
  "reserved_at demo_d 20 10 = reserved_at demo_c 20 10 + requested_units demo_items 10"
  using reserve_all_or_nothing [of 900 101 20 demo_items demo_c _ demo_d, OF _ demo_ledger_c]
    demo_reserve
  by (simp add: in_transaction_def)

text \<open>
  a refusal is honest. When \<^verbatim>\<open>reserve_stock\<close> raises a domain error for a basket of
  distinct products, the error names an item with the quantity asked for, that item is not in
  stock in that quantity, and every item before it in the global lock order is.
\<close>

theorem reserve_refusal_names_first_missing:
  assumes "reserve_stock ttl oid wid items d = Inl (DomainError e)"
    and "distinct (map product_id items)"
  shows "\<exists>ys it zs. lock_order items wid = ys @ it # zs \<and>
    e = InsufficientStock (product_id it) (quantity it) \<and>
    \<not> stocked d wid (product_id it) (quantity it) \<and>
    (\<forall>y \<in> set ys. stocked d wid (product_id y) (quantity y) \<and> product_id y \<le> product_id it)"
proof -
  from assms(1) have "fold_r (reserve_one ttl oid wid) (lock_order items wid) d = Inl (DomainError e)"
    by (auto simp: reserve_stock_def bind_r_def split: sum.splits)
  from reserve_loop_refused [OF this distinct_lock_order [OF assms(2)]]
  obtain ys it zs where s: "lock_order items wid = ys @ it # zs"
    and *: "e = InsufficientStock (product_id it) (quantity it)"
      "\<not> stocked d wid (product_id it) (quantity it)"
      "\<forall>y \<in> set ys. stocked d wid (product_id y) (quantity y)"
    by blast
  have "sorted (map product_id (ys @ it # zs))" using lock_order_sorted [of items wid] s by simp
  then have "\<forall>y \<in> set ys. product_id y \<le> product_id it" by (simp add: sorted_append)
  with s * show ?thesis by blast
qed

lemma demo_too_many:
  "reserve_stock 900 101 20 [\<lparr>product_id = 10, quantity = 9\<rparr>] demo_c =
     Inl (DomainError (InsufficientStock 10 9))"
  by (simp add: reserve_stock_def lock_order_def reserve_one_def update_rows_def Let_def
      fits_int4_def demo_c_def demo_b_def demo_a_def demo_db_def demo_stock_def)

theorem reserve_refusal_names_first_missing_witness: "\<not> stocked demo_c 20 10 9"
  using reserve_refusal_names_first_missing [OF demo_too_many] by (auto simp: lock_order_def)

text \<open>
  enough stock is enough, and is needed. For an order that exists and holds nothing of these
  products at this warehouse, \<^verbatim>\<open>reserve_stock\<close> returns exactly when every requested item is
  in stock there.
\<close>

theorem reserve_succeeds_iff_stocked:
  assumes "ledger_ok d" and "uuids_fresh d" and "oid \<in> o_id ` set (orders d)"
    and "distinct (map product_id items)"
    and "\<forall>it \<in> set items. 0 < quantity it \<and> no_reservation d oid wid (product_id it)"
  shows "(\<exists>res d'. reserve_stock ttl oid wid items d = Inr (res, d')) \<longleftrightarrow> supplies d wid items"
proof
  assume "\<exists>res d'. reserve_stock ttl oid wid items d = Inr (res, d')"
  then obtain d' where l: "fold_r (reserve_one ttl oid wid) (lock_order items wid) d = Inr d'"
    by (auto simp: reserve_stock_def bind_r_Inr)
  have "\<forall>it \<in> set (lock_order items wid). stocked d wid (product_id it) (quantity it)"
    by (rule reserve_loop_stocked [OF l distinct_lock_order [OF assms(4)]])
  then show "supplies d wid items" by (simp add: supplies_def list_all_iff)
next
  assume "supplies d wid items"
  with assms show "\<exists>res d'. reserve_stock ttl oid wid items d = Inr (res, d')"
    using reserve_stock_succeeds [OF assms(1-4), of wid ttl]
    unfolding supplies_def list_all_iff by blast
qed

lemma demo_c_stocked: "supplies demo_c 20 demo_items"
  by (simp add: supplies_def stocked_def demo_items_def demo_c_def demo_b_def demo_a_def demo_db_def
      demo_stock_def)

theorem reserve_succeeds_iff_stocked_witness:
  "\<exists>res d'. reserve_stock 900 101 20 demo_items demo_c = Inr (res, d')"
  using reserve_succeeds_iff_stocked [OF demo_ledger_c demo_fresh_c, of 101 demo_items 20 900]
    demo_c_stocked
  by (simp add: demo_distinct demo_c_def demo_b_def demo_order_def new_order_def demo_items_def
      no_reservation_def demo_a_def demo_db_def)

section \<open>Releasing\<close>

lemma reserved_rows_active:
  assumes "map reservation_content new = map (\<lambda>i. (oid, wid, product_id i, quantity i, Active, t)) items"
  shows "filter (\<lambda>r. sr_order_id r = oid \<and> sr_status r = Active) new = new"
proof -
  have "reservation_content r \<in> set (map (\<lambda>i. (oid, wid, product_id i, quantity i, Active, t)) items)"
    if "r \<in> set new" for r
    using that unfolding assms [symmetric] by simp
  then have "\<forall>r \<in> set new. sr_order_id r = oid \<and> sr_status r = Active"
    by (fastforce simp: reservation_content_def)
  then show ?thesis by (simp add: filter_id_conv)
qed

lemma released_of_content:
  "map reservation_content new = map (\<lambda>i. (oid, wid, product_id i, quantity i, Active, t)) items \<Longrightarrow>
   map released_of new = map (\<lambda>i. \<lparr>rel_warehouse_id = wid, rel_product_id = product_id i,
     rel_quantity = quantity i\<rparr>) items"
proof (induction new arbitrary: items)
  case (Cons r new)
  then show ?case by (cases items) (auto simp: reservation_content_def released_of_def)
qed simp

lemma released_requested:
  "released_units (map (\<lambda>i. \<lparr>rel_warehouse_id = wid, rel_product_id = product_id i,
       rel_quantity = quantity i\<rparr>) (lock_order items wid)) w p =
     (if w = wid then requested_units items p else 0)"
proof -
  have "released_units (map (\<lambda>i. \<lparr>rel_warehouse_id = wid, rel_product_id = product_id i,
       rel_quantity = quantity i\<rparr>) xs) w p = (if w = wid then requested_units xs p else 0)" for xs
    by (induction xs) (auto simp: released_units_def requested_units_def sum_where_def)
  then show ?thesis using requested_units_mset [of "lock_order items wid" items] by simp
qed

lemma none_active_after:
  assumes "st \<noteq> Active"
  shows "\<forall>r \<in> set (upd (\<lambda>r. sr_order_id r = oid \<and> sr_status r = Active) (stop_holding st t) rows).
    sr_order_id r = oid \<longrightarrow> sr_status r \<noteq> Active"
proof
  fix r assume "r \<in> set (upd (\<lambda>r. sr_order_id r = oid \<and> sr_status r = Active) (stop_holding st t) rows)"
  then obtain x where "r = (if sr_order_id x = oid \<and> sr_status x = Active then stop_holding st t x else x)"
    unfolding set_upd by blast
  then show "sr_order_id r = oid \<longrightarrow> sr_status r \<noteq> Active"
    using assms by (cases "sr_order_id x = oid \<and> sr_status x = Active") simp_all
qed

lemma release_nothing:
  assumes "\<forall>r \<in> set (stock_reservations d). sr_order_id r = oid \<longrightarrow> sr_status r \<noteq> Active"
  shows "release_reservation oid d = Inr ([], d)"
proof -
  have none: "filter (\<lambda>r. sr_order_id r = oid \<and> sr_status r = Active) (stock_reservations d) = []"
    using assms by (auto simp: filter_empty_conv)
  then have "upd (\<lambda>r. sr_order_id r = oid \<and> sr_status r = Active) (stop_holding Released (db_now d))
      (stock_reservations d) = stock_reservations d"
    by (simp add: upd_none filter_empty_conv)
  with none have "update_rows (reservation_spec d) (\<lambda>r. sr_order_id r = oid \<and> sr_status r = Active)
      (stop_holding Released (db_now d)) (stock_reservations d) = Inr ([], stock_reservations d)"
    by (simp only: update_rows_Inr) simp
  then show ?thesis by (simp add: release_reservation_def settle_def Let_def)
qed

text \<open>
  C19: releasing undoes reserving. For an order that held nothing active, a reservation followed by
  its release returns the released quantities, puts every counter back where it was, and leaves no
  active reservation of the order; a second release finds nothing and changes nothing.
\<close>

theorem reserve_release_round_trip:
  assumes "reserve_stock ttl oid wid items d = Inr (res, d1)" and "ledger_ok d"
    and "\<forall>r \<in> set (stock_reservations d). sr_order_id r = oid \<longrightarrow> sr_status r \<noteq> Active"
  shows "\<exists>rel d2. release_reservation oid d1 = Inr (rel, d2) \<and>
    rel = map (\<lambda>i. \<lparr>rel_warehouse_id = wid, rel_product_id = product_id i, rel_quantity = quantity i\<rparr>)
            (lock_order items wid) \<and>
    (\<forall>w p. reserved_at d2 w p = reserved_at d w p) \<and> (\<forall>w p. held d2 w p = held d w p) \<and>
    map on_hand (inventory d2) = map on_hand (inventory d) \<and>
    release_reservation oid d2 = Inr ([], d2)"
proof -
  note e1 = reserve_stock_effect [OF assms(1,2)]
  obtain new where new: "stock_reservations d1 = stock_reservations d @ new"
    "map reservation_content new = map (\<lambda>i. (oid, wid, product_id i, quantity i, Active, db_now d + seconds ttl))
       (lock_order items wid)"
    using e1(5) by blast
  obtain rel d2 where r: "release_reservation oid d1 = Inr (rel, d2)"
    using release_succeeds [OF e1(1)] by blast
  note e2 = release_effect [OF r e1(1)]
  have act: "filter (\<lambda>r. sr_order_id r = oid \<and> sr_status r = Active) (stock_reservations d1) = new"
    using assms(3) reserved_rows_active [OF new(2)] by (simp add: new(1) filter_empty_conv)
  have rel: "rel = map (\<lambda>i. \<lparr>rel_warehouse_id = wid, rel_product_id = product_id i,
      rel_quantity = quantity i\<rparr>) (lock_order items wid)"
    unfolding e2(1) act by (rule released_of_content [OF new(2)])
  have units: "released_units rel w p = (if w = wid then requested_units items p else 0)" for w p
    unfolding rel by (rule released_requested)
  have counters: "reserved_at d2 w p = reserved_at d w p" for w p
    using e1(3) [of w p] e2(6) [of w p] units [of w p] by simp
  have "held d2 w p = held d w p" for w p
    using e1(4) [of w p] e2(7) [of w p] counters [of w p] by (simp add: unattributed_def)
  moreover have "map on_hand (inventory d2) = map on_hand (inventory d)"
    using only_stock_frame(14) [OF e1(2)] only_stock_frame(14) [OF e2(4)] by simp
  moreover have "release_reservation oid d2 = Inr ([], d2)"
    by (rule release_nothing) (unfold e2(2), rule none_active_after, simp)
  ultimately show ?thesis using r rel counters by blast
qed

theorem reserve_release_round_trip_witness:
  "\<exists>rel d2. release_reservation 101 demo_d = Inr (rel, d2) \<and> reserved_at d2 20 10 = reserved_at demo_c 20 10"
  using reserve_release_round_trip [OF demo_reserve demo_ledger_c]
  by (fastforce simp: demo_c_def demo_b_def demo_a_def demo_db_def)

section \<open>Expiry\<close>

lemma overdue_by_id:
  assumes "distinct (map sr_id (stock_reservations d))" and "r \<in> set (stock_reservations d)"
    and "s \<in> set (overdue d)" and "sr_id r = sr_id s"
  shows "r = s"
  using assms by (auto simp: overdue_def distinct_map inj_on_def)

lemma expired_before_rest:
  assumes dist: "distinct (map sr_id (stock_reservations d))"
    and "r \<in> set (overdue d)" "s \<in> set (overdue d)"
    and "sr_id r \<in> set (expired_ids batch d)" "sr_id s \<notin> set (expired_ids batch d)"
  shows "expires_at r \<le> expires_at s"
proof -
  let ?q = "sort_key expires_at (overdue d)"
  from assms(4) obtain r' where r': "r' \<in> set (take batch ?q)" "sr_id r = sr_id r'"
    by (auto simp: expired_ids_alt)
  then have "r' \<in> set (overdue d)" by (auto dest: in_set_takeD)
  from overdue_by_id [OF dist _ this r'(2)] assms(2) have "r = r'" by (simp add: overdue_def)
  moreover have "s \<in> set (drop batch ?q)"
  proof -
    have "s \<notin> set (take batch ?q)" using assms(5) by (auto simp: expired_ids_alt)
    moreover have "s \<in> set (take batch ?q @ drop batch ?q)"
      unfolding append_take_drop_id using assms(3) by simp
    ultimately show ?thesis unfolding set_append by blast
  qed
  ultimately show ?thesis using take_sorted_prefix [OF r'(1), of s] by simp
qed

lemma swept_row_image:
  assumes dist: "distinct (map sr_id (stock_reservations d))" and r: "r \<in> set (stock_reservations d)"
  shows "(if sr_id r \<in> set (expired_ids batch d) then stop_holding Expired t r else r)
    \<in> set (upd (\<lambda>r. sr_status r = Active \<and> sr_id r \<in> set (expired_ids batch d))
         (stop_holding Expired t) (stock_reservations d))"
proof -
  have "sr_status r = Active" if m: "sr_id r \<in> set (expired_ids batch d)"
  proof -
    obtain s where "s \<in> set (overdue d)" "sr_id r = sr_id s" using m expired_ids_sub [of batch d] by auto
    with overdue_by_id [OF dist r] show ?thesis by (auto simp: overdue_def)
  qed
  with r show ?thesis unfolding set_upd by fastforce
qed

text \<open>
  one round of the sweeper always succeeds on a consistent ledger and takes exactly what it is
  for. It expires as many overdue reservations as the batch allows, no reservation it left behind
  expired before one it took, every other reservation and every order is untouched, and the units
  go back to the counters.
\<close>

theorem sweep_takes_the_oldest_overdue:
  assumes "ledger_ok d"
  shows "\<exists>d'. sweep_once batch d = (Inr (min batch (length (overdue d))), d') \<and> ledger_ok d' \<and>
    length (expired_ids batch d) = min batch (length (overdue d)) \<and>
    (\<forall>r \<in> set (overdue d). \<forall>s \<in> set (overdue d).
       sr_id r \<in> set (expired_ids batch d) \<and> sr_id s \<notin> set (expired_ids batch d) \<longrightarrow>
         expires_at r \<le> expires_at s) \<and>
    (\<forall>r \<in> set (stock_reservations d).
       (if sr_id r \<in> set (expired_ids batch d) then stop_holding Expired (db_now d) r else r)
         \<in> set (stock_reservations d')) \<and>
    orders d' = orders d \<and> (\<forall>w p. unattributed d' w p = unattributed d w p)"
proof -
  obtain d' where e: "sweep_once batch d = (Inr (min batch (length (overdue d))), d')" "ledger_ok d'"
    "stock_reservations d' = upd (\<lambda>r. sr_status r = Active \<and> sr_id r \<in> set (expired_ids batch d))
        (stop_holding Expired (db_now d)) (stock_reservations d)"
    "only_stock d d'" "\<forall>w p. unattributed d' w p = unattributed d w p"
    using sweep_once_effect [OF assms] by blast
  have dist: "distinct (map sr_id (stock_reservations d))"
    using assms by (intro reservation_ids_distinct) (simp add: ledger_ok_iff)
  have "expires_at r \<le> expires_at s" if "r \<in> set (overdue d)" "s \<in> set (overdue d)"
    "sr_id r \<in> set (expired_ids batch d)" "sr_id s \<notin> set (expired_ids batch d)" for r s
    by (rule expired_before_rest [OF dist that])
  moreover have "(if sr_id r \<in> set (expired_ids batch d) then stop_holding Expired (db_now d) r else r)
      \<in> set (stock_reservations d')" if "r \<in> set (stock_reservations d)" for r
    unfolding e(3) by (rule swept_row_image [OF dist that])
  ultimately show ?thesis
    using e(1,2,5) only_stock_frame(5) [OF e(4)] expired_ids_length by blast
qed

lemma demo_overdue: "overdue demo_late = [demo_hold 105 10 2, demo_hold 106 11 1]"
  by (simp add: overdue_def demo_late_def demo_db1_def demo_hold_def)

theorem sweep_takes_the_oldest_overdue_witness: "\<exists>d'. sweep_once 1 demo_late = (Inr 1, d')"
  using sweep_takes_the_oldest_overdue [OF demo_ledger_late, of 1] by (auto simp: demo_overdue)

text \<open>
  C20: the drain loop of the sweeper ends, however the clock moves between its rounds and whatever
  the (positive) batch size. The total it prints is the number of reservations it has expired, the
  ledger is consistent, and nothing was overdue at the time of its last round.
\<close>

theorem sweep_main_terminates:
  assumes "ledger_ok d" and "0 < batch"
  shows "\<exists>n d' k. sweep_main clock batch 0 0 d = Some (Inr n, d') \<and> ledger_ok d' \<and>
    active_count d' + n = active_count d \<and> db_now d' = clock k \<and> overdue d' = []"
  using sweep_main_ends [OF assms, of clock 0 0] by simp

theorem sweep_main_terminates_witness:
  "\<exists>n d'. sweep_main (\<lambda>k. 900000001 + int k) 500 0 0 demo_late = Some (Inr n, d') \<and> overdue d' = []"
  using sweep_main_terminates [OF demo_ledger_late, of 500 "\<lambda>k. 900000001 + int k"] by auto

section \<open>Selling\<close>

text \<open>
  confirming an order turns its holds into a sale. \<^verbatim>\<open>settle_for_order\<close> with
  \<^verbatim>\<open>committed\<close> always succeeds on a consistent ledger, gives nothing back to the inventory,
  keeps every hold accounted for, leaves the order nothing active, and from then on neither a
  release of that order nor a sweep can return those units.
\<close>

theorem commit_is_final:
  assumes "ledger_ok d"
  shows "\<exists>d'. settle_for_order oid Committed d = Inr d' \<and> ledger_ok d' \<and> inventory d' = inventory d \<and>
    (\<forall>w p. held d' w p = held d w p) \<and> release_reservation oid d' = Inr ([], d') \<and>
    (\<forall>r \<in> set (stock_reservations d'). sr_order_id r = oid \<longrightarrow> r \<notin> set (overdue d'))"
proof -
  let ?d = "d\<lparr>stock_reservations := upd (\<lambda>r. sr_order_id r = oid \<and> sr_status r = Active)
      (stop_holding Committed (db_now d)) (stock_reservations d)\<rparr>"
  have s: "settle_for_order oid Committed d = Inr ?d" by (rule settle_for_order_succeeds [OF assms])
  have none: "\<forall>r \<in> set (stock_reservations ?d). sr_order_id r = oid \<longrightarrow> sr_status r \<noteq> Active"
    using none_active_after [of Committed oid "db_now d" "stock_reservations d"] by simp
  moreover from this have "\<forall>r \<in> set (stock_reservations ?d). sr_order_id r = oid \<longrightarrow> r \<notin> set (overdue ?d)"
    by (auto simp only: overdue_def set_filter mem_Collect_eq)
  ultimately show ?thesis
    using s commit_effect [OF s assms] release_nothing [OF none] by blast
qed

theorem commit_is_final_witness:
  "\<exists>d'. settle_for_order 101 Committed demo_d = Inr d' \<and> inventory d' = inventory demo_d"
proof -
  have "ledger_ok demo_d" using reserve_stock_effect(1) [OF demo_reserve demo_ledger_c] .
  from commit_is_final [OF this, of 101] show ?thesis by fastforce
qed

end
