(* ===== verification/Order_Properties.thy ===== *)
theory Order_Properties
  imports Availability Demo
begin

text \<open>
  What the order state machine, warehouse selection and order creation promise, with the demo shop
  as an instance.
\<close>

section \<open>Transitions\<close>

lemma transition_missing:
  assumes "is_allowed frm to" and "List.find (\<lambda>r. o_id r = oid) (orders d) = None"
  shows "transition oid frm to why d =
    Inl (DomainError (InvalidStateTransition oid (order_status_value to) ''missing''))"
proof -
  have "filter (\<lambda>r. o_id r = oid \<and> o_status r = frm) (orders d) = []"
    using assms(2) by (auto simp: find_None_iff filter_empty_conv)
  with assms show ?thesis by (simp add: transition_def update_rows_def)
qed

text \<open>
  C23: \<^verbatim>\<open>OrderRepository.transition\<close> is decided by the edge table and the stored status. An edge
  that is not in the table is refused without looking; otherwise a missing order and an order in
  another status are refused with what was really found; and otherwise the move succeeds, changing
  that order's status and appending one history row.
\<close>

theorem transition_decides:
  assumes "table_ok (order_spec d) (orders d)" and "uuids_fresh d"
    and "\<forall>r \<in> set (orders d). o_id r = oid \<longrightarrow> o_warehouse_id r \<noteq> None \<and> o_shipping_point r \<noteq> None"
  shows "transition oid frm to why d =
    (let refuse = (\<lambda>actual. Inl (DomainError (InvalidStateTransition oid (order_status_value to) actual))) in
     if \<not> is_allowed frm to then refuse (order_status_value frm)
     else case List.find (\<lambda>r. o_id r = oid) (orders d) of
       None \<Rightarrow> refuse ''missing''
     | Some r \<Rightarrow>
         if o_status r \<noteq> frm then refuse (order_status_value (o_status r))
         else Inr (d\<lparr>orders := moved_orders oid frm to d,
                order_status_history := order_status_history d @ [history_entry oid (Some frm) to why d],
                uuid_pos := Suc (uuid_pos d)\<rparr>))"
proof (cases "is_allowed frm to")
  case False
  then show ?thesis by (simp add: transition_illegal)
next
  case True
  show ?thesis
  proof (cases "List.find (\<lambda>r. o_id r = oid) (orders d)")
    case None
    with True show ?thesis by (simp add: transition_missing)
  next
    case (Some r)
    then have r: "r \<in> set (orders d)" "o_id r = oid" by (auto simp: find_Some_iff)
    show ?thesis
    proof (cases "o_status r = frm")
      case eq: True
      with transition_succeeds [OF assms(1,2) r eq \<open>is_allowed frm to\<close>] r assms(3) True Some
      show ?thesis by simp
    next
      case False
      with transition_lost [OF True Some False order_ids_distinct [OF assms(1)]] True Some
      show ?thesis by simp
    qed
  qed
qed

theorem transition_decides_witness:
  "transition 101 Paid Confirmed None demo_db1 =
     Inl (DomainError (InvalidStateTransition 101 ''confirmed'' ''reserved''))"
  using transition_decides [OF demo_orders_ok1 demo_fresh1, of 101 Paid Confirmed None]
  by (simp add: demo_db1_def demo_order_def new_order_def)

text \<open>
  of any number of concurrent attempts to move one order out of one status, to whatever
  targets, exactly one succeeds when the first can, whatever else is committed in between, provided
  nothing moves the order back to that status.
\<close>

theorem one_transition_wins:
  assumes "transition oid frm (fst x) (snd x) d = Inr d'" and "never_returns oid frm e"
    and "\<forall>c \<in> set cs. never_returns oid frm (snd c)"
  shows "wins (try_move oid frm) ((x, e) # cs) d = 1"
  using transition_race.exactly_one_wins [of oid frm x d d' e cs] assms
  by (simp add: never_returns_harmless try_move_def)

theorem one_transition_wins_witness:
  "wins (try_move 101 Pending)
     [((Reserved, Some ''stock reserved''), \<lambda>d. d), ((Cancelled, None), \<lambda>d. d), ((Reserved, None), \<lambda>d. d)]
     demo_d = 1"
  by (rule one_transition_wins [where d' = "demo_db1\<lparr>payments := [], uuid_pos := 8\<rparr>"])
    (simp_all add: demo_transition never_returns_def)

lemma replay_run:
  "replay (Some s) hs = Some (Some t) \<Longrightarrow>
     status_run (s # map to_status hs) \<and> last (s # map to_status hs) = t"
proof (induction hs arbitrary: s)
  case (Cons h hs)
  then have "is_allowed s (to_status h)" "replay (Some (to_status h)) hs = Some (Some t)"
    by (auto split: if_splits)
  with Cons.IH show ?case by simp
qed simp

text \<open>
  the life of an order. Where the history replays, an order's history is its creation as
  \<^verbatim>\<open>pending\<close> followed by a run of legal edges that ends in the stored status, so it has at
  most four rows; and an order in a terminal status cannot be moved by any transition at all.
\<close>

theorem order_life:
  assumes "history_ok d" and "r \<in> set (orders d)"
  shows "\<exists>h hs. history_of d (o_id r) = h # hs \<and> from_status h = None \<and> to_status h = Pending \<and>
      status_run (map to_status (h # hs)) \<and> to_status (last (h # hs)) = o_status r \<and> length hs \<le> 3 \<and>
      (o_status r \<in> TERMINAL \<longrightarrow> (\<forall>to why. \<exists>e. transition (o_id r) (o_status r) to why d = Inl e))"
proof -
  have rp: "replay None (history_of d (o_id r)) = Some (Some (o_status r))"
    using assms by (simp add: history_ok_def)
  then obtain h hs where h: "history_of d (o_id r) = h # hs" "from_status h = None" "to_status h = Pending"
    "replay (Some Pending) hs = Some (Some (o_status r))"
    by (cases "history_of d (o_id r)") (auto split: if_splits)
  have "status_run (map to_status (h # hs)) \<and> to_status (last (h # hs)) = o_status r"
    using replay_run [OF h(4)] h(3) by (cases hs) (auto simp: last_map)
  moreover have "length hs \<le> 3"
    using replay_length [OF h(4)] stage_le [of "o_status r"] by simp
  moreover have "\<exists>e. transition (o_id r) (o_status r) to why d = Inl e" if "o_status r \<in> TERMINAL" for to why
    using that by (auto simp: TERMINAL_def transition_illegal)
  ultimately show ?thesis using h(1-3) by blast
qed

lemma demo_history_ok1: "history_ok demo_db1"
  by (simp add: history_ok_def history_of_def demo_db1_def demo_order_def new_order_def demo_history_def)

theorem order_life_witness:
  "\<exists>h hs. history_of demo_db1 101 = h # hs \<and> from_status h = None \<and> length hs \<le> 3"
proof -
  have "demo_order \<in> set (orders demo_db1)" and "o_id demo_order = 101"
    by (simp_all add: demo_db1_def demo_order_def new_order_def)
  then show ?thesis using order_life [OF demo_history_ok1, of demo_order] by auto
qed

section \<open>Choosing a warehouse\<close>

text \<open>
  the eligibility query means what it is for. Its join, filter, GROUP BY and HAVING count select
  exactly the warehouses that have every requested product in the requested quantity, for any
  non-empty basket of distinct products.
\<close>

theorem eligibility_query_is_completeness:
  assumes "distinct (map product_id items)" and "items \<noteq> []"
  shows "set (eligible items d) = {w. \<forall>it \<in> set items. \<exists>i \<in> set (inventory d).
    inv_warehouse_id i = w \<and> inv_product_id i = product_id it \<and> quantity it \<le> on_hand i - reserved i}"
  using eligible_iff [OF assms, of _ d]
  by (auto simp: supplies_def stocked_def list_all_iff list_ex_iff)

theorem eligibility_query_is_completeness_witness: "set (eligible demo_items demo_db) = {20}"
proof -
  have "demo_items \<noteq> []" by (simp add: demo_items_def)
  from eligibility_query_is_completeness [OF demo_distinct this, of demo_db] show ?thesis
    by (auto simp: demo_items_def demo_db_def demo_stock_def)
qed

text \<open>
  C24: the selected warehouse is an active one that can supply the whole basket, and none such is
  nearer to the geocoded address, or as near with an earlier code; every product of the basket
  exists.
\<close>

theorem selection_is_nearest_complete:
  assumes "select_warehouse geocode pg addr items d = Inr c" and "distinct (map product_id items)"
  shows "\<exists>w co pt. geocode addr = Inr co \<and> to_point (lon co) (lat co) = Inr pt \<and>
    c = candidate_of pg pt w \<and> w \<in> set (warehouses d) \<and> wh_is_active w \<and> supplies d (wh_id w) items \<and>
    (\<forall>x \<in> set (warehouses d). wh_is_active x \<and> supplies d (wh_id x) items \<longrightarrow>
       warehouse_rank pg pt w \<le> warehouse_rank pg pt x) \<and>
    (\<forall>it \<in> set items. product_id it \<in> pr_id ` set (products d))"
proof -
  obtain w co pt where "w \<in> set (able d items)" and "c = candidate_of pg pt w"
    and "geocode addr = Inr co" and "to_point (lon co) (lat co) = Inr pt"
    and "\<forall>x \<in> set (able d items). warehouse_rank pg pt w \<le> warehouse_rank pg pt x"
    and "product_id ` set items \<subseteq> pr_id ` set (products d)"
    by (rule select_warehouse_Inr [OF assms])
  then show ?thesis by (intro exI [of _ w] exI [of _ co] exI [of _ pt]) (auto simp: able_def)
qed

theorem selection_is_nearest_complete_witness:
  "\<exists>w. w \<in> set (warehouses demo_db) \<and> wh_id w = 20 \<and> supplies demo_db 20 demo_items"
  using selection_is_nearest_complete [OF demo_select demo_distinct]
  by (auto simp: candidate_of_def)

text \<open>
  The choice does not depend on the order in which the database returns rows. Two databases with
  the same inventory and the same warehouses in another order give the same candidate, as long as no
  two warehouses have codes that collate equal.
\<close>

theorem selection_ignores_row_order:
  assumes "distinct (map product_id items)"
    and "inj_on (\<lambda>w. collation_key pg (wh_code w)) (set (warehouses d))"
    and "mset (warehouses d') = mset (warehouses d)" and "inventory d' = inventory d"
  shows "select_best pg pt items d' = select_best pg pt items d"
  by (rule select_best_order_independent [OF assms])

theorem selection_ignores_row_order_witness:
  "select_best demo_pg (1, 0) demo_items (demo_db\<lparr>warehouses := rev (warehouses demo_db)\<rparr>) =
     select_best demo_pg (1, 0) demo_items demo_db"
  by (rule selection_ignores_row_order [OF demo_distinct])
    (auto simp: demo_pg_def demo_db_def demo_warehouse_def inj_on_def)

text \<open>
  a refusal to select explains itself. \<^verbatim>\<open>NoEligibleWarehouse\<close> is raised only when no
  active warehouse can supply the basket; it carries the number of products asked for and how many
  of them have available stock anywhere, which is never more. (The geocoder raises
  \<^verbatim>\<open>GeocodingFailed\<close> and nothing else, as its port documents.)
\<close>

theorem no_warehouse_is_explained:
  assumes "select_warehouse geocode pg addr items d = Inl (DomainError (NoEligibleWarehouse n k))"
    and "distinct (map product_id items)" and "items \<noteq> []"
    and "\<And>e. geocode addr = Inl e \<Longrightarrow> \<exists>s. e = DomainError (GeocodingFailed s)"
  shows "n = length items \<and> k = count_products_stocked_anywhere (product_id ` set items) d \<and> k \<le> n \<and>
    (\<forall>w \<in> set (warehouses d). wh_is_active w \<longrightarrow> \<not> supplies d (wh_id w) items)"
  using select_warehouse_no_warehouse [OF assms] by (auto simp: able_def filter_empty_conv)

definition demo_greedy :: "requested_item list" where
  "demo_greedy = [\<lparr>product_id = 11, quantity = 4\<rparr>]"

lemma demo_greedy_refused:
  "select_warehouse (env_geocode demo_env) demo_pg demo_address demo_greedy demo_db =
     Inl (DomainError (NoEligibleWarehouse 1 1))"
  by (simp add: select_warehouse_def existing_ids_def select_best_def eligible_def demo_greedy_def
      demo_defs to_point_def fits_int4_def Let_def count_products_stocked_anywhere_def)

theorem no_warehouse_is_explained_witness:
  "\<not> supplies demo_db 20 demo_greedy \<and> \<not> supplies demo_db 21 demo_greedy"
  using no_warehouse_is_explained [OF demo_greedy_refused]
  by (simp add: demo_env_def demo_greedy_def) (simp add: demo_db_def demo_warehouse_def)

text \<open>
  the advice of the selection holds on the snapshot it was taken from. For a new order, reserving
  the whole basket at the selected warehouse cannot fail if the inventory is still the one the
  selection read.
\<close>

theorem selected_warehouse_can_reserve:
  assumes "select_warehouse geocode pg addr items d = Inr c" and "distinct (map product_id items)"
    and "\<forall>it \<in> set items. 0 < quantity it"
    and "ledger_ok d'" and "uuids_fresh d'" and "inventory d' = inventory d"
    and "oid \<in> o_id ` set (orders d')" and "\<forall>r \<in> set (stock_reservations d'). sr_order_id r \<noteq> oid"
  shows "\<exists>res d''. reserve_stock ttl oid (cand_id c) items d' = Inr (res, d'')"
  using selected_can_reserve [OF assms(1,2) _ assms(4-8), of ttl] assms(3)
  by (auto simp: list_all_iff)

theorem selected_warehouse_can_reserve_witness:
  "\<exists>res d''. reserve_stock 900 101 20 demo_items demo_c = Inr (res, d'')"
  using selected_warehouse_can_reserve
    [OF demo_select demo_distinct _ demo_ledger_c demo_fresh_c, of 101 900]
  by (simp add: demo_c_def demo_b_def demo_a_def demo_db_def demo_items_def demo_order_def new_order_def)

section \<open>Creating an order\<close>

text \<open>One line of a new order against the item it was made for.\<close>

definition line_for :: "product_row list \<Rightarrow> order_row \<Rightarrow> requested_item \<Rightarrow> order_item_row \<Rightarrow> bool" where
  "line_for ps ord i l \<longleftrightarrow> (\<exists>p \<in> set ps. pr_id p = product_id i \<and>
     oi_order_id l = o_id ord \<and> oi_product_id l = product_id i \<and> oi_quantity l = quantity i \<and>
     oi_product_sku l = pr_sku p \<and> oi_product_name l = pr_name p \<and>
     oi_unit_price_minor l = pr_unit_price_minor p \<and> oi_currency l = o_currency ord)"

lemma line_for_snapshot:
  assumes "line_content l = snapshot (o_id ord) (get_by_ids ids d) (product_id i, quantity i)"
    and "get_by_ids ids d (product_id i) \<noteq> None"
    and "pr_currency (the (get_by_ids ids d (product_id i))) = o_currency ord"
  shows "line_for (products d) ord i l"
    and "line_total_minor l = pr_unit_price_minor (the (get_by_ids ids d (product_id i))) * quantity i"
proof -
  obtain p where p: "get_by_ids ids d (product_id i) = Some p" using assms(2) by blast
  from get_by_ids_SomeD [OF this] p assms show "line_for (products d) ord i l"
    unfolding line_for_def
    by (intro bexI [of _ p]) (simp_all add: line_content_def snapshot_def)
  from p assms(1) show "line_total_minor l = pr_unit_price_minor (the (get_by_ids ids d (product_id i))) * quantity i"
    by (simp add: line_content_def snapshot_def line_total_minor_def)
qed

lemma created_lines:
  assumes "map line_content ls = map (snapshot (o_id ord) (get_by_ids ids d)) (map (\<lambda>i. (product_id i, quantity i)) items)"
    and "\<forall>i \<in> set items. get_by_ids ids d (product_id i) \<noteq> None"
    and "\<forall>i \<in> set items. pr_currency (the (get_by_ids ids d (product_id i))) = o_currency ord"
  shows "list_all2 (line_for (products d) ord) items ls \<and>
    sum_list (map line_total_minor ls) = basket_total (get_by_ids ids d) items"
  using assms
proof (induction ls arbitrary: items)
  case Nil
  then show ?case by (simp add: basket_total_def)
next
  case (Cons l ls)
  then obtain i rest where i: "items = i # rest" by (cases items) auto
  with Cons.prems have c: "line_content l = snapshot (o_id ord) (get_by_ids ids d) (product_id i, quantity i)"
    "map line_content ls = map (snapshot (o_id ord) (get_by_ids ids d)) (map (\<lambda>i. (product_id i, quantity i)) rest)"
    by simp_all
  have "list_all2 (line_for (products d) ord) rest ls \<and>
      sum_list (map line_total_minor ls) = basket_total (get_by_ids ids d) rest"
    by (rule Cons.IH [OF c(2)]) (use Cons.prems i in simp_all)
  with line_for_snapshot [OF c(1)] Cons.prems i show ?case by (simp add: basket_total_def)
qed

text \<open>Whatever the selection saw, the stock is there when it is taken.\<close>

lemma creation_takes_stock:
  assumes "create_from_reads env cid addr items pt seen priced d = Inr (ord, d')"
    and "distinct (map product_id items)" and "o_warehouse_id ord = Some w"
  shows "supplies d w items"
proof (rule create_from_reads_calls [OF assms(1)])
  fix cand tot o1 d1 d2 res d3
  assume c: "create_order cid (cand_id cand) addr pt
      (hd (basket_currencies (get_by_ids (set (map product_id items)) priced) items)) tot d = Inr (o1, d1)"
    and a: "add_items (o_id o1) (get_by_ids (set (map product_id items)) priced)
      (map (\<lambda>i. (product_id i, quantity i)) items) d1 = Inr d2"
    and r: "reserve_stock (reservation_ttl_seconds env) (o_id o1) (cand_id cand) items d2 = Inr (res, d3)"
    and o: "ord = o1\<lparr>o_status := Reserved, o_updated_at := db_now d3\<rparr>"
  have w: "w = cand_id cand" using create_order_Inr(1) [OF c] assms(3) by (simp add: o new_order_def)
  have inv: "inventory d2 = inventory d" using add_items_Inr [OF a] create_order_Inr(2) [OF c] by auto
  from r have "fold_r (reserve_one (reservation_ttl_seconds env) (o_id o1) (cand_id cand))
      (lock_order items (cand_id cand)) d2 = Inr d3" by (auto simp: reserve_stock_def bind_r_Inr)
  from reserve_loop_stocked [OF this distinct_lock_order [OF assms(2)]] show ?thesis
    by (simp add: supplies_def list_all_iff stocked_def inv w)
qed

text \<open>
  C25: an order is created whole. The selection reads the database as \<open>seen\<close>, the product lookup as
  \<open>priced\<close>, the writes as \<open>d\<close>. When the creation transaction returns, there is one new order, reserved,
  shipping from an active warehouse that could supply everything when it was selected and can when the
  stock is taken; one line per item that snapshots the product's price, currency, SKU and name; a
  total that is the sum of the generated line totals, in the one currency of all lines; one active
  reservation per item; and a ledger that still balances.
\<close>

theorem created_order_is_complete:
  assumes "create_from_reads env cid addr items pt seen priced d = Inr (ord, d')"
    and "ledger_ok d" and "distinct (map product_id items)"
  shows "\<exists>w ls new. orders d' = orders d @ [ord] \<and> o_status ord = Reserved \<and> o_customer_id ord = cid \<and>
    w \<in> set (able seen items) \<and> supplies d (wh_id w) items \<and> o_warehouse_id ord = Some (wh_id w) \<and>
    order_items d' = order_items d @ ls \<and> list_all2 (line_for (products priced) ord) items ls \<and>
    o_total_minor ord = sum_list (map line_total_minor ls) \<and>
    stock_reservations d' = stock_reservations d @ new \<and>
    map reservation_content new = map (\<lambda>i. (o_id ord, wh_id w, product_id i, quantity i, Active,
        db_now d + seconds (reservation_ttl_seconds env))) (lock_order items (wh_id w)) \<and>
    ledger_ok d' \<and> payments d' = payments d \<and> idempotency_keys d' = idempotency_keys d"
proof -
  from create_from_reads_Inr(1) [OF assms] obtain c where
    "created_from env cid addr items pt seen priced d ord d' c" ..
  note c = this [unfolded created_from_def]
  have ps: "cr_products c = get_by_ids (set (map product_id items)) priced" using c by blast
  have ord0: "ord = (new_order (uuid_seq d (uuid_pos d)) cid (wh_id (cr_warehouse c)) addr pt
      (o_currency ord) (basket_total (cr_products c) items) (db_now d))\<lparr>o_status := Reserved\<rparr>"
    using c by blast
  have ord: "o_status ord = Reserved" "o_customer_id ord = cid"
    "o_warehouse_id ord = Some (wh_id (cr_warehouse c))"
    "o_total_minor ord = basket_total (cr_products c) items"
    by (subst ord0, simp add: new_order_def)+
  have content: "map line_content (cr_lines c) = map (snapshot (o_id ord) (cr_products c))
      (map (\<lambda>i. (product_id i, quantity i)) items)"
    and known: "\<forall>i \<in> set items. cr_products c (product_id i) \<noteq> None"
    and cur: "\<forall>i \<in> set items. pr_currency (the (cr_products c (product_id i))) = o_currency ord"
    using c by blast+
  note lines = created_lines [OF content [unfolded ps] known [unfolded ps] cur [unfolded ps]]
  have rest: "orders d' = orders d @ [ord]" "cr_warehouse c \<in> set (able seen items)"
    "order_items d' = order_items d @ cr_lines c" "stock_reservations d' = stock_reservations d @ cr_new c"
    "map reservation_content (cr_new c) = map (\<lambda>i. (o_id ord, wh_id (cr_warehouse c), product_id i,
        quantity i, Active, db_now d + seconds (reservation_ttl_seconds env)))
       (lock_order items (wh_id (cr_warehouse c)))"
    "payments d' = payments d" "idempotency_keys d' = idempotency_keys d"
    using c by blast+
  show ?thesis
    using rest ord lines create_from_reads_Inr(2) [OF assms] ps creation_takes_stock [OF assms(1,3)]
    by (intro exI [of _ "cr_warehouse c"] exI [of _ "cr_lines c"] exI [of _ "cr_new c"]) simp
qed

lemma demo_ledger_a: "ledger_ok demo_a"
  using demo_ledger by (simp add: demo_a_def ledger_ok_iff held_def reserved_at_def)

theorem created_order_is_complete_witness:
  "\<exists>ls. list_all2 (line_for (products demo_a) demo_order) demo_items ls \<and> 2800 = sum_list (map line_total_minor ls)"
  using created_order_is_complete [OF demo_create [unfolded create_in_transaction_def] demo_ledger_a demo_distinct]
  by (auto simp: demo_order_def new_order_def)

text \<open>
  nothing but what the caller can check beforehand makes a creation fail. For a known customer,
  a valid geocodable address, distinct products that exist in one currency with amounts that fit
  their columns, and an active warehouse that can supply the basket, the creation transaction
  returns an order.
\<close>

theorem orderable_basket_is_created:
  assumes "orderable env cid addr items d" and "ledger_ok d" and "uuids_fresh d"
    and "table_ok product_spec (products d)" and "table_ok (order_spec d) (orders d)" and "refs_ok d"
  shows "\<exists>ord d'. create_in_transaction env cid addr items pt d = Inr (ord, d')"
  using create_in_transaction_succeeds [OF assms] by blast

theorem orderable_basket_is_created_witness:
  "\<exists>ord d'. create_in_transaction demo_env 1 demo_address demo_items (1, 0) demo_db = Inr (ord, d')"
  by (rule orderable_basket_is_created [OF demo_orderable demo_ledger demo_fresh demo_products_ok demo_orders_ok])
    (simp add: refs_ok_def demo_db_def)

text \<open>
  C26: the selection is advisory. Between the selection and the writes others may have changed the
  stock. If the chosen warehouse still supplies the basket when the stock is taken, the transaction
  returns an order that ships from it; if not, it raises \<open>InsufficientStock\<close> for the first item, in the
  global lock order, that is not in stock there, and leaves the database as it was: no other
  warehouse is tried and nothing is held.
\<close>

theorem selection_is_advisory:
  assumes "orderable env cid addr items seen" and "table_ok (inventory_spec seen) (inventory seen)"
    and "table_ok product_spec (products seen)" and "products priced = products seen"
    and "customers d = customers seen" "products d = products seen" "warehouses d = warehouses seen"
    and "ledger_ok d" and "uuids_fresh d" and "table_ok (order_spec d) (orders d)" and "refs_ok d"
  shows "\<exists>w cand. select_warehouse (env_geocode env) (env_pg env) addr items seen = Inr cand \<and> cand_id cand = wh_id w \<and>
    w \<in> set (able seen items) \<and>
    (if supplies d (wh_id w) items
     then \<exists>ord d'. in_transaction (create_from_reads env cid addr items pt seen priced) d = (Inr ord, d') \<and>
       o_status ord = Reserved \<and> o_warehouse_id ord = Some (wh_id w)
     else \<exists>ys it zs. lock_order items (wh_id w) = ys @ it # zs \<and> \<not> stocked d (wh_id w) (product_id it) (quantity it) \<and>
       (\<forall>y \<in> set ys. stocked d (wh_id w) (product_id y) (quantity y)) \<and>
       in_transaction (create_from_reads env cid addr items pt seen priced) d =
         (Inl (DomainError (InsufficientStock (product_id it) (quantity it))), d))"
proof -
  obtain w o1 d2 where
    w: "\<exists>cand. select_warehouse (env_geocode env) (env_pg env) addr items seen = Inr cand \<and> cand_id cand = wh_id w"
      "w \<in> set (able seen items)" and
    cr: "create_from_reads env cid addr items pt seen priced d =
      bind_r (reserve_stock (reservation_ttl_seconds env) (o_id o1) (wh_id w) items d2) (\<lambda>(_, d3).
      bind_r (transition (o_id o1) Pending Reserved (Some ''stock reserved'') d3) (\<lambda>d4.
        Inr (o1\<lparr>o_status := Reserved, o_updated_at := db_now d3\<rparr>, d4)))" and
    d2: "ledger_ok d2" "uuids_fresh d2" "inventory d2 = inventory d" "orders d2 = orders d @ [o1]"
      "o_status o1 = Pending \<and> o_warehouse_id o1 = Some (wh_id w) \<and> o_shipping_point o1 \<noteq> None"
      "table_ok (order_spec d2) (orders d2)" "\<forall>r \<in> set (stock_reservations d2). sr_order_id r \<noteq> o_id o1" and
    fits: "\<forall>i \<in> set items. fits_int4 (quantity i)"
    by (rule creation_reaches_reservation [OF assms])
  have o1: "o_id o1 \<in> o_id ` set (orders d2)" by (simp add: d2(4))
  have dist: "distinct (map product_id items)" using assms(1) by (simp add: orderable_def)
  have each: "\<forall>it \<in> set items. 0 < quantity it \<and> no_reservation d2 (o_id o1) (wh_id w) (product_id it)"
    using assms(1) d2(7) by (auto simp: orderable_def no_reservation_def list_ex_iff)
  have same: "stocked d2 v p q = stocked d v p q" for v p q by (simp add: stocked_def d2(3))
  show ?thesis
  proof (cases "supplies d (wh_id w) items")
    case True
    then obtain res d3 where d3: "uuids_fresh d3"
      "reserve_stock (reservation_ttl_seconds env) (o_id o1) (wh_id w) items d2 = Inr (res, d3)"
      using reserve_stock_succeeds [OF d2(1,2) o1 dist] each by (force simp: supplies_def list_all_iff same)
    from reserved_creation_succeeds [OF d3(2) d2(1) d3(1) d2(4) _ d2(6)] d2(5) obtain d' where
      "transition (o_id o1) Pending Reserved (Some ''stock reserved'') d3 = Inr d'" by blast
    with True w cr d3(2) d2(5) show ?thesis by (intro exI [of _ w]) (auto simp: in_transaction_def)
  next
    case False
    then have "\<exists>it \<in> set items. \<not> stocked d2 (wh_id w) (product_id it) (quantity it)"
      by (auto simp: supplies_def list_all_iff same)
    from reserve_stock_refuses [OF d2(1,2) o1 dist _ this] each fits obtain ys it zs where
      it: "lock_order items (wh_id w) = ys @ it # zs" "\<not> stocked d (wh_id w) (product_id it) (quantity it)"
        "\<forall>y \<in> set ys. stocked d (wh_id w) (product_id y) (quantity y)" and
      r: "reserve_stock (reservation_ttl_seconds env) (o_id o1) (wh_id w) items d2 =
        Inl (DomainError (InsufficientStock (product_id it) (quantity it)))"
      unfolding same by blast
    have "in_transaction (create_from_reads env cid addr items pt seen priced) d =
        (Inl (DomainError (InsufficientStock (product_id it) (quantity it))), d)"
      by (simp add: in_transaction_def cr r)
    with it False w show ?thesis by (intro exI [of _ w]) auto
  qed
qed

text \<open>Somebody else took the last units of product 11 after the selection.\<close>

definition demo_outrun :: db where
  "demo_outrun = demo_db\<lparr>inventory := [demo_stock 30 20 10 5, (demo_stock 31 20 11 3)\<lparr>reserved := 3\<rparr>, demo_stock 32 21 10 10]\<rparr>"

lemma demo_outrun_ok:
  "ledger_ok demo_outrun" "uuids_fresh demo_outrun" "table_ok (order_spec demo_outrun) (orders demo_outrun)"
  "refs_ok demo_outrun"
  by (auto simp: demo_outrun_def demo_db_def demo_stock_def demo_product_def demo_warehouse_def ledger_ok_def table_ok_def
      row_ok_def conflict_free_def inventory_spec_def fits_int4_def uuids_fresh_def used_ids_def inj_def refs_ok_def)

theorem selection_is_advisory_witness:
  "in_transaction (create_from_reads demo_env 1 demo_address demo_items (1, 0) demo_db demo_db) demo_outrun =
     (Inl (DomainError (InsufficientStock 11 1)), demo_outrun)"
proof -
  have "\<not> supplies demo_outrun 20 demo_items"
    by (simp add: supplies_def stocked_def demo_outrun_def demo_items_def demo_stock_def)
  moreover have "lock_order demo_items 20 = ys @ it # zs \<Longrightarrow> \<not> stocked demo_outrun 20 (product_id it) (quantity it) \<Longrightarrow>
      product_id it = 11 \<and> quantity it = 1" for ys it zs
    by (auto simp: lock_order_def demo_items_def stocked_def demo_outrun_def demo_stock_def Cons_eq_append_conv)
  ultimately show ?thesis
    using selection_is_advisory [OF demo_orderable demo_inventory_ok demo_products_ok, of demo_db demo_outrun "(1, 0)"]
      demo_outrun_ok demo_able
    by (auto simp: demo_outrun_def demo_warehouse_def)
qed

end
