(* ===== verification/Settlement.thy ===== *)
theory Settlement
  imports Checkout
begin

text \<open>
  When the second transaction of the saga commits, and what a later request with the same key then
  gets. A settlement can be refused by the database only over the provider reference, the last four
  characters of the card, or a second succeeded payment.
\<close>

section \<open>Ids are kept by updates\<close>

lemma ids_upd:
  "(\<And>r. k (f r) = k r) \<Longrightarrow> k ` set (upd c f rows) = k ` set rows"
  using map_upd [of c k f rows] by (metis list.set_map)

lemma uuids_fresh_payments:
  "uuids_fresh d \<Longrightarrow> (\<And>r. pay_id (f r) = pay_id r) \<Longrightarrow>
     uuids_fresh (d\<lparr>payments := upd c f (payments d)\<rparr>)"
  by (simp add: uuids_fresh_def used_ids_def ids_upd)

lemma uuids_fresh_reservations:
  "uuids_fresh d \<Longrightarrow> (\<And>r. sr_id (f r) = sr_id r) \<Longrightarrow>
     uuids_fresh (d\<lparr>stock_reservations := upd c f (stock_reservations d)\<rparr>)"
  by (simp add: uuids_fresh_def used_ids_def ids_upd)

lemma only_stock_settle_fresh:
  assumes "uuids_fresh d" and "only_stock d d'" and "uuid_pos d' = uuid_pos d"
    and "sr_id ` set (stock_reservations d') = sr_id ` set (stock_reservations d)"
    and "inv_id ` set (inventory d') = inv_id ` set (inventory d)"
  shows "uuids_fresh d'"
  using assms(1,3-5) only_stock_frame [OF assms(2)]
  by (simp add: uuids_fresh_def used_ids_def)

text \<open>A row that left \<open>Pending\<close> has its warehouse and its point.\<close>

lemma reserved_row_complete:
  "table_ok (order_spec d) (orders d) \<Longrightarrow> r \<in> set (orders d) \<Longrightarrow> o_status r \<notin> {Pending, Cancelled} \<Longrightarrow>
     o_warehouse_id r \<noteq> None \<and> o_shipping_point r \<noteq> None"
  by (auto simp: table_ok_def list_all_iff order_row_ok)

section \<open>When the second transaction commits\<close>

definition settleable :: "order_row \<Rightarrow> uuid \<Rightarrow> db \<Rightarrow> bool" where
  "settleable ord pid d \<longleftrightarrow>
     table_ok (order_spec d) (orders d) \<and> table_ok (payment_spec d) (payments d) \<and>
     table_ok (idempotency_spec d) (idempotency_keys d) \<and> ledger_ok d \<and> uuids_fresh d \<and>
     (\<exists>r \<in> set (orders d). o_id r = o_id ord \<and> o_status r = Reserved)"

definition can_be_paid :: "uuid \<Rightarrow> string option \<Rightarrow> db \<Rightarrow> bool" where
  "can_be_paid pid ref d \<longleftrightarrow>
     (\<exists>p \<in> set (payments d). pay_id p = pid \<and>
        (\<forall>r \<in> set (payments d). pay_id r \<noteq> pid \<longrightarrow>
           \<not> (pay_status r = Payment_succeeded \<and> pay_order_id r = pay_order_id p) \<and>
           \<not> (ref \<noteq> None \<and> provider r = provider p \<and> provider_reference r = ref)))"

lemma settle_completed_succeeds:
  assumes "table_ok (idempotency_spec d) (idempotency_keys d)" and "100 \<le> st" "st \<le> 599"
    and "oid \<in> o_id ` set (orders d)"
  shows "\<exists>d'. settle_completed key body st oid d = Inr d'"
proof -
  let ?f = "\<lambda>r. r\<lparr>ik_status := Completed, ik_response_body := Some body,
                ik_response_status := Some st, ik_order_id := Some oid, ik_updated_at := db_now d\<rparr>"
  have "update_rows (idempotency_spec d) (\<lambda>r. ik_key r = key) ?f (idempotency_keys d) =
      Inr (map ?f (filter (\<lambda>r. ik_key r = key) (idempotency_keys d)),
           upd (\<lambda>r. ik_key r = key) ?f (idempotency_keys d))"
    by (rule update_keys_succeeds [OF assms(1)])
      (use assms(2-4) in \<open>auto simp: idempotency_row_ok fits_int4_def\<close>)
  then show ?thesis by (simp add: settle_completed_def)
qed

lemma mark_key_failed_succeeds:
  assumes "table_ok (idempotency_spec d) (idempotency_keys d)" and "oid \<in> o_id ` set (orders d)"
  shows "\<exists>d'. mark_key_failed key (Some oid) d = Inr d'"
proof -
  let ?f = "\<lambda>r. r\<lparr>ik_status := Failed, ik_response_body := None, ik_response_status := None,
                ik_order_id := Some oid, ik_updated_at := db_now d\<rparr>"
  have "update_rows (idempotency_spec d) (\<lambda>r. ik_key r = key) ?f (idempotency_keys d) =
      Inr (map ?f (filter (\<lambda>r. ik_key r = key) (idempotency_keys d)),
           upd (\<lambda>r. ik_key r = key) ?f (idempotency_keys d))"
    by (rule update_keys_succeeds [OF assms(1)]) (use assms(2) in \<open>auto simp: idempotency_row_ok\<close>)
  then show ?thesis by (simp add: mark_key_failed_def)
qed

lemma render_succeeds:
  "r \<in> set (orders d) \<Longrightarrow> o_id r = oid \<Longrightarrow> \<exists>body. render oid ref d = Inr body"
  by (cases "List.find (\<lambda>r. o_id r = oid) (orders d)")
    (auto simp: render_def get_for_response_def find_None_iff')

lemma complete_succeeds:
  assumes s: "settleable ord pid d" and pd: "can_be_paid pid (reference result) d"
    and l4: "null_or card_last4_format (card_last4 result)"
  shows "\<exists>body d'. complete ord pid result key d = Inr (body, d')"
proof -
  note st = s [unfolded settleable_def]
  obtain p where p: "p \<in> set (payments d)" "pay_id p = pid"
    "\<forall>r \<in> set (payments d). pay_id r \<noteq> pay_id p \<longrightarrow>
       \<not> (pay_status r = Payment_succeeded \<and> pay_order_id r = pay_order_id p) \<and>
       \<not> (reference result \<noteq> None \<and> provider r = provider p \<and> provider_reference r = reference result)"
    using pd unfolding can_be_paid_def by blast
  let ?d1 = "d\<lparr>payments := upd (\<lambda>r. pay_id r = pid) (paid result (db_now d)) (payments d)\<rparr>"
  have d1: "mark_succeeded pid (reference result) (card_brand result) (card_last4 result) d = Inr ?d1"
    using mark_succeeded_succeeds [OF _ l4 p(1,3)] st by (simp add: p(2) paid_def [abs_def])
  have f1: "uuids_fresh ?d1" using st by (intro uuids_fresh_payments) simp_all
  have o1: "table_ok (order_spec ?d1) (orders ?d1)" using st by simp
  obtain r where r: "r \<in> set (orders d)" "o_id r = o_id ord" "o_status r = Reserved" using st by blast
  have wh: "o_warehouse_id r \<noteq> None" "o_shipping_point r \<noteq> None"
    using reserved_row_complete [OF _ r(1)] st r(3) by auto
  obtain d2 where d2: "transition (o_id ord) Reserved Paid (Some ''payment succeeded'') ?d1 = Inr d2"
    using transition_succeeds [OF o1 f1, of r "o_id ord" Reserved Paid] r wh by auto
  note f2 = transition_fresh [OF d2 f1]
  note o2 = transition_keeps_orders [OF d2 o1]
  note t2 = transition_moves(1) [OF d2 order_ids_distinct [OF o1]]
  let ?r2 = "r\<lparr>o_status := Paid, o_updated_at := db_now d\<rparr>"
  have r2: "?r2 \<in> set (orders d2)" using r by (force simp: t2 at_status_def set_upd)
  obtain d3 where d3: "transition (o_id ord) Paid Confirmed (Some ''order confirmed'') d2 = Inr d3"
    using transition_succeeds [OF o2 f2 r2, of "o_id ord" Paid Confirmed] r wh by auto
  note f3 = transition_fresh [OF d3 f2]
  note t3 = transition_moves(1) [OF d3 order_ids_distinct [OF o2]]
  have led3: "ledger_ok d3"
    by (rule ledger_ok_orders_grow [of d]) (use st in \<open>simp_all add: t3 t2\<close>)
  let ?d4 = "d3\<lparr>stock_reservations := upd (\<lambda>r. sr_order_id r = o_id ord \<and> sr_status r = Active)
              (stop_holding Committed (db_now d3)) (stock_reservations d3)\<rparr>"
  have d4: "settle_for_order (o_id ord) Committed d3 = Inr ?d4" by (rule settle_for_order_succeeds [OF led3])
  have f4: "uuids_fresh ?d4" using f3 by (rule uuids_fresh_reservations) simp
  obtain d5 where d5: "add_event ''order_confirmed'' (o_id ord) (confirmed_payload ord (reference result))
      ''order'' ?d4 = Inr d5"
    using uuids_fresh_next [OF f4] by (auto simp: add_event_Inr used_ids_def)
  have d5': "orders d5 = orders d3" "idempotency_keys d5 = idempotency_keys d"
    using d5 [unfolded add_event_Inr] by (simp_all add: t3 t2)
  have oid5: "o_id ord \<in> o_id ` set (orders d5)" using r by (auto simp: d5' t3 t2 intro: rev_image_eqI)
  then obtain r5 where "r5 \<in> set (orders d5)" "o_id r5 = o_id ord" by auto
  then obtain body where body: "render (o_id ord) (reference result) d5 = Inr body"
    using render_succeeds by blast
  have "idempotency_spec d5 = idempotency_spec d"
    by (simp add: idempotency_spec_def d5' t3 t2)
  then have "table_ok (idempotency_spec d5) (idempotency_keys d5)" using st d5'(2) by simp
  then obtain d6 where "settle_completed key body 201 (o_id ord) d5 = Inr d6"
    using settle_completed_succeeds [OF _ _ _ oid5] by fastforce
  with d1 d2 d3 d4 d5 body show ?thesis by (simp add: complete_def)
qed

text \<open>Compensation and annotation can only be refused over the last four characters of the card.\<close>

lemma compensate_succeeds:
  assumes s: "settleable ord pid d" and l4: "null_or card_last4_format (card_last4 result)"
  shows "\<exists>d'. compensate ord pid result key d = Inr d'"
proof -
  note st = s [unfolded settleable_def]
  let ?d1 = "d\<lparr>payments := upd (\<lambda>r. pay_id r = pid) (declined result (db_now d)) (payments d)\<rparr>"
  have d1: "mark_payment_failed pid (or_else (failure_reason result) ''declined'')
      (card_brand result) (card_last4 result) d = Inr ?d1"
    using mark_payment_failed_succeeds [OF _ l4] st by (simp add: declined_def [abs_def])
  have f1: "uuids_fresh ?d1" using st by (intro uuids_fresh_payments) simp_all
  have led1: "ledger_ok ?d1" by (rule ledger_ok_orders_grow [of d]) (use st in simp_all)
  obtain rel d2 where d2: "release_reservation (o_id ord) ?d1 = Inr (rel, d2)"
    using release_succeeds [OF led1] by blast
  note rl = release_effect [OF d2 led1]
  note fr = only_stock_frame [OF rl(4)]
  have f2: "uuids_fresh d2"
  proof (rule only_stock_settle_fresh [OF f1 rl(4,5)])
    show "sr_id ` set (stock_reservations d2) = sr_id ` set (stock_reservations ?d1)"
      unfolding rl(2) by (rule ids_upd) simp
    show "inv_id ` set (inventory d2) = inv_id ` set (inventory ?d1)"
      using fr(15) by (metis list.set_map)
  qed
  have sp: "order_spec d2 = order_spec d" by (simp add: order_spec_def fr)
  have o2: "table_ok (order_spec d2) (orders d2)" using st by (simp add: sp fr)
  obtain r where r: "r \<in> set (orders d)" "o_id r = o_id ord" "o_status r = Reserved" using st by blast
  have wh: "o_warehouse_id r \<noteq> None" "o_shipping_point r \<noteq> None"
    using reserved_row_complete [OF _ r(1)] st r(3) by auto
  obtain d3 where d3: "transition (o_id ord) Reserved Payment_failed
      (Some (or_else (failure_reason result) ''declined'')) d2 = Inr d3"
    using transition_succeeds [OF o2 f2, of r "o_id ord" Reserved Payment_failed] r wh by (auto simp: fr)
  note t3 = transition_moves(1) [OF d3 order_ids_distinct [OF o2]]
  have "idempotency_spec d3 = idempotency_spec d"
    by (simp add: idempotency_spec_def t3) (simp add: fr)
  moreover have "idempotency_keys d3 = idempotency_keys d" by (simp add: t3 fr)
  ultimately have k3: "table_ok (idempotency_spec d3) (idempotency_keys d3)" using st by simp
  have "o_id ord \<in> o_id ` set (orders d3)"
    using r by (auto simp: t3 fr intro: rev_image_eqI)
  then obtain d4 where "mark_key_failed key (Some (o_id ord)) d3 = Inr d4"
    using mark_key_failed_succeeds [OF k3] by blast
  with d1 d2 d3 show ?thesis by (simp add: compensate_def)
qed

lemma leave_unresolved_succeeds:
  "table_ok (payment_spec d) (payments d) \<Longrightarrow> null_or card_last4_format (card_last4 result) \<Longrightarrow>
     \<exists>d'. leave_unresolved pid result d = Inr d'"
  unfolding leave_unresolved_def by (simp add: mark_unknown_succeeds)

lemma checkout_tx2_succeeds:
  assumes "settleable ord pid d" and "null_or card_last4_format (card_last4 result)"
    and "outcome result = Outcome_succeeded \<Longrightarrow> can_be_paid pid (reference result) d"
  shows "\<exists>body d'. checkout_tx2 ord pid result key d = Inr (body, d')"
  using complete_succeeds [OF assms(1) _ assms(2), of key] compensate_succeeds [OF assms(1,2), of key]
    leave_unresolved_succeeds [OF _ assms(2), of d pid] assms(1,3)
  by (cases "outcome result") (auto simp: checkout_tx2_def bind_r_Inr settleable_def)

section \<open>What the same key gets afterwards\<close>

text \<open>
  The three outcomes for a key that \<open>checkout_tx1\<close> took: the stored response is replayed, the key
  may be taken again, or the request is refused as still in progress.
\<close>

lemma completed_key_replays:
  assumes "complete ord pid result key d = Inr (body, d')" and "distinct (map o_id (orders d))"
    and "key_row key d = Some r" and "ik_request_hash r = hashed" and "length hashed = 64"
  shows "claim_key key hashed d' = Inl (ReplayedResponse (Some body) 201)"
proof -
  note e = complete_effect(8) [OF assms(1,2)]
  have "key_row key d' = map_option (\<lambda>r. if ik_key r = key then
      r\<lparr>ik_status := Completed, ik_response_body := Some body, ik_response_status := Some 201,
        ik_order_id := Some (o_id ord), ik_updated_at := db_now d\<rparr> else r) (key_row key d)"
    unfolding key_row_def e by (rule find_upd) simp
  then have k: "key_row key d' = Some (r\<lparr>ik_status := Completed, ik_response_body := Some body,
      ik_response_status := Some 201, ik_order_id := Some (o_id ord), ik_updated_at := db_now d\<rparr>)"
    using assms(3) key_row_SomeD [OF assms(3)] by simp
  then have "claim key hashed d' = Inr (None, d'\<lparr>uuid_pos := Suc (uuid_pos d')\<rparr>)"
    using assms(5) by (simp add: claim_Inr)
  with k assms(4) show ?thesis by (simp add: claim_key_def get_key_def)
qed

lemma failed_key_is_retried:
  assumes "compensate ord pid result key d = Inr d'" and "distinct (map o_id (orders d))"
    and "ledger_ok d" and "key_row key d = Some r" and "ik_request_hash r = hashed"
    and "length hashed = 64" and "table_ok (idempotency_spec d') (idempotency_keys d')"
  shows "\<exists>d''. claim_key key hashed d' = Inr d''"
proof -
  note e = compensate_effect(10) [OF assms(1-3)]
  have "key_row key d' = map_option (\<lambda>r. if ik_key r = key then
      r\<lparr>ik_status := Failed, ik_response_body := None, ik_response_status := None,
        ik_order_id := Some (o_id ord), ik_updated_at := db_now d\<rparr> else r) (key_row key d)"
    unfolding key_row_def e by (rule find_upd) simp
  then obtain r' where k: "key_row key d' = Some r'" "ik_status r' = Failed" "ik_request_hash r' = hashed"
    using assms(4,5) key_row_SomeD [OF assms(4)] by simp
  let ?d1 = "d'\<lparr>uuid_pos := Suc (uuid_pos d')\<rparr>"
  have "claim key hashed d' = Inr (None, ?d1)" using k assms(6) by (simp add: claim_Inr)
  moreover have "\<exists>d''. reclaim_failed key ?d1 = Inr (True, d'')"
    using reclaim_failed_succeeds [of ?d1 key r'] assms(7) k by simp
  ultimately show ?thesis using k by (auto simp: claim_key_def get_key_def)
qed

end
