(* ===== verification/Sessions.thy ===== *)
theory Sessions
  imports Checkout
begin

text \<open>
  The saga on the one session a request gets: two \<^verbatim>\<open>session.begin()\<close> blocks with the charge
  between them, guarded by \<^verbatim>\<open>_assert_no_transaction\<close>. The session is SQLAlchemy's, so it is an
  argument: any type of states with the five operations the saga uses. What SQLAlchemy documents of
  them is the predicate \<open>documented\<close>, which only the comparison with \<open>checkout\<close> needs.
\<close>

section \<open>A session\<close>

text \<open>
  Entering a \<^verbatim>\<open>begin()\<close> block may be refused; leaving it, with a success or not, commits or rolls
  back and may raise. \<open>tables\<close> and \<open>store\<close> are what statements see and leave on the session.
\<close>

record 's session_api =
  begin_tx :: "'s \<Rightarrow> exc + 's"
  end_tx :: "bool \<Rightarrow> 's \<Rightarrow> exc option \<times> 's"
  in_tx :: "'s \<Rightarrow> bool"
  tables :: "'s \<Rightarrow> db"
  store :: "db \<Rightarrow> 's \<Rightarrow> 's"

text \<open>\<open>idle d\<close> is a session without a transaction on a database, \<open>opened d x\<close> one whose transaction sees \<open>x\<close>.\<close>

definition documented :: "'s session_api \<Rightarrow> (db \<Rightarrow> 's) \<Rightarrow> (db \<Rightarrow> db \<Rightarrow> 's) \<Rightarrow> bool" where
  "documented api idle opened \<longleftrightarrow>
     (\<forall>d. \<not> in_tx api (idle d) \<and> begin_tx api (idle d) = Inr (opened d d)) \<and>
     (\<forall>d x y. tables api (opened d x) = x \<and> store api y (opened d x) = opened d y) \<and>
     (\<forall>d x. end_tx api True (opened d x) = (None, idle x) \<and> end_tx api False (opened d x) = (None, idle d))"

section \<open>The saga on a session\<close>

text \<open>\<^verbatim>\<open>async with session.begin()\<close> around the statements \<open>f\<close>.\<close>

definition with_begin :: "'s session_api \<Rightarrow> (db \<Rightarrow> exc + ('a \<times> db)) \<Rightarrow> 's \<Rightarrow> (exc + 'a) \<times> 's" where
  "with_begin api f s =
     (case begin_tx api s of
        Inl e \<Rightarrow> (Inl e, s)
      | Inr s1 \<Rightarrow>
          (case f (tables api s1) of
             Inl e \<Rightarrow> (case end_tx api False s1 of (None, s2) \<Rightarrow> (Inl e, s2) | (Some e', s2) \<Rightarrow> (Inl e', s2))
           | Inr (x, d) \<Rightarrow>
               (case end_tx api True (store api d s1) of (None, s2) \<Rightarrow> (Inr x, s2) | (Some e, s2) \<Rightarrow> (Inl e, s2))))"

definition open_transaction :: exc where
  "open_transaction = RuntimeError
     ''payment provider called with an open transaction: this would hold inventory row locks across a network call''"

definition assert_no_transaction :: "'s session_api \<Rightarrow> 's \<Rightarrow> exc option" where
  "assert_no_transaction api s = (if in_tx api s then Some open_transaction else None)"

text \<open>
  \<open>ask\<close> is the provider; it is shown the session only so that one can say when it is asked.
  \<open>elsewhere\<close> is what happens to the session while other sessions commit.
\<close>

definition checkout_in_session ::
  "env \<Rightarrow> 's session_api \<Rightarrow> ('s \<Rightarrow> charge_request \<Rightarrow> 'p \<Rightarrow> payment_result \<times> 'p) \<Rightarrow> ('s \<Rightarrow> 's) \<Rightarrow> checkout_request \<Rightarrow>
     's \<times> 'p \<Rightarrow> (exc + checkout_result) \<times> ('s \<times> 'p)" where
  "checkout_in_session env api ask elsewhere rq = (\<lambda>(s, p).
     case bind_r (env_geocode env (rq_address rq)) (\<lambda>c. to_point (lon c) (lat c)) of
       Inl e \<Rightarrow> (Inl e, (s, p))
     | Inr pt \<Rightarrow>
       (case with_begin api (checkout_tx1 env rq pt) s of
          (Inl e, s1) \<Rightarrow> (Inl e, (s1, p))
        | (Inr (ord, pay), s1) \<Rightarrow>
          (case assert_no_transaction api s1 of
             Some e \<Rightarrow> (Inl e, (s1, p))
           | None \<Rightarrow>
             let (result, p1) = ask s1 (charge_request_of rq ord) p
             in (case with_begin api (checkout_tx2 ord (pay_id pay) result (rq_key rq)) (elsewhere s1) of
                   (Inl e, s3) \<Rightarrow> (Inl e, (s3, p1))
                 | (Inr body, s3) \<Rightarrow> (checkout_answer ord result body, (s3, p1))))))"

text \<open>A documented session's block is a transaction.\<close>

lemma with_begin_documented:
  assumes "documented api idle opened"
  shows "with_begin api f (idle d) = (case in_transaction f d of (r, d') \<Rightarrow> (r, idle d'))"
  using assms by (auto simp: with_begin_def documented_def in_transaction_def split: sum.split prod.split)

lemma checkout_in_documented_session:
  assumes "documented api idle opened" and "\<And>d. elsewhere (idle d) = idle (between d)"
  shows "checkout_in_session env api (\<lambda>_. charge) elsewhere rq (idle d, p) =
     (case checkout env charge between rq (d, p) of (r, (d', p')) \<Rightarrow> (r, (idle d', p')))"
proof -
  have "assert_no_transaction api (idle d) = None" for d
    using assms(1) by (simp add: assert_no_transaction_def documented_def)
  then show ?thesis
    by (auto simp: checkout_in_session_def checkout_def with_begin_documented [OF assms(1)] assms(2) Let_def
        split: sum.split prod.split)
qed

text \<open>The provider is not asked on a session with an open transaction, whatever that session does.\<close>

lemma asked_outside_transactions:
  assumes "\<And>s cr q. \<not> in_tx api s \<Longrightarrow> ask s cr q = ask' s cr q"
  shows "checkout_in_session env api ask elsewhere rq = checkout_in_session env api ask' elsewhere rq"
  using assms by (auto simp: checkout_in_session_def assert_no_transaction_def Let_def fun_eq_iff split: sum.split prod.split)

lemma open_transaction_stops:
  assumes "bind_r (env_geocode env (rq_address rq)) (\<lambda>c. to_point (lon c) (lat c)) = Inr pt"
    and "with_begin api (checkout_tx1 env rq pt) s = (Inr (ord, pay), s1)" and "in_tx api s1"
  shows "checkout_in_session env api ask elsewhere rq (s, p) = (Inl open_transaction, (s1, p))"
  using assms by (simp add: checkout_in_session_def assert_no_transaction_def)

end
