(* ===== verification/Saga_Properties.thy ===== *)
theory Saga_Properties
  imports Settlement Demo Sessions
begin

text \<open>
  What the saga of \<^verbatim>\<open>app/services/order_checkout.py\<close> promises its caller, outcome by
  outcome, and what an \<^verbatim>\<open>Idempotency-Key\<close> means.
\<close>

section \<open>Keys\<close>

text \<open>
  C21: a request's key is decided by what is stored under it. An unused key is taken; a key used for
  another body is refused as reuse whatever became of it; a completed key replays its stored
  response; a failed key is taken again, its response columns empty; and a key in progress is
  refused.
\<close>

theorem claim_key_decides:
  assumes "table_ok (idempotency_spec d) (idempotency_keys d)" and "length hashed = 64"
    and "uuid_seq d (uuid_pos d) \<notin> ik_id ` set (idempotency_keys d)"
  shows "claim_key key hashed d =
    (case key_row key d of
       None \<Rightarrow> Inr (d\<lparr>idempotency_keys := idempotency_keys d @ [fresh_key_row key hashed d],
                       uuid_pos := Suc (uuid_pos d)\<rparr>)
     | Some r \<Rightarrow>
         if ik_request_hash r \<noteq> hashed then Inl (DomainError (IdempotencyKeyReuse key))
         else case ik_status r of
           Completed \<Rightarrow> Inl (ReplayedResponse (ik_response_body r) (the (ik_response_status r)))
         | Failed \<Rightarrow> Inr (d\<lparr>idempotency_keys := upd (\<lambda>x. ik_key x = key \<and> ik_status x = Failed)
                              (\<lambda>x. reclaimed x (db_now d)) (idempotency_keys d),
                            uuid_pos := Suc (uuid_pos d)\<rparr>)
         | In_progress \<Rightarrow> Inl (DomainError (IdempotencyInProgress key)))"
  using claim_key_by_row [OF assms, of key]
  by (cases "key_row key d") (auto split: idempotency_status.split)

lemma demo_keys_ok1: "table_ok (idempotency_spec demo_db1) (idempotency_keys demo_db1)"
  by (simp add: table_ok_def conflict_free_def idempotency_row_ok demo_db1_def fresh_key_row_def demo_hash_def)

theorem claim_key_decides_witness:
  "claim_key ''k1'' (replicate 64 (CHR ''b'')) demo_db1 = Inl (DomainError (IdempotencyKeyReuse ''k1''))"
proof -
  have "uuid_seq demo_db1 (uuid_pos demo_db1) \<notin> ik_id ` set (idempotency_keys demo_db1)"
    by (simp add: demo_db1_def demo_db_def fresh_key_row_def)
  from claim_key_decides [OF demo_keys_ok1 _ this, of "replicate 64 (CHR ''b'')" "''k1''"]
  show ?thesis by (simp add: key_row_def demo_db1_def fresh_key_row_def demo_hash_def)
qed

text \<open>
  C22: one owner per key. Of any number of requests that try to claim one key, with equal or different
  bodies, at most one gets it, whatever the rest of the system commits between the attempts short of
  marking that key failed.
\<close>

theorem one_owner_per_key:
  assumes "\<forall>c \<in> set cs. leaves_taken key (snd c)"
  shows "wins (\<lambda>hashed. try_claim key hashed) cs d \<le> 1"
  by (rule key_race.at_most_one_wins) (use assms in \<open>simp add: leaves_taken_harmless\<close>)

theorem one_owner_per_key_witness:
  "wins (\<lambda>hashed. try_claim ''k1'' hashed) [(demo_hash, \<lambda>d. d), (demo_hash, \<lambda>d. d)] demo_db = 1"
proof -
  have "wins (\<lambda>hashed. try_claim ''k1'' hashed) [(demo_hash, \<lambda>d. d), (demo_hash, \<lambda>d. d)] demo_db \<le> 1"
    by (rule one_owner_per_key) (simp add: leaves_taken_def)
  then show ?thesis using demo_claim by (simp add: try_claim_def split: sum.splits)
qed

section \<open>The course of a checkout\<close>

text \<open>
  What the other sessions may do while the provider is being asked: the rows of this flight are left
  alone, and the tables stay consistent.
\<close>

definition keeps_flight :: "string \<Rightarrow> (db \<Rightarrow> db) \<Rightarrow> bool" where
  "keeps_flight key b \<longleftrightarrow>
     (\<forall>x. distinct (map o_id (orders x)) \<longrightarrow> distinct (map o_id (orders (b x)))) \<and>
     (\<forall>x. ledger_ok x \<longrightarrow> ledger_ok (b x)) \<and>
     (\<forall>x. set (payments x) \<subseteq> set (payments (b x))) \<and> (\<forall>x. key_row key (b x) = key_row key x)"

lemma keeps_flight_id: "keeps_flight key (\<lambda>x. x)"
  by (simp add: keeps_flight_def)

text \<open>A checkout that got past its first transaction, with every intermediate value.\<close>

lemma checkout_course:
  assumes "checkout env charge between rq (d, p) = (r, (d', p'))"
  obtains (Refused) e where "r = Inl e" "d' = d" "p' = p"
  | (Charged) pt ord pay d1 result where
      "checkout_tx1 env rq pt d = Inr ((ord, pay), d1)"
      "charge (charge_request_of rq ord) p = (result, p')"
      "(\<exists>e. checkout_tx2 ord (pay_id pay) result (rq_key rq) (between d1) = Inl e \<and> r = Inl e \<and> d' = between d1) \<or>
       (\<exists>body. checkout_tx2 ord (pay_id pay) result (rq_key rq) (between d1) = Inr (body, d') \<and>
          r = checkout_answer ord result body)"
proof (cases "bind_r (env_geocode env (rq_address rq)) (\<lambda>c. to_point (lon c) (lat c))")
  case (Inl e)
  with assms show thesis by (intro Refused [of e]) (simp_all add: checkout_def)
next
  case (Inr pt)
  show thesis
  proof (cases "checkout_tx1 env rq pt d")
    case (Inl e)
    with Inr assms show thesis by (intro Refused [of e]) (simp_all add: checkout_def in_transaction_def)
  next
    case tx1: (Inr x)
    obtain ord pay d1 where x: "x = ((ord, pay), d1)" by (cases x) auto
    obtain result p1 where ch: "charge (charge_request_of rq ord) p = (result, p1)" by fastforce
    let ?tx2 = "checkout_tx2 ord (pay_id pay) result (rq_key rq) (between d1)"
    have *: "p' = p1 \<and> ((\<exists>e. ?tx2 = Inl e \<and> r = Inl e \<and> d' = between d1) \<or>
       (\<exists>body. ?tx2 = Inr (body, d') \<and> r = checkout_answer ord result body))"
      using assms Inr tx1 x ch
      by (cases ?tx2) (auto simp: checkout_def in_transaction_def Let_def split: prod.split_asm)
    show thesis
      by (rule Charged [of pt ord pay d1 result]) (use tx1 x ch * in simp_all)
  qed
qed

lemma in_flight:
  assumes "checkout_tx1 env rq pt d = Inr ((ord, pay), d1)" and "ledger_ok d"
    and "distinct (map product_id (rq_items rq))" and "distinct (map o_id (orders d))"
    and "keeps_flight (rq_key rq) between"
  shows "pay \<in> set (payments (between d1))" and "distinct (map o_id (orders (between d1)))"
    and "ledger_ok (between d1)"
    and "\<exists>k. key_row (rq_key rq) (between d1) = Some k \<and> ik_status k = In_progress \<and>
           ik_request_hash k = rq_hash rq"
proof -
  note e = checkout_tx1_effect [OF assms(1-3)]
  have "set (payments d1) \<subseteq> set (payments (between d1))" using assms(5) by (simp add: keeps_flight_def)
  then show "pay \<in> set (payments (between d1))" using e(4) by auto
  have "distinct (map o_id (orders d1))" using assms(4) e(1,3) by auto
  then show "distinct (map o_id (orders (between d1)))" using assms(5) by (simp add: keeps_flight_def)
  show "ledger_ok (between d1)" using e(11) assms(5) by (simp add: keeps_flight_def)
  show "\<exists>k. key_row (rq_key rq) (between d1) = Some k \<and> ik_status k = In_progress \<and>
           ik_request_hash k = rq_hash rq"
    using e(10) assms(5) by (simp add: keeps_flight_def)
qed

text \<open>The settled payment is the one the first transaction wrote, with its order and amount.\<close>

lemma tx2_payments:
  assumes "checkout_tx2 ord pid result key d = Inr (body, d')" and "distinct (map o_id (orders d))"
    and "ledger_ok d" and "pay \<in> set (payments d)" and "pay_id pay = pid"
  shows "\<exists>q \<in> set (payments d'). pay_id q = pid \<and> pay_order_id q = pay_order_id pay \<and>
    amount_minor q = amount_minor pay \<and> pay_currency q = pay_currency pay \<and>
    pay_status q = (case outcome result of Outcome_succeeded \<Rightarrow> Payment_succeeded
      | Outcome_declined \<Rightarrow> Payment_failed_status | Outcome_unknown \<Rightarrow> pay_status pay)"
proof -
  have member: "f pay \<in> set (payments d')" if "payments d' = upd (\<lambda>r. pay_id r = pid) f (payments d)" for f
    unfolding that set_upd using assms(4,5) by force
  show ?thesis
  proof (cases "outcome result")
    case Outcome_succeeded
    with assms(1) obtain b where "complete ord pid result key d = Inr (b, d')"
      by (auto simp: checkout_tx2_def bind_r_Inr)
    from member [OF complete_effect(3) [OF this assms(2)]] Outcome_succeeded assms(5)
    show ?thesis by (intro bexI [of _ "paid result (db_now d) pay"]) simp_all
  next
    case Outcome_declined
    with assms(1) have "compensate ord pid result key d = Inr d'"
      by (auto simp: checkout_tx2_def bind_r_Inr)
    from member [OF compensate_effect(3) [OF this assms(2,3)]] Outcome_declined assms(5)
    show ?thesis by (intro bexI [of _ "declined result (db_now d) pay"]) simp_all
  next
    case Outcome_unknown
    with assms(1) have "leave_unresolved pid result d = Inr d'"
      by (auto simp: checkout_tx2_def bind_r_Inr)
    from leave_unresolved_effect [OF this]
    have "payments d' = upd (\<lambda>r. pay_id r = pid) (unresolved result (db_now d)) (payments d)" by simp
    from member [OF this] Outcome_unknown assms(5)
    show ?thesis by (intro bexI [of _ "unresolved result (db_now d) pay"]) simp_all
  qed
qed


definition demo_pay :: "payment_result \<Rightarrow> charge_request \<Rightarrow> nat \<Rightarrow> payment_result \<times> nat" where
  "demo_pay result rq n = (result, Suc n)"

text \<open>The whole demo checkout, for each answer of the provider.\<close>

lemma demo_checkout:
  "checkout demo_env (demo_pay result) (\<lambda>x. x) demo_request (demo_db, n) =
     (case in_transaction (checkout_tx2 demo_order 108 result ''k1'') demo_db1 of
        (Inl e, d2) \<Rightarrow> (Inl e, (d2, Suc n))
      | (Inr body, d2) \<Rightarrow> (checkout_answer demo_order result body, (d2, Suc n)))"
proof -
  have "bind_r (env_geocode demo_env (rq_address demo_request)) (\<lambda>c. to_point (lon c) (lat c)) = Inr (1, 0)"
    by (simp add: demo_env_def to_point_def)
  moreover have "pay_id demo_payment = 108" and "rq_key demo_request = ''k1''"
    by (simp_all add: demo_payment_def demo_request_def)
  ultimately show ?thesis using demo_tx1 by (simp add: checkout_def in_transaction_def demo_pay_def)
qed


section \<open>The three outcomes\<close>

text \<open>What the settled order and its key look like.\<close>

lemma at_status_hit:
  "r \<in> set (orders d) \<Longrightarrow> o_id r = oid \<Longrightarrow> \<exists>x \<in> set (at_status oid st d). o_id x = oid \<and> o_status x = st"
  unfolding at_status_def set_upd by fastforce

lemma at_status_all: "\<forall>x \<in> set (at_status oid st d). o_id x = oid \<longrightarrow> o_status x = st"
proof
  fix x assume "x \<in> set (at_status oid st d)"
  then obtain r where "x = (if o_id r = oid then r\<lparr>o_status := st, o_updated_at := db_now d\<rparr> else r)"
    unfolding at_status_def set_upd by blast
  then show "o_id x = oid \<longrightarrow> o_status x = st" by (cases "o_id r = oid") simp_all
qed

lemma rendered_status:
  assumes "render oid ref d = Inr body" and "\<forall>x \<in> set (orders d). o_id x = oid \<longrightarrow> o_status x = st"
  shows "resp_id body = oid \<and> resp_status body = st"
  using assms
  by (auto simp: render_def get_for_response_def bind_r_Inr dest: find_SomeD split: option.splits)

lemma completed_row:
  assumes "idempotency_keys d' = upd (\<lambda>r. ik_key r = key) f (idempotency_keys d)"
    and "key_row key d = Some r" and "\<And>r. ik_key (f r) = ik_key r"
  shows "key_row key d' = Some (f r)"
proof -
  have "key_row key d' = map_option (\<lambda>r. if ik_key r = key then f r else r) (key_row key d)"
    unfolding key_row_def assms(1) by (rule find_upd) (simp add: assms(3))
  with assms(2) key_row_SomeD [OF assms(2)] show ?thesis by simp
qed

text \<open>The reservations a first transaction added belong to an order that had none.\<close>

lemma tx1_holds:
  assumes "checkout_tx1 env rq pt d = Inr ((ord, pay), d1)" and "ledger_ok d"
    and "distinct (map product_id (rq_items rq))"
  shows "\<exists>new. stock_reservations d1 = stock_reservations d @ new \<and> length new = length (rq_items rq) \<and>
      (\<forall>r \<in> set new. sr_order_id r = o_id ord \<and> sr_status r = Active) \<and>
      (\<forall>r \<in> set (stock_reservations d). sr_order_id r \<noteq> o_id ord)"
proof -
  obtain new and w :: warehouse_row where new: "stock_reservations d1 = stock_reservations d @ new"
    "map reservation_content new = map (\<lambda>i. (o_id ord, wh_id w, product_id i, quantity i, Active,
       db_now d + seconds (reservation_ttl_seconds env))) (lock_order (rq_items rq) (wh_id w))"
    using checkout_tx1_rows(3) [OF assms] by blast
  have "reservation_content r \<in> set (map reservation_content new)" if "r \<in> set new" for r
    using that by simp
  then have active: "\<forall>r \<in> set new. sr_order_id r = o_id ord \<and> sr_status r = Active"
    unfolding new(2) by (fastforce simp: reservation_content_def)
  have len: "length new = length (lock_order (rq_items rq) (wh_id w))"
    using arg_cong [OF new(2), of length] by simp
  have fk: "\<forall>r \<in> set (stock_reservations d). sr_order_id r \<in> o_id ` set (orders d)"
    using assms(2) by (auto simp: ledger_ok_iff table_ok_def list_all_iff reservation_row_ok)
  have "o_id ord \<notin> o_id ` set (orders d)" using checkout_tx1_effect(3) [OF assms] by auto
  with fk have "\<forall>r \<in> set (stock_reservations d). sr_order_id r \<noteq> o_id ord" by metis
  then show ?thesis using new(1) active len
    by (intro exI [of _ new]) (simp add: lock_order_def)
qed

lemma tx1_holds_stopped:
  assumes "checkout_tx1 env rq pt d = Inr ((ord, pay), d1)" and "ledger_ok d"
    and "distinct (map product_id (rq_items rq))"
    and "stock_reservations d' = upd (\<lambda>r. sr_order_id r = o_id ord \<and> sr_status r = Active) (stop_holding st t) rows"
    and "rows = stock_reservations d1"
  shows "\<exists>new. stock_reservations d' = stock_reservations d @ new \<and> length new = length (rq_items rq) \<and>
    (\<forall>r \<in> set new. sr_order_id r = o_id ord \<and> sr_status r = st)"
proof -
  obtain new where new: "stock_reservations d1 = stock_reservations d @ new" "length new = length (rq_items rq)"
    "\<forall>r \<in> set new. sr_order_id r = o_id ord \<and> sr_status r = Active"
    "\<forall>r \<in> set (stock_reservations d). sr_order_id r \<noteq> o_id ord"
    using tx1_holds [OF assms(1-3)] by blast
  have "upd (\<lambda>r. sr_order_id r = o_id ord \<and> sr_status r = Active) (stop_holding st t) (stock_reservations d) =
      stock_reservations d" by (rule upd_none) (use new(4) in blast)
  moreover have "upd (\<lambda>r. sr_order_id r = o_id ord \<and> sr_status r = Active) (stop_holding st t) new =
      map (stop_holding st t) new" unfolding upd_def using new(3) by simp
  ultimately have "stock_reservations d' = stock_reservations d @ map (stop_holding st t) new"
    unfolding assms(4,5) new(1) by (simp add: upd_def)
  then show ?thesis using new(2,3) by (intro exI [of _ "map (stop_holding st t) new"]) (auto simp: stop_holding_def)
qed


lemma demo_confirms:
  "\<exists>body d'. checkout demo_env (demo_pay demo_result) (\<lambda>x. x) demo_request (demo_db, 0) =
     (Inr \<lparr>co_order_id = 101, co_body = body, co_status_code = 201\<rparr>, (d', 1))"
proof -
  obtain body d' where c: "complete demo_order 108 demo_result ''k1'' demo_db1 = Inr (body, d')"
    using demo_complete by blast
  have "o_id demo_order = 101" by (simp add: demo_order_def new_order_def)
  then show ?thesis unfolding demo_checkout using c
    by (simp add: checkout_tx2_def demo_result_simps in_transaction_def checkout_answer_def)
qed

lemma demo_request_simps [simp]:
  "rq_key demo_request = ''k1''" "rq_items demo_request = demo_items" "rq_hash demo_request = demo_hash"
  by (simp_all add: demo_request_def)

lemma demo_no_orders: "distinct (map o_id (orders demo_db))"
  by (simp add: demo_db_def)


lemma held_after_stop:
  assumes "stock_reservations d' = upd (\<lambda>r. sr_order_id r = oid \<and> sr_status r = Active)
      (stop_holding st t) (rows @ new)" and "st \<noteq> Active" "st \<noteq> Committed"
    and "\<forall>r \<in> set new. sr_order_id r = oid \<and> sr_status r = Active"
    and "\<forall>r \<in> set rows. sr_order_id r \<noteq> oid"
  shows "held d' w p = sum_where sr_quantity (\<lambda>r. holding r \<and> sr_warehouse_id r = w \<and> sr_product_id r = p) rows"
proof -
  have "upd (\<lambda>r. sr_order_id r = oid \<and> sr_status r = Active) (stop_holding st t) rows = rows"
    by (rule upd_none) (use assms(5) in blast)
  moreover have "upd (\<lambda>r. sr_order_id r = oid \<and> sr_status r = Active) (stop_holding st t) new =
      map (stop_holding st t) new"
    unfolding upd_def using assms(4) by simp
  ultimately have "stock_reservations d' = rows @ map (stop_holding st t) new"
    using assms(1) by (simp add: upd_def)
  moreover have "\<forall>r \<in> set (map (stop_holding st t) new). \<not> holding r"
    using assms(2,3) by (auto simp: holding_def)
  then have "sum_where sr_quantity (\<lambda>r. holding r \<and> sr_warehouse_id r = w \<and> sr_product_id r = p)
      (map (stop_holding st t) new) = 0" by (intro sum_where_none) blast
  ultimately show ?thesis by (simp add: held_def)
qed

text \<open>The key table keeps its constraints through both transactions.\<close>

lemma idempotency_spec_grows:
  assumes "table_ok (idempotency_spec d) rows" and "o_id ` set (orders d) \<subseteq> o_id ` set (orders d')"
  shows "table_ok (idempotency_spec d') rows"
proof -
  have "row_ok (idempotency_spec d') r" if "row_ok (idempotency_spec d) r" for r
    using that assms(2) by (cases "ik_order_id r") (auto simp: idempotency_row_ok)
  moreover have "uniques (idempotency_spec d') = uniques (idempotency_spec d)"
    by (simp add: idempotency_spec_def)
  ultimately show ?thesis using assms(1) by (simp add: table_ok_def list_all_iff)
qed

lemma sym_keys: "sym_uniques (uniques (idempotency_spec d))"
  by (auto simp: sym_uniques_def idempotency_spec_def)

lemma claim_key_keeps_table:
  assumes "claim_key key hashed d = Inr d'" and "table_ok (idempotency_spec d) (idempotency_keys d)"
  shows "table_ok (idempotency_spec d) (idempotency_keys d')"
  using assms(1)
proof (cases rule: claim_key_Inr_cases)
  case Fresh
  have "insert_row (idempotency_spec d) (fresh_key_row key hashed d) (idempotency_keys d) =
      Inr (idempotency_keys d')"
    unfolding insert_row_Inr
  proof (intro conjI)
    show "row_ok (idempotency_spec d) (fresh_key_row key hashed d)" using Fresh by (simp add: fresh_key_row_ok)
    show "conflict (uniques (idempotency_spec d)) (fresh_key_row key hashed d) (idempotency_keys d) = None"
      using Fresh by (auto simp: conflict_None key_row_None idempotency_spec_def list_ex_iff)
    show "idempotency_keys d' = idempotency_keys d @ [fresh_key_row key hashed d]" using Fresh by simp
  qed
  from insert_row_table_ok [OF sym_keys this assms(2)] show ?thesis .
next
  case (Again r)
  have "update_rows (idempotency_spec d) (\<lambda>x. ik_key x = key \<and> ik_status x = Failed)
      (\<lambda>x. reclaimed x (db_now d)) (idempotency_keys d) =
     Inr (map (\<lambda>x. reclaimed x (db_now d)) (filter (\<lambda>x. ik_key x = key \<and> ik_status x = Failed) (idempotency_keys d)),
          upd (\<lambda>x. ik_key x = key \<and> ik_status x = Failed) (\<lambda>x. reclaimed x (db_now d)) (idempotency_keys d))"
    by (rule update_keys_succeeds [OF assms(2)]) (auto simp: idempotency_row_ok)
  from update_rows_table_ok [OF this assms(2)] show ?thesis by (simp add: Again(4))
qed

lemma tx1_keeps_keys:
  assumes "checkout_tx1 env rq pt d = Inr ((ord, pay), d1)" and "ledger_ok d"
    and "distinct (map product_id (rq_items rq))"
    and "table_ok (idempotency_spec d) (idempotency_keys d)"
  shows "table_ok (idempotency_spec d1) (idempotency_keys d1)"
proof -
  obtain d0 d2 where c: "claim_key (rq_key rq) (rq_hash rq) d = Inr d0"
    "create_in_transaction env (rq_customer rq) (rq_address rq) (rq_items rq) pt d0 = Inr (ord, d2)"
    "create_pending (o_id ord) (o_total_minor ord) (o_currency ord)
       (''Order '' @ uuid_str (o_id ord)) ''mock'' d2 = Inr (pay, d1)"
    using checkout_tx1_Inr [OF assms(1)] by blast
  have "idempotency_keys d1 = idempotency_keys d0"
    using create_in_transaction_keys [OF c(2)] c(3) [unfolded create_pending_Inr] by simp
  moreover have "o_id ` set (orders d) \<subseteq> o_id ` set (orders d1)"
    using checkout_tx1_effect(1) [OF assms(1-3)] by auto
  ultimately show ?thesis
    using idempotency_spec_grows [OF claim_key_keeps_table [OF c(1) assms(4)]] by simp
qed

lemma compensate_keeps_keys:
  assumes "compensate ord pid result key d = Inr d'" and "distinct (map o_id (orders d))" and "ledger_ok d"
    and "table_ok (idempotency_spec d) (idempotency_keys d)"
  shows "table_ok (idempotency_spec d') (idempotency_keys d')"
proof -
  note e = compensate_effect [OF assms(1-3)]
  let ?f = "\<lambda>r. r\<lparr>ik_status := Failed, ik_response_body := None, ik_response_status := None,
                ik_order_id := Some (o_id ord), ik_updated_at := db_now d\<rparr>"
  have oid: "o_id ord \<in> o_id ` set (orders d)" using e(2) by (auto intro: rev_image_eqI)
  have "update_rows (idempotency_spec d) (\<lambda>r. ik_key r = key) ?f (idempotency_keys d) =
      Inr (map ?f (filter (\<lambda>r. ik_key r = key) (idempotency_keys d)),
           upd (\<lambda>r. ik_key r = key) ?f (idempotency_keys d))"
    by (rule update_keys_succeeds [OF assms(4)]) (use oid in \<open>auto simp: idempotency_row_ok\<close>)
  from update_rows_table_ok [OF this assms(4)]
  have "table_ok (idempotency_spec d) (idempotency_keys d')" by (simp add: e(10))
  then show ?thesis by (rule idempotency_spec_grows) (simp add: e(1))
qed

lemma tx1_hash_length: "checkout_tx1 env rq pt d = Inr ((ord, pay), d1) \<Longrightarrow> length (rq_hash rq) = 64"
  by (auto simp: checkout_tx1_def claim_key_def bind_r_Inr claim_Inr)

text \<open>The settlements themselves never raise what the caller is told about the payment.\<close>

definition about_payment :: "exc \<Rightarrow> bool" where
  "about_payment e \<longleftrightarrow> (\<exists>why. e = DomainError (PaymentDeclined why) \<or> e = DomainError (PaymentUnresolved why))"

lemma transition_silent: "transition oid frm to why d = Inl e \<Longrightarrow> \<not> about_payment e"
  by (auto simp: transition_def insert_history_def about_payment_def bind_r_def Let_def
      split: if_split_asm sum.split_asm prod.split_asm)

lemma update_payment_silent: "update_payment pid f d = Inl e \<Longrightarrow> \<not> about_payment e"
  by (auto simp: update_payment_def about_payment_def bind_r_def split: sum.split_asm prod.split_asm)

lemma hand_back_silent: "hand_back it d = Inl e \<Longrightarrow> \<not> about_payment e"
  by (auto simp: hand_back_def about_payment_def bind_r_def split: sum.split_asm prod.split_asm if_split_asm)

lemma release_silent: "release_reservation oid d = Inl e \<Longrightarrow> \<not> about_payment e"
  by (auto simp: release_reservation_def settle_def Let_def bind_r_Inl about_payment_def
      dest!: fold_r_raises hand_back_silent)

lemma render_silent: "render oid ref d = Inl e \<Longrightarrow> \<not> about_payment e"
  by (cases "List.find (\<lambda>r. o_id r = oid) (orders d)")
    (auto simp: render_def get_for_response_def about_payment_def)

lemma other_writes_silent:
  "settle_for_order oid st d = Inl e \<Longrightarrow> \<not> about_payment e"
  "add_event ty agg body aggty d = Inl e \<Longrightarrow> \<not> about_payment e"
  "settle_completed key resp code oid d = Inl e \<Longrightarrow> \<not> about_payment e"
  "mark_key_failed key oid' d = Inl e \<Longrightarrow> \<not> about_payment e"
  by (auto simp: settle_for_order_def add_event_def settle_completed_def mark_key_failed_def Let_def
      about_payment_def bind_r_Inl split: prod.split_asm)

lemma tx2_no_answer:
  assumes "checkout_tx2 ord pid result key d = Inl e"
  shows "\<not> about_payment e"
proof (cases "outcome result")
  case Outcome_succeeded
  with assms have "complete ord pid result key d = Inl e" by (auto simp: checkout_tx2_def bind_r_Inl)
  then show ?thesis
    by (auto simp only: complete_def bind_r_Inl mark_succeeded_def sum.distinct
        dest: transition_silent update_payment_silent render_silent other_writes_silent)
next
  case Outcome_declined
  with assms have "compensate ord pid result key d = Inl e" by (auto simp: checkout_tx2_def bind_r_Inl)
  then show ?thesis
    by (auto simp only: compensate_def bind_r_Inl mark_payment_failed_def split_paired_Ex case_prod_conv
        dest: transition_silent update_payment_silent release_silent other_writes_silent)
next
  case Outcome_unknown
  with assms show ?thesis
    by (auto simp: checkout_tx2_def bind_r_Inl leave_unresolved_def mark_unknown_def
        dest: update_payment_silent)
qed

lemma tx2_declined:
  assumes "(\<exists>e. checkout_tx2 ord pid result key d = Inl e \<and> Inl (DomainError (PaymentDeclined why)) = Inl e \<and> d' = d) \<or>
      (\<exists>body. checkout_tx2 ord pid result key d = Inr (body, d') \<and>
         Inl (DomainError (PaymentDeclined why)) = checkout_answer ord result body)"
  shows "compensate ord pid result key d = Inr d' \<and> outcome result = Outcome_declined"
  using assms tx2_no_answer [of ord pid result key d]
  by (cases "outcome result") (auto simp: checkout_tx2_def checkout_answer_def bind_r_Inr about_payment_def split: option.split_asm)

text \<open>What a decline leaves behind when nobody else committed during the charge.\<close>

lemma undisturbed_decline:
  assumes "checkout_tx1 env rq pt d = Inr ((ord, pay), d1)" and "ledger_ok d" and "distinct (map o_id (orders d))"
    and "distinct (map product_id (rq_items rq))" and "compensate ord pid result key d1 = Inr d'"
  shows "reserved_at d' w p = reserved_at d w p" and "held d' w p = held d w p" and "outbox d' = outbox d"
    and "\<exists>r. orders d' = orders d @ [r] \<and> o_id r = o_id ord \<and> o_status r = Payment_failed"
proof -
  note e = checkout_tx1_effect [OF assms(1,2,4)]
  note fl = in_flight [OF assms(1,2,4,3) keeps_flight_id]
  note f = compensate_effect [OF assms(5) fl(2,3)]
  obtain new where new: "stock_reservations d1 = stock_reservations d @ new"
    "\<forall>r \<in> set new. sr_order_id r = o_id ord \<and> sr_status r = Active"
    "\<forall>r \<in> set (stock_reservations d). sr_order_id r \<noteq> o_id ord"
    using tx1_holds [OF assms(1,2,4)] by blast
  show held: "held d' w p = held d w p"
    using held_after_stop [OF f(4) [unfolded new(1)] _ _ new(2,3), of w p] by (simp add: held_def)
  then show "reserved_at d' w p = reserved_at d w p" using f(6) [of w p] e(12) [of w p] by (simp add: unattributed_def)
  show "outbox d' = outbox d" using f(8) e(13) by simp
  have "orders d' = orders d @ [ord\<lparr>o_status := Payment_failed, o_updated_at := db_now d1\<rparr>]"
    unfolding f(1) at_status_def e(1) using e(3) by (simp add: upd_none)
  then show "\<exists>r. orders d' = orders d @ [r] \<and> o_id r = o_id ord \<and> o_status r = Payment_failed" by simp
qed


lemma demo_payments_ok1: "table_ok (payment_spec demo_db1) (payments demo_db1)"
  by (simp add: table_ok_def conflict_free_def payment_row_ok demo_db1_def demo_payment_def new_payment_def
      demo_order_def new_order_def fits_int8_def currency_format_def upper_ascii_def)

lemma demo_settleable: "settleable demo_order 108 demo_db1"
  using demo_orders_ok1 demo_payments_ok1 demo_keys_ok1 demo_ledger1 demo_fresh1
  by (simp add: settleable_def) (simp add: demo_db1_def demo_order_def)

lemma demo_declines:
  "\<exists>d'. checkout demo_env (demo_pay demo_refusal) (\<lambda>x. x) demo_request (demo_db, 0) =
     (Inl (DomainError (PaymentDeclined ''card declined'')), (d', 1))"
proof -
  have "null_or card_last4_format (card_last4 demo_refusal)"
    by (simp add: demo_refusal_simps card_last4_format_def ustr_def)
  from compensate_succeeds [OF demo_settleable this] obtain d' where
    "compensate demo_order 108 demo_refusal ''k1'' demo_db1 = Inr d'" by blast
  then show ?thesis unfolding demo_checkout
    by (simp add: checkout_tx2_def demo_refusal_simps in_transaction_def checkout_answer_def or_else_def)
qed


lemma claim_key_in_progress:
  assumes "key_row key d = Some k" and "ik_status k = In_progress" and "ik_request_hash k = hashed"
    and "length hashed = 64"
  shows "claim_key key hashed d = Inl (DomainError (IdempotencyInProgress key))"
proof -
  have "claim key hashed d = Inr (None, d\<lparr>uuid_pos := Suc (uuid_pos d)\<rparr>)"
    using assms(1,4) by (simp add: claim_Inr)
  with assms(1-3) show ?thesis by (simp add: claim_key_def get_key_def)
qed

lemma tx2_unresolved:
  assumes "(\<exists>e. checkout_tx2 ord pid result key d = Inl e \<and> Inl (DomainError (PaymentUnresolved why)) = Inl e \<and> d' = d) \<or>
      (\<exists>body. checkout_tx2 ord pid result key d = Inr (body, d') \<and>
         Inl (DomainError (PaymentUnresolved why)) = checkout_answer ord result body)"
  shows "leave_unresolved pid result d = Inr d' \<and> outcome result = Outcome_unknown \<and>
    why = or_else (failure_reason result) ''unknown''"
  using assms tx2_no_answer [of ord pid result key d]
  by (cases "outcome result") (auto simp: checkout_tx2_def checkout_answer_def bind_r_Inr about_payment_def split: option.split_asm)


definition demo_silence :: payment_result where
  "demo_silence = \<lparr>outcome = Outcome_unknown, reference = None, failure_reason = Some ''timeout'',
     card_brand = None, card_last4 = None\<rparr>"


section \<open>The charge and the transactions\<close>

text \<open>
  C15: the provider is asked between the transactions. Whatever the session does, it is never asked
  while the session has a transaction open: how it would answer then makes no difference to any run,
  and if the first block returns without ending its transaction the saga raises and the provider keeps
  its state. On a session as SQLAlchemy documents it that does not happen: the saga on its session is
  the checkout, and on every path, errors included, it ends without a transaction.
\<close>

theorem provider_is_asked_between_transactions:
  "((\<forall>s cr q. \<not> in_tx api s \<longrightarrow> ask s cr q = ask' s cr q) \<longrightarrow>
      checkout_in_session env api ask elsewhere rq = checkout_in_session env api ask' elsewhere rq) \<and>
   (\<forall>pt s ord pay s1. bind_r (env_geocode env (rq_address rq)) (\<lambda>c. to_point (lon c) (lat c)) = Inr pt \<and>
      with_begin api (checkout_tx1 env rq pt) s = (Inr (ord, pay), s1) \<and> in_tx api s1 \<longrightarrow>
      checkout_in_session env api ask elsewhere rq (s, p) = (Inl open_transaction, (s1, p))) \<and>
   (documented api idle opened \<and> (\<forall>d. elsewhere (idle d) = idle (between d)) \<longrightarrow>
      checkout_in_session env api (\<lambda>_. charge) elsewhere rq (idle d, p) =
        (let (r, (d', p')) = checkout env charge between rq (d, p) in (r, (idle d', p'))))"
proof (intro conjI)
  show "(\<forall>s cr q. \<not> in_tx api s \<longrightarrow> ask s cr q = ask' s cr q) \<longrightarrow>
      checkout_in_session env api ask elsewhere rq = checkout_in_session env api ask' elsewhere rq"
    using asked_outside_transactions [of api ask ask'] by blast
  show "\<forall>pt s ord pay s1. bind_r (env_geocode env (rq_address rq)) (\<lambda>c. to_point (lon c) (lat c)) = Inr pt \<and>
      with_begin api (checkout_tx1 env rq pt) s = (Inr (ord, pay), s1) \<and> in_tx api s1 \<longrightarrow>
      checkout_in_session env api ask elsewhere rq (s, p) = (Inl open_transaction, (s1, p))"
    by (intro allI impI) (elim conjE, rule open_transaction_stops)
  show "documented api idle opened \<and> (\<forall>d. elsewhere (idle d) = idle (between d)) \<longrightarrow>
      checkout_in_session env api (\<lambda>_. charge) elsewhere rq (idle d, p) =
        (let (r, (d', p')) = checkout env charge between rq (d, p) in (r, (idle d', p')))"
    using checkout_in_documented_session [of api idle opened elsewhere between env charge rq d p] by (auto simp: Let_def)
qed

text \<open>
  A session that is the committed database and perhaps a transaction's own, as documented; and one
  whose blocks do not end.
\<close>

definition demo_session :: "(db \<times> db option) session_api" where
  "demo_session = \<lparr>
     begin_tx = (\<lambda>(d, w). if w = None then Inr (d, Some d) else Inl (RuntimeError ''A transaction is already begun'')),
     end_tx = (\<lambda>ok (d, w). (None, if ok then (the w, None) else (d, None))),
     in_tx = (\<lambda>(d, w). w \<noteq> None), tables = (\<lambda>(d, w). the w), store = (\<lambda>x (d, w). (d, Some x))\<rparr>"

definition demo_leaky :: "(db \<times> db option) session_api" where
  "demo_leaky = demo_session\<lparr>end_tx := \<lambda>ok s. (None, s)\<rparr>"

theorem provider_is_asked_between_transactions_witness:
  "(\<exists>body d'. checkout_in_session demo_env demo_session (\<lambda>_. demo_pay demo_result) (\<lambda>s. s) demo_request ((demo_db, None), 0) =
     (Inr \<lparr>co_order_id = 101, co_body = body, co_status_code = 201\<rparr>, ((d', None), 1))) \<and>
   checkout_in_session demo_env demo_leaky (\<lambda>_. demo_pay demo_result) (\<lambda>s. s) demo_request ((demo_db, None), 0) =
     (Inl open_transaction, ((demo_db, Some demo_db1), 0))"
proof
  have doc: "documented demo_session (\<lambda>d. (d, None)) (\<lambda>d x. (d, Some x))"
    by (simp add: documented_def demo_session_def)
  obtain body d' where "checkout demo_env (demo_pay demo_result) (\<lambda>x. x) demo_request (demo_db, 0) =
      (Inr \<lparr>co_order_id = 101, co_body = body, co_status_code = 201\<rparr>, (d', 1))" using demo_confirms by blast
  with provider_is_asked_between_transactions [THEN conjunct2, THEN conjunct2, rule_format, of demo_session "\<lambda>d. (d, None)"
      "\<lambda>d x. (d, Some x)" "\<lambda>s. s" "\<lambda>x. x" demo_env "demo_pay demo_result" demo_request demo_db 0] doc
  show "\<exists>body d'. checkout_in_session demo_env demo_session (\<lambda>_. demo_pay demo_result) (\<lambda>s. s) demo_request ((demo_db, None), 0) =
     (Inr \<lparr>co_order_id = 101, co_body = body, co_status_code = 201\<rparr>, ((d', None), 1))" by simp
  have "with_begin demo_leaky (checkout_tx1 demo_env demo_request (1, 0)) (demo_db, None) =
      (Inr (demo_order, demo_payment), (demo_db, Some demo_db1))"
    by (simp add: with_begin_def demo_leaky_def demo_session_def demo_tx1)
  moreover have "bind_r (env_geocode demo_env (rq_address demo_request)) (\<lambda>c. to_point (lon c) (lat c)) = Inr (1, 0)"
    by (simp add: demo_env_def to_point_def)
  moreover have "in_tx demo_leaky (demo_db, Some demo_db1)" by (simp add: demo_leaky_def demo_session_def)
  ultimately show "checkout_in_session demo_env demo_leaky (\<lambda>_. demo_pay demo_result) (\<lambda>s. s) demo_request ((demo_db, None), 0) =
     (Inl open_transaction, ((demo_db, Some demo_db1), 0))"
    by (intro provider_is_asked_between_transactions [THEN conjunct2, THEN conjunct1, rule_format]) blast
qed

section \<open>A good order gets through\<close>

definition shop_ok :: "db \<Rightarrow> bool" where
  "shop_ok d \<longleftrightarrow> ledger_ok d \<and> uuids_fresh d \<and> table_ok product_spec (products d) \<and>
     table_ok (order_spec d) (orders d) \<and> table_ok (payment_spec d) (payments d) \<and>
     table_ok (idempotency_spec d) (idempotency_keys d) \<and> refs_ok d"

lemma payment_spec_grows:
  assumes "table_ok (payment_spec d) rows" and "o_id ` set (orders d) \<subseteq> o_id ` set (orders d')"
  shows "table_ok (payment_spec d') rows"
proof -
  have "row_ok (payment_spec d') r" if "row_ok (payment_spec d) r" for r
    using that assms(2) by (auto simp: payment_row_ok)
  moreover have "uniques (payment_spec d') = uniques (payment_spec d)" by (simp add: payment_spec_def)
  ultimately show ?thesis using assms(1) by (simp add: table_ok_def list_all_iff)
qed

lemma sym_payments: "sym_uniques (uniques (payment_spec d))"
  by (auto simp: sym_uniques_def payment_spec_def)

lemma create_pending_keeps_table:
  assumes "create_pending oid amt cur descr prov d = Inr (pay, d')" and "table_ok (payment_spec d) (payments d)"
  shows "table_ok (payment_spec d') (payments d')"
proof -
  have "insert_row (payment_spec d) pay (payments d) = Inr (payments d')" and "payment_spec d' = payment_spec d"
    using assms(1) by (auto simp: create_pending_def gen_random_uuid_def Let_def bind_r_Inr insert_row_Inr)
  with insert_row_table_ok [OF sym_payments _ assms(2)] show ?thesis by metis
qed

lemma claimed_state:
  assumes "shop_ok d" and "key_row key d = None" and "length hashed = 64"
  shows "\<exists>d0. claim_key key hashed d = Inr d0 \<and> shop_ok d0 \<and> only_keys d d0"
proof -
  let ?d0 = "d\<lparr>idempotency_keys := idempotency_keys d @ [fresh_key_row key hashed d],
                uuid_pos := Suc (uuid_pos d)\<rparr>"
  have s: "uuids_fresh d" "table_ok (idempotency_spec d) (idempotency_keys d)" using assms(1)
    by (simp_all add: shop_ok_def)
  have "uuid_seq d (uuid_pos d) \<notin> ik_id ` set (idempotency_keys d)"
    using uuids_fresh_next [OF s(1)] by (auto simp: used_ids_def)
  then have c: "claim_key key hashed d = Inr ?d0"
    using claim_key_by_row [OF s(2) assms(3)] assms(2) by simp
  have "uuids_fresh ?d0"
    by (rule uuids_fresh_step [OF s(1)]) (auto simp: used_ids_def)
  moreover have "table_ok (idempotency_spec ?d0) (idempotency_keys ?d0)"
    using claim_key_keeps_table [OF c s(2)] by simp
  ultimately have "shop_ok ?d0"
    using assms(1) only_keys_frame [OF claim_key_only_keys [OF c]]
    by (simp add: shop_ok_def refs_ok_def)
  with c claim_key_only_keys [OF c] show ?thesis by blast
qed

lemma orderable_only_keys:
  assumes "only_keys d d0"
  shows "orderable env cid addr items d0 = orderable env cid addr items d"
    and "get_by_ids ids d0 = get_by_ids ids d"
  using only_keys_frame [OF assms] by (simp_all add: orderable_def get_by_ids_def)

text \<open>On such a database an orderable request gets as far as its payment.\<close>

lemma tx1_up_to_payment:
  assumes "shop_ok d" and "orderable env (rq_customer rq) (rq_address rq) (rq_items rq) d"
    and "key_row (rq_key rq) d = None" and "length (rq_hash rq) = 64"
  shows "\<exists>d0 ord d2. claim_key (rq_key rq) (rq_hash rq) d = Inr d0 \<and>
    create_in_transaction env (rq_customer rq) (rq_address rq) (rq_items rq) pt d0 = Inr (ord, d2) \<and>
    shop_ok d0 \<and> uuids_fresh d2 \<and> table_ok (order_spec d2) (orders d2) \<and> row_ok (order_spec d0) ord \<and>
    o_status ord = Reserved \<and> orders d2 = orders d0 @ [ord] \<and> payments d2 = payments d0 \<and>
    o_total_minor ord = basket_total (get_by_ids (set (map product_id (rq_items rq))) d) (rq_items rq)"
proof -
  have dist: "distinct (map product_id (rq_items rq))" using assms(2) by (simp add: orderable_def)
  obtain d0 where d0: "claim_key (rq_key rq) (rq_hash rq) d = Inr d0" "shop_ok d0" "only_keys d d0"
    using claimed_state [OF assms(1,3,4)] by blast
  note s0 = d0(2) [unfolded shop_ok_def]
  have "orderable env (rq_customer rq) (rq_address rq) (rq_items rq) d0"
    using assms(2) by (simp add: orderable_only_keys(1) [OF d0(3)])
  from create_in_transaction_succeeds [OF this, of pt] s0 obtain ord d2 where
    cr: "create_in_transaction env (rq_customer rq) (rq_address rq) (rq_items rq) pt d0 = Inr (ord, d2)"
    and f2: "uuids_fresh d2" and o2: "table_ok (order_spec d2) (orders d2)" by blast
  obtain c where "created env (rq_customer rq) (rq_address rq) (rq_items rq) pt d0 ord d2 c"
    using create_in_transaction_Inr(1) [OF cr _ dist] s0 by blast
  note cc = this [unfolded created_from_def]
  have ord0: "ord = (new_order (uuid_seq d0 (uuid_pos d0)) (rq_customer rq) (wh_id (cr_warehouse c))
      (rq_address rq) pt (o_currency ord) (basket_total (cr_products c) (rq_items rq)) (db_now d0))
      \<lparr>o_status := Reserved\<rparr>" and ps: "cr_products c = get_by_ids (set (map product_id (rq_items rq))) d0"
    and row: "row_ok (order_spec d0) ord" and os: "orders d2 = orders d0 @ [ord]"
    and pays: "payments d2 = payments d0" using cc by blast+
  have "o_total_minor ord = basket_total (cr_products c) (rq_items rq)"
    by (subst ord0) (simp add: new_order_def)
  then have "o_total_minor ord = basket_total (get_by_ids (set (map product_id (rq_items rq))) d) (rq_items rq)"
    by (simp add: ps orderable_only_keys(2) [OF d0(3)])
  moreover have "o_status ord = Reserved" by (subst ord0) simp
  ultimately show ?thesis using d0(1,2) cr f2 o2 row os pays by blast
qed

lemma checkout_tx1_succeeds:
  assumes "shop_ok d" and "orderable env (rq_customer rq) (rq_address rq) (rq_items rq) d"
    and "key_row (rq_key rq) d = None" and "length (rq_hash rq) = 64"
    and "0 < basket_total (get_by_ids (set (map product_id (rq_items rq))) d) (rq_items rq)"
  shows "\<exists>ord pay d1. checkout_tx1 env rq pt d = Inr ((ord, pay), d1) \<and> settleable ord (pay_id pay) d1"
proof -
  have dist: "distinct (map product_id (rq_items rq))" using assms(2) by (simp add: orderable_def)
  obtain d0 ord d2 where d0: "claim_key (rq_key rq) (rq_hash rq) d = Inr d0" "shop_ok d0"
    and cr: "create_in_transaction env (rq_customer rq) (rq_address rq) (rq_items rq) pt d0 = Inr (ord, d2)"
    and f2: "uuids_fresh d2" and o2: "table_ok (order_spec d2) (orders d2)"
    and row: "row_ok (order_spec d0) ord" and st: "o_status ord = Reserved"
    and os: "orders d2 = orders d0 @ [ord]" and pays: "payments d2 = payments d0"
    and tot: "o_total_minor ord = basket_total (get_by_ids (set (map product_id (rq_items rq))) d) (rq_items rq)"
    using tx1_up_to_payment [OF assms(1-4), of pt] by blast
  have pos: "0 < o_total_minor ord" using assms(5) tot by simp
  let ?descr = "''Order '' @ uuid_str (o_id ord)"
  let ?pay = "new_payment (uuid_seq d2 (uuid_pos d2)) (o_id ord) (o_total_minor ord) (o_currency ord)
      ?descr ''mock'' (db_now d2)"
  let ?d1 = "d2\<lparr>payments := payments d2 @ [?pay], uuid_pos := Suc (uuid_pos d2)\<rparr>"
  have cp: "create_pending (o_id ord) (o_total_minor ord) (o_currency ord) ?descr ''mock'' d2 = Inr (?pay, ?d1)"
    using row pos os uuids_fresh_next [OF f2]
    by (auto simp: create_pending_Inr payment_row_ok order_row_ok used_ids_def)
  then have tx1: "checkout_tx1 env rq pt d = Inr ((ord, ?pay), ?d1)"
    using d0(1) cr by (simp add: checkout_tx1_def)
  have led: "ledger_ok d" and keys: "table_ok (idempotency_spec d) (idempotency_keys d)"
    using assms(1) by (simp_all add: shop_ok_def)
  have "table_ok (payment_spec d2) (payments d2)"
    unfolding pays by (rule payment_spec_grows [of d0]) (use d0(2) os in \<open>auto simp: shop_ok_def\<close>)
  from create_pending_keeps_table [OF cp this]
  have "table_ok (payment_spec ?d1) (payments ?d1)" .
  moreover have "table_ok (order_spec ?d1) (orders ?d1)" using o2 by simp
  moreover have "uuids_fresh ?d1" by (rule uuids_fresh_step [OF f2]) (auto simp: used_ids_def)
  ultimately have "settleable ord (pay_id ?pay) ?d1"
    using tx1_keeps_keys [OF tx1 led dist keys] checkout_tx1_effect(11) [OF tx1 led dist] os st
    by (simp add: settleable_def)
  with tx1 show ?thesis by blast
qed

lemma new_payment_can_be_paid:
  assumes "checkout_tx1 env rq pt d = Inr ((ord, pay), d1)" and "ledger_ok d"
    and "distinct (map product_id (rq_items rq))" and "table_ok (payment_spec d) (payments d)"
    and "\<forall>q \<in> set (payments d). provider_reference q = None \<or> provider_reference q \<noteq> ref"
  shows "can_be_paid (pay_id pay) ref d1"
proof -
  note e = checkout_tx1_effect [OF assms(1-3)]
  have "pay_order_id q \<in> o_id ` set (orders d)" if "q \<in> set (payments d)" for q
    using that assms(4) by (auto simp: table_ok_def list_all_iff payment_row_ok)
  moreover have "o_id ord \<notin> o_id ` set (orders d)" using e(3) by auto
  ultimately have "\<forall>q \<in> set (payments d). pay_order_id q \<noteq> pay_order_id pay" using e(5) by metis
  with assms(5) show ?thesis
    unfolding can_be_paid_def e(4) by (intro bexI [of _ pay]) auto
qed

text \<open>A warehouse that can supply the whole basket and none that can is nearer to the address.\<close>

definition nearest_able :: "env \<Rightarrow> postal_address \<Rightarrow> requested_item list \<Rightarrow> db \<Rightarrow> warehouse_row \<Rightarrow> bool" where
  "nearest_able env addr items d w \<longleftrightarrow> w \<in> set (able d items) \<and>
     (\<exists>co pt. env_geocode env addr = Inr co \<and> to_point (lon co) (lat co) = Inr pt \<and>
        (\<forall>x \<in> set (able d items). warehouse_rank (env_pg env) pt w \<le> warehouse_rank (env_pg env) pt x))"

text \<open>The body of a success says what was asked, what it costs and who ships it.\<close>

definition answer_fits :: "env \<Rightarrow> checkout_request \<Rightarrow> db \<Rightarrow> order_row \<Rightarrow> order_response \<Rightarrow> bool" where
  "answer_fits env rq d ord body \<longleftrightarrow>
     (let ps = get_by_ids (set (map product_id (rq_items rq))) d; tot = basket_total ps (rq_items rq) in
      resp_id body = o_id ord \<and> resp_status body = Confirmed \<and>
      map (\<lambda>x. (io_product_id x, io_quantity x)) (resp_items body) =
        map (\<lambda>i. (product_id i, quantity i)) (rq_items rq) \<and>
      resp_total_minor body = tot \<and> o_total_minor ord = tot \<and>
      list_all (\<lambda>i. pr_currency (the (ps (product_id i))) = resp_currency body) (rq_items rq) \<and>
      (\<exists>w. nearest_able env (rq_address rq) (rq_items rq) d w \<and>
         resp_warehouse body = map_option warehouse_out_of (List.find (\<lambda>x. wh_id x = wh_id w) (warehouses d))))"

text \<open>The answer's body, rendered after the order that was appended last changed its status.\<close>

lemma rendered_new_order:
  assumes "render (o_id ord) ref d' = Inr body" and "orders d' = at_status (o_id ord) st d1"
    and "orders d1 = os @ [ord]" and "\<forall>r \<in> set os. o_id r \<noteq> o_id ord"
  shows "resp_id body = o_id ord \<and> resp_status body = st \<and> resp_total_minor body = o_total_minor ord \<and>
    resp_currency body = o_currency ord \<and> resp_payment_reference body = ref \<and>
    resp_items body = map item_out_of (filter (\<lambda>i. oi_order_id i = o_id ord) (order_items d')) \<and>
    resp_warehouse body = map_option warehouse_out_of (case o_warehouse_id ord of None \<Rightarrow> None
      | Some w \<Rightarrow> List.find (\<lambda>x. wh_id x = w) (warehouses d'))"
proof -
  have "List.find (\<lambda>r. o_id r = o_id ord) (os @ [ord]) = Some ord"
    using assms(4) by (induction os) auto
  then have "List.find (\<lambda>r. o_id r = o_id ord) (orders d') = Some (ord\<lparr>o_status := st, o_updated_at := db_now d1\<rparr>)"
    unfolding assms(2) at_status_def by (subst find_upd) (simp_all add: assms(3))
  with assms(1) show ?thesis by (auto simp: render_def get_for_response_def bind_r_Inr)
qed

lemma line_content_out:
  assumes "map line_content ls = map (snapshot oid ps) (map (\<lambda>i. (product_id i, quantity i)) items)"
    and "\<forall>i \<in> set items. pr_id (the (ps (product_id i))) = product_id i"
  shows "map (\<lambda>x. (io_product_id x, io_quantity x)) (map item_out_of ls) =
      map (\<lambda>i. (product_id i, quantity i)) items" and "\<forall>l \<in> set ls. oi_order_id l = oid"
proof -
  have len: "length ls = length items" using arg_cong [OF assms(1), of length] by simp
  have each: "line_content (ls ! n) = snapshot oid ps (product_id (items ! n), quantity (items ! n))"
    if "n < length items" for n
    using arg_cong [OF assms(1), of "\<lambda>xs. xs ! n"] that len by simp
  show "map (\<lambda>x. (io_product_id x, io_quantity x)) (map item_out_of ls) = map (\<lambda>i. (product_id i, quantity i)) items"
    by (rule nth_equalityI) (use len each assms(2) in \<open>auto simp: item_out_of_def line_content_def snapshot_def Let_def\<close>)
  have "oi_order_id (ls ! n) = oid" if "n < length ls" for n
    using each [of n] that len by (simp add: line_content_def snapshot_def Let_def)
  then show "\<forall>l \<in> set ls. oi_order_id l = oid" by (metis in_set_conv_nth)
qed

text \<open>What the first transaction chose, on the database it began with.\<close>

lemma checkout_tx1_chose:
  assumes tx1: "checkout_tx1 env rq pt d = Inr ((ord, pay), d1)" and led: "ledger_ok d"
    and dist: "distinct (map product_id (rq_items rq))" and refs: "refs_ok d"
  shows "o_total_minor ord = basket_total (get_by_ids (set (map product_id (rq_items rq))) d) (rq_items rq)"
    and "\<forall>i \<in> set (rq_items rq).
      pr_currency (the (get_by_ids (set (map product_id (rq_items rq))) d (product_id i))) = o_currency ord"
    and "\<exists>w. o_warehouse_id ord = Some (wh_id w) \<and> nearest_able env (rq_address rq) (rq_items rq) d w"
    and "map (\<lambda>x. (io_product_id x, io_quantity x))
        (map item_out_of (filter (\<lambda>i. oi_order_id i = o_id ord) (order_items d1))) =
      map (\<lambda>i. (product_id i, quantity i)) (rq_items rq)"
proof -
  from checkout_tx1_Inr [OF tx1] obtain d0 d2 where
    d0: "claim_key (rq_key rq) (rq_hash rq) d = Inr d0" and
    d2: "create_in_transaction env (rq_customer rq) (rq_address rq) (rq_items rq) pt d0 = Inr (ord, d2)" and
    d3: "create_pending (o_id ord) (o_total_minor ord) (o_currency ord)
           (''Order '' @ uuid_str (o_id ord)) ''mock'' d2 = Inr (pay, d1)" .
  note ok = claim_key_only_keys [OF d0]
  note k = only_keys_frame [OF ok]
  have "ledger_ok d0" using led by (simp add: k)
  from create_in_transaction_Inr(1) [OF d2 this dist] obtain c where
    c: "created env (rq_customer rq) (rq_address rq) (rq_items rq) pt d0 ord d2 c" ..
  note cc = c [unfolded created_from_def]
  let ?ps = "get_by_ids (set (map product_id (rq_items rq))) d"
  have ps: "cr_products c = ?ps" using cc orderable_only_keys(2) [OF ok] by simp
  have ord: "ord = (new_order (uuid_seq d0 (uuid_pos d0)) (rq_customer rq) (wh_id (cr_warehouse c))
      (rq_address rq) pt (o_currency ord) (basket_total (cr_products c) (rq_items rq)) (db_now d0))
      \<lparr>o_status := Reserved\<rparr>" using cc by blast
  show "o_total_minor ord = basket_total ?ps (rq_items rq)" by (subst ord) (simp add: new_order_def ps)
  show "\<forall>i \<in> set (rq_items rq). pr_currency (the (?ps (product_id i))) = o_currency ord"
    using cc unfolding ps by blast
  have "o_warehouse_id ord = Some (wh_id (cr_warehouse c))" by (subst ord) (simp add: new_order_def)
  moreover have "nearest_able env (rq_address rq) (rq_items rq) d (cr_warehouse c)"
    using cc unfolding nearest_able_def k by blast
  ultimately show "\<exists>w. o_warehouse_id ord = Some (wh_id w) \<and> nearest_able env (rq_address rq) (rq_items rq) d w" by blast
  have lines: "map line_content (cr_lines c) = map (snapshot (o_id ord) ?ps) (map (\<lambda>i. (product_id i, quantity i)) (rq_items rq))"
    and oi: "order_items d1 = order_items d @ cr_lines c" and fresh: "\<forall>r \<in> set (orders d). o_id r \<noteq> o_id ord"
    and known: "\<forall>i \<in> set (rq_items rq). ?ps (product_id i) \<noteq> None"
    using cc d3 by (auto simp: create_pending_Inr k ps)
  have "pr_id (the (?ps (product_id i))) = product_id i" if "i \<in> set (rq_items rq)" for i
    using known that get_by_ids_SomeD by fastforce
  note out = line_content_out [OF lines] this
  have "filter (\<lambda>i. oi_order_id i = o_id ord) (order_items d) = []"
    using refs fresh by (force simp: refs_ok_def filter_empty_conv)
  then have "filter (\<lambda>i. oi_order_id i = o_id ord) (order_items d1) = cr_lines c"
    using out by (simp add: oi)
  with out show "map (\<lambda>x. (io_product_id x, io_quantity x))
        (map item_out_of (filter (\<lambda>i. oi_order_id i = o_id ord) (order_items d1))) =
      map (\<lambda>i. (product_id i, quantity i)) (rq_items rq)" by simp
qed

text \<open>
  A good order gets through. On a consistent database, a request with an unused key whose basket
  is orderable and costs something is confirmed whenever the provider says yes to its card with four
  ASCII digits of it and a reference it has not given before. The answer lists what was asked for with the
  sum of its prices, and the warehouse that ships it is the nearest of those that have everything.
\<close>

theorem orderable_checkout_is_confirmed:
  assumes "shop_ok d" and "orderable env (rq_customer rq) (rq_address rq) (rq_items rq) d"
    and "key_row (rq_key rq) d = None" and "length (rq_hash rq) = 64"
    and "0 < basket_total (get_by_ids (set (map product_id (rq_items rq))) d) (rq_items rq)"
    and "\<And>cr. cr_card cr = rq_card rq \<Longrightarrow> outcome (fst (charge cr p)) = Outcome_succeeded"
    and "\<And>cr. cr_card cr = rq_card rq \<Longrightarrow> null_or card_last4_format (card_last4 (fst (charge cr p)))"
    and "\<And>cr. cr_card cr = rq_card rq \<Longrightarrow> \<forall>q \<in> set (payments d). provider_reference q = None \<or>
           provider_reference q \<noteq> reference (fst (charge cr p))"
  shows "\<exists>ord body d'. checkout env charge (\<lambda>x. x) rq (d, p) =
      (Inr \<lparr>co_order_id = o_id ord, co_body = body, co_status_code = 201\<rparr>,
        (d', snd (charge (charge_request_of rq ord) p))) \<and>
    answer_fits env rq d ord body"
proof -
  obtain pt where pt: "bind_r (env_geocode env (rq_address rq)) (\<lambda>c. to_point (lon c) (lat c)) = Inr pt"
    using assms(2) unfolding orderable_def by (auto simp: bind_r_Inr)
  obtain ord pay d1 where tx1: "checkout_tx1 env rq pt d = Inr ((ord, pay), d1)"
    and st: "settleable ord (pay_id pay) d1"
    using checkout_tx1_succeeds [OF assms(1-5)] by blast
  obtain result p' where ch: "charge (charge_request_of rq ord) p = (result, p')" by fastforce
  have r: "outcome result = Outcome_succeeded" "null_or card_last4_format (card_last4 result)"
    "\<forall>q \<in> set (payments d). provider_reference q = None \<or> provider_reference q \<noteq> reference result"
    using assms(6,7,8) [of "charge_request_of rq ord"] ch by (simp_all add: charge_request_of_def)
  have dist: "distinct (map product_id (rq_items rq))" using assms(2) by (simp add: orderable_def)
  have led: "ledger_ok d" and refs: "refs_ok d" using assms(1) by (simp_all add: shop_ok_def)
  from new_payment_can_be_paid [OF tx1 _ dist _ r(3)] assms(1)
  have "can_be_paid (pay_id pay) (reference result) d1" by (simp add: shop_ok_def)
  from complete_succeeds [OF st this r(2), of "rq_key rq"] obtain body d' where
    c: "complete ord (pay_id pay) result (rq_key rq) d1 = Inr (body, d')" by blast
  note e = checkout_tx1_effect [OF tx1 led dist]
  have "distinct (map o_id (orders d1))" using st
    by (auto simp: settleable_def order_spec_def elim: table_ok_distinct [where n = "''pk_orders''"])
  note f = complete_effect [OF c this]
  note body = rendered_new_order [OF f(9,1) e(1,3)]
  note chose = checkout_tx1_chose [OF tx1 led dist refs]
  have "answer_fits env rq d ord body"
    using body chose f(12,14) e(18) by (auto simp: answer_fits_def list_all_iff)
  then show ?thesis using pt tx1 ch c r(1)
    by (auto simp: checkout_def in_transaction_def checkout_tx2_def checkout_answer_def)
qed

lemma demo_shop_ok: "shop_ok demo_db"
  using demo_ledger demo_fresh demo_products_ok demo_orders_ok demo_keys_ok
  by (simp add: shop_ok_def) (simp add: refs_ok_def demo_db_def table_ok_def conflict_free_def)

theorem orderable_checkout_is_confirmed_witness:
  "\<exists>ord body d'. checkout demo_env (demo_pay demo_result) (\<lambda>x. x) demo_request (demo_db, 0) =
      (Inr \<lparr>co_order_id = o_id ord, co_body = body, co_status_code = 201\<rparr>,
        (d', snd (demo_pay demo_result (charge_request_of demo_request ord) 0))) \<and>
    answer_fits demo_env demo_request demo_db ord body"
proof (rule orderable_checkout_is_confirmed [OF demo_shop_ok])
  show "orderable demo_env (rq_customer demo_request) (rq_address demo_request) (rq_items demo_request) demo_db"
    using demo_orderable by (simp add: demo_request_def)
  show "0 < basket_total (get_by_ids (set (map product_id (rq_items demo_request))) demo_db) (rq_items demo_request)"
    by (simp add: basket_total_def get_by_ids_def demo_items_def demo_db_def demo_product_def)
qed (simp_all add: demo_db_def key_row_def demo_hash_def demo_pay_def demo_result_simps card_last4_format_def ustr_def)

end
