(* ===== verification/Request.thy ===== *)
theory Request
  imports Orders Text
begin

text \<open>
  \<^verbatim>\<open>app/schemas/order.py\<close>, the request side: the field constraints of
  \<^verbatim>\<open>CreateOrderRequest\<close>, the card check with its Luhn sum, and the rule against duplicate
  products. What Python's Unicode tables say of a code point is a parameter. The lemmas show that the
  checksum detects every change of one digit, and what an accepted request guarantees.
\<close>

section \<open>Cards\<close>

text \<open>\<^verbatim>\<open>str.isdigit\<close> of one character, and \<^verbatim>\<open>int(char)\<close>, which takes fewer of them.\<close>

record ucd =
  is_digit :: "nat \<Rightarrow> bool"
  digit_value :: "nat \<Rightarrow> int option"

text \<open>
  \<^verbatim>\<open>_luhn_ok\<close>: \<open>luhn_loop\<close> is its loop over the reversed digits, from a position and a running
  total. The message of the \<^verbatim>\<open>ValueError\<close> ends in the character itself, which is left out.
\<close>

definition luhn_value :: "nat \<Rightarrow> int \<Rightarrow> int" where
  "luhn_value index value =
     (if index mod 2 = 1 then (let v = value * 2 in if v > 9 then v - 9 else v) else value)"

fun luhn_loop :: "ucd \<Rightarrow> nat \<Rightarrow> ustr \<Rightarrow> int \<Rightarrow> exc + int" where
  "luhn_loop u index [] tot = Inr tot"
| "luhn_loop u index (c # cs) tot =
     (case digit_value u c of
        None \<Rightarrow> Inl (ValueError ''invalid literal for int() with base 10'')
      | Some v \<Rightarrow> luhn_loop u (Suc index) cs (tot + luhn_value index v))"

definition luhn_ok :: "ucd \<Rightarrow> ustr \<Rightarrow> exc + bool" where
  "luhn_ok u digits = bind_r (luhn_loop u 0 (rev digits) 0) (\<lambda>tot. Inr (tot mod 10 = 0))"

definition strip_card :: "ustr \<Rightarrow> ustr" where
  "strip_card raw = filter (\<lambda>c. c \<noteq> 45) (filter (\<lambda>c. c \<noteq> 32) raw)"

definition validate_card :: "ucd \<Rightarrow> ustr \<Rightarrow> exc + ustr" where
  "validate_card u raw =
     (let digits = strip_card raw in
      if digits = [] \<or> \<not> list_all (is_digit u) digits then
        Inl (ValueError ''card number must contain only digits, spaces or hyphens'')
      else if \<not> (12 \<le> length digits \<and> length digits \<le> 19) then
        Inl (ValueError ''card number must be between 12 and 19 digits'')
      else bind_r (luhn_ok u digits) (\<lambda>ok.
        if \<not> ok then Inl (ValueError ''card number failed checksum validation'') else Inr raw))"

section \<open>The request\<close>

record order_item_in =
  in_product_id :: uuid
  in_quantity :: int

record create_order_request =
  req_customer_id :: uuid
  req_address :: postal_address
  req_items :: "order_item_in list"
  req_card_number :: ustr

text \<open>
  One failure per violated field constraint. The messages are Pydantic's own and only their kind is
  kept; those of this module's validators are \<open>Value_error\<close>.
\<close>

datatype problem = Too_short | Too_long | Pattern_mismatch | Not_greater_than | Value_error exc

definition ascii_letter :: "nat \<Rightarrow> bool" where
  "ascii_letter c \<longleftrightarrow> (65 \<le> c \<and> c \<le> 90) \<or> (97 \<le> c \<and> c \<le> 122)"

definition ascii_upper :: "nat \<Rightarrow> nat" where
  "ascii_upper c = (if 97 \<le> c \<and> c \<le> 122 then c - 32 else c)"

definition sized :: "string \<Rightarrow> nat \<Rightarrow> nat \<Rightarrow> ustr \<Rightarrow> (string \<times> problem) list" where
  "sized field lo hi s =
     (if length s < lo then [(field, Too_short)] else if length s > hi then [(field, Too_long)] else [])"

text \<open>\<^verbatim>\<open>ShippingAddressIn\<close>: sizes, and the country pattern once the size is right.\<close>

definition address_problems :: "postal_address \<Rightarrow> (string \<times> problem) list" where
  "address_problems a =
     sized ''shipping_address.line1'' 1 200 (line1 a) @
     (case line2 a of None \<Rightarrow> [] | Some s \<Rightarrow> sized ''shipping_address.line2'' 0 200 s) @
     sized ''shipping_address.city'' 1 120 (city a) @
     sized ''shipping_address.postal_code'' 1 20 (postal_code a) @
     (case sized ''shipping_address.country_code'' 2 2 (country_code a) of
        [] \<Rightarrow> if list_all ascii_letter (country_code a) then []
              else [(''shipping_address.country_code'', Pattern_mismatch)]
      | ps \<Rightarrow> ps)"

definition items_problems :: "order_item_in list \<Rightarrow> (string \<times> problem) list" where
  "items_problems items =
     (if items = [] then [(''items'', Too_short)]
      else map (\<lambda>(k, _). (''items.'' @ nat_str k @ ''.quantity'', Not_greater_than))
             (filter (\<lambda>(_, i). \<not> in_quantity i > 0) (enumerate 0 items)))"

definition card_problems :: "ucd \<Rightarrow> ustr \<Rightarrow> (string \<times> problem) list" where
  "card_problems u raw =
     (case validate_card u raw of Inl e \<Rightarrow> [(''card_number'', Value_error e)] | Inr _ \<Rightarrow> [])"

text \<open>\<^verbatim>\<open>_no_duplicate_products\<close>: the loop with its set of ids seen so far.\<close>

fun first_duplicate :: "uuid set \<Rightarrow> order_item_in list \<Rightarrow> uuid option" where
  "first_duplicate seen [] = None"
| "first_duplicate seen (i # is) =
     (if in_product_id i \<in> seen then Some (in_product_id i)
      else first_duplicate (insert (in_product_id i) seen) is)"

definition validate_request ::
  "ucd \<Rightarrow> create_order_request \<Rightarrow> (string \<times> problem) list + create_order_request" where
  "validate_request u rq =
     (let ps = address_problems (req_address rq) @ items_problems (req_items rq) @
               card_problems u (req_card_number rq)
      in if ps \<noteq> [] then Inl ps
         else if first_duplicate {} (req_items rq) \<noteq> None
         then Inl [(''body'', Value_error (ValueError ''duplicate product_id in items''))]
         else Inr (rq\<lparr>req_address := (req_address rq)\<lparr>country_code :=
                      map ascii_upper (country_code (req_address rq))\<rparr>\<rparr>))"

section \<open>The checksum\<close>

text \<open>The sum the loop computes, on digit values.\<close>

fun luhn_sum :: "nat \<Rightarrow> int list \<Rightarrow> int" where
  "luhn_sum index [] = 0"
| "luhn_sum index (v # vs) = luhn_value index v + luhn_sum (Suc index) vs"

lemma luhn_loop_sum:
  "list_all2 (\<lambda>c v. digit_value u c = Some v) cs vs \<Longrightarrow>
     luhn_loop u index cs tot = Inr (tot + luhn_sum index vs)"
  by (induction cs vs arbitrary: index tot rule: list_all2_induct) (auto simp: add.assoc)

lemma luhn_loop_values:
  "luhn_loop u index cs tot = Inr t \<Longrightarrow> \<exists>vs. list_all2 (\<lambda>c v. digit_value u c = Some v) cs vs"
proof (induction cs arbitrary: index tot)
  case (Cons c cs)
  then obtain v where v: "digit_value u c = Some v" "luhn_loop u (Suc index) cs (tot + luhn_value index v) = Inr t"
    by (auto split: option.split_asm)
  from Cons.IH [OF v(2)] obtain vs where "list_all2 (\<lambda>c v. digit_value u c = Some v) cs vs" by blast
  with v(1) have "list_all2 (\<lambda>c v. digit_value u c = Some v) (c # cs) (v # vs)" by simp
  then show ?case by blast
qed auto

lemma luhn_sum_append: "luhn_sum index (xs @ ys) = luhn_sum index xs + luhn_sum (index + length xs) ys"
  by (induction xs arbitrary: index) auto

text \<open>The weight of a digit at its position: ten different values modulo ten.\<close>

lemma digit_cases:
  "0 \<le> (v::int) \<Longrightarrow> v \<le> 9 \<Longrightarrow> v \<in> {0, 1, 2, 3, 4, 5, 6, 7, 8, 9}"
  by simp presburger

lemma luhn_value_inj:
  assumes "0 \<le> v" "v \<le> 9" "0 \<le> w" "w \<le> 9" and "luhn_value index v mod 10 = luhn_value index w mod 10"
  shows "v = w"
  using digit_cases [OF assms(1,2)] digit_cases [OF assms(3,4)] assms(5)
  by (cases "index mod 2 = 1") (auto simp: luhn_value_def Let_def)

lemma one_digit_changes_sum:
  assumes "0 \<le> v" "v \<le> 9" "0 \<le> w" "w \<le> 9" and "v \<noteq> w"
  shows "luhn_sum 0 (xs @ v # ys) mod 10 \<noteq> luhn_sum 0 (xs @ w # ys) mod 10"
proof
  let ?k = "luhn_sum 0 xs + luhn_sum (Suc (length xs)) ys"
  assume "luhn_sum 0 (xs @ v # ys) mod 10 = luhn_sum 0 (xs @ w # ys) mod 10"
  then have "(?k + luhn_value (length xs) v) mod 10 = (?k + luhn_value (length xs) w) mod 10"
    by (simp add: luhn_sum_append algebra_simps)
  then have "luhn_value (length xs) v mod 10 = luhn_value (length xs) w mod 10"
    by (metis add_diff_cancel_left' mod_diff_left_eq)
  with luhn_value_inj [OF assms(1-4)] assms(5) show False by blast
qed

text \<open>A table that agrees with the standard on what this module relies on.\<close>

definition ucd_ok :: "ucd \<Rightarrow> bool" where
  "ucd_ok u \<longleftrightarrow> (\<forall>c v. digit_value u c = Some v \<longrightarrow> 0 \<le> v \<and> v \<le> 9)"

lemma luhn_ok_iff:
  assumes "list_all2 (\<lambda>c v. digit_value u c = Some v) cs vs"
  shows "luhn_ok u cs = Inr (luhn_sum 0 (rev vs) mod 10 = 0)"
  using luhn_loop_sum [of u "rev cs" "rev vs" 0 0] assms by (simp add: luhn_ok_def)

lemma luhn_one_digit:
  assumes u: "ucd_ok u" and ok: "luhn_ok u (as @ c # bs) = Inr True"
    and c: "digit_value u c = Some v" and c': "digit_value u c' = Some w" and ne: "v \<noteq> w"
  shows "luhn_ok u (as @ c' # bs) = Inr False"
proof -
  let ?val = "\<lambda>c v. digit_value u c = Some v"
  obtain t where "luhn_loop u 0 (rev (as @ c # bs)) 0 = Inr t"
    using ok by (auto simp: luhn_ok_def bind_r_Inr)
  from luhn_loop_values [OF this] obtain vs where "list_all2 ?val (rev (as @ c # bs)) vs" by blast
  then have "list_all2 ?val (as @ c # bs) (rev vs)" by (metis list_all2_rev rev_rev_ident)
  then obtain xs x ys where vs: "rev vs = xs @ x # ys" "list_all2 ?val as xs" "?val c x" "list_all2 ?val bs ys"
    by (auto simp: list_all2_append1 list_all2_Cons1)
  have x: "x = v" using vs(3) c by simp
  have "list_all2 ?val (as @ c # bs) (xs @ v # ys)" "list_all2 ?val (as @ c' # bs) (xs @ w # ys)"
    using vs(2,4) c c' by (auto intro: list_all2_appendI)
  then have e: "luhn_ok u (as @ c # bs) = Inr (luhn_sum 0 (rev ys @ v # rev xs) mod 10 = 0)"
    "luhn_ok u (as @ c' # bs) = Inr (luhn_sum 0 (rev ys @ w # rev xs) mod 10 = 0)"
    using luhn_ok_iff by fastforce+
  have "0 \<le> v" "v \<le> 9" "0 \<le> w" "w \<le> 9" using u c c' by (auto simp: ucd_ok_def)
  from one_digit_changes_sum [OF this ne, of "rev ys" "rev xs"] e ok show ?thesis by auto
qed

section \<open>What an accepted request guarantees\<close>

lemma first_duplicate_None:
  "first_duplicate seen is = None \<longleftrightarrow> distinct (map in_product_id is) \<and> seen \<inter> in_product_id ` set is = {}"
  by (induction "is" arbitrary: seen) auto

lemma upper_country:
  assumes "length s = 2" and "list_all ascii_letter s"
  shows "country_code_format (map ascii_upper s)"
  using assms by (auto simp: country_code_format_def list_all_iff ascii_letter_def ascii_upper_def upper_ascii_def)

lemma sized_Nil: "sized f lo hi s = [] \<longleftrightarrow> lo \<le> length s \<and> length s \<le> hi"
  by (auto simp: sized_def)

lemma validate_request_Inr:
  assumes "validate_request u rq = Inr rq'"
  shows "country_code_format (country_code (req_address rq'))" and "req_items rq' \<noteq> []"
    and "distinct (map in_product_id (req_items rq'))" and "\<forall>i \<in> set (req_items rq'). 0 < in_quantity i"
    and "validate_card u (req_card_number rq') = Inr (req_card_number rq')"
    and "req_items rq' = req_items rq" and "req_card_number rq' = req_card_number rq"
    and "1 \<le> length (line1 (req_address rq')) \<and> length (line1 (req_address rq')) \<le> 200"
proof -
  have a: "address_problems (req_address rq) = []" and i: "items_problems (req_items rq) = []" and
    c: "card_problems u (req_card_number rq) = []" and f: "first_duplicate {} (req_items rq) = None" and
    rq': "rq' = rq\<lparr>req_address := (req_address rq)\<lparr>country_code :=
                      map ascii_upper (country_code (req_address rq))\<rparr>\<rparr>"
    using assms by (auto simp: validate_request_def Let_def split: if_splits)
  have s: "sized ''shipping_address.country_code'' 2 2 (country_code (req_address rq)) = []"
    "list_all ascii_letter (country_code (req_address rq))"
    using a by (auto simp: address_problems_def split: list.splits if_splits)
  then show "country_code_format (country_code (req_address rq'))"
    using upper_country by (simp add: rq' sized_Nil)
  show "req_items rq' \<noteq> []" using i by (auto simp: items_problems_def rq' split: if_splits)
  have "\<forall>x \<in> set (enumerate 0 (req_items rq)). 0 < in_quantity (snd x)"
    using i by (auto simp: items_problems_def filter_empty_conv split: if_splits)
  then have "\<forall>i \<in> set (map snd (enumerate 0 (req_items rq))). 0 < in_quantity i"
    by (simp del: map_snd_enumerate)
  then show "\<forall>i \<in> set (req_items rq'). 0 < in_quantity i" unfolding map_snd_enumerate by (simp add: rq')
  show "distinct (map in_product_id (req_items rq'))" using f by (simp add: rq' first_duplicate_None)
  obtain x where x: "validate_card u (req_card_number rq) = Inr x"
    using c by (auto simp: card_problems_def split: sum.splits)
  then have "x = req_card_number rq"
    by (auto simp: validate_card_def Let_def bind_r_Inr split: if_splits)
  with x show "validate_card u (req_card_number rq') = Inr (req_card_number rq')" by (simp add: rq')
  show "req_items rq' = req_items rq" "req_card_number rq' = req_card_number rq" by (simp_all add: rq')
  have "sized ''shipping_address.line1'' 1 200 (line1 (req_address rq)) = []"
    using a by (auto simp: address_problems_def)
  then show "1 \<le> length (line1 (req_address rq')) \<and> length (line1 (req_address rq')) \<le> 200"
    by (simp add: rq' sized_Nil)
qed

text \<open>
  The last four of an accepted card are four digits, but only ASCII digits are what the column takes.
\<close>

lemma validate_card_last4:
  assumes "validate_card u raw = Inr x"
  shows "length (drop (length (strip_card raw) - 4) (strip_card raw)) = 4"
    and "\<forall>c \<in> set (strip_card raw). is_digit u c \<and> digit_value u c \<noteq> None"
proof -
  have d: "list_all (is_digit u) (strip_card raw)" "12 \<le> length (strip_card raw)"
    "luhn_ok u (strip_card raw) = Inr True"
    using assms by (auto simp: validate_card_def Let_def bind_r_Inr split: if_splits)
  show "length (drop (length (strip_card raw) - 4) (strip_card raw)) = 4" using d(2) by simp
  obtain t where "luhn_loop u 0 (rev (strip_card raw)) 0 = Inr t"
    using d(3) by (auto simp: luhn_ok_def bind_r_Inr)
  from luhn_loop_values [OF this] obtain vs where
    "list_all2 (\<lambda>c v. digit_value u c = Some v) (rev (strip_card raw)) vs" by blast
  then have "\<forall>c \<in> set (rev (strip_card raw)). digit_value u c \<noteq> None"
    by (induction rule: list_all2_induct) auto
  with d(1) show "\<forall>c \<in> set (strip_card raw). is_digit u c \<and> digit_value u c \<noteq> None"
    by (simp add: list_all_iff)
qed

end
