(* ===== verification/Api.thy ===== *)
theory Api
  imports Settlement Request
begin

text \<open>
  \<^verbatim>\<open>app/api/routes/orders.py\<close> and \<^verbatim>\<open>app/api/errors.py\<close>, with
  \<^verbatim>\<open>request_hash\<close> of \<^verbatim>\<open>app/repositories/idempotency.py\<close>: what goes over the wire.
  \<open>post_orders\<close> is the whole request: validation, the route, and the exception handlers. The lemmas
  show that the hash does not see the card, that no 5xx answer carries a detail, and that a repeated
  request gets the first one's answer without touching the database or the provider.
\<close>

section \<open>The canonical body and its hash\<close>

datatype json = JNull | JNum int | JStr ustr | JArr "json list" | JObj "(string \<times> json) list"

text \<open>
  \<^verbatim>\<open>json.dumps(..., sort_keys=True, separators=(",", ":"))\<close>: ASCII only, with surrogate pairs
  beyond the basic plane.
\<close>

definition json_char :: "nat \<Rightarrow> string" where
  "json_char c =
     (let bs = char_of (92::nat) in
      if c = 34 \<or> c = 92 then [bs, char_of c]
      else if c = 10 then [bs, CHR ''n''] else if c = 13 then [bs, CHR ''r'']
      else if c = 9 then [bs, CHR ''t''] else if c = 12 then [bs, CHR ''f'']
      else if c = 8 then [bs, CHR ''b'']
      else if 32 \<le> c \<and> c \<le> 126 then [char_of c]
      else if c < 65536 then [bs, CHR ''u''] @ hex 4 c
      else [bs, CHR ''u''] @ hex 4 (55296 + (c - 65536) div 1024) @
           [bs, CHR ''u''] @ hex 4 (56320 + (c - 65536) mod 1024))"

definition json_str :: "ustr \<Rightarrow> string" where
  "json_str s = [char_of (34::nat)] @ concat (map json_char s) @ [char_of (34::nat)]"

fun dumps :: "json \<Rightarrow> string" where
  "dumps JNull = ''null''"
| "dumps (JNum n) = int_str n"
| "dumps (JStr s) = json_str s"
| "dumps (JArr xs) = ''['' @ join '','' (map dumps xs) @ '']''"
| "dumps (JObj ms) =
     ''{'' @ join '','' (map (\<lambda>(k, v). json_str (ustr k) @ '':'' @ v)
        (sort_key fst (map (\<lambda>(k, v). (k, dumps v)) ms))) @ ''}''"

text \<open>\<^verbatim>\<open>payload.model_dump(mode="json")\<close>: the card is excluded by its field.\<close>

definition payload_json :: "create_order_request \<Rightarrow> json" where
  "payload_json rq =
     JObj [(''customer_id'', JStr (ustr (uuid_str (req_customer_id rq)))),
           (''shipping_address'', JObj
             [(''line1'', JStr (line1 (req_address rq))),
              (''line2'', case line2 (req_address rq) of None \<Rightarrow> JNull | Some s \<Rightarrow> JStr s),
              (''city'', JStr (city (req_address rq))),
              (''postal_code'', JStr (postal_code (req_address rq))),
              (''country_code'', JStr (country_code (req_address rq)))]),
           (''items'', JArr (map (\<lambda>i. JObj [(''product_id'', JStr (ustr (uuid_str (in_product_id i)))),
                                          (''quantity'', JNum (in_quantity i))]) (req_items rq)))]"

text \<open>\<^verbatim>\<open>hashlib.sha256(...).hexdigest()\<close> is the parameter \<open>sha\<close>.\<close>

definition request_hash :: "(string \<Rightarrow> string) \<Rightarrow> json \<Rightarrow> string" where
  "request_hash sha body = sha (dumps body)"

section \<open>Responses\<close>

datatype error_code =
    Validation_error | Customer_not_found | Product_not_found | No_warehouse_available
  | Insufficient_stock | Payment_declined_code | Payment_unresolved_code | Geocoding_failed_code
  | Idempotency_key_conflict | Idempotency_in_progress_code | Internal_error

fun error_code_value :: "error_code \<Rightarrow> string" where
  "error_code_value Validation_error = ''validation_error''"
| "error_code_value Customer_not_found = ''customer_not_found''"
| "error_code_value Product_not_found = ''product_not_found''"
| "error_code_value No_warehouse_available = ''no_warehouse_available''"
| "error_code_value Insufficient_stock = ''insufficient_stock''"
| "error_code_value Payment_declined_code = ''payment_declined''"
| "error_code_value Payment_unresolved_code = ''payment_unresolved''"
| "error_code_value Geocoding_failed_code = ''geocoding_failed''"
| "error_code_value Idempotency_key_conflict = ''idempotency_key_conflict''"
| "error_code_value Idempotency_in_progress_code = ''idempotency_in_progress''"
| "error_code_value Internal_error = ''internal_error''"

record error_response =
  er_type :: string
  er_title :: string
  er_status :: int
  er_detail :: "string option"
  er_instance :: string
  er_code :: error_code
  er_errors :: "(string \<times> problem) list option"

datatype http_body = Order_body order_response | Empty_object | Problem error_response

record http_response =
  http_status :: int
  media_type :: string
  location :: "string option"
  http_body :: http_body

fun error_mapping :: "domain_error \<Rightarrow> int \<times> error_code \<times> string" where
  "error_mapping (UnknownProduct _) = (422, Product_not_found, ''Unknown product'')"
| "error_mapping (MixedCurrencyBasket _) = (422, Validation_error, ''Mixed currencies'')"
| "error_mapping (IdempotencyKeyReuse _) = (422, Idempotency_key_conflict, ''Idempotency key reuse'')"
| "error_mapping IdempotencyKeyRequired = (400, Validation_error, ''Idempotency key required'')"
| "error_mapping (NoEligibleWarehouse _ _) = (409, No_warehouse_available, ''No warehouse can fulfill this'')"
| "error_mapping (InsufficientStock _ _) = (409, Insufficient_stock, ''Insufficient stock'')"
| "error_mapping (IdempotencyInProgress _) = (409, Idempotency_in_progress_code, ''Request already in progress'')"
| "error_mapping (PaymentDeclined _) = (402, Payment_declined_code, ''Payment declined'')"
| "error_mapping (PaymentUnresolved _) = (502, Payment_unresolved_code, ''Payment outcome unknown'')"
| "error_mapping (GeocodingFailed _) = (502, Geocoding_failed_code, ''Address could not be resolved'')"
| "error_mapping (InvalidStateTransition _ _ _) = (500, Internal_error, ''Internal error'')"

definition make_problem ::
  "int \<Rightarrow> error_code \<Rightarrow> string \<Rightarrow> string option \<Rightarrow> string \<Rightarrow> (string \<times> problem) list option \<Rightarrow> http_response" where
  "make_problem st code title detail path errs =
     \<lparr>http_status = st, media_type = ''application/problem+json'', location = None,
      http_body = Problem \<lparr>er_type = ''about:blank#'' @ error_code_value code, er_title = title,
        er_status = st, er_detail = detail, er_instance = path, er_code = code, er_errors = errs\<rparr>\<rparr>"

definition on_domain_error :: "string \<Rightarrow> domain_error \<Rightarrow> http_response" where
  "on_domain_error path e =
     (case error_mapping e of (st, code, title) \<Rightarrow>
        make_problem st code title (if st \<ge> 500 then None else Some (domain_error_str e)) path None)"

text \<open>The handler for body validation, its field paths already joined with dots.\<close>

definition on_validation_error :: "string \<Rightarrow> (string \<times> problem) list \<Rightarrow> http_response" where
  "on_validation_error path ps =
     make_problem 422 Validation_error ''Request validation failed''
       (Some ''The request body did not pass validation.'') path (Some ps)"

definition on_unhandled :: "string \<Rightarrow> http_response" where
  "on_unhandled path = make_problem 500 Internal_error ''Internal error'' None path None"

definition on_exception :: "string \<Rightarrow> exc \<Rightarrow> http_response" where
  "on_exception path e = (case e of DomainError de \<Rightarrow> on_domain_error path de | _ \<Rightarrow> on_unhandled path)"

section \<open>The route\<close>

text \<open>\<^verbatim>\<open>str.strip\<close> of a Latin-1 header value is empty when every character is white space.\<close>

definition py_space :: "char \<Rightarrow> bool" where
  "py_space c \<longleftrightarrow> (let n = (of_char c :: nat) in (9 \<le> n \<and> n \<le> 13) \<or> (28 \<le> n \<and> n \<le> 32) \<or> n = 133 \<or> n = 160)"

definition order_location :: "uuid \<Rightarrow> string" where
  "order_location oid = ''/orders/'' @ uuid_str oid"

definition checkout_request_of :: "(string \<Rightarrow> string) \<Rightarrow> string \<Rightarrow> create_order_request \<Rightarrow> checkout_request" where
  "checkout_request_of sha key rq =
     \<lparr>rq_key = key, rq_hash = request_hash sha (payload_json rq), rq_customer = req_customer_id rq,
      rq_address = req_address rq,
      rq_items = map (\<lambda>i. \<lparr>product_id = in_product_id i, quantity = in_quantity i\<rparr>) (req_items rq),
      rq_card = req_card_number rq\<rparr>"

definition make_items :: "order_item_in list \<Rightarrow> exc + requested_item list" where
  "make_items items =
     fold_r (\<lambda>i acc. bind_r (mk_requested_item (in_product_id i) (in_quantity i)) (\<lambda>r. Inr (acc @ [r]))) items []"

definition create_order_route ::
  "env \<Rightarrow> (string \<Rightarrow> string) \<Rightarrow> (charge_request \<Rightarrow> 'p \<Rightarrow> payment_result \<times> 'p) \<Rightarrow> (db \<Rightarrow> db) \<Rightarrow>
   string option \<Rightarrow> create_order_request \<Rightarrow> db \<times> 'p \<Rightarrow> (exc + http_response) \<times> (db \<times> 'p)" where
  "create_order_route env sha charge between idem rq s =
     (case idem of
        None \<Rightarrow> (Inl (DomainError IdempotencyKeyRequired), s)
      | Some key \<Rightarrow>
        if list_all py_space key then (Inl (DomainError IdempotencyKeyRequired), s) else
        (case make_items (req_items rq) of
           Inl e \<Rightarrow> (Inl e, s)
         | Inr items \<Rightarrow>
           (case checkout env charge between ((checkout_request_of sha key rq)\<lparr>rq_items := items\<rparr>) s of
              (Inl (ReplayedResponse body st), s') \<Rightarrow>
                (Inr \<lparr>http_status = st, media_type = ''application/json'',
                      location = Some (case body of None \<Rightarrow> ''/orders/'' | Some b \<Rightarrow> order_location (resp_id b)),
                      http_body = (case body of None \<Rightarrow> Empty_object | Some b \<Rightarrow> Order_body b)\<rparr>, s')
            | (Inl e, s') \<Rightarrow> (Inl e, s')
            | (Inr r, s') \<Rightarrow>
                (Inr \<lparr>http_status = 201, media_type = ''application/json'',
                      location = Some (order_location (co_order_id r)),
                      http_body = Order_body (co_body r)\<rparr>, s'))))"

text \<open>The whole request: validation of the body, the route, the exception handlers.\<close>

definition post_orders ::
  "env \<Rightarrow> ucd \<Rightarrow> (string \<Rightarrow> string) \<Rightarrow> (charge_request \<Rightarrow> 'p \<Rightarrow> payment_result \<times> 'p) \<Rightarrow> (db \<Rightarrow> db) \<Rightarrow>
   string option \<Rightarrow> create_order_request \<Rightarrow> db \<times> 'p \<Rightarrow> http_response \<times> (db \<times> 'p)" where
  "post_orders env u sha charge between idem raw s =
     (case validate_request u raw of
        Inl ps \<Rightarrow> (on_validation_error ''/orders'' ps, s)
      | Inr rq \<Rightarrow>
        (case create_order_route env sha charge between idem rq s of
           (Inl e, s') \<Rightarrow> (on_exception ''/orders'' e, s')
         | (Inr resp, s') \<Rightarrow> (resp, s')))"

section \<open>What an answer reveals\<close>

lemma error_mapping_status: "fst (error_mapping e) \<in> {400, 402, 409, 422, 500, 502}"
  by (cases e) auto

lemma on_exception_problem:
  "\<exists>er. http_body (on_exception path e) = Problem er \<and> er_status er = http_status (on_exception path e) \<and>
     (500 \<le> er_status er \<longrightarrow> er_detail er = None) \<and> er_errors er = None \<and> location (on_exception path e) = None"
  by (cases e) (auto simp: on_exception_def on_domain_error_def on_unhandled_def make_problem_def
      split: prod.splits)

text \<open>The hash is a function of the request without its card.\<close>

lemma request_hash_ignores_card:
  "request_hash sha (payload_json (rq\<lparr>req_card_number := c\<rparr>)) = request_hash sha (payload_json rq)"
  by (simp add: payload_json_def)

lemma make_items_map:
  assumes "\<forall>i \<in> set items. 0 < in_quantity i"
  shows "make_items items = Inr (map (\<lambda>i. \<lparr>product_id = in_product_id i, quantity = in_quantity i\<rparr>) items)"
proof -
  have "fold_r (\<lambda>i acc. bind_r (mk_requested_item (in_product_id i) (in_quantity i)) (\<lambda>r. Inr (acc @ [r]))) items acc =
      Inr (acc @ map (\<lambda>i. \<lparr>product_id = in_product_id i, quantity = in_quantity i\<rparr>) items)" for acc
    using assms by (induction items arbitrary: acc) (auto simp: mk_requested_item_def)
  then show ?thesis by (simp add: make_items_def)
qed

section \<open>The second request with the same key\<close>

lemma complete_stores_answer:
  assumes "complete ord pid result key d = Inr (body, d')"
  shows "resp_id body = o_id ord"
    and "key_row key d' = map_option (\<lambda>r. r\<lparr>ik_status := Completed, ik_response_body := Some body,
           ik_response_status := Some 201, ik_order_id := Some (o_id ord), ik_updated_at := db_now d\<rparr>)
           (key_row key d)"
proof -
  from assms obtain d1 d2 d3 d4 d5 where
    d1: "mark_succeeded pid (reference result) (card_brand result) (card_last4 result) d = Inr d1" and
    d2: "transition (o_id ord) Reserved Paid (Some ''payment succeeded'') d1 = Inr d2" and
    d3: "transition (o_id ord) Paid Confirmed (Some ''order confirmed'') d2 = Inr d3" and
    d4: "settle_for_order (o_id ord) Committed d3 = Inr d4" and
    d5: "add_event ''order_confirmed'' (o_id ord) (confirmed_payload ord (reference result)) ''order'' d4 = Inr d5" and
    body: "render (o_id ord) (reference result) d5 = Inr body" and
    d6: "settle_completed key body 201 (o_id ord) d5 = Inr d'"
    by (auto simp: complete_def bind_r_Inr)
  show "resp_id body = o_id ord"
    using body by (auto simp: render_def get_for_response_def bind_r_Inr dest: find_SomeD split: option.splits)
  have e: "idempotency_keys d5 = idempotency_keys d" "db_now d5 = db_now d"
    using update_payment_Inr [OF d1 [unfolded mark_succeeded_def]] transition_Inr(3) [OF d2]
      transition_Inr(3) [OF d3] settle_for_order_frame [OF d4] d5 [unfolded add_event_Inr] by simp_all
  have "key_row key d5 = key_row key d" by (simp add: key_row_def e)
  then show "key_row key d' = map_option (\<lambda>r. r\<lparr>ik_status := Completed, ik_response_body := Some body,
           ik_response_status := Some 201, ik_order_id := Some (o_id ord), ik_updated_at := db_now d\<rparr>)
           (key_row key d)"
    using settle_completed_key_row [OF d6, of key] e(2) by simp
qed

text \<open>A first request that was answered 201: its order, its charge, and what its key now holds.\<close>

lemma checkout_success:
  assumes "checkout env charge between rq (d, p) = (Inr res, (d', p'))"
    and "\<And>x. key_row (rq_key rq) (between x) = key_row (rq_key rq) x"
  obtains r where "key_row (rq_key rq) d' = Some r" and "ik_status r = Completed"
    and "ik_request_hash r = rq_hash rq" and "ik_response_body r = Some (co_body res)"
    and "ik_response_status r = Some 201" and "resp_id (co_body res) = co_order_id res"
    and "length (rq_hash rq) = 64"
    and "\<exists>pt. bind_r (env_geocode env (rq_address rq)) (\<lambda>c. to_point (lon c) (lat c)) = Inr pt"
proof -
  obtain pt where pt: "bind_r (env_geocode env (rq_address rq)) (\<lambda>c. to_point (lon c) (lat c)) = Inr pt"
    using assms(1) by (auto simp: checkout_def split: sum.split_asm)
  then obtain ord pay d1 result where tx1: "checkout_tx1 env rq pt d = Inr ((ord, pay), d1)"
    and ch: "charge (charge_request_of rq ord) p = (result, p')"
    and rest: "(case in_transaction (checkout_tx2 ord (pay_id pay) result (rq_key rq)) (between d1) of
                (Inl e, d2) \<Rightarrow> (Inl e, (d2, p')) | (Inr body, d2) \<Rightarrow> (checkout_answer ord result body, (d2, p'))) =
               (Inr res, (d', p'))"
    using assms(1) by (auto simp: checkout_def in_transaction_def Let_def split: sum.split_asm prod.split_asm)
  then obtain body where tx2: "checkout_tx2 ord (pay_id pay) result (rq_key rq) (between d1) = Inr (body, d')"
    and ans: "checkout_answer ord result body = Inr res"
    by (auto simp: in_transaction_def split: sum.split_asm prod.split_asm)
  then obtain b where b: "outcome result = Outcome_succeeded" "body = Some b"
    "res = \<lparr>co_order_id = o_id ord, co_body = b, co_status_code = 201\<rparr>"
    by (auto simp: checkout_answer_def split: payment_outcome.split_asm option.split_asm)
  with tx2 have c: "complete ord (pay_id pay) result (rq_key rq) (between d1) = Inr (b, d')"
    by (auto simp: checkout_tx2_def bind_r_Inr)
  from checkout_tx1_Inr [OF tx1] obtain d0 d2 where
    k: "claim_key (rq_key rq) (rq_hash rq) d = Inr d0" and
    cr: "create_in_transaction env (rq_customer rq) (rq_address rq) (rq_items rq) pt d0 = Inr (ord, d2)" and
    cp: "create_pending (o_id ord) (o_total_minor ord) (o_currency ord)
           (''Order '' @ uuid_str (o_id ord)) ''mock'' d2 = Inr (pay, d1)" .
  obtain r0 where r0: "key_row (rq_key rq) d0 = Some r0" "ik_request_hash r0 = rq_hash rq"
    using claim_key_takes [OF k] by blast
  have "length (rq_hash rq) = 64"
    using k by (auto simp: claim_key_def bind_r_Inr claim_Inr)
  moreover have "key_row (rq_key rq) d1 = Some r0"
  proof -
    have "idempotency_keys d2 = idempotency_keys d0" by (rule create_in_transaction_keys [OF cr])
    moreover have "idempotency_keys d1 = idempotency_keys d2" using cp [unfolded create_pending_Inr] by simp
    ultimately show ?thesis using r0(1) by (simp add: key_row_def)
  qed
  ultimately show ?thesis
    using that complete_stores_answer [OF c] assms(2) r0(2) b(3) pt by simp
qed

text \<open>A completed key: the claim unwinds the first transaction, and nothing else happens.\<close>

lemma claim_key_completed:
  assumes "key_row key d = Some r" and "ik_status r = Completed" and "ik_request_hash r = hashed"
    and "ik_response_body r = Some b" and "ik_response_status r = Some 201" and "length hashed = 64"
  shows "claim_key key hashed d = Inl (ReplayedResponse (Some b) 201)"
proof -
  have "claim key hashed d = Inr (None, d\<lparr>uuid_pos := Suc (uuid_pos d)\<rparr>)"
    using assms(1,6) by (simp add: claim_Inr)
  with assms(1-5) show ?thesis by (simp add: claim_key_def get_key_def)
qed

lemma checkout_replay:
  assumes "key_row (rq_key rq) d = Some r" and "ik_status r = Completed"
    and "ik_request_hash r = rq_hash rq" and "ik_response_body r = Some b"
    and "ik_response_status r = Some 201" and "length (rq_hash rq) = 64"
    and "bind_r (env_geocode env (rq_address rq)) (\<lambda>c. to_point (lon c) (lat c)) = Inr pt"
  shows "checkout env charge between rq (d, p) = (Inl (ReplayedResponse (Some b) 201), (d, p))"
  using claim_key_completed [OF assms(1-6)] assms(7)
  by (simp add: checkout_def checkout_tx1_def in_transaction_def)

definition created_response :: "order_response \<Rightarrow> uuid \<Rightarrow> http_response" where
  "created_response b oid = \<lparr>http_status = 201, media_type = ''application/json'',
     location = Some (order_location oid), http_body = Order_body b\<rparr>"

lemma route_replay:
  assumes first: "checkout env charge between (checkout_request_of sha key rq) (d, p) = (Inr res, (d', p'))"
    and keeps: "\<And>x. key_row key (between x) = key_row key x"
    and same: "key_row key d'' = key_row key d'"
    and raw: "validate_request u raw = Inr rq'" "rq'\<lparr>req_card_number := req_card_number rq\<rparr> = rq"
    and key: "\<not> list_all py_space key"
  shows "post_orders env u sha charge' between' (Some key) raw (d'', p'') =
     (created_response (co_body res) (co_order_id res), (d'', p''))"
proof -
  have k: "rq_key (checkout_request_of sha key rq) = key" by (simp add: checkout_request_of_def)
  have keeps': "key_row (rq_key (checkout_request_of sha key rq)) (between x) =
      key_row (rq_key (checkout_request_of sha key rq)) x" for x using keeps by (simp only: k)
  from checkout_success [OF first keeps'] obtain r where
    r: "key_row (rq_key (checkout_request_of sha key rq)) d' = Some r" "ik_status r = Completed"
    "ik_request_hash r = rq_hash (checkout_request_of sha key rq)"
    "ik_response_body r = Some (co_body res)" "ik_response_status r = Some 201"
    and id: "resp_id (co_body res) = co_order_id res"
    and len: "length (rq_hash (checkout_request_of sha key rq)) = 64"
    and pt: "\<exists>pt. bind_r (env_geocode env (rq_address (checkout_request_of sha key rq)))
        (\<lambda>c. to_point (lon c) (lat c)) = Inr pt" .
  let ?items = "map (\<lambda>i. \<lparr>product_id = in_product_id i, quantity = in_quantity i\<rparr>) (req_items rq')"
  let ?co = "(checkout_request_of sha key rq')\<lparr>rq_items := ?items\<rparr>"
  obtain c where rq: "rq = rq'\<lparr>req_card_number := c\<rparr>" using raw(2) by metis
  have hash: "rq_hash ?co = rq_hash (checkout_request_of sha key rq)"
    unfolding rq by (simp add: checkout_request_of_def request_hash_ignores_card)
  have addr: "rq_address ?co = rq_address (checkout_request_of sha key rq)"
    unfolding rq by (simp add: checkout_request_of_def)
  obtain pt where pt': "bind_r (env_geocode env (rq_address ?co)) (\<lambda>c. to_point (lon c) (lat c)) = Inr pt"
    using pt unfolding addr by blast
  have "checkout env charge' between' ?co (d'', p'') =
      (Inl (ReplayedResponse (Some (co_body res)) 201), (d'', p''))"
    by (rule checkout_replay [OF _ r(2) _ r(4,5) _ pt'])
      (use r(1,3) same len hash in \<open>simp_all add: checkout_request_of_def\<close>)
  moreover have "make_items (req_items rq') = Inr ?items"
    by (rule make_items_map) (use validate_request_Inr(4) [OF raw(1)] in blast)
  ultimately show ?thesis
    using raw(1) key id by (simp add: post_orders_def create_order_route_def created_response_def)
qed

end
