(* ===== verification/System.thy ===== *)
theory System
  imports Settlement
begin

text \<open>
  The running system: any number of checkouts in flight, each between its two transactions, the
  sweeper, the outbox relay, whoever manages products, prices and stock levels, and the clock,
  interleaved transaction by transaction on one database and one mock provider. The SELECTs of a
  checkout's first transaction may have read any other states, \<open>seen\<close> and \<open>priced\<close>; its writes are
  one step. A flight may also disappear, which is a worker that dies or a second transaction that
  is refused. The invariant, proved for every reachable state, is what the saga is for: the ledger
  balances, the history replays, money and orders agree, and stock is held for live orders only.
  An order's id is a UUID, a number of 128 bits: that is the last premise of a checkout's first step.
\<close>

section \<open>Steps\<close>

record flight =
  fl_order :: order_row
  fl_payment :: uuid
  fl_request :: checkout_request
  fl_result :: "payment_result option"

record system =
  sys_db :: db
  flights :: "flight list"
  sys_provider :: mock

inductive sys_step :: "env \<Rightarrow> system \<Rightarrow> system \<Rightarrow> bool" for env where
  Begin: "env_geocode env (rq_address rq) = Inr co \<Longrightarrow> to_point (lon co) (lat co) = Inr pt \<Longrightarrow>
    distinct (map product_id (rq_items rq)) \<Longrightarrow>
    checkout_tx1_from_reads env rq pt seen priced (sys_db s) = Inr ((ord, pay), d') \<Longrightarrow> o_id ord < 2 ^ 128 \<Longrightarrow>
    sys_step env s (s\<lparr>sys_db := d', flights := flights s @
      [\<lparr>fl_order = ord, fl_payment = pay_id pay, fl_request = rq, fl_result = None\<rparr>]\<rparr>)"
| Charge: "flights s = fs @ f # gs \<Longrightarrow> fl_result f = None \<Longrightarrow>
    mock_charge (charge_request_of (fl_request f) (fl_order f)) (sys_provider s) = (result, p') \<Longrightarrow>
    sys_step env s (s\<lparr>flights := fs @ f\<lparr>fl_result := Some result\<rparr> # gs, sys_provider := p'\<rparr>)"
| Finish: "flights s = fs @ f # gs \<Longrightarrow> fl_result f = Some result \<Longrightarrow>
    checkout_tx2 (fl_order f) (fl_payment f) result (rq_key (fl_request f)) (sys_db s) = Inr (body, d') \<Longrightarrow>
    sys_step env s (s\<lparr>sys_db := d', flights := fs @ gs\<rparr>)"
| Lost: "flights s = fs @ f # gs \<Longrightarrow> sys_step env s (s\<lparr>flights := fs @ gs\<rparr>)"
| Sweep: "sweep_expired batch (sys_db s) = Inr (rel, d') \<Longrightarrow> sys_step env s (s\<lparr>sys_db := d'\<rparr>)"
| Publish: "mark_processed (map ob_id (claim_batch batch locked (sys_db s))) (sys_db s) = Inr d' \<Longrightarrow>
    sys_step env s (s\<lparr>sys_db := d'\<rparr>)"
| Manage: "managed (sys_db s) d' \<Longrightarrow> sys_step env s (s\<lparr>sys_db := d'\<rparr>)"
| Tick: "db_now (sys_db s) \<le> t \<Longrightarrow> sys_step env s (s\<lparr>sys_db := (sys_db s)\<lparr>db_now := t\<rparr>\<rparr>)"

inductive reachable :: "env \<Rightarrow> system \<Rightarrow> system \<Rightarrow> bool" for env where
  Here: "reachable env s s"
| Next: "reachable env s t \<Longrightarrow> sys_step env t u \<Longrightarrow> reachable env s u"

section \<open>The invariant\<close>

abbreviation confirmed_ids :: "db \<Rightarrow> uuid multiset" where
  "confirmed_ids d \<equiv> mset (map o_id (filter (\<lambda>r. o_status r = Confirmed) (orders d)))"

text \<open>
  Orders and money agree: exactly the confirmed orders have a succeeded payment and an event, one
  each, and a payment is for the total and in the currency of its order. Between transactions an
  order is reserved, confirmed or payment-failed.
\<close>

definition money_ok :: "db \<Rightarrow> bool" where
  "money_ok d \<longleftrightarrow>
     (\<forall>r \<in> set (orders d). o_status r \<in> {Reserved, Confirmed, Payment_failed}) \<and>
     mset (map pay_order_id (filter (\<lambda>p. pay_status p = Payment_succeeded) (payments d))) = confirmed_ids d \<and>
     mset (map aggregate_id (outbox d)) = confirmed_ids d \<and>
     (\<forall>p \<in> set (payments d). \<exists>r \<in> set (orders d).
        o_id r = pay_order_id p \<and> o_total_minor r = amount_minor p \<and> o_currency r = pay_currency p)"

text \<open>Active reservations belong to reserved orders, committed ones to confirmed orders.\<close>

definition holds_ok :: "db \<Rightarrow> bool" where
  "holds_ok d \<longleftrightarrow>
     (\<forall>s \<in> set (stock_reservations d). \<exists>r \<in> set (orders d). o_id r = sr_order_id s \<and>
        (sr_status s = Active \<longrightarrow> o_status r = Reserved) \<and>
        (sr_status s = Committed \<longrightarrow> o_status r = Confirmed))"

text \<open>A flight's order is reserved and its payment pending.\<close>

definition flights_ok :: "db \<Rightarrow> flight list \<Rightarrow> bool" where
  "flights_ok d fs \<longleftrightarrow>
     distinct (map (\<lambda>f. o_id (fl_order f)) fs) \<and>
     (\<forall>f \<in> set fs.
        (\<exists>r \<in> set (orders d). o_id r = o_id (fl_order f) \<and> o_status r = Reserved) \<and>
        (\<exists>p \<in> set (payments d). pay_id p = fl_payment f \<and> pay_order_id p = o_id (fl_order f) \<and>
           pay_status p = Payment_pending))"

text \<open>
  The provider: no key charged twice, every charged key is an order's, an answered flight has the
  provider's own answer, an unanswered one has not been charged, and what the database says of an
  order's payment is what the provider answered.
\<close>

definition provider_ok :: "db \<Rightarrow> flight list \<Rightarrow> mock \<Rightarrow> bool" where
  "provider_ok d fs p \<longleftrightarrow>
     mock_sound p \<and> distinct (charged_keys p) \<and>
     (\<forall>k. results p k \<noteq> None \<longrightarrow> (\<exists>r \<in> set (orders d). k = uuid_str (o_id r))) \<and>
     (\<forall>f \<in> set fs. results p (uuid_str (o_id (fl_order f))) = fl_result f) \<and>
     (\<forall>r \<in> set (orders d).
        (o_status r = Confirmed \<longrightarrow>
           (\<exists>a. results p (uuid_str (o_id r)) = Some a \<and> outcome a = Outcome_succeeded)) \<and>
        (o_status r = Payment_failed \<longrightarrow>
           (\<exists>a. results p (uuid_str (o_id r)) = Some a \<and> outcome a = Outcome_declined)))"

definition db_inv :: "db \<Rightarrow> bool" where
  "db_inv d \<longleftrightarrow> ledger_ok d \<and> history_ok d \<and> distinct (map o_id (orders d)) \<and>
     distinct (map pay_id (payments d)) \<and>
     (\<forall>r \<in> set (orders d). o_id r < 2 ^ 128) \<and> money_ok d \<and> holds_ok d"

definition sys_inv :: "system \<Rightarrow> bool" where
  "sys_inv s \<longleftrightarrow> db_inv (sys_db s) \<and> flights_ok (sys_db s) (flights s) \<and>
     provider_ok (sys_db s) (flights s) (sys_provider s)"

text \<open>A database before any order, with stock, and a provider that has not been used.\<close>

definition initial :: "system \<Rightarrow> bool" where
  "initial s \<longleftrightarrow> ledger_ok (sys_db s) \<and> orders (sys_db s) = [] \<and> order_status_history (sys_db s) = [] \<and>
     payments (sys_db s) = [] \<and> outbox (sys_db s) = [] \<and> stock_reservations (sys_db s) = [] \<and>
     flights s = [] \<and> sys_provider s = new_mock"

lemma initial_inv: "initial s \<Longrightarrow> sys_inv s"
  by (auto simp: initial_def sys_inv_def db_inv_def history_ok_def money_ok_def holds_ok_def
      flights_ok_def provider_ok_def new_mock_def mock_sound_def)

section \<open>Moving one order\<close>

lemma replay_append:
  "replay s (xs @ ys) = (case replay s xs of None \<Rightarrow> None | Some t \<Rightarrow> replay t ys)"
  by (induction xs arbitrary: s) auto

lemma history_ok_new_order:
  assumes "history_ok d" and "orders d' = orders d @ [ord]"
    and "order_status_history d' = order_status_history d @ hs"
    and "\<forall>h \<in> set hs. h_order_id h = o_id ord" and "replay None hs = Some (Some (o_status ord))"
    and "\<forall>r \<in> set (orders d). o_id r \<noteq> o_id ord"
  shows "history_ok d'"
proof -
  have hs: "filter (\<lambda>h. h_order_id h = oid) hs = (if oid = o_id ord then hs else [])" for oid
    using assms(4) by (auto simp: filter_empty_conv intro: filter_True)
  have "history_of d (o_id ord) = []"
    using assms(1,6) by (force simp: history_ok_def history_of_def filter_empty_conv)
  then have "history_of d' oid = (if oid = o_id ord then hs else history_of d oid)" for oid
    by (simp add: history_of_def assms(3) hs)
  then show ?thesis using assms by (auto simp: history_ok_def)
qed

lemma at_status_set:
  assumes "x \<in> set (at_status oid st d)"
  obtains r where "r \<in> set (orders d)" and
    "x = (if o_id r = oid then r\<lparr>o_status := st, o_updated_at := db_now d\<rparr> else r)"
  using assms unfolding at_status_def set_upd by auto

lemma at_status_member:
  "r \<in> set (orders d) \<Longrightarrow>
     (if o_id r = oid then r\<lparr>o_status := st, o_updated_at := db_now d\<rparr> else r) \<in> set (at_status oid st d)"
  unfolding at_status_def set_upd by blast

lemma history_ok_moved:
  assumes "history_ok d" and "orders d' = at_status oid st d"
    and "order_status_history d' = order_status_history d @ hs"
    and "\<forall>h \<in> set hs. h_order_id h = oid"
    and "r \<in> set (orders d)" "o_id r = oid" and "replay (Some (o_status r)) hs = Some (Some st)"
    and "distinct (map o_id (orders d))"
  shows "history_ok d'"
proof -
  have hs: "filter (\<lambda>h. h_order_id h = x) hs = (if x = oid then hs else [])" for x
    using assms(4) by (auto simp: filter_empty_conv intro: filter_True)
  have hist: "history_of d' x = history_of d x @ (if x = oid then hs else [])" for x
    by (simp add: history_of_def assms(3) hs)
  have "replay None (history_of d' (o_id x)) = Some (Some (o_status x))" if "x \<in> set (orders d')" for x
  proof -
    from that obtain y where y: "y \<in> set (orders d)"
      "x = (if o_id y = oid then y\<lparr>o_status := st, o_updated_at := db_now d\<rparr> else y)"
      unfolding assms(2) by (rule at_status_set)
    have "replay None (history_of d (o_id y)) = Some (Some (o_status y))"
      using assms(1) y(1) by (simp add: history_ok_def)
    moreover have "o_id y = oid \<Longrightarrow> y = r"
      using distinct_key_unique [OF assms(8) y(1) assms(5)] assms(6) by simp
    ultimately show ?thesis using y(2) assms(7) by (auto simp: hist replay_append)
  qed
  moreover have "o_id ` set (orders d') = o_id ` set (orders d)" by (simp add: assms(2))
  ultimately show ?thesis
    using assms(1,3-6) by (auto simp: history_ok_def intro: rev_image_eqI)
qed

text \<open>The confirmed orders after one order changed its status.\<close>

lemma confirmed_after_move:
  assumes "distinct (map o_id (orders d))" and "r \<in> set (orders d)" "o_id r = oid" "o_status r = Reserved"
    and "orders d' = at_status oid st d"
  shows "confirmed_ids d' = (if st = Confirmed then add_mset oid (confirmed_ids d) else confirmed_ids d)"
proof -
  obtain xs ys where s: "orders d = xs @ r # ys" using assms(2) by (auto simp: in_set_conv_decomp)
  have no: "\<forall>x \<in> set xs. o_id x \<noteq> oid" "\<forall>x \<in> set ys. o_id x \<noteq> oid"
    using assms(1,3) by (auto simp: s rev_image_eqI)
  have "at_status oid st d = xs @ r\<lparr>o_status := st, o_updated_at := db_now d\<rparr> # ys"
    using assms(3) no by (simp add: at_status_def s upd_none)
  then show ?thesis using assms(3,4) by (simp add: assms(5) s)
qed

text \<open>The succeeded payments after one payment was settled.\<close>

lemma succeeded_after_upd:
  assumes "distinct (map pay_id (payments d))" and "p \<in> set (payments d)" "pay_id p = pid"
    and "pay_status p \<noteq> Payment_succeeded" and "pay_order_id (f p) = pay_order_id p"
  shows "mset (map pay_order_id (filter (\<lambda>p. pay_status p = Payment_succeeded)
            (upd (\<lambda>r. pay_id r = pid) f (payments d)))) =
    (if pay_status (f p) = Payment_succeeded then {#pay_order_id p#} else {#}) +
     mset (map pay_order_id (filter (\<lambda>p. pay_status p = Payment_succeeded) (payments d)))"
proof -
  obtain xs ys where s: "payments d = xs @ p # ys" using assms(2) by (auto simp: in_set_conv_decomp)
  have no: "\<forall>x \<in> set xs. pay_id x \<noteq> pid" "\<forall>x \<in> set ys. pay_id x \<noteq> pid"
    using assms(1,3) by (auto simp: s rev_image_eqI)
  show ?thesis using assms(3-5) no by (simp add: s upd_none)
qed

section \<open>Every step keeps the invariant\<close>

lemma mset_confirmed_append:
  "orders d' = orders d @ [ord] \<Longrightarrow> o_status ord = Reserved \<Longrightarrow> confirmed_ids d' = confirmed_ids d"
  by simp

lemma begin_db_inv:
  assumes tx1: "checkout_tx1_from_reads env rq pt seen priced d = Inr ((ord, pay), d')" and inv: "db_inv d"
    and dist: "distinct (map product_id (rq_items rq))" and bits: "o_id ord < 2 ^ 128"
  shows "db_inv d'"
proof -
  have led: "ledger_ok d" using inv by (simp add: db_inv_def)
  note e = checkout_tx1_from_reads_effect [OF tx1 led dist]
  note r = checkout_tx1_from_reads_rows [OF tx1 led dist]
  obtain h1 h2 where h: "order_status_history d' = order_status_history d @
      [history_entry (o_id ord) None Pending (Some ''order created'') h1,
       history_entry (o_id ord) (Some Pending) Reserved (Some ''stock reserved'') h2]"
    using e(20) by blast
  have hist: "history_ok d'"
    by (rule history_ok_new_order [OF _ e(1) h _ _ e(3)]) (use inv e(2) in \<open>auto simp: db_inv_def\<close>)
  from r(3) obtain w :: warehouse_row and new where new: "stock_reservations d' = stock_reservations d @ new"
    "map reservation_content new = map (\<lambda>i. (o_id ord, wh_id w, product_id i, quantity i, Active,
       db_now d + seconds (reservation_ttl_seconds env))) (lock_order (rq_items rq) (wh_id w))" by blast
  have new': "sr_order_id s = o_id ord \<and> sr_status s = Active" if "s \<in> set new" for s
  proof -
    have "reservation_content s \<in> set (map reservation_content new)" using that by simp
    then show ?thesis unfolding new(2) by (auto simp: reservation_content_def)
  qed
  have holds: "holds_ok d'"
    using inv new' e(2) by (force simp: holds_ok_def db_inv_def new(1) e(1))
  have "confirmed_ids d' = confirmed_ids d" by (rule mset_confirmed_append [OF e(1,2)])
  moreover have "\<forall>p \<in> set (payments d'). \<exists>r \<in> set (orders d'). o_id r = pay_order_id p \<and>
      o_total_minor r = amount_minor p \<and> o_currency r = pay_currency p"
    using inv e(5,7,8) by (auto simp: db_inv_def money_ok_def e(1,4))
  ultimately have money: "money_ok d'"
    using inv e(2,6) by (simp add: db_inv_def money_ok_def e(1,4,13))
  have "\<forall>r \<in> set (orders d'). o_id r < 2 ^ 128" using inv bits by (simp add: db_inv_def e(1))
  moreover have "distinct (map o_id (orders d'))" using inv e(3) by (auto simp: db_inv_def e(1))
  moreover have "distinct (map pay_id (payments d'))" using inv r(2) by (simp add: db_inv_def e(4))
  ultimately show ?thesis using hist holds money e(11) by (simp add: db_inv_def)
qed

lemma begin_step:
  assumes tx1: "checkout_tx1_from_reads env rq pt seen priced (sys_db s) = Inr ((ord, pay), d')" and inv: "sys_inv s"
    and dist: "distinct (map product_id (rq_items rq))" and bits: "o_id ord < 2 ^ 128"
  shows "sys_inv (s\<lparr>sys_db := d', flights := flights s @
      [\<lparr>fl_order = ord, fl_payment = pay_id pay, fl_request = rq, fl_result = None\<rparr>]\<rparr>)"
proof -
  let ?d = "sys_db s"
  let ?f = "\<lparr>fl_order = ord, fl_payment = pay_id pay, fl_request = rq, fl_result = None\<rparr>"
  have dinv: "db_inv ?d" and fl: "flights_ok ?d (flights s)"
    and pr: "provider_ok ?d (flights s) (sys_provider s)" using inv by (simp_all add: sys_inv_def)
  have led: "ledger_ok ?d" using dinv by (simp add: db_inv_def)
  note e = checkout_tx1_from_reads_effect [OF tx1 led dist]
  have dinv': "db_inv d'" by (rule begin_db_inv [OF tx1 dinv dist bits])
  have newid: "o_id ord \<notin> (\<lambda>f. o_id (fl_order f)) ` set (flights s)"
    using fl e(3) by (force simp: flights_ok_def)
  have fl': "flights_ok d' (flights s @ [?f])"
    using fl newid e(2,5,6) by (fastforce simp: flights_ok_def e(1,4))
  have key_new: "uuid_str (o_id r) \<noteq> uuid_str (o_id ord)" if "r \<in> set (orders ?d)" for r
  proof
    assume "uuid_str (o_id r) = uuid_str (o_id ord)"
    moreover have "o_id r < 2 ^ 128" "o_id ord < 2 ^ 128"
      using dinv dinv' that by (simp_all add: db_inv_def e(1))
    ultimately have "o_id r = o_id ord" by (rule uuid_str_inj)
    with e(3) that show False by blast
  qed
  then have none: "results (sys_provider s) (uuid_str (o_id ord)) = None"
    using pr by (force simp: provider_ok_def)
  have "provider_ok d' (flights s @ [?f]) (sys_provider s)"
    using pr none e(2) by (auto simp: provider_ok_def e(1))
  with dinv' fl' show ?thesis by (simp add: sys_inv_def)
qed

lemma charge_step:
  assumes f: "flights s = fs @ f # gs" "fl_result f = None" and inv: "sys_inv s"
    and ch: "mock_charge (charge_request_of (fl_request f) (fl_order f)) (sys_provider s) = (result, p')"
  shows "sys_inv (s\<lparr>flights := fs @ f\<lparr>fl_result := Some result\<rparr> # gs, sys_provider := p'\<rparr>)"
proof -
  let ?d = "sys_db s" and ?p = "sys_provider s"
  let ?rq = "charge_request_of (fl_request f) (fl_order f)"
  have dinv: "db_inv ?d" and fl: "flights_ok ?d (fs @ f # gs)"
    and pr: "provider_ok ?d (fs @ f # gs) ?p" using inv f by (simp_all add: sys_inv_def)
  have key: "cr_idempotency_key ?rq = uuid_str (o_id (fl_order f))" by (simp add: charge_request_of_def)
  have none: "results ?p (uuid_str (o_id (fl_order f))) = None"
    using pr f(2) by (simp add: provider_ok_def)
  have p': "p' = ?p\<lparr>charged_keys := charged_keys ?p @ [uuid_str (o_id (fl_order f))],
      results := (results ?p)(uuid_str (o_id (fl_order f)) \<mapsto> result)\<rparr>"
    using ch none mock_charge_new [of ?p ?rq] by (auto simp: key)
  obtain r where r: "r \<in> set (orders ?d)" "o_id r = o_id (fl_order f)" "o_status r = Reserved"
    using fl by (auto simp: flights_ok_def)
  have other: "uuid_str (o_id x) \<noteq> uuid_str (o_id (fl_order f))"
    if "x \<in> set (orders ?d)" "o_id x \<noteq> o_id (fl_order f)" for x
    using uuid_str_inj [of "o_id x" "o_id (fl_order f)"] dinv that r by (auto simp: db_inv_def)
  have others: "uuid_str (o_id (fl_order g)) \<noteq> uuid_str (o_id (fl_order f))"
    if g: "g \<in> set fs \<union> set gs" for g
  proof -
    have ne: "o_id (fl_order g) \<noteq> o_id (fl_order f)"
      using fl g by (auto simp: flights_ok_def rev_image_eqI)
    have "g \<in> set (fs @ f # gs)" using g by auto
    then obtain x where "x \<in> set (orders ?d)" "o_id x = o_id (fl_order g)"
      using fl unfolding flights_ok_def by blast
    with other ne show ?thesis by metis
  qed
  have same: "o_status x \<in> {Confirmed, Payment_failed} \<Longrightarrow> uuid_str (o_id x) \<noteq> uuid_str (o_id (fl_order f))"
    if "x \<in> set (orders ?d)" for x
    using other [OF that] distinct_key_unique [of o_id "orders ?d" x r] dinv that r
    by (cases "o_id x = o_id (fl_order f)") (auto simp: db_inv_def)
  have fl': "flights_ok ?d (fs @ f\<lparr>fl_result := Some result\<rparr> # gs)"
    using fl by (simp add: flights_ok_def)
  have "mock_sound p'" using mock.sound_charge [OF _ ch] pr by (simp add: provider_ok_def)
  moreover have "distinct (charged_keys p')"
    using mock.charge_distinct [OF _ _ ch] pr by (simp add: provider_ok_def)
  moreover have "\<exists>x \<in> set (orders ?d). k = uuid_str (o_id x)" if "results p' k \<noteq> None" for k
  proof (cases "k = uuid_str (o_id (fl_order f))")
    case True
    with r show ?thesis by metis
  next
    case False
    with that pr show ?thesis by (simp add: p' provider_ok_def)
  qed
  moreover have "results p' (uuid_str (o_id (fl_order g))) = fl_result g" if "g \<in> set fs \<union> set gs" for g
    using pr others [OF that] that by (auto simp: p' provider_ok_def)
  moreover have "results p' (uuid_str (o_id x)) = results ?p (uuid_str (o_id x))"
    if "x \<in> set (orders ?d)" "o_status x \<in> {Confirmed, Payment_failed}" for x
    using same [OF that] by (simp add: p')
  moreover have "results p' (uuid_str (o_id (fl_order f))) = Some result" by (simp add: p')
  ultimately have "provider_ok ?d (fs @ f\<lparr>fl_result := Some result\<rparr> # gs) p'"
    using pr by (simp add: provider_ok_def)
  with dinv fl' show ?thesis by (simp add: sys_inv_def)
qed

text \<open>Landing a flight: its order's row and its payment's row change, no others.\<close>

lemma landed_flights:
  assumes fl: "flights_ok d (fs @ f # gs)" and pid: "distinct (map pay_id (payments d))"
    and ors: "\<And>r. r \<in> set (orders d) \<Longrightarrow> o_id r \<noteq> o_id (fl_order f) \<Longrightarrow> r \<in> set (orders d')"
    and pays: "\<And>p. p \<in> set (payments d) \<Longrightarrow> pay_id p \<noteq> fl_payment f \<Longrightarrow> p \<in> set (payments d')"
  shows "flights_ok d' (fs @ gs)"
proof -
  obtain pf where pf: "pf \<in> set (payments d)" "pay_id pf = fl_payment f"
    "pay_order_id pf = o_id (fl_order f)" using fl by (auto simp: flights_ok_def)
  have "(\<exists>r \<in> set (orders d'). o_id r = o_id (fl_order g) \<and> o_status r = Reserved) \<and>
      (\<exists>p \<in> set (payments d'). pay_id p = fl_payment g \<and> pay_order_id p = o_id (fl_order g) \<and>
         pay_status p = Payment_pending)" if g: "g \<in> set (fs @ gs)" for g
  proof -
    have ne: "o_id (fl_order g) \<noteq> o_id (fl_order f)"
      using fl g by (auto simp: flights_ok_def rev_image_eqI)
    have gm: "g \<in> set (fs @ f # gs)" using g by auto
    obtain r where r: "r \<in> set (orders d)" "o_id r = o_id (fl_order g)" "o_status r = Reserved"
      using fl gm unfolding flights_ok_def by blast
    obtain p where p: "p \<in> set (payments d)" "pay_id p = fl_payment g"
      "pay_order_id p = o_id (fl_order g)" "pay_status p = Payment_pending"
      using fl gm unfolding flights_ok_def by blast
    have "pay_id p \<noteq> fl_payment f"
      using distinct_key_unique [OF pid p(1) pf(1)] pf p(3) ne by auto
    with r p ne ors pays show ?thesis by metis
  qed
  moreover have "distinct (map (\<lambda>f. o_id (fl_order f)) (fs @ gs))" using fl by (simp add: flights_ok_def)
  ultimately show ?thesis by (simp add: flights_ok_def)
qed

lemma at_status_other:
  "r \<in> set (orders d) \<Longrightarrow> o_id r \<noteq> oid \<Longrightarrow> r \<in> set (at_status oid st d)"
  using at_status_member [of r d oid st] by simp

lemma upd_other: "p \<in> set rows \<Longrightarrow> \<not> c p \<Longrightarrow> p \<in> set (upd c f rows)"
  by (auto simp: set_upd)

lemma settled_amounts:
  assumes "\<forall>p \<in> set (payments d). \<exists>r \<in> set (orders d).
        o_id r = pay_order_id p \<and> o_total_minor r = amount_minor p \<and> o_currency r = pay_currency p"
    and "orders d' = at_status oid st d \<or> orders d' = orders d"
    and "payments d' = upd c f (payments d)"
    and "\<And>p. pay_order_id (f p) = pay_order_id p" "\<And>p. amount_minor (f p) = amount_minor p"
      "\<And>p. pay_currency (f p) = pay_currency p"
  shows "\<forall>p \<in> set (payments d'). \<exists>r \<in> set (orders d').
        o_id r = pay_order_id p \<and> o_total_minor r = amount_minor p \<and> o_currency r = pay_currency p"
proof
  fix p assume "p \<in> set (payments d')"
  then obtain q where q: "q \<in> set (payments d)" "pay_order_id p = pay_order_id q"
    "amount_minor p = amount_minor q" "pay_currency p = pay_currency q"
    using assms(3-6) by (auto simp: set_upd)
  then obtain r where r: "r \<in> set (orders d)" "o_id r = pay_order_id p"
    "o_total_minor r = amount_minor p" "o_currency r = pay_currency p" using assms(1) by metis
  from assms(2) show "\<exists>r \<in> set (orders d').
      o_id r = pay_order_id p \<and> o_total_minor r = amount_minor p \<and> o_currency r = pay_currency p"
  proof
    assume "orders d' = at_status oid st d"
    with at_status_member [OF r(1), of oid st] r(2-4) show ?thesis
      by (intro bexI [of _ "if o_id r = oid then r\<lparr>o_status := st, o_updated_at := db_now d\<rparr> else r"]) auto
  qed (use r in auto)
qed

lemma moved_statuses:
  assumes "\<forall>r \<in> set (orders d). o_status r \<in> S" and "st \<in> S"
  shows "\<forall>r \<in> set (at_status oid st d). o_status r \<in> S"
  using assms by (auto elim!: at_status_set)

lemma complete_db_inv:
  assumes c: "complete ord pid result key d = Inr (body, d')" and inv: "db_inv d"
    and p: "p \<in> set (payments d)" "pay_id p = pid" "pay_order_id p = o_id ord" "pay_status p = Payment_pending"
  shows "db_inv d'"
proof -
  note i = inv [unfolded db_inv_def]
  have dist: "distinct (map o_id (orders d))" using i by blast
  note e = complete_effect [OF c dist]
  obtain r where r: "r \<in> set (orders d)" "o_id r = o_id ord" "o_status r = Reserved" using e(2) by blast
  obtain h1 h2 where h: "order_status_history d' = order_status_history d @
      [history_entry (o_id ord) (Some Reserved) Paid (Some ''payment succeeded'') h1,
       history_entry (o_id ord) (Some Paid) Confirmed (Some ''order confirmed'') h2]" using e(7) by blast
  have hist: "history_ok d'"
    by (rule history_ok_moved [OF _ e(1) h _ r(1,2) _ dist]) (use i r(3) in auto)
  have conf: "confirmed_ids d' = add_mset (o_id ord) (confirmed_ids d)"
    using confirmed_after_move [OF dist r e(1)] by simp
  have succ: "mset (map pay_order_id (filter (\<lambda>p. pay_status p = Payment_succeeded) (payments d'))) =
      {#o_id ord#} + mset (map pay_order_id (filter (\<lambda>p. pay_status p = Payment_succeeded) (payments d)))"
    unfolding e(3) using succeeded_after_upd [OF _ p(1,2), of "paid result (db_now d)"] i p(3,4) by simp
  obtain ev where ev: "outbox d' = outbox d @ [ev]" "aggregate_id ev = o_id ord" using e(6) by blast
  have money: "money_ok d'"
    using i conf succ ev settled_amounts [OF _ disjI1 [OF e(1)] e(3)]
      moved_statuses [of d "{Reserved, Confirmed, Payment_failed}" Confirmed "o_id ord"]
    by (simp add: money_ok_def e(1))
  have holds: "holds_ok d'"
    unfolding holds_ok_def
  proof
    fix s' assume "s' \<in> set (stock_reservations d')"
    then obtain s where s: "s \<in> set (stock_reservations d)" "s' = (if sr_order_id s = o_id ord \<and>
        sr_status s = Active then stop_holding Committed (db_now d) s else s)"
      by (auto simp: e(4) set_upd)
    obtain x where x: "x \<in> set (orders d)" "o_id x = sr_order_id s"
      "sr_status s = Active \<longrightarrow> o_status x = Reserved" "sr_status s = Committed \<longrightarrow> o_status x = Confirmed"
      using i s(1) by (auto simp: holds_ok_def)
    let ?x = "if o_id x = o_id ord then x\<lparr>o_status := Confirmed, o_updated_at := db_now d\<rparr> else x"
    have "?x \<in> set (orders d')" unfolding e(1) by (rule at_status_member [OF x(1)])
    moreover have "o_id ?x = sr_order_id s' \<and> (sr_status s' = Active \<longrightarrow> o_status ?x = Reserved) \<and>
        (sr_status s' = Committed \<longrightarrow> o_status ?x = Confirmed)"
      using s(2) x(2-4) by auto
    ultimately show "\<exists>r \<in> set (orders d'). o_id r = sr_order_id s' \<and>
        (sr_status s' = Active \<longrightarrow> o_status r = Reserved) \<and>
        (sr_status s' = Committed \<longrightarrow> o_status r = Confirmed)" by blast
  qed
  have led: "ledger_ok d'"
  proof -
    let ?d1 = "d\<lparr>stock_reservations := stock_reservations d'\<rparr>"
    have "settle_for_order (o_id ord) Committed d = Inr ?d1"
      using settle_for_order_succeeds [of d "o_id ord" Committed] i by (simp add: e(4))
    then have "ledger_ok ?d1" using commit_effect(1) i by blast
    then show ?thesis by (rule ledger_ok_orders_grow) (simp_all add: e)
  qed
  have ids: "map o_id (orders d') = map o_id (orders d)" "o_id ` set (orders d') = o_id ` set (orders d)"
    by (simp_all add: e(1))
  have "map pay_id (payments d') = map pay_id (payments d)" unfolding e(3) by (rule map_upd) simp
  moreover have "\<forall>r \<in> set (orders d'). o_id r < 2 ^ 128"
    using i ids(2) by (metis (no_types, lifting) image_iff)
  ultimately show ?thesis using i hist money holds led ids(1) by (simp add: db_inv_def e(16))
qed

lemma compensate_db_inv:
  assumes c: "compensate ord pid result key d = Inr d'" and inv: "db_inv d"
    and p: "p \<in> set (payments d)" "pay_id p = pid" "pay_order_id p = o_id ord" "pay_status p = Payment_pending"
  shows "db_inv d'"
proof -
  note i = inv [unfolded db_inv_def]
  have dist: "distinct (map o_id (orders d))" and led: "ledger_ok d" using i by blast+
  note e = compensate_effect [OF c dist led]
  obtain r where r: "r \<in> set (orders d)" "o_id r = o_id ord" "o_status r = Reserved" using e(2) by blast
  obtain h where h: "order_status_history d' = order_status_history d @
      [history_entry (o_id ord) (Some Reserved) Payment_failed
        (Some (or_else (failure_reason result) ''declined'')) h]" using e(9) by blast
  have hist: "history_ok d'"
    by (rule history_ok_moved [OF _ e(1) h _ r(1,2) _ dist]) (use i r(3) in auto)
  have conf: "confirmed_ids d' = confirmed_ids d"
    using confirmed_after_move [OF dist r e(1)] by simp
  have succ: "mset (map pay_order_id (filter (\<lambda>p. pay_status p = Payment_succeeded) (payments d'))) =
      mset (map pay_order_id (filter (\<lambda>p. pay_status p = Payment_succeeded) (payments d)))"
    unfolding e(3) using succeeded_after_upd [OF _ p(1,2), of "declined result (db_now d)"] i p(3,4) by simp
  have money: "money_ok d'"
    using i conf succ settled_amounts [OF _ disjI1 [OF e(1)] e(3)]
      moved_statuses [of d "{Reserved, Confirmed, Payment_failed}" Payment_failed "o_id ord"]
    by (simp add: money_ok_def e(1,8))
  have holds: "holds_ok d'"
    unfolding holds_ok_def
  proof
    fix s' assume "s' \<in> set (stock_reservations d')"
    then obtain s where s: "s \<in> set (stock_reservations d)" "s' = (if sr_order_id s = o_id ord \<and>
        sr_status s = Active then stop_holding Released (db_now d) s else s)"
      by (auto simp: e(4) set_upd)
    obtain x where x: "x \<in> set (orders d)" "o_id x = sr_order_id s"
      "sr_status s = Active \<longrightarrow> o_status x = Reserved" "sr_status s = Committed \<longrightarrow> o_status x = Confirmed"
      using i s(1) by (auto simp: holds_ok_def)
    let ?x = "if o_id x = o_id ord then x\<lparr>o_status := Payment_failed, o_updated_at := db_now d\<rparr> else x"
    have "o_id x = o_id ord \<Longrightarrow> x = r" using distinct_key_unique [OF dist x(1) r(1)] r(2) by simp
    then have "o_id ?x = sr_order_id s' \<and> (sr_status s' = Active \<longrightarrow> o_status ?x = Reserved) \<and>
        (sr_status s' = Committed \<longrightarrow> o_status ?x = Confirmed)"
      using s(2) x(2-4) r(3) by auto
    moreover have "?x \<in> set (orders d')" unfolding e(1) by (rule at_status_member [OF x(1)])
    ultimately show "\<exists>r \<in> set (orders d'). o_id r = sr_order_id s' \<and>
        (sr_status s' = Active \<longrightarrow> o_status r = Reserved) \<and>
        (sr_status s' = Committed \<longrightarrow> o_status r = Confirmed)" by blast
  qed
  have ids: "map o_id (orders d') = map o_id (orders d)" "o_id ` set (orders d') = o_id ` set (orders d)"
    by (simp_all add: e(1))
  have "map pay_id (payments d') = map pay_id (payments d)" unfolding e(3) by (rule map_upd) simp
  moreover have "\<forall>r \<in> set (orders d'). o_id r < 2 ^ 128"
    using i ids(2) by (metis (no_types, lifting) image_iff)
  ultimately show ?thesis using i hist money holds e(5) ids(1) by (simp add: db_inv_def e(17))
qed

lemma unresolved_db_inv:
  assumes c: "leave_unresolved pid result d = Inr d'" and inv: "db_inv d"
  shows "db_inv d'"
proof -
  note i = inv [unfolded db_inv_def]
  note d' = leave_unresolved_effect [OF c]
  have led: "ledger_ok d'" by (rule ledger_ok_orders_grow [of d]) (use i in \<open>simp_all add: d'\<close>)
  have hist: "history_ok d'" using i history_ok_frame [of d' d] by (simp add: d')
  have pays: "payments d' = upd (\<lambda>r. pay_id r = pid) (unresolved result (db_now d)) (payments d)"
    and ors: "orders d' = orders d" by (simp_all add: d')
  have "mset (map pay_order_id (filter (\<lambda>p. pay_status p = Payment_succeeded)
      (upd (\<lambda>r. pay_id r = pid) (unresolved result (db_now d)) rows))) =
    mset (map pay_order_id (filter (\<lambda>p. pay_status p = Payment_succeeded) rows))" for rows
    by (induction rows) auto
  then have money: "money_ok d'"
    using i settled_amounts [OF _ disjI2 [OF ors] pays] by (simp add: money_ok_def pays ors) (simp add: d')
  have holds: "holds_ok d'" using i by (simp add: holds_ok_def d')
  have "map pay_id (payments d') = map pay_id (payments d)" unfolding pays by (rule map_upd) simp
  with i led hist money holds show ?thesis by (simp add: db_inv_def ors)
qed

lemma landed_provider:
  assumes pr: "provider_ok d (fs @ f # gs) p"
    and ors: "orders d' = at_status (o_id (fl_order f)) st d \<or> orders d' = orders d \<and> st = Reserved"
    and res: "fl_result f = Some result"
    and st: "st = Confirmed \<longrightarrow> outcome result = Outcome_succeeded"
      "st = Payment_failed \<longrightarrow> outcome result = Outcome_declined"
  shows "provider_ok d' (fs @ gs) p"
proof -
  have ids: "o_id ` set (orders d') = o_id ` set (orders d)" using ors at_status_ids(2) by metis
  have k: "\<exists>r \<in> set (orders d'). k = uuid_str (o_id r)" if some: "results p k \<noteq> None" for k
  proof -
    obtain r where "r \<in> set (orders d)" "k = uuid_str (o_id r)" using pr some unfolding provider_ok_def by blast
    moreover from this(1) have "o_id r \<in> o_id ` set (orders d')" unfolding ids by simp
    ultimately show ?thesis by auto
  qed
  have f: "results p (uuid_str (o_id (fl_order f))) = Some result" using pr res by (simp add: provider_ok_def)
  have o: "(o_status x = Confirmed \<longrightarrow>
           (\<exists>a. results p (uuid_str (o_id x)) = Some a \<and> outcome a = Outcome_succeeded)) \<and>
        (o_status x = Payment_failed \<longrightarrow>
           (\<exists>a. results p (uuid_str (o_id x)) = Some a \<and> outcome a = Outcome_declined))"
    if x: "x \<in> set (orders d')" for x
  proof (cases "x \<in> set (orders d)")
    case True
    then show ?thesis using pr by (simp add: provider_ok_def)
  next
    case False
    with x ors have "x \<in> set (at_status (o_id (fl_order f)) st d)" by auto
    with False have "o_id x = o_id (fl_order f)" "o_status x = st"
      by (auto elim!: at_status_set split: if_splits)
    with f st show ?thesis by simp
  qed
  show ?thesis using pr k o by (auto simp: provider_ok_def)
qed

lemma finish_step:
  assumes f: "flights s = fs @ f # gs" "fl_result f = Some result" and inv: "sys_inv s"
    and tx2: "checkout_tx2 (fl_order f) (fl_payment f) result (rq_key (fl_request f)) (sys_db s) = Inr (body, d')"
  shows "sys_inv (s\<lparr>sys_db := d', flights := fs @ gs\<rparr>)"
proof -
  let ?d = "sys_db s"
  have dinv: "db_inv ?d" and fl: "flights_ok ?d (fs @ f # gs)"
    and pr: "provider_ok ?d (fs @ f # gs) (sys_provider s)" using inv f by (simp_all add: sys_inv_def)
  have dist: "distinct (map o_id (orders ?d))" and pid: "distinct (map pay_id (payments ?d))"
    and led: "ledger_ok ?d" using dinv by (simp_all add: db_inv_def)
  obtain p where p: "p \<in> set (payments ?d)" "pay_id p = fl_payment f"
    "pay_order_id p = o_id (fl_order f)" "pay_status p = Payment_pending"
    using fl by (auto simp: flights_ok_def)
  show ?thesis
  proof (cases "outcome result")
    case Outcome_succeeded
    then obtain b where c: "complete (fl_order f) (fl_payment f) result (rq_key (fl_request f)) ?d = Inr (b, d')"
      using tx2 by (auto simp: checkout_tx2_def bind_r_Inr)
    note e = complete_effect [OF c dist]
    have "flights_ok d' (fs @ gs)"
      by (rule landed_flights [OF fl pid]) (simp_all add: e(1,3) at_status_other upd_other)
    moreover have "provider_ok d' (fs @ gs) (sys_provider s)"
      by (rule landed_provider [OF pr disjI1 [OF e(1)] f(2)]) (use Outcome_succeeded in simp_all)
    ultimately show ?thesis using complete_db_inv [OF c dinv p] by (simp add: sys_inv_def)
  next
    case Outcome_declined
    then have c: "compensate (fl_order f) (fl_payment f) result (rq_key (fl_request f)) ?d = Inr d'"
      using tx2 by (auto simp: checkout_tx2_def bind_r_Inr)
    note e = compensate_effect [OF c dist led]
    have "flights_ok d' (fs @ gs)"
      by (rule landed_flights [OF fl pid]) (simp_all add: e(1,3) at_status_other upd_other)
    moreover have "provider_ok d' (fs @ gs) (sys_provider s)"
      by (rule landed_provider [OF pr disjI1 [OF e(1)] f(2)]) (use Outcome_declined in simp_all)
    ultimately show ?thesis using compensate_db_inv [OF c dinv p] by (simp add: sys_inv_def)
  next
    case Outcome_unknown
    then have c: "leave_unresolved (fl_payment f) result ?d = Inr d'"
      using tx2 by (auto simp: checkout_tx2_def bind_r_Inr)
    note e = leave_unresolved_effect [OF c]
    have "flights_ok d' (fs @ gs)"
      by (rule landed_flights [OF fl pid]) (simp_all add: e upd_other)
    moreover have "provider_ok d' (fs @ gs) (sys_provider s)"
      by (rule landed_provider [OF pr _ f(2), where st = Reserved]) (simp_all add: e)
    ultimately show ?thesis using unresolved_db_inv [OF c dinv] by (simp add: sys_inv_def)
  qed
qed

lemma lost_step:
  assumes f: "flights s = fs @ f # gs" and inv: "sys_inv s"
  shows "sys_inv (s\<lparr>flights := fs @ gs\<rparr>)"
  using inv by (auto simp: sys_inv_def f flights_ok_def provider_ok_def)

text \<open>Steps that only move stock, events or the clock keep what they do not read.\<close>

lemma inv_frame:
  assumes "sys_inv s" and "orders d' = orders (sys_db s)" "payments d' = payments (sys_db s)"
    and "db_inv d'"
  shows "sys_inv (s\<lparr>sys_db := d'\<rparr>)"
  using assms by (simp add: sys_inv_def flights_ok_def provider_ok_def)

lemma sweep_step:
  assumes sw: "sweep_expired batch (sys_db s) = Inr (rel, d')" and inv: "sys_inv s"
  shows "sys_inv (s\<lparr>sys_db := d'\<rparr>)"
proof -
  let ?d = "sys_db s"
  have i: "db_inv ?d" using inv by (simp add: sys_inv_def)
  then have led: "ledger_ok ?d" by (simp add: db_inv_def)
  note e = sweep_effect [OF sw led]
  note fr = only_stock_frame [OF e(4)]
  have "holds_ok d'"
    using i unfolding db_inv_def holds_ok_def e(2) fr set_upd by fastforce
  moreover have "history_ok d'" using i history_ok_frame [of d' ?d] by (simp add: db_inv_def fr)
  moreover have "money_ok d'" using i by (simp add: db_inv_def money_ok_def fr)
  ultimately have "db_inv d'" using i e(3) by (simp add: db_inv_def fr)
  then show ?thesis by (rule inv_frame [OF inv, rotated 2]) (simp_all add: fr)
qed

lemma publish_step:
  assumes "mark_processed ids (sys_db s) = Inr d'" and inv: "sys_inv s"
  shows "sys_inv (s\<lparr>sys_db := d'\<rparr>)"
proof -
  note d' = mark_processed_Inr [OF assms(1)]
  have i: "db_inv (sys_db s)" using inv by (simp add: sys_inv_def)
  have "map aggregate_id (outbox d') = map aggregate_id (outbox (sys_db s))"
    by (simp add: d', rule map_upd) simp
  then have "money_ok d'" using i unfolding money_ok_def db_inv_def by (simp add: d')
  moreover have "ledger_ok d'"
    by (rule ledger_ok_orders_grow [of "sys_db s"]) (use i in \<open>simp_all add: d' db_inv_def\<close>)
  moreover have "history_ok d'" using i history_ok_frame [of d' "sys_db s"] by (simp add: db_inv_def d')
  moreover have "holds_ok d'" using i by (simp add: db_inv_def holds_ok_def d')
  ultimately have "db_inv d'" using i by (simp add: db_inv_def d')
  then show ?thesis by (rule inv_frame [OF inv, rotated 2]) (simp_all add: d')
qed

lemma manage_step:
  assumes m: "managed (sys_db s) d'" and inv: "sys_inv s"
  shows "sys_inv (s\<lparr>sys_db := d'\<rparr>)"
proof -
  have i: "db_inv (sys_db s)" using inv by (simp add: sys_inv_def)
  note f = managed_frame [OF m]
  have "ledger_ok d'" using managed_ledger [OF m] i by (simp add: db_inv_def)
  moreover have "history_ok d'" using i history_ok_frame [of d' "sys_db s"] by (simp add: db_inv_def f)
  ultimately have "db_inv d'" using i by (simp add: db_inv_def money_ok_def holds_ok_def f)
  then show ?thesis by (rule inv_frame [OF inv, rotated 2]) (simp_all add: f)
qed

lemma tick_step:
  assumes inv: "sys_inv s"
  shows "sys_inv (s\<lparr>sys_db := (sys_db s)\<lparr>db_now := t\<rparr>\<rparr>)"
proof -
  let ?d' = "(sys_db s)\<lparr>db_now := t\<rparr>"
  have i: "db_inv (sys_db s)" using inv by (simp add: sys_inv_def)
  have "ledger_ok ?d'"
    by (rule ledger_ok_orders_grow [of "sys_db s"]) (use i in \<open>simp_all add: db_inv_def\<close>)
  moreover have "history_ok ?d'" using i history_ok_frame [of ?d' "sys_db s"] by (simp add: db_inv_def)
  ultimately have "db_inv ?d'" using i by (simp add: db_inv_def money_ok_def holds_ok_def)
  then show ?thesis by (rule inv_frame [OF inv, rotated 2]) simp_all
qed

lemma sys_step_inv: "sys_step env s t \<Longrightarrow> sys_inv s \<Longrightarrow> sys_inv t"
  by (induction rule: sys_step.induct)
    (blast intro: begin_step charge_step finish_step lost_step sweep_step publish_step manage_step tick_step)+

lemma reachable_inv: "reachable env s t \<Longrightarrow> sys_inv s \<Longrightarrow> sys_inv t"
  by (induction rule: reachable.induct) (auto intro: sys_step_inv)

end
