(* ===== verification/Demo_System.thy ===== *)
theory Demo_System
  imports System Demo
begin

text \<open>
  Two runs of the demo shop through the step relation: the checkout that ends confirmed, and the one
  whose hold is swept while the provider is still being asked.
\<close>

definition demo_system :: system where
  "demo_system = \<lparr>sys_db = demo_db, flights = [], sys_provider = new_mock\<rparr>"

lemma demo_initial: "initial demo_system"
  using demo_ledger by (simp add: initial_def demo_system_def) (simp add: demo_db_def)

definition demo_flight :: "payment_result option \<Rightarrow> flight" where
  "demo_flight res = \<lparr>fl_order = demo_order, fl_payment = 108, fl_request = demo_request, fl_result = res\<rparr>"

definition demo_charged :: mock where
  "demo_charged = \<lparr>charged_keys = [uuid_str 101], results = [uuid_str 101 \<mapsto> demo_result]\<rparr>"

lemma demo_charged_keys: "charged_keys demo_charged = [uuid_str 101]"
  by (simp add: demo_charged_def)

lemma demo_ids [simp]: "o_id demo_order = 101" "o_status demo_order = Reserved" "pay_id demo_payment = 108"
  by (simp_all add: demo_rows new_order_def new_payment_def)

lemma demo_begins:
  "sys_step demo_env demo_system \<lparr>sys_db = demo_db1, flights = [demo_flight None], sys_provider = new_mock\<rparr>"
proof -
  have "sys_step demo_env demo_system (demo_system\<lparr>sys_db := demo_db1, flights := flights demo_system @
      [\<lparr>fl_order = demo_order, fl_payment = pay_id demo_payment, fl_request = demo_request, fl_result = None\<rparr>]\<rparr>)"
  proof (rule sys_step.Begin [where co = "\<lparr>lat = 0, lon = 1\<rparr>" and pt = "(1, 0)"])
    show "distinct (map product_id (rq_items demo_request))" by (simp add: demo_request_def demo_distinct)
    show "checkout_tx1_from_reads demo_env demo_request (1, 0) demo_db demo_db (sys_db demo_system) =
        Inr ((demo_order, demo_payment), demo_db1)" by (simp add: demo_system_def demo_tx1 [unfolded checkout_tx1_reads])
  qed (simp_all add: demo_env_def to_point_def)
  then show ?thesis by (simp add: demo_system_def demo_flight_def)
qed

lemma demo_charge:
  "mock_charge (charge_request_of demo_request demo_order) new_mock = (demo_result, demo_charged)"
  by (simp add: mock_charge_def new_mock_def charge_request_of_def demo_request_def demo_result_def
      demo_charged_def Let_def)

lemma demo_charges:
  "sys_step env \<lparr>sys_db = d, flights = [demo_flight None], sys_provider = new_mock\<rparr>
     \<lparr>sys_db = d, flights = [demo_flight (Some demo_result)], sys_provider = demo_charged\<rparr>"
  using sys_step.Charge [of "\<lparr>sys_db = d, flights = [demo_flight None], sys_provider = new_mock\<rparr>"
      "[]" "demo_flight None" "[]" demo_result demo_charged env] demo_charge
  by (simp add: demo_flight_def)

lemma demo_lands:
  assumes "complete demo_order 108 demo_result ''k1'' d = Inr (body, d')"
  shows "sys_step env \<lparr>sys_db = d, flights = [demo_flight (Some demo_result)], sys_provider = demo_charged\<rparr>
     \<lparr>sys_db = d', flights = [], sys_provider = demo_charged\<rparr>"
  using sys_step.Finish [of "\<lparr>sys_db = d, flights = [demo_flight (Some demo_result)], sys_provider = demo_charged\<rparr>"
      "[]" "demo_flight (Some demo_result)" "[]" demo_result "Some body" d' env] assms
  by (simp add: demo_flight_def checkout_tx2_def demo_result_simps demo_request_def)

text \<open>The run in which nothing goes wrong.\<close>

lemma demo_run:
  obtains s :: system and r :: order_row and a b :: reservation_row
  where "reachable demo_env demo_system s" "orders (sys_db s) = [r]" "o_status r = Confirmed" "o_id r = 101"
    "stock_reservations (sys_db s) = [a, b]" "sr_status a = Committed" "sr_order_id a = 101"
    "sys_provider s = demo_charged"
proof -
  obtain body d' where c: "complete demo_order 108 demo_result ''k1'' demo_db1 = Inr (body, d')"
    using demo_complete by blast
  note e = complete_effect [OF c demo_dist1]
  define s :: system where "s = \<lparr>sys_db = d', flights = [], sys_provider = demo_charged\<rparr>"
  have "reachable demo_env demo_system s" unfolding s_def
    by (rule Next [OF Next [OF Next [OF Here demo_begins] demo_charges] demo_lands [OF c]])
  moreover have "orders d' = [demo_order\<lparr>o_status := Confirmed, o_updated_at := db_now demo_db1\<rparr>]"
    unfolding e(1) by (simp add: at_status_def demo_db1_def)
  moreover have "stock_reservations d' = [stop_holding Committed (db_now demo_db1) (demo_hold 105 10 2),
      stop_holding Committed (db_now demo_db1) (demo_hold 106 11 1)]"
    unfolding e(4) by (simp add: demo_db1_def demo_hold_def)
  ultimately show ?thesis
    by (intro that [of s "demo_order\<lparr>o_status := Confirmed, o_updated_at := db_now demo_db1\<rparr>"
          "stop_holding Committed (db_now demo_db1) (demo_hold 105 10 2)"
          "stop_holding Committed (db_now demo_db1) (demo_hold 106 11 1)"])
      (simp_all add: s_def demo_hold_def)
qed

end
