(* ===== verification/Edge_Properties.thy ===== *)
theory Edge_Properties
  imports Saga_Properties Jobs Api Demo_System
begin

text \<open>
  Where the parts meet at their edges: what the wire accepts and reveals, what the relay delivers,
  what a repeated request gets, and three requests that the parts treat differently from each other.
\<close>

section \<open>Orders that fall between the parts\<close>

text \<open>
  C31: a basket that costs nothing is refused late. \<^verbatim>\<open>orders.total_minor\<close> may be zero and a
  product's price may be zero, so the order is created and its stock reserved, but
  \<^verbatim>\<open>payments.amount_minor\<close> may not: the checkout ends in an integrity error, which the API
  answers with a 500, for every key and every customer. Nothing is charged and nothing is kept.
\<close>

theorem free_basket_is_refused_late:
  assumes "shop_ok d" and "orderable env (rq_customer rq) (rq_address rq) (rq_items rq) d"
    and "key_row (rq_key rq) d = None" and "length (rq_hash rq) = 64"
    and "basket_total (get_by_ids (set (map product_id (rq_items rq))) d) (rq_items rq) = 0"
  shows "checkout env charge between rq (d, p) = (Inl (IntegrityError ''amount_positive''), (d, p)) \<and>
    http_status (on_exception path (IntegrityError ''amount_positive'')) = 500"
proof -
  obtain pt where pt: "bind_r (env_geocode env (rq_address rq)) (\<lambda>c. to_point (lon c) (lat c)) = Inr pt"
    using assms(2) unfolding orderable_def by (auto simp: bind_r_Inr)
  obtain d0 ord d2 where d0: "claim_key (rq_key rq) (rq_hash rq) d = Inr d0"
    and cr: "create_in_transaction env (rq_customer rq) (rq_address rq) (rq_items rq) pt d0 = Inr (ord, d2)"
    and row: "row_ok (order_spec d0) ord"
    and tot: "o_total_minor ord = basket_total (get_by_ids (set (map product_id (rq_items rq))) d) (rq_items rq)"
    using tx1_up_to_payment [OF assms(1-4), of pt] by blast
  have "create_pending (o_id ord) (o_total_minor ord) (o_currency ord) descr ''mock'' d2 =
      Inl (IntegrityError ''amount_positive'')" for descr
    by (rule create_pending_zero) (use row tot assms(5) in \<open>auto simp: order_row_ok currency_format_def\<close>)
  then have "checkout_tx1 env rq pt d = Inl (IntegrityError ''amount_positive'')"
    using d0 cr by (simp add: checkout_tx1_def)
  with pt show ?thesis
    by (simp add: checkout_def in_transaction_def on_exception_def on_unhandled_def make_problem_def)
qed

definition free_db :: db where
  "free_db = demo_db\<lparr>products := [demo_product 10 ''SKU-1'' 0, demo_product 11 ''SKU-2'' 0]\<rparr>"

lemma free_shop_ok: "shop_ok free_db"
proof -
  have "table_ok (inventory_spec free_db) (inventory free_db)"
    by (simp add: table_ok_def conflict_free_def inventory_spec_def row_ok_def free_db_def demo_db_def
        demo_stock_def demo_product_def demo_warehouse_def fits_int4_def)
  then have "ledger_ok free_db"
    by (simp add: ledger_ok_def) (simp add: table_ok_def conflict_free_def free_db_def demo_db_def)
  moreover have "table_ok product_spec (products free_db)"
    by (simp add: table_ok_def conflict_free_def product_spec_def row_ok_def free_db_def demo_product_def
        fits_int8_def currency_format_def upper_ascii_def)
  moreover have "uuids_fresh free_db"
    by (auto simp: uuids_fresh_def used_ids_def free_db_def demo_db_def demo_product_def
        demo_warehouse_def demo_stock_def inj_def)
  ultimately show ?thesis
    by (simp add: shop_ok_def) (simp add: refs_ok_def free_db_def demo_db_def table_ok_def conflict_free_def)
qed

lemma free_orderable: "orderable demo_env 1 demo_address demo_items free_db"
proof -
  have "able free_db demo_items = able demo_db demo_items"
    by (simp add: able_def supplies_def stocked_def free_db_def)
  then show ?thesis
    by (simp add: orderable_def demo_able demo_distinct)
      (simp add: free_db_def demo_defs to_point_def basket_total_def get_by_ids_def fits_int8_def
        fits_text_def country_code_format_def upper_ascii_def ustr_def)
qed

theorem free_basket_is_refused_late_witness:
  "checkout demo_env (demo_pay demo_result) (\<lambda>x. x) demo_request (free_db, 0) =
     (Inl (IntegrityError ''amount_positive''), (free_db, 0))"
proof -
  have t: "basket_total (get_by_ids (set (map product_id (rq_items demo_request))) free_db) (rq_items demo_request) = 0"
    by (simp add: basket_total_def get_by_ids_def demo_items_def free_db_def demo_product_def)
  have k: "key_row (rq_key demo_request) free_db = None" "length (rq_hash demo_request) = 64"
    by (simp_all add: key_row_def free_db_def demo_db_def demo_request_def demo_hash_def)
  have o: "orderable demo_env (rq_customer demo_request) (rq_address demo_request)
      (rq_items demo_request) free_db" using free_orderable by (simp add: demo_request_def)
  show ?thesis by (rule conjunct1 [OF free_basket_is_refused_late [OF free_shop_ok o k t]])
qed

text \<open>
  C32: a card in other digits is charged and then lost. \<^verbatim>\<open>str.isdigit\<close> and \<^verbatim>\<open>int\<close>
  take decimal digits of every script, the column \<^verbatim>\<open>payments.card_last4\<close> only ASCII ones. When
  the provider answers yes with such a last four, the second transaction fails and the caller gets
  an integrity error (a 500): the money has moved, but the order stays reserved, its payment pending
  without a reference, and every retry is refused because the key stays in progress.
\<close>

theorem foreign_digits_are_charged_for_nothing:
  assumes "shop_ok d" and "orderable env (rq_customer rq) (rq_address rq) (rq_items rq) d"
    and "key_row (rq_key rq) d = None" and "length (rq_hash rq) = 64"
    and "0 < basket_total (get_by_ids (set (map product_id (rq_items rq))) d) (rq_items rq)"
    and "\<And>cr. outcome (fst (charge cr p)) = Outcome_succeeded"
    and "\<And>cr. card_last4 (fst (charge cr p)) = Some l4" and "length l4 = 4" and "\<not> card_last4_format l4"
  shows "\<exists>ord pay d1. checkout env charge (\<lambda>x. x) rq (d, p) =
      (Inl (IntegrityError ''card_last4_format''), (d1, snd (charge (charge_request_of rq ord) p))) \<and>
    orders d1 = orders d @ [ord] \<and> o_status ord = Reserved \<and>
    payments d1 = payments d @ [pay] \<and> pay_order_id pay = o_id ord \<and> pay_status pay = Payment_pending \<and>
    claim_key (rq_key rq) (rq_hash rq) d1 = Inl (DomainError (IdempotencyInProgress (rq_key rq)))"
proof -
  obtain pt where pt: "bind_r (env_geocode env (rq_address rq)) (\<lambda>c. to_point (lon c) (lat c)) = Inr pt"
    using assms(2) unfolding orderable_def by (auto simp: bind_r_Inr)
  obtain ord pay d1 where tx1: "checkout_tx1 env rq pt d = Inr ((ord, pay), d1)"
    and st: "settleable ord (pay_id pay) d1"
    using checkout_tx1_succeeds [OF assms(1-5)] by blast
  have led: "ledger_ok d" and dist: "distinct (map product_id (rq_items rq))"
    using assms(1,2) by (simp_all add: shop_ok_def orderable_def)
  note e = checkout_tx1_effect [OF tx1 led dist]
  obtain result p' where ch: "charge (charge_request_of rq ord) p = (result, p')" by fastforce
  have r: "outcome result = Outcome_succeeded" "card_last4 result = Some l4"
    using assms(6,7) [of "charge_request_of rq ord"] ch by simp_all
  have "mark_succeeded (pay_id pay) ref brand (Some l4) d1 = Inl (IntegrityError ''card_last4_format'')"
    for ref brand
    by (rule mark_succeeded_bad_last4 [OF _ assms(8,9)]) (use e(4) st in \<open>simp_all add: settleable_def\<close>)
  then have "checkout_tx2 ord (pay_id pay) result (rq_key rq) d1 = Inl (IntegrityError ''card_last4_format'')"
    by (simp add: checkout_tx2_def complete_def r)
  then have "checkout env charge (\<lambda>x. x) rq (d, p) = (Inl (IntegrityError ''card_last4_format''), (d1, p'))"
    using pt tx1 ch by (simp add: checkout_def in_transaction_def)
  moreover obtain k where k: "key_row (rq_key rq) d1 = Some k" "ik_status k = In_progress"
    "ik_request_hash k = rq_hash rq" using e(10) by blast
  moreover note claim_key_in_progress [OF k assms(4)]
  ultimately show ?thesis using ch e(1,2,4,5,6)
    by (intro exI [of _ ord] exI [of _ pay] exI [of _ d1]) simp
qed

text \<open>Python's tables for ASCII and Arabic-Indic digits, and a card written in the latter.\<close>

definition demo_ucd :: ucd where
  "demo_ucd = \<lparr>is_digit = (\<lambda>c. (48 \<le> c \<and> c \<le> 57) \<or> (1632 \<le> c \<and> c \<le> 1641)),
     digit_value = (\<lambda>c. if 48 \<le> c \<and> c \<le> 57 then Some (int c - 48)
                        else if 1632 \<le> c \<and> c \<le> 1641 then Some (int c - 1632) else None)\<rparr>"

definition demo_arabic :: ustr where
  "demo_arabic = [1636, 1634, 1636, 1634, 1636, 1634, 1636, 1634, 1636, 1634, 1636, 1634, 1636, 1634, 1636, 1634]"

lemma demo_arabic_valid: "validate_card demo_ucd demo_arabic = Inr demo_arabic"
  by (simp add: validate_card_def strip_card_def demo_arabic_def demo_ucd_def luhn_ok_def luhn_value_def
      Let_def)

theorem foreign_digits_are_charged_for_nothing_witness:
  "validate_card demo_ucd demo_arabic = Inr demo_arabic \<and>
   (\<exists>d1. checkout demo_env (demo_pay (mock_outcome demo_arabic ''k'')) (\<lambda>x. x) demo_request (demo_db, 0) =
      (Inl (IntegrityError ''card_last4_format''), (d1, 1)))"
proof -
  have l4: "last4_of (card_digits demo_arabic) = [1636, 1634, 1636, 1634]"
    by (simp add: last4_of_def card_digits_def demo_arabic_def)
  then have "outcome (mock_outcome demo_arabic ''k'') = Outcome_succeeded"
    by (simp add: mock_outcome_simps ustr_def)
  moreover have "card_last4 (mock_outcome demo_arabic ''k'') = Some [1636, 1634, 1636, 1634]"
    by (simp add: mock_outcome_simps l4)
  moreover have "orderable demo_env (rq_customer demo_request) (rq_address demo_request) (rq_items demo_request) demo_db"
    using demo_orderable by (simp add: demo_request_def)
  moreover have "0 < basket_total (get_by_ids (set (map product_id (rq_items demo_request))) demo_db) (rq_items demo_request)"
    by (simp add: basket_total_def get_by_ids_def demo_items_def demo_db_def demo_product_def)
  moreover have "key_row (rq_key demo_request) demo_db = None" "length (rq_hash demo_request) = 64"
    by (simp_all add: key_row_def demo_db_def demo_request_def demo_hash_def)
  ultimately show ?thesis
    using foreign_digits_are_charged_for_nothing [OF demo_shop_ok, of demo_env demo_request
        "demo_pay (mock_outcome demo_arabic ''k'')" 0 "[1636, 1634, 1636, 1634]"] demo_arabic_valid
    by (fastforce simp: demo_pay_def card_last4_format_def)
qed

text \<open>Sweeping does not get in the way of the second transaction.\<close>

lemma swept_settleable:
  assumes s: "settleable ord pid d" and sw: "sweep_expired batch d = Inr (rel, d')"
  shows "settleable ord pid d'" and "can_be_paid pid ref d' = can_be_paid pid ref d"
proof -
  have led: "ledger_ok d" using s by (simp add: settleable_def)
  note e = sweep_effect [OF sw led]
  note fr = only_stock_frame [OF e(4)]
  have "inv_id ` set (inventory d') = inv_id ` set (inventory d)" using fr(15) by (metis list.set_map)
  moreover have "sr_id ` set (stock_reservations d') = sr_id ` set (stock_reservations d)"
    unfolding e(2) by (rule ids_upd) simp
  ultimately have "uuids_fresh d'"
    using s by (intro only_stock_settle_fresh [OF _ e(4,5)]) (simp add: settleable_def)
  moreover have "table_ok (order_spec d') (orders d')"
    using s by (simp add: settleable_def order_spec_def fr)
  moreover have "table_ok (payment_spec d') (payments d')"
    using s by (simp add: settleable_def payment_spec_def fr)
  moreover have "table_ok (idempotency_spec d') (idempotency_keys d')"
    using s by (simp add: settleable_def idempotency_spec_def fr)
  ultimately show "settleable ord pid d'" using s e(3) by (simp add: settleable_def fr)
  show "can_be_paid pid ref d' = can_be_paid pid ref d" by (simp add: can_be_paid_def fr)
qed

text \<open>
  C33: an order whose hold has expired is confirmed all the same. When the sweeper takes the holds of
  an order while the provider is being asked, a yes from the provider still completes the second
  transaction: the order is confirmed, no reservation of it holds anything, and the counters stay as
  the sweeper left them, so the same units can be sold again.
\<close>

theorem swept_order_is_confirmed_anyway:
  assumes "settleable ord pid d" and "can_be_paid pid (reference result) d"
    and "null_or card_last4_format (card_last4 result)" and "sweep_expired batch d = Inr (rel, d1)"
    and "\<And>s. s \<in> set (stock_reservations d) \<Longrightarrow> sr_order_id s = o_id ord \<Longrightarrow>
           sr_status s = Active \<and> sr_id s \<in> set (expired_ids batch d)"
  shows "\<exists>body d2. complete ord pid result key d1 = Inr (body, d2) \<and>
    (\<exists>r \<in> set (orders d2). o_id r = o_id ord \<and> o_status r = Confirmed) \<and>
    held d2 = held d1 \<and> inventory d2 = inventory d1 \<and>
    filter (\<lambda>s. sr_order_id s = o_id ord \<and> holding s) (stock_reservations d2) = []"
proof -
  note st = swept_settleable [OF assms(1,4)]
  have led: "ledger_ok d" and led1: "ledger_ok d1" using assms(1) st(1) by (simp_all add: settleable_def)
  note sw = sweep_effect [OF assms(4) led]
  obtain body d2 where c: "complete ord pid result key d1 = Inr (body, d2)"
    using complete_succeeds [OF st(1) _ assms(3)] assms(2) st(2) by blast
  have "distinct (map o_id (orders d1))" using st(1) by (intro order_ids_distinct) (simp add: settleable_def)
  note e = complete_effect [OF c this]
  have exp: "sr_status s = Expired" if s: "s \<in> set (stock_reservations d1)" "sr_order_id s = o_id ord" for s
  proof -
    obtain s0 where s0: "s0 \<in> set (stock_reservations d)" "s = (if sr_status s0 = Active \<and>
        sr_id s0 \<in> set (expired_ids batch d) then stop_holding Expired (db_now d) s0 else s0)"
      using s(1) unfolding sw(2) set_upd by blast
    have "sr_order_id s0 = o_id ord" using s(2) s0(2) by (auto split: if_splits)
    with assms(5) [OF s0(1)] s0(2) show ?thesis by simp
  qed
  have same: "stock_reservations d2 = stock_reservations d1"
    unfolding e(4) by (rule upd_none) (use exp in auto)
  obtain r where "r \<in> set (orders d1)" "o_id r = o_id ord" using e(2) by blast
  from at_status_hit [OF this] have "\<exists>r \<in> set (orders d2). o_id r = o_id ord \<and> o_status r = Confirmed"
    unfolding e(1) by blast
  moreover have "held d2 = held d1" by (simp add: held_def same fun_eq_iff)
  moreover have "filter (\<lambda>s. sr_order_id s = o_id ord \<and> holding s) (stock_reservations d2) = []"
    using exp by (auto simp: same filter_empty_conv holding_def)
  ultimately show ?thesis using c e(5) by blast
qed

lemma demo_late_settleable: "settleable demo_order 108 demo_late"
  using demo_settleable demo_ledger_late
  by (simp add: settleable_def) (simp add: demo_late_def order_spec_def payment_spec_def idempotency_spec_def
      uuids_fresh_def used_ids_def)

theorem swept_order_is_confirmed_anyway_witness:
  "\<exists>rel d1 body d2. sweep_expired 500 demo_late = Inr (rel, d1) \<and>
     complete demo_order 108 demo_result ''k1'' d1 = Inr (body, d2) \<and> held d2 20 10 = held d1 20 10"
proof -
  obtain rel d1 where sw: "sweep_expired 500 demo_late = Inr (rel, d1)"
    using sweep_succeeds [OF demo_ledger_late] by blast
  have l4: "null_or card_last4_format (card_last4 demo_result)"
    by (simp add: demo_result_simps card_last4_format_def ustr_def)
  have paid: "can_be_paid 108 (reference demo_result) demo_late"
    by (simp add: can_be_paid_def demo_late_def demo_db1_def demo_payment_def new_payment_def)
  have ids: "expired_ids 500 demo_late = [105, 106]"
    by (simp add: expired_ids_def demo_late_def demo_db1_def demo_hold_def)
  have "sr_status s = Active \<and> sr_id s \<in> set (expired_ids 500 demo_late)"
    if "s \<in> set (stock_reservations demo_late)" for s
    using that unfolding ids by (auto simp: demo_late_def demo_db1_def demo_hold_def)
  then obtain body d2 where "complete demo_order 108 demo_result ''k1'' d1 = Inr (body, d2)" "held d2 = held d1"
    using swept_order_is_confirmed_anyway [OF demo_late_settleable paid l4 sw, where key = "''k1''"] by blast
  with sw show ?thesis by (intro exI [of _ rel] exI [of _ d1] exI [of _ body] exI [of _ d2]) simp
qed

section \<open>The wire\<close>

definition demo_payload :: create_order_request where
  "demo_payload = \<lparr>req_customer_id = 1, req_address = demo_address,
     req_items = [\<lparr>in_product_id = 11, in_quantity = 1\<rparr>, \<lparr>in_product_id = 10, in_quantity = 2\<rparr>],
     req_card_number = ustr ''4242 4242 4242 4242''\<rparr>"

lemma demo_payload_valid: "validate_request demo_ucd demo_payload = Inr demo_payload"
  by (simp add: validate_request_def demo_payload_def address_problems_def sized_def items_problems_def
      card_problems_def validate_card_def strip_card_def luhn_ok_def luhn_value_def demo_ucd_def
      demo_address_def ustr_def ascii_letter_def ascii_upper_def enumerate_eq_zip Let_def)

lemma demo_payload_request: "checkout_request_of (\<lambda>_. demo_hash) ''k1'' demo_payload = demo_request"
  by (simp add: checkout_request_of_def request_hash_def demo_payload_def demo_request_def demo_items_def)

text \<open>
  C27: a repeated request is answered from the store. Once a request has been answered 201, sending
  the same body under the same key again, with whatever valid card, gives the same status, the same
  Location and the same body, whatever has happened since as long as the key's row is the same; the
  database and the provider are not touched, and the provider is not even asked.
\<close>

theorem repeated_request_is_replayed:
  assumes "checkout env charge between (checkout_request_of sha key rq) (d, p) = (Inr res, (d', p'))"
    and "\<And>x. key_row key (between x) = key_row key x" and "key_row key d'' = key_row key d'"
    and "validate_request u raw = Inr rq'" and "rq'\<lparr>req_card_number := req_card_number rq\<rparr> = rq"
    and "\<not> list_all py_space key"
  shows "post_orders env u sha charge' between' (Some key) raw (d'', p'') =
     (created_response (co_body res) (co_order_id res), (d'', p''))"
  by (rule route_replay [OF assms])

theorem repeated_request_is_replayed_witness:
  "\<exists>body d'. post_orders demo_env demo_ucd (\<lambda>_. demo_hash) (demo_pay demo_refusal) (\<lambda>x. x) (Some ''k1'')
     demo_payload (d', 7) = (created_response body 101, (d', 7))"
proof -
  obtain body d' where c: "checkout demo_env (demo_pay demo_result) (\<lambda>x. x) demo_request (demo_db, 0) =
      (Inr \<lparr>co_order_id = 101, co_body = body, co_status_code = 201\<rparr>, (d', 1))"
    using demo_confirms by blast
  have "\<not> list_all py_space ''k1''" by (simp add: py_space_def)
  from repeated_request_is_replayed [OF c [folded demo_payload_request] refl refl demo_payload_valid _ this,
      of "demo_pay demo_refusal" "\<lambda>x. x" 7]
  show ?thesis by auto
qed

text \<open>
  C30: what an accepted request guarantees. Its basket is not empty, has no product twice and only
  positive quantities, its country code is two upper-case letters as the orders table demands, its
  card is 12 to 19 digits, and validation changed nothing but the case of the country code.
\<close>

theorem accepted_request_is_well_formed:
  assumes "validate_request u raw = Inr rq"
  shows "req_items rq \<noteq> [] \<and> distinct (map in_product_id (req_items rq)) \<and>
    list_all (\<lambda>i. 0 < in_quantity i) (req_items rq) \<and>
    country_code_format (country_code (req_address rq)) \<and>
    12 \<le> length (strip_card (req_card_number rq)) \<and> length (strip_card (req_card_number rq)) \<le> 19 \<and>
    luhn_ok u (strip_card (req_card_number rq)) = Inr True \<and>
    rq = raw\<lparr>req_address := (req_address raw)\<lparr>country_code := map ascii_upper (country_code (req_address raw))\<rparr>\<rparr>"
proof -
  note v = validate_request_Inr [OF assms]
  have "12 \<le> length (strip_card (req_card_number rq)) \<and> length (strip_card (req_card_number rq)) \<le> 19 \<and>
      luhn_ok u (strip_card (req_card_number rq)) = Inr True"
    using v(5) by (auto simp: validate_card_def Let_def bind_r_Inr split: if_splits)
  moreover have "rq = raw\<lparr>req_address := (req_address raw)\<lparr>country_code := map ascii_upper (country_code (req_address raw))\<rparr>\<rparr>"
    using assms by (auto simp: validate_request_def Let_def split: if_splits)
  ultimately show ?thesis using v(1-4) by (simp add: list_all_iff)
qed

theorem accepted_request_is_well_formed_witness:
  "distinct (map in_product_id (req_items demo_payload)) \<and> country_code_format (ustr ''ES'')"
  using accepted_request_is_well_formed [OF demo_payload_valid]
  by (simp add: demo_payload_def demo_address_def)

text \<open>
  the checksum catches every mistyped digit. Replacing one digit of an accepted card number by a
  digit of another value, wherever it stands and however the number is spaced, makes validation fail
  with the checksum message.
\<close>

theorem mistyped_digit_is_caught:
  assumes "ucd_ok u" and "validate_card u (as @ c # bs) = Inr x"
    and "c \<notin> {32, 45}" and "c' \<notin> {32, 45}" and "is_digit u c'"
    and "digit_value u c = Some v" and "digit_value u c' = Some w" and "v \<noteq> w"
  shows "validate_card u (as @ c' # bs) = Inl (ValueError ''card number failed checksum validation'')"
proof -
  have s: "strip_card (as @ y # bs) = strip_card as @ y # strip_card bs" if "y \<notin> {32, 45}" for y
    using that by (simp add: strip_card_def)
  have "luhn_ok u (strip_card as @ c # strip_card bs) = Inr True"
    and "list_all (is_digit u) (strip_card as @ c # strip_card bs)"
    and len: "12 \<le> length (strip_card as @ c # strip_card bs)" "length (strip_card as @ c # strip_card bs) \<le> 19"
    using assms(2) s [OF assms(3)] by (auto simp: validate_card_def Let_def bind_r_Inr split: if_splits)
  moreover from luhn_one_digit [OF assms(1) this(1) assms(6,7,8)]
  have "luhn_ok u (strip_card as @ c' # strip_card bs) = Inr False" .
  ultimately show ?thesis using s [OF assms(4)] assms(5)
    by (simp add: validate_card_def Let_def)
qed

theorem mistyped_digit_is_caught_witness:
  "validate_card demo_ucd (ustr ''4242 4242 4243 4242'') =
     Inl (ValueError ''card number failed checksum validation'')"
proof -
  have "ucd_ok demo_ucd" by (auto simp: ucd_ok_def demo_ucd_def split: if_splits)
  moreover have "validate_card demo_ucd (ustr ''4242 4242 424'' @ 50 # ustr '' 4242'') =
      Inr (ustr ''4242 4242 4242 4242'')"
    by (simp add: validate_card_def strip_card_def luhn_ok_def luhn_value_def demo_ucd_def ustr_def Let_def)
  ultimately have "validate_card demo_ucd (ustr ''4242 4242 424'' @ 51 # ustr '' 4242'') =
      Inl (ValueError ''card number failed checksum validation'')"
    by (rule mistyped_digit_is_caught [where v = 2 and w = 3]) (simp_all add: demo_ucd_def)
  then show ?thesis by (simp add: ustr_def)
qed

text \<open>
  a problem document says its own status and reveals nothing of a server error. Whatever
  happens to a request, an answer that is a problem carries the status it is sent with, that status
  is one of six, and from 500 up there is neither a detail nor a list of errors.
\<close>

theorem server_errors_reveal_nothing:
  assumes "post_orders env u sha charge between idem raw s = (resp, s')" and "http_body resp = Problem er"
  shows "er_status er = http_status resp \<and> http_status resp \<in> {400, 402, 409, 422, 500, 502} \<and>
    (500 \<le> http_status resp \<longrightarrow> er_detail er = None \<and> er_errors er = None)"
proof -
  have ex: "\<exists>e. resp = on_exception ''/orders'' e" if no: "\<forall>ps. resp \<noteq> on_validation_error ''/orders'' ps"
  proof -
    obtain rq where rq: "validate_request u raw = Inr rq"
      using assms(1) no by (auto simp: post_orders_def split: sum.splits)
    obtain r t where r: "create_order_route env sha charge between idem rq s = (r, t)"
      by (cases "create_order_route env sha charge between idem rq s")
    show ?thesis
    proof (cases r)
      case (Inl e)
      with assms(1) rq r show ?thesis by (auto simp: post_orders_def)
    next
      case (Inr x)
      then have "\<nexists>er. http_body x = Problem er"
        using r by (auto simp: create_order_route_def split: option.splits if_splits sum.splits prod.splits exc.splits)
      with assms rq r Inr show ?thesis by (auto simp: post_orders_def)
    qed
  qed
  show ?thesis
  proof (cases "\<exists>ps. resp = on_validation_error ''/orders'' ps")
    case True
    with assms(2) show ?thesis by (auto simp: on_validation_error_def make_problem_def)
  next
    case False
    with ex obtain e where e: "resp = on_exception ''/orders'' e" by blast
    with on_exception_problem [of "''/orders''" e] assms(2)
    have "er_status er = http_status resp" "500 \<le> er_status er \<longrightarrow> er_detail er = None" "er_errors er = None"
      by auto
    moreover have "http_status resp \<in> {400, 402, 409, 422, 500, 502}"
      using e error_mapping_status
      by (cases e) (auto simp: on_exception_def on_domain_error_def on_unhandled_def make_problem_def
          split: prod.splits, metis fst_conv insertE singletonD)
    ultimately show ?thesis by simp
  qed
qed

theorem server_errors_reveal_nothing_witness:
  "\<exists>er. post_orders (demo_env\<lparr>env_geocode := \<lambda>_. Inl (DomainError (GeocodingFailed ''provider down''))\<rparr>)
      demo_ucd (\<lambda>_. demo_hash) (demo_pay demo_result) (\<lambda>x. x) (Some ''k1'') demo_payload (demo_db, 0) =
    (\<lparr>http_status = 502, media_type = ''application/problem+json'', location = None, http_body = Problem er\<rparr>,
     (demo_db, 0)) \<and> er_detail er = None"
proof -
  let ?env = "demo_env\<lparr>env_geocode := \<lambda>_. Inl (DomainError (GeocodingFailed ''provider down''))\<rparr>"
  have "make_items (req_items demo_payload) = Inr demo_items"
    by (simp add: make_items_def mk_requested_item_def demo_payload_def demo_items_def)
  then have "post_orders ?env demo_ucd (\<lambda>_. demo_hash) (demo_pay demo_result) (\<lambda>x. x) (Some ''k1'')
      demo_payload (demo_db, 0) = (on_exception ''/orders'' (DomainError (GeocodingFailed ''provider down'')), (demo_db, 0))"
    by (simp add: post_orders_def demo_payload_valid create_order_route_def py_space_def checkout_def)
  then obtain er where er: "post_orders ?env demo_ucd (\<lambda>_. demo_hash) (demo_pay demo_result) (\<lambda>x. x) (Some ''k1'')
      demo_payload (demo_db, 0) =
    (\<lparr>http_status = 502, media_type = ''application/problem+json'', location = None, http_body = Problem er\<rparr>,
     (demo_db, 0))" by (simp add: on_exception_def on_domain_error_def make_problem_def)
  from server_errors_reveal_nothing [OF this, of er] have "er_detail er = None" by simp
  with er show ?thesis by blast
qed

section \<open>The relay\<close>

text \<open>
  C29: the drain loop of the relay ends, and publishes every pending event exactly once, oldest first;
  its total is their number and nothing is pending after it. (Provided no event has used up its
  counter of attempts.)
\<close>

theorem relay_publishes_each_event_once:
  assumes "can_mark d" and "0 < batch"
  shows "\<exists>d'. publish_main log_publish batch 0 (d, []) =
      Some (Inr (length (queue d)), (d', map event_sig (queue d))) \<and> queue d' = [] \<and>
    mset (queue d) = mset (filter (\<lambda>e. processed_at e = None) (outbox d)) \<and>
    sorted (map ob_created_at (queue d))"
  using publish_main_ends [OF assms, of 0 "[]"] by (auto simp: queue_def)

definition demo_event :: "uuid \<Rightarrow> uuid \<Rightarrow> timestamp \<Rightarrow> outbox_row" where
  "demo_event eid agg t = \<lparr>ob_id = eid, event_type = ''order_confirmed'', aggregate_type = ''order'',
     aggregate_id = agg, payload = confirmed_payload demo_order None, attempts = 0, ob_created_at = t,
     processed_at = None\<rparr>"

theorem relay_publishes_each_event_once_witness:
  "\<exists>d'. publish_main log_publish 1 0 (demo_db\<lparr>outbox := [demo_event 200 101 5, demo_event 201 102 3]\<rparr>, []) =
     Some (Inr 2, (d', [(''order_confirmed'', 102), (''order_confirmed'', 101)]))"
proof -
  let ?d = "demo_db\<lparr>outbox := [demo_event 200 101 5, demo_event 201 102 3]\<rparr>"
  have "can_mark ?d"
    by (simp add: can_mark_def table_ok_def conflict_free_def outbox_row_ok fits_int4_def demo_event_def)
      (simp add: outbox_spec_def)
  moreover have "queue ?d = [demo_event 201 102 3, demo_event 200 101 5]"
    by (simp add: queue_def demo_event_def)
  ultimately show ?thesis
    using relay_publishes_each_event_once [of ?d 1] by (auto simp: event_sig_def demo_event_def)
qed

text \<open>
  at least once, with any publisher. A round that raises, in the publisher or in marking, leaves
  the database as it was, so its events are published again; a round that returns has handed every
  event of its batch to the publisher without an exception, and marks no other event.
\<close>

theorem relay_loses_no_event:
  assumes "publish_once publish batch locked (d, l) = (r, (d', l'))"
  shows "case r of
      Inl _ \<Rightarrow> d' = d
    | Inr n \<Rightarrow> n = length (claim_batch batch locked d) \<and>
        (\<forall>e \<in> set (claim_batch batch locked d). \<exists>l1 l2. publish e l1 = (None, l2)) \<and>
        (\<forall>e \<in> set (outbox d'). e \<in> set (outbox d) \<or> ob_id e \<in> ob_id ` set (claim_batch batch locked d))"
proof (cases r)
  case (Inl x)
  with publish_once_failed [of publish batch locked "(d, l)" x "(d', l')"] assms show ?thesis by simp
next
  case (Inr n)
  then have p: "publish_all publish (claim_batch batch locked d) l = (None, l')"
    "n = length (claim_batch batch locked d)"
    and m: "mark_processed (map ob_id (claim_batch batch locked d)) d = Inr d'"
    using assms by (auto simp: publish_once_def Let_def split: prod.splits option.splits sum.splits)
  have "e \<in> set (outbox d) \<or> ob_id e \<in> ob_id ` set (claim_batch batch locked d)" if "e \<in> set (outbox d')" for e
    using that unfolding mark_processed_Inr [OF m] by (auto simp: set_upd split: if_splits)
  with Inr p publish_all_append [OF p(1)] show ?thesis by simp
qed

theorem relay_loses_no_event_witness:
  "\<exists>l'. publish_once (\<lambda>e l. if l = [] then (None, [aggregate_id e]) else (Some (RuntimeError ''broker down''), l)) 9 {}
     (demo_db\<lparr>outbox := [demo_event 200 101 5, demo_event 201 102 3]\<rparr>, []) =
     (Inl (RuntimeError ''broker down''), (demo_db\<lparr>outbox := [demo_event 200 101 5, demo_event 201 102 3]\<rparr>, l'))"
proof -
  let ?d = "demo_db\<lparr>outbox := [demo_event 200 101 5, demo_event 201 102 3]\<rparr>"
  let ?pub = "\<lambda>e l. if l = [] then (None, [aggregate_id e]) else (Some (RuntimeError ''broker down''), l)"
  have "claim_batch 9 {} ?d = [demo_event 201 102 3, demo_event 200 101 5]"
    by (simp add: claim_batch_def demo_event_def)
  then obtain d' l' where r: "publish_once ?pub 9 {} (?d, []) = (Inl (RuntimeError ''broker down''), (d', l'))"
    by (simp add: publish_once_def Let_def)
  with relay_loses_no_event [OF this] show ?thesis by auto
qed

end
