(* ===== verification/Catalog.thy ===== *)
theory Catalog
  imports Prelude
begin

text \<open>
  What the migrations act on: the part of PostgreSQL's catalog that this program owns, its
  enumeration types and its tables with their columns, constraints and indexes, and the effect of one
  DDL statement on it, with the errors PostgreSQL raises. \<open>same_schema\<close> compares two tables the way
  \<^verbatim>\<open>alembic\<close> does, ignoring the order of columns and constraints. A default is kept as
  PostgreSQL stores it, so \<^verbatim>\<open>server_default="true"\<close> and \<^verbatim>\<open>text("true")\<close> are one.
\<close>

section \<open>The catalog\<close>

datatype column_type =
    T_uuid | T_varchar "nat option" | T_integer | T_bigint | T_boolean | T_timestamptz | T_jsonb
  | T_geography_point nat | T_enum string

record column =
  col_name :: string
  col_type :: column_type
  nullable :: bool
  server_default :: "string option"
  computed :: "string option"

datatype on_delete = Cascade | Restrict | Set_null

datatype table_constraint =
    Primary_key string "string list"
  | Unique string "string list"
  | Check string string
  | Foreign_key string string string string on_delete

text \<open>The key of an index is a column or an expression over columns.\<close>

datatype index_key = Key string | Expr string

definition required :: "string \<Rightarrow> column_type \<Rightarrow> column" where
  "required n ty = \<lparr>col_name = n, col_type = ty, nullable = False, server_default = None, computed = None\<rparr>"

definition optional :: "string \<Rightarrow> column_type \<Rightarrow> column" where
  "optional n ty = (required n ty)\<lparr>nullable := True\<rparr>"

definition defaulted :: "string \<Rightarrow> column_type \<Rightarrow> string \<Rightarrow> column" where
  "defaulted n ty d = (required n ty)\<lparr>server_default := Some d\<rparr>"

lemma column_simps [simp]:
  "col_name (required n ty) = n" "col_type (required n ty) = ty"
  "col_name (optional n ty) = n" "col_type (optional n ty) = ty"
  "col_name (defaulted n ty d) = n" "col_type (defaulted n ty d) = ty"
  by (simp_all add: required_def optional_def defaulted_def)

record table_index =
  ix_name :: string
  ix_keys :: "index_key list"
  ix_unique :: bool
  ix_gist :: bool
  ix_where :: "string option"

record table_def =
  td_columns :: "column list"
  td_constraints :: "table_constraint list"
  td_indexes :: "table_index list"

record catalog =
  cat_extensions :: "string set"
  cat_enums :: "(string \<times> string list) list"
  cat_tables :: "(string \<times> table_def) list"

datatype ddl_error = Duplicate_object string | Undefined_object string | Dependent_objects string

type_synonym ddl = "catalog \<Rightarrow> ddl_error + catalog"

section \<open>Reading the catalog\<close>

fun constraint_name :: "table_constraint \<Rightarrow> string" where
  "constraint_name (Primary_key n _) = n"
| "constraint_name (Unique n _) = n"
| "constraint_name (Check n _) = n"
| "constraint_name (Foreign_key n _ _ _ _) = n"

fun constraint_columns :: "table_constraint \<Rightarrow> string list" where
  "constraint_columns (Primary_key _ cs) = cs"
| "constraint_columns (Unique _ cs) = cs"
| "constraint_columns (Check _ _) = []"
| "constraint_columns (Foreign_key _ c _ _ _) = [c]"

fun referred_table :: "table_constraint \<Rightarrow> string option" where
  "referred_table (Foreign_key _ _ t _ _) = Some t"
| "referred_table _ = None"

definition references :: "table_def \<Rightarrow> string list" where
  "references td = List.map_filter referred_table (td_constraints td)"

fun enum_of :: "column_type \<Rightarrow> string option" where
  "enum_of (T_enum n) = Some n"
| "enum_of _ = None"

definition uses_enums :: "table_def \<Rightarrow> string list" where
  "uses_enums td = List.map_filter (\<lambda>c. enum_of (col_type c)) (td_columns td)"

text \<open>A foreign key refers to a column that a primary key or a unique constraint makes unique.\<close>

definition has_key :: "table_def \<Rightarrow> string \<Rightarrow> bool" where
  "has_key td col =
     list_ex (\<lambda>k. case k of Primary_key _ cs \<Rightarrow> cs = [col] | Unique _ cs \<Rightarrow> cs = [col] | _ \<Rightarrow> False)
       (td_constraints td)"

definition references_ok :: "(string \<times> table_def) list \<Rightarrow> table_def \<Rightarrow> bool" where
  "references_ok ts td =
     list_all (\<lambda>k. case k of
         Foreign_key _ _ t rc _ \<Rightarrow> (case map_of ts t of None \<Rightarrow> False | Some rt \<Rightarrow> has_key rt rc)
       | _ \<Rightarrow> True) (td_constraints td)"

definition index_names :: "catalog \<Rightarrow> string list" where
  "index_names c = concat (map (\<lambda>(_, td). map ix_name (td_indexes td)) (cat_tables c))"

fun key_column :: "index_key \<Rightarrow> string list" where
  "key_column (Key n) = [n]"
| "key_column (Expr _) = []"

definition key_columns :: "table_index \<Rightarrow> string list" where
  "key_columns ix = concat (map key_column (ix_keys ix))"

definition table_names :: "catalog \<Rightarrow> string list" where
  "table_names c = map fst (cat_tables c)"

section \<open>Statements\<close>

definition create_extension :: "string \<Rightarrow> ddl" where
  "create_extension n c = Inr (c\<lparr>cat_extensions := insert n (cat_extensions c)\<rparr>)"

definition create_enum :: "string \<Rightarrow> string list \<Rightarrow> ddl" where
  "create_enum n vs c =
     (if n \<in> set (map fst (cat_enums c)) then Inl (Duplicate_object n)
      else Inr (c\<lparr>cat_enums := cat_enums c @ [(n, vs)]\<rparr>))"

text \<open>\<^verbatim>\<open>DROP TYPE IF EXISTS\<close>\<close>

definition drop_enum :: "string \<Rightarrow> ddl" where
  "drop_enum n c =
     (if list_ex (\<lambda>(_, td). n \<in> set (uses_enums td)) (cat_tables c) then Inl (Dependent_objects n)
      else Inr (c\<lparr>cat_enums := filter (\<lambda>e. fst e \<noteq> n) (cat_enums c)\<rparr>))"

definition create_table :: "string \<Rightarrow> table_def \<Rightarrow> ddl" where
  "create_table n td c =
     (if n \<in> set (table_names c) then Inl (Duplicate_object n)
      else if \<not> set (uses_enums td) \<subseteq> set (map fst (cat_enums c)) then Inl (Undefined_object n)
      else if \<not> references_ok ((n, td) # cat_tables c) td then Inl (Undefined_object n)
      else if \<not> list_all (\<lambda>k. set (constraint_columns k) \<subseteq> set (map col_name (td_columns td))) (td_constraints td)
        then Inl (Undefined_object n)
      else Inr (c\<lparr>cat_tables := cat_tables c @ [(n, td)]\<rparr>))"

definition drop_table :: "string \<Rightarrow> ddl" where
  "drop_table n c =
     (if n \<notin> set (table_names c) then Inl (Undefined_object n)
      else if list_ex (\<lambda>(m, td). m \<noteq> n \<and> n \<in> set (references td)) (cat_tables c)
        then Inl (Dependent_objects n)
      else Inr (c\<lparr>cat_tables := filter (\<lambda>t. fst t \<noteq> n) (cat_tables c)\<rparr>))"

definition alter_table :: "string \<Rightarrow> (table_def \<Rightarrow> ddl_error + table_def) \<Rightarrow> ddl" where
  "alter_table n f c =
     (case map_of (cat_tables c) n of
        None \<Rightarrow> Inl (Undefined_object n)
      | Some td \<Rightarrow>
          bind_r (f td) (\<lambda>td'.
            Inr (c\<lparr>cat_tables := map (\<lambda>(m, t). (m, if m = n then td' else t)) (cat_tables c)\<rparr>)))"

definition create_index :: "string \<Rightarrow> table_index \<Rightarrow> ddl" where
  "create_index n ix c =
     (if ix_name ix \<in> set (index_names c) then Inl (Duplicate_object (ix_name ix))
      else alter_table n (\<lambda>td.
        if \<not> set (key_columns ix) \<subseteq> set (map col_name (td_columns td)) then Inl (Undefined_object (ix_name ix))
        else Inr (td\<lparr>td_indexes := td_indexes td @ [ix]\<rparr>)) c)"

definition drop_index :: "string \<Rightarrow> string \<Rightarrow> ddl" where
  "drop_index n ix =
     alter_table n (\<lambda>td.
       if ix \<notin> set (map ix_name (td_indexes td)) then Inl (Undefined_object ix)
       else Inr (td\<lparr>td_indexes := filter (\<lambda>i. ix_name i \<noteq> ix) (td_indexes td)\<rparr>))"

definition add_column :: "string \<Rightarrow> column \<Rightarrow> ddl" where
  "add_column n col c =
     (if \<not> set (case enum_of (col_type col) of None \<Rightarrow> [] | Some e \<Rightarrow> [e]) \<subseteq> set (map fst (cat_enums c))
      then Inl (Undefined_object (col_name col))
      else alter_table n (\<lambda>td.
        if col_name col \<in> set (map col_name (td_columns td)) then Inl (Duplicate_object (col_name col))
        else Inr (td\<lparr>td_columns := td_columns td @ [col]\<rparr>)) c)"

text \<open>Dropping a column takes the constraints and indexes keyed on it along.\<close>

definition drop_column :: "string \<Rightarrow> string \<Rightarrow> ddl" where
  "drop_column n col =
     alter_table n (\<lambda>td.
       if col \<notin> set (map col_name (td_columns td)) then Inl (Undefined_object col)
       else Inr (td\<lparr>td_columns := filter (\<lambda>c. col_name c \<noteq> col) (td_columns td),
                    td_constraints := filter (\<lambda>k. col \<notin> set (constraint_columns k)) (td_constraints td),
                    td_indexes := filter (\<lambda>i. col \<notin> set (key_columns i)) (td_indexes td)\<rparr>))"

definition add_constraint :: "string \<Rightarrow> table_constraint \<Rightarrow> ddl" where
  "add_constraint n k =
     alter_table n (\<lambda>td.
       if constraint_name k \<in> set (map constraint_name (td_constraints td))
       then Inl (Duplicate_object (constraint_name k))
       else Inr (td\<lparr>td_constraints := td_constraints td @ [k]\<rparr>))"

definition drop_constraint :: "string \<Rightarrow> string \<Rightarrow> ddl" where
  "drop_constraint n name =
     alter_table n (\<lambda>td.
       if name \<notin> set (map constraint_name (td_constraints td)) then Inl (Undefined_object name)
       else Inr (td\<lparr>td_constraints := filter (\<lambda>k. constraint_name k \<noteq> name) (td_constraints td)\<rparr>))"

text \<open>A revision is a sequence of statements; the first that fails ends it.\<close>

definition run_ddl :: "ddl list \<Rightarrow> ddl" where
  "run_ddl ops = fold_r (\<lambda>op. op) ops"

lemma run_ddl_simps [simp]:
  "run_ddl [] c = Inr c"
  "run_ddl (op # ops) c = bind_r (op c) (run_ddl ops)"
  by (simp_all add: run_ddl_def)

lemma run_ddl_append: "run_ddl (xs @ ys) c = bind_r (run_ddl xs c) (run_ddl ys)"
  by (simp add: run_ddl_def fold_r_append)

section \<open>A table with its indexes\<close>

lemma alter_last:
  assumes "n \<notin> set (table_names c)"
  shows "alter_table n f (c\<lparr>cat_tables := cat_tables c @ [(n, td)]\<rparr>) =
    bind_r (f td) (\<lambda>td'. Inr (c\<lparr>cat_tables := cat_tables c @ [(n, td')]\<rparr>))"
proof -
  have "map (\<lambda>(m, t). (m, if m = n then td' else t)) (cat_tables c) = cat_tables c" for td'
    using assms by (intro map_idI) (force simp: table_names_def split: prod.splits)
  moreover have "map_of (cat_tables c) n = None" using assms by (simp add: table_names_def map_of_eq_None_iff)
  then have "map_of (cat_tables c @ [(n, td)]) n = Some td" by (simp add: map_add_def)
  ultimately show ?thesis by (simp add: alter_table_def del: map_of_append)
qed

text \<open>Creating a table and then its indexes, none of whose names is taken.\<close>

lemma create_with_indexes:
  assumes "n \<notin> set (table_names c)" and "set (uses_enums td) \<subseteq> set (map fst (cat_enums c))"
    and "references_ok ((n, td) # cat_tables c) td" and "td_indexes td = []"
    and "list_all (\<lambda>k. set (constraint_columns k) \<subseteq> set (map col_name (td_columns td))) (td_constraints td)"
    and "distinct (map ix_name ixs)" and "set (map ix_name ixs) \<inter> set (index_names c) = {}"
    and "list_all (\<lambda>ix. set (key_columns ix) \<subseteq> set (map col_name (td_columns td))) ixs"
  shows "run_ddl (create_table n td # map (create_index n) ixs) c =
    Inr (c\<lparr>cat_tables := cat_tables c @ [(n, td\<lparr>td_indexes := ixs\<rparr>)]\<rparr>)"
  using assms(6-8)
proof (induction ixs rule: rev_induct)
  case Nil
  with assms(1-5) show ?case by (simp add: create_table_def)
next
  case (snoc ix ixs)
  let ?c = "c\<lparr>cat_tables := cat_tables c @ [(n, td\<lparr>td_indexes := ixs\<rparr>)]\<rparr>"
  have "run_ddl (create_table n td # map (create_index n) ixs) c = Inr ?c"
    using snoc by (simp add: list_all_iff)
  then have "run_ddl ((create_table n td # map (create_index n) ixs) @ [create_index n ix]) c = create_index n ix ?c"
    unfolding run_ddl_append by (cases "create_index n ix ?c") simp_all
  moreover have "ix_name ix \<notin> set (index_names ?c)" using snoc.prems by (auto simp: index_names_def)
  then have "create_index n ix ?c =
      Inr (c\<lparr>cat_tables := cat_tables c @ [(n, td\<lparr>td_indexes := ixs @ [ix]\<rparr>)]\<rparr>)"
    using snoc.prems by (simp add: create_index_def alter_last [OF assms(1)])
  ultimately show ?case by simp
qed

section \<open>Names and comparison\<close>

text \<open>\<^verbatim>\<open>NAMING_CONVENTION\<close> of \<^verbatim>\<open>app/db/base.py\<close>\<close>

definition pk_name :: "string \<Rightarrow> string" where
  "pk_name tab = ''pk_'' @ tab"

definition uq_name :: "string \<Rightarrow> string \<Rightarrow> string" where
  "uq_name tab col = ''uq_'' @ tab @ ''_'' @ col"

definition ck_name :: "string \<Rightarrow> string \<Rightarrow> string" where
  "ck_name tab name = ''ck_'' @ tab @ ''_'' @ name"

definition fk_name :: "string \<Rightarrow> string \<Rightarrow> string \<Rightarrow> string" where
  "fk_name tab col ref = ''fk_'' @ tab @ ''_'' @ col @ ''_'' @ ref"

lemmas convention = pk_name_def uq_name_def ck_name_def fk_name_def

definition same_elements :: "'a list \<Rightarrow> 'a list \<Rightarrow> bool" where
  "same_elements xs ys \<longleftrightarrow> length xs = length ys \<and> list_all (\<lambda>x. x \<in> set ys) xs \<and> list_all (\<lambda>y. y \<in> set xs) ys"

definition same_schema :: "table_def \<Rightarrow> table_def \<Rightarrow> bool" where
  "same_schema s t \<longleftrightarrow> same_elements (td_columns s) (td_columns t) \<and>
     same_elements (td_constraints s) (td_constraints t) \<and> same_elements (td_indexes s) (td_indexes t)"

lemma same_elements_set: "same_elements xs ys \<Longrightarrow> set xs = set ys"
  by (auto simp: same_elements_def list_all_iff)

lemma same_schema_refl [simp]: "same_schema t t"
  by (simp add: same_schema_def same_elements_def list_all_iff)

end
