(* ===== verification/Migrations.thy ===== *)
theory Migrations
  imports Catalog
begin

text \<open>
  \<^verbatim>\<open>migrations/versions\<close>: the three revisions as sequences of DDL statements. A CHECK is
  given its short name there, and alembic applies the naming convention to it. SQL text is kept without
  the quotes of its string literals.
\<close>

section \<open>0001: the extension and the enumeration types\<close>

definition ORDER_STATUS :: "string list" where
  "ORDER_STATUS = [''pending'', ''reserved'', ''paid'', ''confirmed'', ''payment_failed'', ''cancelled'']"

definition PAYMENT_STATUS :: "string list" where
  "PAYMENT_STATUS = [''pending'', ''succeeded'', ''failed'']"

definition RESERVATION_STATUS :: "string list" where
  "RESERVATION_STATUS = [''active'', ''committed'', ''released'', ''expired'']"

definition upgrade_0001 :: ddl where
  "upgrade_0001 = run_ddl
     [create_extension ''postgis'', create_enum ''order_status'' ORDER_STATUS,
      create_enum ''payment_status'' PAYMENT_STATUS, create_enum ''reservation_status'' RESERVATION_STATUS]"

definition downgrade_0001 :: ddl where
  "downgrade_0001 = run_ddl
     [drop_enum ''reservation_status'', drop_enum ''payment_status'', drop_enum ''order_status'']"

section \<open>0002: the tables\<close>

definition enum_type :: "string \<Rightarrow> column_type" where
  "enum_type n = T_enum n"

definition point_type :: column_type where
  "point_type = T_geography_point 4326"

definition created_at_col :: column where
  "created_at_col = defaulted ''created_at'' T_timestamptz ''now()''"

definition updated_at_col :: column where
  "updated_at_col = defaulted ''updated_at'' T_timestamptz ''now()''"

definition id_col :: column where
  "id_col = defaulted ''id'' T_uuid ''gen_random_uuid()''"

definition customers_table :: table_def where
  "customers_table =
     \<lparr>td_columns = [id_col, required ''email'' (T_varchar None), required ''full_name'' (T_varchar None),
                    created_at_col, updated_at_col],
      td_constraints = [Primary_key ''pk_customers'' [''id'']],
      td_indexes = []\<rparr>"

definition create_customers :: "ddl list" where
  "create_customers =
    [create_table ''customers'' customers_table,
     create_index ''customers''
     \<lparr>ix_name = ''ix_customers_email_lower'', ix_keys = [Expr ''lower(email)''], ix_unique = True, ix_gist = False,
        ix_where = None\<rparr>]"

definition products_table :: table_def where
  "products_table =
     \<lparr>td_columns = [id_col, required ''sku'' (T_varchar None), required ''name'' (T_varchar None),
                    required ''unit_price_minor'' T_bigint, required ''currency'' (T_varchar (Some 3)),
                    defaulted ''is_active'' T_boolean ''true'', created_at_col, updated_at_col],
      td_constraints = [Primary_key ''pk_products'' [''id''], Unique ''uq_products_sku'' [''sku''],
        Check (ck_name ''products'' ''unit_price_non_negative'') ''unit_price_minor >= 0'',
        Check (ck_name ''products'' ''currency_format'') ''currency ~ ^[A-Z]{3}$''],
      td_indexes = []\<rparr>"

definition create_products :: "ddl list" where
  "create_products =
    [create_table ''products'' products_table]"

definition warehouses_table :: table_def where
  "warehouses_table =
     \<lparr>td_columns = [id_col, required ''code'' (T_varchar None), required ''name'' (T_varchar None),
                    required ''location'' point_type, defaulted ''is_active'' T_boolean ''true'',
                    created_at_col, updated_at_col],
      td_constraints = [Primary_key ''pk_warehouses'' [''id''], Unique ''uq_warehouses_code'' [''code'']],
      td_indexes = []\<rparr>"

definition create_warehouses :: "ddl list" where
  "create_warehouses =
    [create_table ''warehouses'' warehouses_table,
     create_index ''warehouses''
     \<lparr>ix_name = ''ix_warehouses_location'', ix_keys = [Key ''location''], ix_unique = False, ix_gist = True,
        ix_where = None\<rparr>]"

definition addresses_table :: table_def where
  "addresses_table =
     \<lparr>td_columns = [id_col, required ''customer_id'' T_uuid, required ''line1'' (T_varchar None),
                    optional ''line2'' (T_varchar None), required ''city'' (T_varchar None),
                    required ''postal_code'' (T_varchar None), required ''country_code'' (T_varchar (Some 2)),
                    optional ''point'' point_type, created_at_col, updated_at_col],
      td_constraints = [Primary_key ''pk_addresses'' [''id''],
        Foreign_key ''fk_addresses_customer_id_customers'' ''customer_id'' ''customers'' ''id'' Cascade,
        Check (ck_name ''addresses'' ''country_code_format'') ''country_code ~ ^[A-Z]{2}$''],
      td_indexes = []\<rparr>"

definition create_addresses :: "ddl list" where
  "create_addresses =
    [create_table ''addresses'' addresses_table,
     create_index ''addresses''
     \<lparr>ix_name = ''ix_addresses_customer_id'', ix_keys = [Key ''customer_id''], ix_unique = False, ix_gist = False,
        ix_where = None\<rparr>,
     create_index ''addresses''
     \<lparr>ix_name = ''ix_addresses_point'', ix_keys = [Key ''point''], ix_unique = False, ix_gist = True,
        ix_where = Some ''point IS NOT NULL''\<rparr>]"

definition inventory_table :: table_def where
  "inventory_table =
     \<lparr>td_columns = [id_col, required ''warehouse_id'' T_uuid, required ''product_id'' T_uuid,
                    defaulted ''on_hand'' T_integer ''0'', defaulted ''reserved'' T_integer ''0'',
                    updated_at_col],
      td_constraints = [Primary_key ''pk_inventory'' [''id''],
        Foreign_key ''fk_inventory_warehouse_id_warehouses'' ''warehouse_id'' ''warehouses'' ''id'' Restrict,
        Foreign_key ''fk_inventory_product_id_products'' ''product_id'' ''products'' ''id'' Restrict,
        Unique ''uq_inventory_warehouse_product'' [''warehouse_id'', ''product_id''],
        Check (ck_name ''inventory'' ''reserved_non_negative'') ''reserved >= 0'',
        Check (ck_name ''inventory'' ''on_hand_ge_reserved'') ''on_hand >= reserved''],
      td_indexes = []\<rparr>"

definition create_inventory :: "ddl list" where
  "create_inventory =
    [create_table ''inventory'' inventory_table,
     create_index ''inventory''
     \<lparr>ix_name = ''ix_inventory_product_warehouse'', ix_keys = [Key ''product_id'', Key ''warehouse_id''], ix_unique = False, ix_gist = False,
        ix_where = None\<rparr>]"

definition orders_table :: table_def where
  "orders_table =
     \<lparr>td_columns = [id_col, required ''customer_id'' T_uuid,
                    defaulted ''status'' (enum_type ''order_status'') ''pending'',
                    optional ''warehouse_id'' T_uuid, required ''currency'' (T_varchar (Some 3)),
                    required ''total_minor'' T_bigint, required ''shipping_line1'' (T_varchar None),
                    optional ''shipping_line2'' (T_varchar None), required ''shipping_city'' (T_varchar None),
                    required ''shipping_postal_code'' (T_varchar None),
                    required ''shipping_country_code'' (T_varchar (Some 2)),
                    optional ''shipping_point'' point_type, created_at_col, updated_at_col],
      td_constraints = [Primary_key ''pk_orders'' [''id''],
        Foreign_key ''fk_orders_customer_id_customers'' ''customer_id'' ''customers'' ''id'' Restrict,
        Foreign_key ''fk_orders_warehouse_id_warehouses'' ''warehouse_id'' ''warehouses'' ''id'' Restrict,
        Check (ck_name ''orders'' ''currency_format'') ''currency ~ ^[A-Z]{3}$'',
        Check (ck_name ''orders'' ''shipping_country_format'') ''shipping_country_code ~ ^[A-Z]{2}$'',
        Check (ck_name ''orders'' ''total_non_negative'') ''total_minor >= 0'',
        Check (ck_name ''orders'' ''reserved_requires_warehouse_and_point'') ''status IN (pending, cancelled) OR (warehouse_id IS NOT NULL AND shipping_point IS NOT NULL)''],
      td_indexes = []\<rparr>"

definition create_orders :: "ddl list" where
  "create_orders =
    [create_table ''orders'' orders_table,
     create_index ''orders''
     \<lparr>ix_name = ''ix_orders_customer_created'', ix_keys = [Key ''customer_id'', Expr ''created_at DESC''], ix_unique = False, ix_gist = False,
        ix_where = None\<rparr>,
     create_index ''orders''
     \<lparr>ix_name = ''ix_orders_open'', ix_keys = [Key ''status'', Key ''created_at''], ix_unique = False, ix_gist = False,
        ix_where = Some ''status IN (pending, reserved)''\<rparr>]"

definition order_items_table :: table_def where
  "order_items_table =
     \<lparr>td_columns = [id_col, required ''order_id'' T_uuid, required ''product_id'' T_uuid,
                    required ''product_sku'' (T_varchar None), required ''product_name'' (T_varchar None),
                    required ''quantity'' T_integer, required ''unit_price_minor'' T_bigint,
                    required ''currency'' (T_varchar (Some 3)),
                    (required ''line_total_minor'' T_bigint)\<lparr>computed := Some ''quantity * unit_price_minor''\<rparr>,
                    created_at_col],
      td_constraints = [Primary_key ''pk_order_items'' [''id''],
        Foreign_key ''fk_order_items_order_id_orders'' ''order_id'' ''orders'' ''id'' Cascade,
        Foreign_key ''fk_order_items_product_id_products'' ''product_id'' ''products'' ''id'' Restrict,
        Unique ''uq_order_items_order_product'' [''order_id'', ''product_id''],
        Check (ck_name ''order_items'' ''quantity_positive'') ''quantity > 0'',
        Check (ck_name ''order_items'' ''unit_price_non_negative'') ''unit_price_minor >= 0'',
        Check (ck_name ''order_items'' ''currency_format'') ''currency ~ ^[A-Z]{3}$''],
      td_indexes = []\<rparr>"

definition create_order_items :: "ddl list" where
  "create_order_items =
    [create_table ''order_items'' order_items_table]"

definition order_status_history_table :: table_def where
  "order_status_history_table =
     \<lparr>td_columns = [id_col, required ''order_id'' T_uuid, optional ''from_status'' (enum_type ''order_status''),
                    required ''to_status'' (enum_type ''order_status''), optional ''reason'' (T_varchar None),
                    defaulted ''occurred_at'' T_timestamptz ''now()''],
      td_constraints = [Primary_key ''pk_order_status_history'' [''id''],
        Foreign_key ''fk_order_status_history_order_id_orders'' ''order_id'' ''orders'' ''id'' Cascade,
        Check (ck_name ''order_status_history'' ''transition_changes_status'') ''from_status IS DISTINCT FROM to_status''],
      td_indexes = []\<rparr>"

definition create_order_status_history :: "ddl list" where
  "create_order_status_history =
    [create_table ''order_status_history'' order_status_history_table,
     create_index ''order_status_history''
     \<lparr>ix_name = ''ix_order_status_history_order'', ix_keys = [Key ''order_id'', Key ''occurred_at''], ix_unique = False, ix_gist = False,
        ix_where = None\<rparr>]"

definition payments_table :: table_def where
  "payments_table =
     \<lparr>td_columns = [id_col, required ''order_id'' T_uuid, required ''status'' (enum_type ''payment_status''),
                    required ''amount_minor'' T_bigint, required ''currency'' (T_varchar (Some 3)),
                    required ''description'' (T_varchar None), optional ''card_brand'' (T_varchar None),
                    optional ''card_last4'' (T_varchar (Some 4)), required ''provider'' (T_varchar None),
                    optional ''provider_reference'' (T_varchar None),
                    optional ''failure_reason'' (T_varchar None), created_at_col, updated_at_col],
      td_constraints = [Primary_key ''pk_payments'' [''id''],
        Foreign_key ''fk_payments_order_id_orders'' ''order_id'' ''orders'' ''id'' Restrict,
        Check (ck_name ''payments'' ''amount_positive'') ''amount_minor > 0'',
        Check (ck_name ''payments'' ''currency_format'') ''currency ~ ^[A-Z]{3}$'',
        Check (ck_name ''payments'' ''card_last4_format'') ''card_last4 ~ ^[0-9]{4}$'',
        Check (ck_name ''payments'' ''failed_requires_reason'') ''status <> failed OR failure_reason IS NOT NULL''],
      td_indexes = []\<rparr>"

definition create_payments :: "ddl list" where
  "create_payments =
    [create_table ''payments'' payments_table,
     create_index ''payments''
     \<lparr>ix_name = ''ix_payments_order_id'', ix_keys = [Key ''order_id''], ix_unique = False, ix_gist = False,
        ix_where = None\<rparr>,
     create_index ''payments''
     \<lparr>ix_name = ''uq_payments_order_succeeded'', ix_keys = [Key ''order_id''], ix_unique = True, ix_gist = False,
        ix_where = Some ''status = succeeded''\<rparr>,
     create_index ''payments''
     \<lparr>ix_name = ''uq_payments_provider_reference'', ix_keys = [Key ''provider'', Key ''provider_reference''], ix_unique = True, ix_gist = False,
        ix_where = Some ''provider_reference IS NOT NULL''\<rparr>]"

definition stock_reservations_table :: table_def where
  "stock_reservations_table =
     \<lparr>td_columns = [id_col, required ''order_id'' T_uuid, required ''warehouse_id'' T_uuid,
                    required ''product_id'' T_uuid, required ''quantity'' T_integer,
                    defaulted ''status'' (enum_type ''reservation_status'') ''active'',
                    required ''expires_at'' T_timestamptz, optional ''released_at'' T_timestamptz,
                    created_at_col],
      td_constraints = [Primary_key ''pk_stock_reservations'' [''id''],
        Foreign_key ''fk_stock_reservations_order_id_orders'' ''order_id'' ''orders'' ''id'' Cascade,
        Foreign_key ''fk_stock_reservations_warehouse_id_warehouses'' ''warehouse_id'' ''warehouses'' ''id'' Restrict,
        Foreign_key ''fk_stock_reservations_product_id_products'' ''product_id'' ''products'' ''id'' Restrict,
        Unique ''uq_stock_reservations_order_warehouse_product'' [''order_id'', ''warehouse_id'', ''product_id''],
        Check (ck_name ''stock_reservations'' ''quantity_positive'') ''quantity > 0'',
        Check (ck_name ''stock_reservations'' ''settled_requires_released_at'') ''status = active OR released_at IS NOT NULL''],
      td_indexes = []\<rparr>"

definition create_stock_reservations :: "ddl list" where
  "create_stock_reservations =
    [create_table ''stock_reservations'' stock_reservations_table,
     create_index ''stock_reservations''
     \<lparr>ix_name = ''ix_stock_reservations_sweeper'', ix_keys = [Key ''expires_at''], ix_unique = False, ix_gist = False,
        ix_where = Some ''status = active''\<rparr>]"

definition idempotency_keys_table :: table_def where
  "idempotency_keys_table =
     \<lparr>td_columns = [id_col, required ''key'' (T_varchar None), required ''request_hash'' (T_varchar None),
                    optional ''response_body'' T_jsonb, optional ''response_status'' T_integer,
                    optional ''order_id'' T_uuid, created_at_col, updated_at_col],
      td_constraints = [Primary_key ''pk_idempotency_keys'' [''id''], Unique ''uq_idempotency_keys_key'' [''key''],
        Foreign_key ''fk_idempotency_keys_order_id_orders'' ''order_id'' ''orders'' ''id'' Set_null,
        Check (ck_name ''idempotency_keys'' ''request_hash_sha256'') ''char_length(request_hash) = 64'',
        Check (ck_name ''idempotency_keys'' ''response_status_range'') ''response_status BETWEEN 100 AND 599'',
        Check (ck_name ''idempotency_keys'' ''response_columns_paired'') ''(response_body IS NULL) = (response_status IS NULL)''],
      td_indexes = []\<rparr>"

definition create_idempotency_keys :: "ddl list" where
  "create_idempotency_keys =
    [create_table ''idempotency_keys'' idempotency_keys_table,
     create_index ''idempotency_keys''
     \<lparr>ix_name = ''ix_idempotency_keys_created_at'', ix_keys = [Key ''created_at''], ix_unique = False, ix_gist = False,
        ix_where = None\<rparr>,
     create_index ''idempotency_keys''
     \<lparr>ix_name = ''ix_idempotency_keys_unsettled'', ix_keys = [Key ''created_at''], ix_unique = False, ix_gist = False,
        ix_where = Some ''response_status IS NULL''\<rparr>]"

definition outbox_table :: table_def where
  "outbox_table =
     \<lparr>td_columns = [id_col, required ''event_type'' (T_varchar None),
                    defaulted ''aggregate_type'' (T_varchar None) ''order'', required ''aggregate_id'' T_uuid,
                    required ''payload'' T_jsonb, defaulted ''attempts'' T_integer ''0'', created_at_col,
                    optional ''processed_at'' T_timestamptz],
      td_constraints = [Primary_key ''pk_outbox'' [''id''],
        Check (ck_name ''outbox'' ''attempts_non_negative'') ''attempts >= 0''],
      td_indexes = []\<rparr>"

definition create_outbox :: "ddl list" where
  "create_outbox =
    [create_table ''outbox'' outbox_table,
     create_index ''outbox''
     \<lparr>ix_name = ''ix_outbox_unprocessed'', ix_keys = [Key ''created_at''], ix_unique = False, ix_gist = False,
        ix_where = Some ''processed_at IS NULL''\<rparr>]"

definition upgrade_0002 :: ddl where
  "upgrade_0002 = run_ddl
     (create_customers @
      create_products @
      create_warehouses @
      create_addresses @
      create_inventory @
      create_orders @
      create_order_items @
      create_order_status_history @
      create_payments @
      create_stock_reservations @
      create_idempotency_keys @
      create_outbox)"

definition downgrade_0002 :: ddl where
  "downgrade_0002 = run_ddl
     [drop_table ''outbox'', drop_table ''idempotency_keys'', drop_table ''stock_reservations'',
      drop_table ''payments'', drop_table ''order_status_history'', drop_table ''order_items'',
      drop_table ''orders'', drop_table ''inventory'', drop_table ''addresses'', drop_table ''warehouses'',
      drop_table ''products'', drop_table ''customers'']"

section \<open>0003: the status of an idempotency key\<close>

definition IDEMPOTENCY_STATUS :: "string list" where
  "IDEMPOTENCY_STATUS = [''in_progress'', ''completed'', ''failed'']"

definition ix_unsettled :: table_index where
  "ix_unsettled = \<lparr>ix_name = ''ix_idempotency_keys_unsettled'', ix_keys = [Key ''created_at''], ix_unique = False, ix_gist = False,
     ix_where = Some ''response_status IS NULL''\<rparr>"

definition ix_in_progress :: table_index where
  "ix_in_progress = \<lparr>ix_name = ''ix_idempotency_keys_in_progress'', ix_keys = [Key ''created_at''], ix_unique = False, ix_gist = False,
     ix_where = Some ''status = in_progress''\<rparr>"

definition completed_has_response :: table_constraint where
  "completed_has_response = Check (ck_name ''idempotency_keys'' ''completed_has_response'')
     ''status <> completed OR (response_body IS NOT NULL AND response_status IS NOT NULL)''"

definition upgrade_0003 :: ddl where
  "upgrade_0003 = run_ddl
     [create_enum ''idempotency_status'' IDEMPOTENCY_STATUS,
      add_column ''idempotency_keys'' (defaulted ''status'' (T_enum ''idempotency_status'') ''in_progress''),
      add_constraint ''idempotency_keys'' completed_has_response,
      drop_index ''idempotency_keys'' ''ix_idempotency_keys_unsettled'',
      create_index ''idempotency_keys'' ix_in_progress]"

definition downgrade_0003 :: ddl where
  "downgrade_0003 = run_ddl
     [drop_index ''idempotency_keys'' ''ix_idempotency_keys_in_progress'',
      create_index ''idempotency_keys'' ix_unsettled,
      drop_constraint ''idempotency_keys'' (ck_name ''idempotency_keys'' ''completed_has_response''),
      drop_column ''idempotency_keys'' ''status'', drop_enum ''idempotency_status'']"

text \<open>\<^verbatim>\<open>alembic upgrade head\<close> on a database without revisions, and \<^verbatim>\<open>downgrade base\<close>.\<close>

definition upgrade_head :: ddl where
  "upgrade_head = run_ddl [upgrade_0001, upgrade_0002, upgrade_0003]"

definition downgrade_base :: ddl where
  "downgrade_base = run_ddl [downgrade_0003, downgrade_0002, downgrade_0001]"

section \<open>Running them\<close>

text \<open>
  The headers of the revision files link each one to the one before it. \<open>since\<close> follows the links
  from the revision a database is at; \<^verbatim>\<open>do_run_migrations\<close> of \<^verbatim>\<open>migrations/env.py\<close> runs what
  alembic selects in one transaction, so an upgrade happens as a whole or not at all.
\<close>

record revision =
  rev_id :: string
  down_revision :: "string option"
  rev_upgrade :: ddl
  rev_downgrade :: ddl

definition revision_0001 :: revision where
  "revision_0001 = \<lparr>rev_id = ''0001'', down_revision = None, rev_upgrade = upgrade_0001, rev_downgrade = downgrade_0001\<rparr>"

definition revision_0002 :: revision where
  "revision_0002 =
     \<lparr>rev_id = ''0002'', down_revision = Some ''0001'', rev_upgrade = upgrade_0002, rev_downgrade = downgrade_0002\<rparr>"

definition revision_0003 :: revision where
  "revision_0003 =
     \<lparr>rev_id = ''0003'', down_revision = Some ''0002'', rev_upgrade = upgrade_0003, rev_downgrade = downgrade_0003\<rparr>"

fun since :: "string option \<Rightarrow> revision list \<Rightarrow> revision list" where
  "since cur [] = []"
| "since cur (r # rs) = (if down_revision r = cur then r # since (Some (rev_id r)) rs else since cur rs)"

definition pending_upgrades :: "string option \<Rightarrow> ddl list" where
  "pending_upgrades cur = map rev_upgrade (since cur [revision_0001, revision_0002, revision_0003])"

definition do_run_migrations :: "ddl list \<Rightarrow> catalog \<Rightarrow> (ddl_error + unit) \<times> catalog" where
  "do_run_migrations steps = in_transaction (no_result (run_ddl steps))"

lemma pending_upgrades_simps [simp]:
  "pending_upgrades None = [upgrade_0001, upgrade_0002, upgrade_0003]"
  "pending_upgrades (Some ''0001'') = [upgrade_0002, upgrade_0003]"
  "pending_upgrades (Some ''0002'') = [upgrade_0003]"
  "pending_upgrades (Some ''0003'') = []"
  by (simp_all add: pending_upgrades_def revision_0001_def revision_0002_def revision_0003_def)

lemma do_run_migrations_Inr:
  "do_run_migrations steps c = (Inr (), c') \<longleftrightarrow> run_ddl steps c = Inr c'"
  by (auto simp: do_run_migrations_def in_transaction_def no_result_def bind_r_def split: sum.splits)

end
