(* ===== verification/Metadata.thy ===== *)
theory Metadata
  imports Catalog Domain
begin

text \<open>
  The schema that \<^verbatim>\<open>app/models\<close> declares, as \<^verbatim>\<open>Base.metadata\<close> holds it: every table
  with its columns, the constraints under the names the convention of \<^verbatim>\<open>app/db/base.py\<close> gives
  them, and its indexes. SQL text is kept without the quotes of its string literals.
\<close>

text \<open>The values of the other enums, and the native types that \<^verbatim>\<open>app/models/enums.py\<close> binds.\<close>

fun payment_status_value :: "payment_status \<Rightarrow> string" where
  "payment_status_value Payment_pending = ''pending''"
| "payment_status_value Payment_succeeded = ''succeeded''"
| "payment_status_value Payment_failed_status = ''failed''"

fun reservation_status_value :: "reservation_status \<Rightarrow> string" where
  "reservation_status_value Active = ''active''"
| "reservation_status_value Committed = ''committed''"
| "reservation_status_value Released = ''released''"
| "reservation_status_value Expired = ''expired''"

fun idempotency_status_value :: "idempotency_status \<Rightarrow> string" where
  "idempotency_status_value In_progress = ''in_progress''"
| "idempotency_status_value Completed = ''completed''"
| "idempotency_status_value Failed = ''failed''"

definition pg_enum :: "('e \<Rightarrow> string) \<Rightarrow> 'e list \<Rightarrow> string \<Rightarrow> string \<times> string list" where
  "pg_enum val members name = (name, map val members)"

definition declared_enums :: "(string \<times> string list) list" where
  "declared_enums =
     [pg_enum order_status_value [Pending, Reserved, Paid, Confirmed, Payment_failed, Cancelled] ''order_status'',
      pg_enum payment_status_value [Payment_pending, Payment_succeeded, Payment_failed_status] ''payment_status'',
      pg_enum reservation_status_value [Active, Committed, Released, Expired] ''reservation_status'',
      pg_enum idempotency_status_value [In_progress, Completed, Failed] ''idempotency_status'']"

definition uuid_primary_key :: column where
  "uuid_primary_key = defaulted ''id'' T_uuid ''gen_random_uuid()''"

definition created_at_mixin :: column where
  "created_at_mixin = defaulted ''created_at'' T_timestamptz ''now()''"

definition updated_at_mixin :: column where
  "updated_at_mixin = defaulted ''updated_at'' T_timestamptz ''now()''"

definition customers_model :: table_def where
  "customers_model =
     \<lparr>td_columns = [uuid_primary_key, created_at_mixin, updated_at_mixin, required ''email'' (T_varchar None),
                    required ''full_name'' (T_varchar None)],
      td_constraints = [Primary_key (pk_name ''customers'') [''id'']],
      td_indexes = [\<lparr>ix_name = ''ix_customers_email_lower'', ix_keys = [Expr ''lower(email)''], ix_unique = True, ix_gist = False,
         ix_where = None\<rparr>]\<rparr>"

definition products_model :: table_def where
  "products_model =
     \<lparr>td_columns = [uuid_primary_key, created_at_mixin, updated_at_mixin, required ''sku'' (T_varchar None),
                    required ''name'' (T_varchar None), required ''unit_price_minor'' T_bigint,
                    required ''currency'' (T_varchar (Some 3)), defaulted ''is_active'' T_boolean ''true''],
      td_constraints = [Primary_key (pk_name ''products'') [''id''], Unique (uq_name ''products'' ''sku'') [''sku''],
        Check (ck_name ''products'' ''unit_price_non_negative'') ''unit_price_minor >= 0'',
        Check (ck_name ''products'' ''currency_format'') ''currency ~ ^[A-Z]{3}$''],
      td_indexes = []\<rparr>"

definition warehouses_model :: table_def where
  "warehouses_model =
     \<lparr>td_columns = [uuid_primary_key, created_at_mixin, updated_at_mixin, required ''code'' (T_varchar None),
                    required ''name'' (T_varchar None), required ''location'' (T_geography_point 4326),
                    defaulted ''is_active'' T_boolean ''true''],
      td_constraints = [Primary_key (pk_name ''warehouses'') [''id''], Unique (uq_name ''warehouses'' ''code'') [''code'']],
      td_indexes = [\<lparr>ix_name = ''ix_warehouses_location'', ix_keys = [Key ''location''], ix_unique = False, ix_gist = True,
         ix_where = None\<rparr>]\<rparr>"

definition addresses_model :: table_def where
  "addresses_model =
     \<lparr>td_columns = [uuid_primary_key, created_at_mixin, updated_at_mixin, required ''customer_id'' T_uuid,
                    required ''line1'' (T_varchar None), optional ''line2'' (T_varchar None),
                    required ''city'' (T_varchar None), required ''postal_code'' (T_varchar None),
                    required ''country_code'' (T_varchar (Some 2)), optional ''point'' (T_geography_point 4326)],
      td_constraints = [Primary_key (pk_name ''addresses'') [''id''],
        Foreign_key (fk_name ''addresses'' ''customer_id'' ''customers'') ''customer_id'' ''customers'' ''id'' Cascade,
        Check (ck_name ''addresses'' ''country_code_format'') ''country_code ~ ^[A-Z]{2}$''],
      td_indexes = [\<lparr>ix_name = ''ix_addresses_customer_id'', ix_keys = [Key ''customer_id''], ix_unique = False, ix_gist = False,
         ix_where = None\<rparr>,
        \<lparr>ix_name = ''ix_addresses_point'', ix_keys = [Key ''point''], ix_unique = False, ix_gist = True,
         ix_where = Some ''point IS NOT NULL''\<rparr>]\<rparr>"

definition inventory_model :: table_def where
  "inventory_model =
     \<lparr>td_columns = [uuid_primary_key, required ''warehouse_id'' T_uuid, required ''product_id'' T_uuid,
                    defaulted ''on_hand'' T_integer ''0'', defaulted ''reserved'' T_integer ''0'',
                    updated_at_mixin],
      td_constraints = [Primary_key (pk_name ''inventory'') [''id''],
        Foreign_key (fk_name ''inventory'' ''warehouse_id'' ''warehouses'') ''warehouse_id'' ''warehouses'' ''id'' Restrict,
        Foreign_key (fk_name ''inventory'' ''product_id'' ''products'') ''product_id'' ''products'' ''id'' Restrict,
        Unique ''uq_inventory_warehouse_product'' [''warehouse_id'', ''product_id''],
        Check (ck_name ''inventory'' ''reserved_non_negative'') ''reserved >= 0'',
        Check (ck_name ''inventory'' ''on_hand_ge_reserved'') ''on_hand >= reserved''],
      td_indexes = [\<lparr>ix_name = ''ix_inventory_product_warehouse'', ix_keys = [Key ''product_id'', Key ''warehouse_id''], ix_unique = False, ix_gist = False,
         ix_where = None\<rparr>]\<rparr>"

definition orders_model :: table_def where
  "orders_model =
     \<lparr>td_columns = [uuid_primary_key, created_at_mixin, updated_at_mixin, required ''customer_id'' T_uuid,
                    defaulted ''status'' (T_enum ''order_status'') ''pending'',
                    optional ''warehouse_id'' T_uuid, required ''currency'' (T_varchar (Some 3)),
                    required ''total_minor'' T_bigint, required ''shipping_line1'' (T_varchar None),
                    optional ''shipping_line2'' (T_varchar None), required ''shipping_city'' (T_varchar None),
                    required ''shipping_postal_code'' (T_varchar None),
                    required ''shipping_country_code'' (T_varchar (Some 2)),
                    optional ''shipping_point'' (T_geography_point 4326)],
      td_constraints = [Primary_key (pk_name ''orders'') [''id''],
        Foreign_key (fk_name ''orders'' ''customer_id'' ''customers'') ''customer_id'' ''customers'' ''id'' Restrict,
        Foreign_key (fk_name ''orders'' ''warehouse_id'' ''warehouses'') ''warehouse_id'' ''warehouses'' ''id'' Restrict,
        Check (ck_name ''orders'' ''currency_format'') ''currency ~ ^[A-Z]{3}$'',
        Check (ck_name ''orders'' ''shipping_country_format'') ''shipping_country_code ~ ^[A-Z]{2}$'',
        Check (ck_name ''orders'' ''total_non_negative'') ''total_minor >= 0'',
        Check (ck_name ''orders'' ''reserved_requires_warehouse_and_point'') ''status IN (pending, cancelled) OR (warehouse_id IS NOT NULL AND shipping_point IS NOT NULL)''],
      td_indexes = [\<lparr>ix_name = ''ix_orders_customer_created'', ix_keys = [Key ''customer_id'', Expr ''created_at DESC''], ix_unique = False, ix_gist = False,
         ix_where = None\<rparr>,
        \<lparr>ix_name = ''ix_orders_open'', ix_keys = [Key ''status'', Key ''created_at''], ix_unique = False, ix_gist = False,
         ix_where = Some ''status IN (pending, reserved)''\<rparr>]\<rparr>"

definition order_items_model :: table_def where
  "order_items_model =
     \<lparr>td_columns = [uuid_primary_key, created_at_mixin, required ''order_id'' T_uuid,
                    required ''product_id'' T_uuid, required ''product_sku'' (T_varchar None),
                    required ''product_name'' (T_varchar None), required ''unit_price_minor'' T_bigint,
                    required ''currency'' (T_varchar (Some 3)), required ''quantity'' T_integer,
                    (required ''line_total_minor'' T_bigint)\<lparr>computed := Some ''quantity * unit_price_minor''\<rparr>],
      td_constraints = [Primary_key (pk_name ''order_items'') [''id''],
        Foreign_key (fk_name ''order_items'' ''order_id'' ''orders'') ''order_id'' ''orders'' ''id'' Cascade,
        Foreign_key (fk_name ''order_items'' ''product_id'' ''products'') ''product_id'' ''products'' ''id'' Restrict,
        Unique ''uq_order_items_order_product'' [''order_id'', ''product_id''],
        Check (ck_name ''order_items'' ''quantity_positive'') ''quantity > 0'',
        Check (ck_name ''order_items'' ''unit_price_non_negative'') ''unit_price_minor >= 0'',
        Check (ck_name ''order_items'' ''currency_format'') ''currency ~ ^[A-Z]{3}$''],
      td_indexes = []\<rparr>"

definition order_status_history_model :: table_def where
  "order_status_history_model =
     \<lparr>td_columns = [uuid_primary_key, required ''order_id'' T_uuid,
                    optional ''from_status'' (T_enum ''order_status''),
                    required ''to_status'' (T_enum ''order_status''), optional ''reason'' (T_varchar None),
                    defaulted ''occurred_at'' T_timestamptz ''now()''],
      td_constraints = [Primary_key (pk_name ''order_status_history'') [''id''],
        Foreign_key (fk_name ''order_status_history'' ''order_id'' ''orders'') ''order_id'' ''orders'' ''id'' Cascade,
        Check (ck_name ''order_status_history'' ''transition_changes_status'') ''from_status IS DISTINCT FROM to_status''],
      td_indexes = [\<lparr>ix_name = ''ix_order_status_history_order'', ix_keys = [Key ''order_id'', Key ''occurred_at''], ix_unique = False, ix_gist = False,
         ix_where = None\<rparr>]\<rparr>"

definition payments_model :: table_def where
  "payments_model =
     \<lparr>td_columns = [uuid_primary_key, created_at_mixin, updated_at_mixin, required ''order_id'' T_uuid,
                    required ''status'' (T_enum ''payment_status''), required ''amount_minor'' T_bigint,
                    required ''currency'' (T_varchar (Some 3)), required ''description'' (T_varchar None),
                    optional ''card_brand'' (T_varchar None), optional ''card_last4'' (T_varchar (Some 4)),
                    required ''provider'' (T_varchar None), optional ''provider_reference'' (T_varchar None),
                    optional ''failure_reason'' (T_varchar None)],
      td_constraints = [Primary_key (pk_name ''payments'') [''id''],
        Foreign_key (fk_name ''payments'' ''order_id'' ''orders'') ''order_id'' ''orders'' ''id'' Restrict,
        Check (ck_name ''payments'' ''amount_positive'') ''amount_minor > 0'',
        Check (ck_name ''payments'' ''currency_format'') ''currency ~ ^[A-Z]{3}$'',
        Check (ck_name ''payments'' ''card_last4_format'') ''card_last4 ~ ^[0-9]{4}$'',
        Check (ck_name ''payments'' ''failed_requires_reason'') ''status <> failed OR failure_reason IS NOT NULL''],
      td_indexes = [\<lparr>ix_name = ''ix_payments_order_id'', ix_keys = [Key ''order_id''], ix_unique = False, ix_gist = False,
         ix_where = None\<rparr>,
        \<lparr>ix_name = ''uq_payments_order_succeeded'', ix_keys = [Key ''order_id''], ix_unique = True, ix_gist = False,
         ix_where = Some ''status = succeeded''\<rparr>,
        \<lparr>ix_name = ''uq_payments_provider_reference'', ix_keys = [Key ''provider'', Key ''provider_reference''], ix_unique = True, ix_gist = False,
         ix_where = Some ''provider_reference IS NOT NULL''\<rparr>]\<rparr>"

definition stock_reservations_model :: table_def where
  "stock_reservations_model =
     \<lparr>td_columns = [uuid_primary_key, required ''order_id'' T_uuid, required ''warehouse_id'' T_uuid,
                    required ''product_id'' T_uuid, required ''quantity'' T_integer,
                    defaulted ''status'' (T_enum ''reservation_status'') ''active'',
                    required ''expires_at'' T_timestamptz, optional ''released_at'' T_timestamptz,
                    created_at_mixin],
      td_constraints = [Primary_key (pk_name ''stock_reservations'') [''id''],
        Foreign_key (fk_name ''stock_reservations'' ''order_id'' ''orders'') ''order_id'' ''orders'' ''id'' Cascade,
        Foreign_key (fk_name ''stock_reservations'' ''warehouse_id'' ''warehouses'') ''warehouse_id'' ''warehouses'' ''id'' Restrict,
        Foreign_key (fk_name ''stock_reservations'' ''product_id'' ''products'') ''product_id'' ''products'' ''id'' Restrict,
        Unique ''uq_stock_reservations_order_warehouse_product'' [''order_id'', ''warehouse_id'', ''product_id''],
        Check (ck_name ''stock_reservations'' ''quantity_positive'') ''quantity > 0'',
        Check (ck_name ''stock_reservations'' ''settled_requires_released_at'') ''status = active OR released_at IS NOT NULL''],
      td_indexes = [\<lparr>ix_name = ''ix_stock_reservations_sweeper'', ix_keys = [Key ''expires_at''], ix_unique = False, ix_gist = False,
         ix_where = Some ''status = active''\<rparr>]\<rparr>"

definition idempotency_keys_model :: table_def where
  "idempotency_keys_model =
     \<lparr>td_columns = [uuid_primary_key, created_at_mixin, updated_at_mixin, required ''key'' (T_varchar None),
                    required ''request_hash'' (T_varchar None),
                    defaulted ''status'' (T_enum ''idempotency_status'') ''in_progress'',
                    optional ''response_body'' T_jsonb, optional ''response_status'' T_integer,
                    optional ''order_id'' T_uuid],
      td_constraints = [Primary_key (pk_name ''idempotency_keys'') [''id''],
        Unique (uq_name ''idempotency_keys'' ''key'') [''key''],
        Foreign_key (fk_name ''idempotency_keys'' ''order_id'' ''orders'') ''order_id'' ''orders'' ''id'' Set_null,
        Check (ck_name ''idempotency_keys'' ''request_hash_sha256'') ''char_length(request_hash) = 64'',
        Check (ck_name ''idempotency_keys'' ''response_status_range'') ''response_status BETWEEN 100 AND 599'',
        Check (ck_name ''idempotency_keys'' ''response_columns_paired'') ''(response_body IS NULL) = (response_status IS NULL)'',
        Check (ck_name ''idempotency_keys'' ''completed_has_response'') ''status <> completed OR (response_body IS NOT NULL AND response_status IS NOT NULL)''],
      td_indexes = [\<lparr>ix_name = ''ix_idempotency_keys_created_at'', ix_keys = [Key ''created_at''], ix_unique = False, ix_gist = False,
         ix_where = None\<rparr>,
        \<lparr>ix_name = ''ix_idempotency_keys_in_progress'', ix_keys = [Key ''created_at''], ix_unique = False, ix_gist = False,
         ix_where = Some ''status = in_progress''\<rparr>]\<rparr>"

definition outbox_model :: table_def where
  "outbox_model =
     \<lparr>td_columns = [uuid_primary_key, required ''event_type'' (T_varchar None),
                    defaulted ''aggregate_type'' (T_varchar None) ''order'', required ''aggregate_id'' T_uuid,
                    required ''payload'' T_jsonb, defaulted ''attempts'' T_integer ''0'', created_at_mixin,
                    optional ''processed_at'' T_timestamptz],
      td_constraints = [Primary_key (pk_name ''outbox'') [''id''],
        Check (ck_name ''outbox'' ''attempts_non_negative'') ''attempts >= 0''],
      td_indexes = [\<lparr>ix_name = ''ix_outbox_unprocessed'', ix_keys = [Key ''created_at''], ix_unique = False, ix_gist = False,
         ix_where = Some ''processed_at IS NULL''\<rparr>]\<rparr>"

definition metadata :: "(string \<times> table_def) list" where
  "metadata =
     [(''customers'', customers_model), (''products'', products_model), (''warehouses'', warehouses_model),
      (''addresses'', addresses_model), (''inventory'', inventory_model), (''orders'', orders_model),
      (''order_items'', order_items_model), (''order_status_history'', order_status_history_model),
      (''payments'', payments_model), (''stock_reservations'', stock_reservations_model),
      (''idempotency_keys'', idempotency_keys_model), (''outbox'', outbox_model)]"

text \<open>
  Which objects of a database \<^verbatim>\<open>migrations/env.py\<close> lets alembic compare with the metadata: all
  but the tables PostGIS owns and the spatial indexes reflected under its own names.
\<close>

definition POSTGIS_OWNED :: "string list" where
  "POSTGIS_OWNED = [''spatial_ref_sys'', ''geometry_columns'', ''geography_columns'']"

definition include_object :: "string \<Rightarrow> string option \<Rightarrow> bool" where
  "include_object type name =
     (if type = ''table'' \<and> name \<in> Some ` set POSTGIS_OWNED then False
      else if type = ''index'' \<and> (case name of Some n \<Rightarrow> take 4 n = ''idx_'' | None \<Rightarrow> False) then False
      else True)"

text \<open>Every table and index of the metadata is one that alembic manages.\<close>

lemma metadata_is_managed:
  "list_all (\<lambda>(name, t). include_object ''table'' (Some name) \<and>
     list_all (\<lambda>i. include_object ''index'' (Some (ix_name i))) (td_indexes t)) metadata"
  by (simp add: metadata_def include_object_def POSTGIS_OWNED_def customers_model_def products_model_def
      warehouses_model_def addresses_model_def inventory_model_def orders_model_def order_items_model_def
      order_status_history_model_def payments_model_def stock_reservations_model_def idempotency_keys_model_def
      outbox_model_def)

end
