(* ===== verification/Migrated.thy ===== *)
theory Migrated
  imports Migrations Metadata
begin

text \<open>
  Running the revisions: the catalog after each of them, table by table, from any database in which
  none of this program's types and tables exists. \<open>upgrade_head\<close> always ends in \<open>at_head\<close>, and the
  downgrades retrace it.
\<close>

section \<open>The tables after 0002\<close>

definition customers_0002 :: table_def where
  "customers_0002 = customers_table\<lparr>td_indexes :=
     [\<lparr>ix_name = ''ix_customers_email_lower'', ix_keys = [Expr ''lower(email)''], ix_unique = True, ix_gist = False, ix_where = None\<rparr>]\<rparr>"

definition products_0002 :: table_def where
  "products_0002 = products_table\<lparr>td_indexes :=
     []\<rparr>"

definition warehouses_0002 :: table_def where
  "warehouses_0002 = warehouses_table\<lparr>td_indexes :=
     [\<lparr>ix_name = ''ix_warehouses_location'', ix_keys = [Key ''location''], ix_unique = False, ix_gist = True, ix_where = None\<rparr>]\<rparr>"

definition addresses_0002 :: table_def where
  "addresses_0002 = addresses_table\<lparr>td_indexes :=
     [\<lparr>ix_name = ''ix_addresses_customer_id'', ix_keys = [Key ''customer_id''], ix_unique = False, ix_gist = False, ix_where = None\<rparr>,
      \<lparr>ix_name = ''ix_addresses_point'', ix_keys = [Key ''point''], ix_unique = False, ix_gist = True, ix_where = Some ''point IS NOT NULL''\<rparr>]\<rparr>"

definition inventory_0002 :: table_def where
  "inventory_0002 = inventory_table\<lparr>td_indexes :=
     [\<lparr>ix_name = ''ix_inventory_product_warehouse'', ix_keys = [Key ''product_id'', Key ''warehouse_id''], ix_unique = False, ix_gist = False, ix_where = None\<rparr>]\<rparr>"

definition orders_0002 :: table_def where
  "orders_0002 = orders_table\<lparr>td_indexes :=
     [\<lparr>ix_name = ''ix_orders_customer_created'', ix_keys = [Key ''customer_id'', Expr ''created_at DESC''], ix_unique = False, ix_gist = False, ix_where = None\<rparr>,
      \<lparr>ix_name = ''ix_orders_open'', ix_keys = [Key ''status'', Key ''created_at''], ix_unique = False, ix_gist = False, ix_where = Some ''status IN (pending, reserved)''\<rparr>]\<rparr>"

definition order_items_0002 :: table_def where
  "order_items_0002 = order_items_table\<lparr>td_indexes :=
     []\<rparr>"

definition order_status_history_0002 :: table_def where
  "order_status_history_0002 = order_status_history_table\<lparr>td_indexes :=
     [\<lparr>ix_name = ''ix_order_status_history_order'', ix_keys = [Key ''order_id'', Key ''occurred_at''], ix_unique = False, ix_gist = False, ix_where = None\<rparr>]\<rparr>"

definition payments_0002 :: table_def where
  "payments_0002 = payments_table\<lparr>td_indexes :=
     [\<lparr>ix_name = ''ix_payments_order_id'', ix_keys = [Key ''order_id''], ix_unique = False, ix_gist = False, ix_where = None\<rparr>,
      \<lparr>ix_name = ''uq_payments_order_succeeded'', ix_keys = [Key ''order_id''], ix_unique = True, ix_gist = False, ix_where = Some ''status = succeeded''\<rparr>,
      \<lparr>ix_name = ''uq_payments_provider_reference'', ix_keys = [Key ''provider'', Key ''provider_reference''], ix_unique = True, ix_gist = False, ix_where = Some ''provider_reference IS NOT NULL''\<rparr>]\<rparr>"

definition stock_reservations_0002 :: table_def where
  "stock_reservations_0002 = stock_reservations_table\<lparr>td_indexes :=
     [\<lparr>ix_name = ''ix_stock_reservations_sweeper'', ix_keys = [Key ''expires_at''], ix_unique = False, ix_gist = False, ix_where = Some ''status = active''\<rparr>]\<rparr>"

definition idempotency_keys_0002 :: table_def where
  "idempotency_keys_0002 = idempotency_keys_table\<lparr>td_indexes :=
     [\<lparr>ix_name = ''ix_idempotency_keys_created_at'', ix_keys = [Key ''created_at''], ix_unique = False, ix_gist = False, ix_where = None\<rparr>,
      \<lparr>ix_name = ''ix_idempotency_keys_unsettled'', ix_keys = [Key ''created_at''], ix_unique = False, ix_gist = False, ix_where = Some ''response_status IS NULL''\<rparr>]\<rparr>"

definition outbox_0002 :: table_def where
  "outbox_0002 = outbox_table\<lparr>td_indexes :=
     [\<lparr>ix_name = ''ix_outbox_unprocessed'', ix_keys = [Key ''created_at''], ix_unique = False, ix_gist = False, ix_where = Some ''processed_at IS NULL''\<rparr>]\<rparr>"

lemmas tables_0002 = customers_0002_def products_0002_def warehouses_0002_def addresses_0002_def inventory_0002_def
  orders_0002_def order_items_0002_def order_status_history_0002_def payments_0002_def
  stock_reservations_0002_def idempotency_keys_0002_def outbox_0002_def

lemmas table_defs = customers_table_def products_table_def warehouses_table_def addresses_table_def inventory_table_def
  orders_table_def order_items_table_def order_status_history_table_def payments_table_def
  stock_reservations_table_def idempotency_keys_table_def outbox_table_def
  created_at_col_def updated_at_col_def id_col_def enum_type_def point_type_def

text \<open>What a step needs to know of a table.\<close>

lemma customers_reads [simp]:
  "td_indexes customers_table = []" "uses_enums customers_table = []" "uses_enums customers_0002 = []"
  "references customers_0002 = []" "map ix_name (td_indexes customers_0002) = [''ix_customers_email_lower'']" "has_key customers_0002 ''id''"
  by (simp_all add: customers_0002_def customers_table_def id_col_def created_at_col_def updated_at_col_def
      enum_type_def point_type_def uses_enums_def references_def has_key_def map_filter_def)

lemma products_reads [simp]:
  "td_indexes products_table = []" "uses_enums products_table = []" "uses_enums products_0002 = []"
  "references products_0002 = []" "map ix_name (td_indexes products_0002) = []" "has_key products_0002 ''id''"
  by (simp_all add: products_0002_def products_table_def id_col_def created_at_col_def updated_at_col_def
      enum_type_def point_type_def uses_enums_def references_def has_key_def map_filter_def)

lemma warehouses_reads [simp]:
  "td_indexes warehouses_table = []" "uses_enums warehouses_table = []" "uses_enums warehouses_0002 = []"
  "references warehouses_0002 = []" "map ix_name (td_indexes warehouses_0002) = [''ix_warehouses_location'']" "has_key warehouses_0002 ''id''"
  by (simp_all add: warehouses_0002_def warehouses_table_def id_col_def created_at_col_def updated_at_col_def
      enum_type_def point_type_def uses_enums_def references_def has_key_def map_filter_def)

lemma addresses_reads [simp]:
  "td_indexes addresses_table = []" "uses_enums addresses_table = []" "uses_enums addresses_0002 = []"
  "references addresses_0002 = [''customers'']" "map ix_name (td_indexes addresses_0002) = [''ix_addresses_customer_id'', ''ix_addresses_point'']" "has_key addresses_0002 ''id''"
  by (simp_all add: addresses_0002_def addresses_table_def id_col_def created_at_col_def updated_at_col_def
      enum_type_def point_type_def uses_enums_def references_def has_key_def map_filter_def)

lemma inventory_reads [simp]:
  "td_indexes inventory_table = []" "uses_enums inventory_table = []" "uses_enums inventory_0002 = []"
  "references inventory_0002 = [''warehouses'', ''products'']" "map ix_name (td_indexes inventory_0002) = [''ix_inventory_product_warehouse'']" "has_key inventory_0002 ''id''"
  by (simp_all add: inventory_0002_def inventory_table_def id_col_def created_at_col_def updated_at_col_def
      enum_type_def point_type_def uses_enums_def references_def has_key_def map_filter_def)

lemma orders_reads [simp]:
  "td_indexes orders_table = []" "uses_enums orders_table = [''order_status'']" "uses_enums orders_0002 = [''order_status'']"
  "references orders_0002 = [''customers'', ''warehouses'']" "map ix_name (td_indexes orders_0002) = [''ix_orders_customer_created'', ''ix_orders_open'']" "has_key orders_0002 ''id''"
  by (simp_all add: orders_0002_def orders_table_def id_col_def created_at_col_def updated_at_col_def
      enum_type_def point_type_def uses_enums_def references_def has_key_def map_filter_def)

lemma order_items_reads [simp]:
  "td_indexes order_items_table = []" "uses_enums order_items_table = []" "uses_enums order_items_0002 = []"
  "references order_items_0002 = [''orders'', ''products'']" "map ix_name (td_indexes order_items_0002) = []" "has_key order_items_0002 ''id''"
  by (simp_all add: order_items_0002_def order_items_table_def id_col_def created_at_col_def updated_at_col_def
      enum_type_def point_type_def uses_enums_def references_def has_key_def map_filter_def)

lemma order_status_history_reads [simp]:
  "td_indexes order_status_history_table = []" "uses_enums order_status_history_table = [''order_status'', ''order_status'']" "uses_enums order_status_history_0002 = [''order_status'', ''order_status'']"
  "references order_status_history_0002 = [''orders'']" "map ix_name (td_indexes order_status_history_0002) = [''ix_order_status_history_order'']" "has_key order_status_history_0002 ''id''"
  by (simp_all add: order_status_history_0002_def order_status_history_table_def id_col_def created_at_col_def updated_at_col_def
      enum_type_def point_type_def uses_enums_def references_def has_key_def map_filter_def)

lemma payments_reads [simp]:
  "td_indexes payments_table = []" "uses_enums payments_table = [''payment_status'']" "uses_enums payments_0002 = [''payment_status'']"
  "references payments_0002 = [''orders'']" "map ix_name (td_indexes payments_0002) = [''ix_payments_order_id'', ''uq_payments_order_succeeded'', ''uq_payments_provider_reference'']" "has_key payments_0002 ''id''"
  by (simp_all add: payments_0002_def payments_table_def id_col_def created_at_col_def updated_at_col_def
      enum_type_def point_type_def uses_enums_def references_def has_key_def map_filter_def)

lemma stock_reservations_reads [simp]:
  "td_indexes stock_reservations_table = []" "uses_enums stock_reservations_table = [''reservation_status'']" "uses_enums stock_reservations_0002 = [''reservation_status'']"
  "references stock_reservations_0002 = [''orders'', ''warehouses'', ''products'']" "map ix_name (td_indexes stock_reservations_0002) = [''ix_stock_reservations_sweeper'']" "has_key stock_reservations_0002 ''id''"
  by (simp_all add: stock_reservations_0002_def stock_reservations_table_def id_col_def created_at_col_def updated_at_col_def
      enum_type_def point_type_def uses_enums_def references_def has_key_def map_filter_def)

lemma idempotency_keys_reads [simp]:
  "td_indexes idempotency_keys_table = []" "uses_enums idempotency_keys_table = []" "uses_enums idempotency_keys_0002 = []"
  "references idempotency_keys_0002 = [''orders'']" "map ix_name (td_indexes idempotency_keys_0002) = [''ix_idempotency_keys_created_at'', ''ix_idempotency_keys_unsettled'']" "has_key idempotency_keys_0002 ''id''"
  by (simp_all add: idempotency_keys_0002_def idempotency_keys_table_def id_col_def created_at_col_def updated_at_col_def
      enum_type_def point_type_def uses_enums_def references_def has_key_def map_filter_def)

lemma outbox_reads [simp]:
  "td_indexes outbox_table = []" "uses_enums outbox_table = []" "uses_enums outbox_0002 = []"
  "references outbox_0002 = []" "map ix_name (td_indexes outbox_0002) = [''ix_outbox_unprocessed'']" "has_key outbox_0002 ''id''"
  by (simp_all add: outbox_0002_def outbox_table_def id_col_def created_at_col_def updated_at_col_def
      enum_type_def point_type_def uses_enums_def references_def has_key_def map_filter_def)

section \<open>0002, one table at a time\<close>

definition enums_0001 :: "(string \<times> string list) list" where
  "enums_0001 = [(''order_status'', ORDER_STATUS), (''payment_status'', PAYMENT_STATUS),
     (''reservation_status'', RESERVATION_STATUS)]"

definition tables_after_0002 :: "(string \<times> table_def) list" where
  "tables_after_0002 =
     [(''customers'', customers_0002), (''products'', products_0002), (''warehouses'', warehouses_0002),
      (''addresses'', addresses_0002), (''inventory'', inventory_0002), (''orders'', orders_0002),
      (''order_items'', order_items_0002), (''order_status_history'', order_status_history_0002),
      (''payments'', payments_0002), (''stock_reservations'', stock_reservations_0002),
      (''idempotency_keys'', idempotency_keys_0002), (''outbox'', outbox_0002)]"

text \<open>The catalog with the first \<open>k\<close> tables.\<close>

definition at_table :: "string set \<Rightarrow> nat \<Rightarrow> catalog" where
  "at_table ext k = \<lparr>cat_extensions = ext, cat_enums = enums_0001, cat_tables = take k tables_after_0002\<rparr>"

lemma table_step:
  assumes "ops = create_table n td # map (create_index n) ixs" and "k < length tables_after_0002"
    and "tables_after_0002 ! k = (n, td\<lparr>td_indexes := ixs\<rparr>)" and "td_indexes td = []"
    and "n \<notin> set (map fst (take k tables_after_0002))"
    and "set (uses_enums td) \<subseteq> {''order_status'', ''payment_status'', ''reservation_status''}"
    and "references_ok ((n, td) # take k tables_after_0002) td"
    and "list_all (\<lambda>c. set (constraint_columns c) \<subseteq> set (map col_name (td_columns td))) (td_constraints td)"
    and "distinct (map ix_name ixs)"
    and "set (map ix_name ixs) \<inter> set (concat (map (\<lambda>(_, t). map ix_name (td_indexes t)) (take k tables_after_0002))) = {}"
    and "list_all (\<lambda>ix. set (key_columns ix) \<subseteq> set (map col_name (td_columns td))) ixs"
    and "j = Suc k"
  shows "run_ddl ops (at_table ext k) = Inr (at_table ext j)"
proof -
  have "run_ddl ops (at_table ext k) =
      Inr ((at_table ext k)\<lparr>cat_tables := cat_tables (at_table ext k) @ [(n, td\<lparr>td_indexes := ixs\<rparr>)]\<rparr>)"
    unfolding assms(1)
    by (rule create_with_indexes)
      (use assms(4-11) in \<open>simp_all add: at_table_def table_names_def index_names_def enums_0001_def\<close>)
  also have "\<dots> = Inr (at_table ext (Suc k))"
    using assms(2,3) by (simp add: at_table_def take_Suc_conv_app_nth)
  finally show ?thesis by (simp add: assms(12))
qed

lemma step_customers: "run_ddl create_customers (at_table ext 0) = Inr (at_table ext 1)"
  by (rule table_step [of _ "''customers''" customers_table "td_indexes customers_0002"])
    (simp_all add: create_customers_def customers_0002_def tables_after_0002_def references_ok_def key_columns_def
      customers_table_def id_col_def created_at_col_def updated_at_col_def enum_type_def point_type_def
      uses_enums_def map_filter_def)

lemma step_products: "run_ddl create_products (at_table ext 1) = Inr (at_table ext 2)"
  by (rule table_step [of _ "''products''" products_table "td_indexes products_0002"])
    (simp_all add: create_products_def products_0002_def tables_after_0002_def references_ok_def key_columns_def
      products_table_def id_col_def created_at_col_def updated_at_col_def enum_type_def point_type_def
      uses_enums_def map_filter_def)

lemma step_warehouses: "run_ddl create_warehouses (at_table ext 2) = Inr (at_table ext 3)"
  by (rule table_step [of _ "''warehouses''" warehouses_table "td_indexes warehouses_0002"])
    (simp_all add: create_warehouses_def warehouses_0002_def tables_after_0002_def references_ok_def key_columns_def
      warehouses_table_def id_col_def created_at_col_def updated_at_col_def enum_type_def point_type_def
      uses_enums_def map_filter_def)

lemma step_addresses: "run_ddl create_addresses (at_table ext 3) = Inr (at_table ext 4)"
  by (rule table_step [of _ "''addresses''" addresses_table "td_indexes addresses_0002"])
    (simp_all add: create_addresses_def addresses_0002_def tables_after_0002_def references_ok_def key_columns_def
      addresses_table_def id_col_def created_at_col_def updated_at_col_def enum_type_def point_type_def
      uses_enums_def map_filter_def)

lemma step_inventory: "run_ddl create_inventory (at_table ext 4) = Inr (at_table ext 5)"
  by (rule table_step [of _ "''inventory''" inventory_table "td_indexes inventory_0002"])
    (simp_all add: create_inventory_def inventory_0002_def tables_after_0002_def references_ok_def key_columns_def
      inventory_table_def id_col_def created_at_col_def updated_at_col_def enum_type_def point_type_def
      uses_enums_def map_filter_def)

lemma step_orders: "run_ddl create_orders (at_table ext 5) = Inr (at_table ext 6)"
  by (rule table_step [of _ "''orders''" orders_table "td_indexes orders_0002"])
    (simp_all add: create_orders_def orders_0002_def tables_after_0002_def references_ok_def key_columns_def
      orders_table_def id_col_def created_at_col_def updated_at_col_def enum_type_def point_type_def
      uses_enums_def map_filter_def)

lemma step_order_items: "run_ddl create_order_items (at_table ext 6) = Inr (at_table ext 7)"
  by (rule table_step [of _ "''order_items''" order_items_table "td_indexes order_items_0002"])
    (simp_all add: create_order_items_def order_items_0002_def tables_after_0002_def references_ok_def key_columns_def
      order_items_table_def id_col_def created_at_col_def updated_at_col_def enum_type_def point_type_def
      uses_enums_def map_filter_def)

lemma step_order_status_history: "run_ddl create_order_status_history (at_table ext 7) = Inr (at_table ext 8)"
  by (rule table_step [of _ "''order_status_history''" order_status_history_table "td_indexes order_status_history_0002"])
    (simp_all add: create_order_status_history_def order_status_history_0002_def tables_after_0002_def references_ok_def key_columns_def
      order_status_history_table_def id_col_def created_at_col_def updated_at_col_def enum_type_def point_type_def
      uses_enums_def map_filter_def)

lemma step_payments: "run_ddl create_payments (at_table ext 8) = Inr (at_table ext 9)"
  by (rule table_step [of _ "''payments''" payments_table "td_indexes payments_0002"])
    (simp_all add: create_payments_def payments_0002_def tables_after_0002_def references_ok_def key_columns_def
      payments_table_def id_col_def created_at_col_def updated_at_col_def enum_type_def point_type_def
      uses_enums_def map_filter_def)

lemma step_stock_reservations: "run_ddl create_stock_reservations (at_table ext 9) = Inr (at_table ext 10)"
  by (rule table_step [of _ "''stock_reservations''" stock_reservations_table "td_indexes stock_reservations_0002"])
    (simp_all add: create_stock_reservations_def stock_reservations_0002_def tables_after_0002_def references_ok_def key_columns_def
      stock_reservations_table_def id_col_def created_at_col_def updated_at_col_def enum_type_def point_type_def
      uses_enums_def map_filter_def)

lemma step_idempotency_keys: "run_ddl create_idempotency_keys (at_table ext 10) = Inr (at_table ext 11)"
  by (rule table_step [of _ "''idempotency_keys''" idempotency_keys_table "td_indexes idempotency_keys_0002"])
    (simp_all add: create_idempotency_keys_def idempotency_keys_0002_def tables_after_0002_def references_ok_def key_columns_def
      idempotency_keys_table_def id_col_def created_at_col_def updated_at_col_def enum_type_def point_type_def
      uses_enums_def map_filter_def)

lemma step_outbox: "run_ddl create_outbox (at_table ext 11) = Inr (at_table ext 12)"
  by (rule table_step [of _ "''outbox''" outbox_table "td_indexes outbox_0002"])
    (simp_all add: create_outbox_def outbox_0002_def tables_after_0002_def references_ok_def key_columns_def
      outbox_table_def id_col_def created_at_col_def updated_at_col_def enum_type_def point_type_def
      uses_enums_def map_filter_def)

section \<open>The revisions as a whole\<close>

text \<open>A database without any of this program's objects; extensions may be there already.\<close>

definition no_schema :: "string set \<Rightarrow> catalog" where
  "no_schema ext = \<lparr>cat_extensions = ext, cat_enums = [], cat_tables = []\<rparr>"

lemma up_0001: "upgrade_0001 (no_schema ext) = Inr (at_table (insert ''postgis'' ext) 0)"
  by (simp add: upgrade_0001_def create_extension_def create_enum_def no_schema_def at_table_def enums_0001_def)

lemma up_0002: "upgrade_0002 (at_table ext 0) = Inr (at_table ext 12)"
  by (simp add: upgrade_0002_def run_ddl_append del: One_nat_def add: step_customers step_products step_warehouses step_addresses step_inventory step_orders
      step_order_items step_order_status_history step_payments step_stock_reservations
      step_idempotency_keys step_outbox)

definition idempotency_keys_0003 :: table_def where
  "idempotency_keys_0003 = idempotency_keys_0002
     \<lparr>td_columns := td_columns idempotency_keys_0002 @
        [defaulted ''status'' (T_enum ''idempotency_status'') ''in_progress''],
      td_constraints := td_constraints idempotency_keys_0002 @ [completed_has_response],
      td_indexes := [\<lparr>ix_name = ''ix_idempotency_keys_created_at'', ix_keys = [Key ''created_at''], ix_unique = False, ix_gist = False, ix_where = None\<rparr>, ix_in_progress]\<rparr>"

definition tables_at_head :: "(string \<times> table_def) list" where
  "tables_at_head =
     [(''customers'', customers_0002), (''products'', products_0002), (''warehouses'', warehouses_0002),
      (''addresses'', addresses_0002), (''inventory'', inventory_0002), (''orders'', orders_0002),
      (''order_items'', order_items_0002), (''order_status_history'', order_status_history_0002),
      (''payments'', payments_0002), (''stock_reservations'', stock_reservations_0002),
      (''idempotency_keys'', idempotency_keys_0003), (''outbox'', outbox_0002)]"

definition at_head :: "string set \<Rightarrow> catalog" where
  "at_head ext = \<lparr>cat_extensions = ext, cat_enums = enums_0001 @ [(''idempotency_status'', IDEMPOTENCY_STATUS)],
     cat_tables = tables_at_head\<rparr>"

lemma up_0003: "upgrade_0003 (at_table ext 12) = Inr (at_head ext)"
  by (simp add: upgrade_0003_def create_enum_def at_table_def enums_0001_def add_column_def alter_table_def
      add_constraint_def drop_index_def create_index_def index_names_def tables_after_0002_def tables_at_head_def
      at_head_def idempotency_keys_0003_def key_columns_def ix_in_progress_def completed_has_response_def)
    (simp add: idempotency_keys_0002_def idempotency_keys_table_def id_col_def created_at_col_def
      updated_at_col_def ck_name_def, auto)

section \<open>And back\<close>

lemma down_0003: "downgrade_0003 (at_head ext) = Inr (at_table ext 12)"
  by (simp add: downgrade_0003_def drop_enum_def at_table_def enums_0001_def drop_column_def alter_table_def
      drop_constraint_def drop_index_def create_index_def index_names_def tables_after_0002_def tables_at_head_def
      at_head_def idempotency_keys_0003_def key_columns_def ix_in_progress_def ix_unsettled_def
      completed_has_response_def)
    (simp add: idempotency_keys_0002_def idempotency_keys_table_def id_col_def created_at_col_def
      updated_at_col_def ck_name_def uses_enums_def map_filter_def)

lemma drop_step:
  assumes "k < length tables_after_0002" and "fst (tables_after_0002 ! k) = n" and "j = Suc k"
    and "n \<notin> set (map fst (take k tables_after_0002))"
    and "list_all (\<lambda>(m, td). n \<notin> set (references td)) (take k tables_after_0002)"
  shows "drop_table n (at_table ext j) = Inr (at_table ext k)"
proof -
  have t: "take j tables_after_0002 = take k tables_after_0002 @ [tables_after_0002 ! k]"
    by (simp add: assms(1,3) take_Suc_conv_app_nth)
  have "filter (\<lambda>t. fst t \<noteq> n) (take k tables_after_0002) = take k tables_after_0002"
    using assms(4) by (intro filter_True) force
  then show ?thesis
    using assms(2,5) by (auto simp: drop_table_def at_table_def table_names_def t list_ex_iff list_all_iff)
qed

lemma down_0002: "downgrade_0002 (at_table ext 12) = Inr (at_table ext 0)"
proof -
  have "drop_table ''customers'' (at_table ext 1) = Inr (at_table ext 0)"
    by (rule drop_step) (simp_all add: tables_after_0002_def)
  moreover have "drop_table ''products'' (at_table ext 2) = Inr (at_table ext 1)"
    by (rule drop_step) (simp_all add: tables_after_0002_def)
  moreover have "drop_table ''warehouses'' (at_table ext 3) = Inr (at_table ext 2)"
    by (rule drop_step) (simp_all add: tables_after_0002_def)
  moreover have "drop_table ''addresses'' (at_table ext 4) = Inr (at_table ext 3)"
    by (rule drop_step) (simp_all add: tables_after_0002_def)
  moreover have "drop_table ''inventory'' (at_table ext 5) = Inr (at_table ext 4)"
    by (rule drop_step) (simp_all add: tables_after_0002_def)
  moreover have "drop_table ''orders'' (at_table ext 6) = Inr (at_table ext 5)"
    by (rule drop_step) (simp_all add: tables_after_0002_def)
  moreover have "drop_table ''order_items'' (at_table ext 7) = Inr (at_table ext 6)"
    by (rule drop_step) (simp_all add: tables_after_0002_def)
  moreover have "drop_table ''order_status_history'' (at_table ext 8) = Inr (at_table ext 7)"
    by (rule drop_step) (simp_all add: tables_after_0002_def)
  moreover have "drop_table ''payments'' (at_table ext 9) = Inr (at_table ext 8)"
    by (rule drop_step) (simp_all add: tables_after_0002_def)
  moreover have "drop_table ''stock_reservations'' (at_table ext 10) = Inr (at_table ext 9)"
    by (rule drop_step) (simp_all add: tables_after_0002_def)
  moreover have "drop_table ''idempotency_keys'' (at_table ext 11) = Inr (at_table ext 10)"
    by (rule drop_step) (simp_all add: tables_after_0002_def)
  moreover have "drop_table ''outbox'' (at_table ext 12) = Inr (at_table ext 11)"
    by (rule drop_step) (simp_all add: tables_after_0002_def)
  ultimately show ?thesis by (simp add: downgrade_0002_def del: One_nat_def)
qed

lemma down_0001: "downgrade_0001 (at_table ext 0) = Inr (no_schema ext)"
  by (simp add: downgrade_0001_def drop_enum_def at_table_def enums_0001_def no_schema_def)

end
