(* ===== verification/Schema_Properties.thy ===== *)
theory Schema_Properties
  imports Migrated Saga_Properties
begin

text \<open>
  The schema three times over: what the migrations build, what \<^verbatim>\<open>app/models\<close> declares, and
  what the tables of \<open>Schema\<close> enforce are the same.
\<close>

section \<open>Migrated, declared, enforced\<close>

lemma customers_declared: "same_schema customers_0002 customers_model"
  by (simp add: same_schema_def same_elements_def customers_0002_def customers_table_def customers_model_def
      id_col_def created_at_col_def updated_at_col_def enum_type_def point_type_def uuid_primary_key_def
      created_at_mixin_def updated_at_mixin_def convention required_def optional_def defaulted_def)

lemma products_declared: "same_schema products_0002 products_model"
  by (simp add: same_schema_def same_elements_def products_0002_def products_table_def products_model_def
      id_col_def created_at_col_def updated_at_col_def enum_type_def point_type_def uuid_primary_key_def
      created_at_mixin_def updated_at_mixin_def convention required_def optional_def defaulted_def)

lemma warehouses_declared: "same_schema warehouses_0002 warehouses_model"
  by (simp add: same_schema_def same_elements_def warehouses_0002_def warehouses_table_def warehouses_model_def
      id_col_def created_at_col_def updated_at_col_def enum_type_def point_type_def uuid_primary_key_def
      created_at_mixin_def updated_at_mixin_def convention required_def optional_def defaulted_def)

lemma addresses_declared: "same_schema addresses_0002 addresses_model"
  by (simp add: same_schema_def same_elements_def addresses_0002_def addresses_table_def addresses_model_def
      id_col_def created_at_col_def updated_at_col_def enum_type_def point_type_def uuid_primary_key_def
      created_at_mixin_def updated_at_mixin_def convention required_def optional_def defaulted_def)

lemma inventory_declared: "same_schema inventory_0002 inventory_model"
  by (simp add: same_schema_def same_elements_def inventory_0002_def inventory_table_def inventory_model_def
      id_col_def created_at_col_def updated_at_col_def enum_type_def point_type_def uuid_primary_key_def
      created_at_mixin_def updated_at_mixin_def convention required_def optional_def defaulted_def)

lemma orders_declared: "same_schema orders_0002 orders_model"
  by (simp add: same_schema_def same_elements_def orders_0002_def orders_table_def orders_model_def
      id_col_def created_at_col_def updated_at_col_def enum_type_def point_type_def uuid_primary_key_def
      created_at_mixin_def updated_at_mixin_def convention required_def optional_def defaulted_def)

lemma order_items_declared: "same_schema order_items_0002 order_items_model"
  by (simp add: same_schema_def same_elements_def order_items_0002_def order_items_table_def order_items_model_def
      id_col_def created_at_col_def updated_at_col_def enum_type_def point_type_def uuid_primary_key_def
      created_at_mixin_def updated_at_mixin_def convention required_def optional_def defaulted_def)

lemma order_status_history_declared: "same_schema order_status_history_0002 order_status_history_model"
  by (simp add: same_schema_def same_elements_def order_status_history_0002_def order_status_history_table_def order_status_history_model_def
      id_col_def created_at_col_def updated_at_col_def enum_type_def point_type_def uuid_primary_key_def
      created_at_mixin_def updated_at_mixin_def convention required_def optional_def defaulted_def)

lemma payments_declared: "same_schema payments_0002 payments_model"
  by (simp add: same_schema_def same_elements_def payments_0002_def payments_table_def payments_model_def
      id_col_def created_at_col_def updated_at_col_def enum_type_def point_type_def uuid_primary_key_def
      created_at_mixin_def updated_at_mixin_def convention required_def optional_def defaulted_def)

lemma stock_reservations_declared: "same_schema stock_reservations_0002 stock_reservations_model"
  by (simp add: same_schema_def same_elements_def stock_reservations_0002_def stock_reservations_table_def stock_reservations_model_def
      id_col_def created_at_col_def updated_at_col_def enum_type_def point_type_def uuid_primary_key_def
      created_at_mixin_def updated_at_mixin_def convention required_def optional_def defaulted_def)

lemma idempotency_keys_declared: "same_schema idempotency_keys_0003 idempotency_keys_model"
  by (simp add: same_schema_def same_elements_def idempotency_keys_0003_def idempotency_keys_0002_def completed_has_response_def ix_in_progress_def idempotency_keys_table_def idempotency_keys_model_def
      id_col_def created_at_col_def updated_at_col_def enum_type_def point_type_def uuid_primary_key_def
      created_at_mixin_def updated_at_mixin_def convention required_def optional_def defaulted_def)

lemma outbox_declared: "same_schema outbox_0002 outbox_model"
  by (simp add: same_schema_def same_elements_def outbox_0002_def outbox_table_def outbox_model_def
      id_col_def created_at_col_def updated_at_col_def enum_type_def point_type_def uuid_primary_key_def
      created_at_mixin_def updated_at_mixin_def convention required_def optional_def defaulted_def)

text \<open>The names of the constraints a table of \<open>Schema\<close> enforces, and of those a table declares.\<close>

definition enforced :: "string \<Rightarrow> 'r table_spec \<Rightarrow> string list" where
  "enforced tab sp = map (\<lambda>c. ck_name tab (fst c)) (checks sp) @ map fst (uniques sp) @ map fst (fkeys sp)"

definition declared_names :: "table_def \<Rightarrow> string list" where
  "declared_names td = map constraint_name (td_constraints td) @ map ix_name (filter ix_unique (td_indexes td))"

lemma customers_enforced: "same_elements (enforced ''customers'' customer_spec) (declared_names customers_model)"
  by (simp add: same_elements_def enforced_def declared_names_def customer_spec_def customers_model_def convention)

lemma products_enforced: "same_elements (enforced ''products'' product_spec) (declared_names products_model)"
  by (simp add: same_elements_def enforced_def declared_names_def product_spec_def products_model_def convention)

lemma warehouses_enforced: "same_elements (enforced ''warehouses'' warehouse_spec) (declared_names warehouses_model)"
  by (simp add: same_elements_def enforced_def declared_names_def warehouse_spec_def warehouses_model_def convention)

lemma addresses_enforced: "same_elements (enforced ''addresses'' (address_spec d)) (declared_names addresses_model)"
  by (simp add: same_elements_def enforced_def declared_names_def address_spec_def addresses_model_def convention)

lemma inventory_enforced: "same_elements (enforced ''inventory'' (inventory_spec d)) (declared_names inventory_model)"
  by (simp add: same_elements_def enforced_def declared_names_def inventory_spec_def inventory_model_def convention)

lemma orders_enforced: "same_elements (enforced ''orders'' (order_spec d)) (declared_names orders_model)"
  by (simp add: same_elements_def enforced_def declared_names_def order_spec_def orders_model_def convention)

lemma order_items_enforced: "same_elements (enforced ''order_items'' (order_item_spec d)) (declared_names order_items_model)"
  by (simp add: same_elements_def enforced_def declared_names_def order_item_spec_def order_items_model_def convention)

lemma order_status_history_enforced: "same_elements (enforced ''order_status_history'' (history_spec d)) (declared_names order_status_history_model)"
  by (simp add: same_elements_def enforced_def declared_names_def history_spec_def order_status_history_model_def convention)

lemma payments_enforced: "same_elements (enforced ''payments'' (payment_spec d)) (declared_names payments_model)"
  by (simp add: same_elements_def enforced_def declared_names_def payment_spec_def payments_model_def convention)

lemma stock_reservations_enforced: "same_elements (enforced ''stock_reservations'' (reservation_spec d)) (declared_names stock_reservations_model)"
  by (simp add: same_elements_def enforced_def declared_names_def reservation_spec_def stock_reservations_model_def convention)

lemma idempotency_keys_enforced: "same_elements (enforced ''idempotency_keys'' (idempotency_spec d)) (declared_names idempotency_keys_model)"
  by (simp add: same_elements_def enforced_def declared_names_def idempotency_spec_def idempotency_keys_model_def convention)

lemma outbox_enforced: "same_elements (enforced ''outbox'' outbox_spec) (declared_names outbox_model)"
  by (simp add: same_elements_def enforced_def declared_names_def outbox_spec_def outbox_model_def convention)

definition schema_matches :: "catalog \<Rightarrow> bool" where
  "schema_matches c \<longleftrightarrow> map fst (cat_tables c) = map fst metadata \<and>
     list_all2 (\<lambda>t m. same_schema (snd t) (snd m)) (cat_tables c) metadata"

definition schema_enforced :: "db \<Rightarrow> bool" where
  "schema_enforced d \<longleftrightarrow>
     same_elements (enforced ''customers'' customer_spec) (declared_names customers_model) \<and>
     same_elements (enforced ''products'' product_spec) (declared_names products_model) \<and>
     same_elements (enforced ''warehouses'' warehouse_spec) (declared_names warehouses_model) \<and>
     same_elements (enforced ''addresses'' (address_spec d)) (declared_names addresses_model) \<and>
     same_elements (enforced ''inventory'' (inventory_spec d)) (declared_names inventory_model) \<and>
     same_elements (enforced ''orders'' (order_spec d)) (declared_names orders_model) \<and>
     same_elements (enforced ''order_items'' (order_item_spec d)) (declared_names order_items_model) \<and>
     same_elements (enforced ''order_status_history'' (history_spec d)) (declared_names order_status_history_model) \<and>
     same_elements (enforced ''payments'' (payment_spec d)) (declared_names payments_model) \<and>
     same_elements (enforced ''stock_reservations'' (reservation_spec d)) (declared_names stock_reservations_model) \<and>
     same_elements (enforced ''idempotency_keys'' (idempotency_spec d)) (declared_names idempotency_keys_model) \<and>
     same_elements (enforced ''outbox'' outbox_spec) (declared_names outbox_model)"

lemma schema_is_enforced: "schema_enforced d"
  unfolding schema_enforced_def
  by (intro conjI customers_enforced products_enforced warehouses_enforced addresses_enforced inventory_enforced
      orders_enforced order_items_enforced order_status_history_enforced payments_enforced
      stock_reservations_enforced idempotency_keys_enforced outbox_enforced)

lemma head_matches: "schema_matches (at_head ext)"
  by (simp add: schema_matches_def at_head_def tables_at_head_def metadata_def
      customers_declared products_declared warehouses_declared addresses_declared inventory_declared
      orders_declared order_items_declared order_status_history_declared payments_declared
      stock_reservations_declared idempotency_keys_declared outbox_declared)

text \<open>
  C35: one schema. On a database without this program's objects the three revisions succeed, whatever
  extensions are installed, and a database that stopped at an earlier revision ends the same; the
  tables they leave behind have exactly the columns, constraints and indexes that the models declare
  under the naming convention; the enumeration types hold the values of the Python enums in their
  order; and those constraints, by name, are the ones the tables of this development enforce. At head
  there is nothing left to do.
\<close>

theorem migrated_schema_is_declared:
  "\<exists>c c1 c2. do_run_migrations (pending_upgrades None) (no_schema ext) = (Inr (), c) \<and>
     schema_matches c \<and> cat_enums c = declared_enums \<and> cat_extensions c = insert ''postgis'' ext \<and> schema_enforced d \<and>
     do_run_migrations [upgrade_0001] (no_schema ext) = (Inr (), c1) \<and>
     do_run_migrations (pending_upgrades (Some ''0001'')) c1 = (Inr (), c) \<and>
     do_run_migrations [upgrade_0002] c1 = (Inr (), c2) \<and>
     do_run_migrations (pending_upgrades (Some ''0002'')) c2 = (Inr (), c) \<and>
     do_run_migrations (pending_upgrades (Some ''0003'')) c = (Inr (), c)"
proof -
  let ?ext = "insert ''postgis'' ext"
  have "cat_enums (at_head ?ext) = declared_enums"
    by (simp add: at_head_def enums_0001_def ORDER_STATUS_def PAYMENT_STATUS_def RESERVATION_STATUS_def
        IDEMPOTENCY_STATUS_def declared_enums_def pg_enum_def)
  moreover have "cat_extensions (at_head ?ext) = ?ext" by (simp add: at_head_def)
  ultimately show ?thesis unfolding do_run_migrations_Inr
    by (intro exI [of _ "at_head ?ext"] exI [of _ "at_table ?ext 0"] exI [of _ "at_table ?ext 12"])
      (simp add: up_0001 up_0002 up_0003 head_matches schema_is_enforced)
qed

text \<open>
  the downgrades retrace the upgrades. Downgrading 0003 gives back exactly the catalog that 0002
  had built, and downgrading to base leaves what there was before the first upgrade, with the
  extension still installed, so the chain can be upgraded again.
\<close>

theorem downgrade_retraces_upgrade:
  "(\<exists>c. run_ddl [upgrade_0001, upgrade_0002] (no_schema ext) = Inr c \<and>
      run_ddl [upgrade_0003, downgrade_0003] c = Inr c) \<and>
   run_ddl [upgrade_head, downgrade_base] (no_schema ext) = Inr (no_schema (insert ''postgis'' ext)) \<and>
   run_ddl [upgrade_head, downgrade_base, upgrade_head] (no_schema ext) = upgrade_head (no_schema ext)"
  by (simp add: upgrade_head_def downgrade_base_def up_0001 up_0002 up_0003 down_0003 down_0002 down_0001)

section \<open>What 0003 does to the rows\<close>

text \<open>A key as 0002 stored it, and what adding the column with its default makes of it.\<close>

record key_row_0002 =
  k2_id :: uuid
  k2_key :: string
  k2_request_hash :: string
  k2_response_body :: "order_response option"
  k2_response_status :: "int option"
  k2_order_id :: "uuid option"
  k2_created_at :: timestamp
  k2_updated_at :: timestamp

definition add_status :: "key_row_0002 \<Rightarrow> idempotency_row" where
  "add_status r =
     \<lparr>ik_id = k2_id r, ik_key = k2_key r, ik_request_hash = k2_request_hash r, ik_status = In_progress,
      ik_response_body = k2_response_body r, ik_response_status = k2_response_status r,
      ik_order_id = k2_order_id r, ik_created_at = k2_created_at r, ik_updated_at = k2_updated_at r\<rparr>"

lemma add_status_simps [simp]:
  "ik_key (add_status r) = k2_key r" "ik_status (add_status r) = In_progress"
  "ik_request_hash (add_status r) = k2_request_hash r"
  by (simp_all add: add_status_def)

lemma find_add_status:
  "distinct (map k2_key old) \<Longrightarrow> r \<in> set old \<Longrightarrow>
     List.find (\<lambda>x. ik_key x = k2_key r) (map add_status old) = Some (add_status r)"
  by (induction old) (auto simp: rev_image_eqI)

text \<open>
  C38: a settled key is locked by the upgrade. Revision 0003 gives every existing key the status
  \<^verbatim>\<open>in_progress\<close>, also those that 0002 stored with their response. A client that repeats such
  a request after the upgrade, with the same key and body, is refused as in progress, and nothing in
  the database can make the key replay or be claimed again.
\<close>

theorem settled_keys_are_locked_by_upgrade:
  assumes "distinct (map k2_key old)" and "r \<in> set old" and "k2_response_body r \<noteq> None"
    and "length (k2_request_hash r) = 64"
  shows "claim_key (k2_key r) (k2_request_hash r) (d\<lparr>idempotency_keys := map add_status old\<rparr>) =
    Inl (DomainError (IdempotencyInProgress (k2_key r)))"
proof -
  have "key_row (k2_key r) (d\<lparr>idempotency_keys := map add_status old\<rparr>) = Some (add_status r)"
    using find_add_status [OF assms(1,2)] by (simp add: key_row_def)
  from claim_key_in_progress [OF this] assms(4) show ?thesis by simp
qed

theorem settled_keys_are_locked_by_upgrade_witness:
  "claim_key ''k1'' demo_hash (demo_db\<lparr>idempotency_keys := [add_status \<lparr>k2_id = 9, k2_key = ''k1'',
      k2_request_hash = demo_hash, k2_response_body = Some \<lparr>resp_id = 101, resp_status = Confirmed,
        resp_warehouse = None, resp_items = [], resp_total_minor = 2800, resp_currency = ''EUR'',
        resp_payment_reference = None, resp_created_at = 0\<rparr>, k2_response_status = Some 201, k2_order_id = None,
      k2_created_at = 0, k2_updated_at = 0\<rparr>]\<rparr>) = Inl (DomainError (IdempotencyInProgress ''k1''))"
  using settled_keys_are_locked_by_upgrade [of "[\<lparr>k2_id = 9, k2_key = ''k1'',
      k2_request_hash = demo_hash, k2_response_body = Some \<lparr>resp_id = 101, resp_status = Confirmed,
        resp_warehouse = None, resp_items = [], resp_total_minor = 2800, resp_currency = ''EUR'',
        resp_payment_reference = None, resp_created_at = 0\<rparr>, k2_response_status = Some 201, k2_order_id = None,
      k2_created_at = 0, k2_updated_at = 0\<rparr>]"]
  by (simp add: demo_hash_def)

end
