(* ===== verification/Doubles.thy ===== *)
theory Doubles
  imports Prelude Complex_Main
begin

text \<open>
  Python's \<^verbatim>\<open>float\<close>, as far as the program computes with it: a double is the rational it
  denotes, every operation is the exact one rounded to the nearest double, ties to even, and
  \<^verbatim>\<open>round(x, 6)\<close> is the double nearest to \<open>x\<close> rounded to six decimals. Nothing here comes
  near the overflow threshold, so there are no infinities. The lemmas bound the rounding error of
  values up to 128.
\<close>

definition round_half_even :: "rat \<Rightarrow> int" where
  "round_half_even x =
     (let n = \<lfloor>x\<rfloor>; f = x - of_int n in
      if f < 1 / 2 then n else if f > 1 / 2 then n + 1 else if even n then n else n + 1)"

text \<open>
  The distance between neighbouring doubles at \<open>x\<close>: the power of two \<open>u\<close> with
  \<^prop>\<open>2 ^ 52 * u \<le> \<bar>x\<bar>\<close>, searched from the largest, \<open>2 ^ 971\<close>, down to the smallest,
  \<open>1 / 2 ^ 1074\<close>.
\<close>

fun ulp_from :: "nat \<Rightarrow> rat \<Rightarrow> rat \<Rightarrow> rat" where
  "ulp_from 0 u x = u"
| "ulp_from (Suc n) u x = (if \<bar>x\<bar> < 2 ^ 52 * u then ulp_from n (u / 2) x else u)"

definition ulp :: "rat \<Rightarrow> rat" where
  "ulp x = ulp_from (971 + 1074) (2 ^ 971) x"

definition double :: "rat \<Rightarrow> rat" where
  "double x = of_int (round_half_even (x / ulp x)) * ulp x"

definition add_double :: "rat \<Rightarrow> rat \<Rightarrow> rat" where
  "add_double x y = double (x + y)"

definition diff_double :: "rat \<Rightarrow> rat \<Rightarrow> rat" where
  "diff_double x y = double (x - y)"

definition times_double :: "rat \<Rightarrow> rat \<Rightarrow> rat" where
  "times_double x y = double (x * y)"

text \<open>True division of two integers.\<close>

definition int_divide :: "int \<Rightarrow> int \<Rightarrow> rat" where
  "int_divide a b = double (of_int a / of_int b)"

definition round6 :: "rat \<Rightarrow> rat" where
  "round6 x = double (of_int (round_half_even (x * 10 ^ 6)) / 10 ^ 6)"

section \<open>The rounding error\<close>

lemma round_half_even_error: "\<bar>of_int (round_half_even x) - x\<bar> \<le> 1 / 2"
proof -
  define n where "n = \<lfloor>x\<rfloor>"
  have n: "of_int n \<le> x" "x < of_int n + 1" unfolding n_def by linarith+
  have "round_half_even x = n \<and> x - of_int n \<le> 1 / 2 \<or> round_half_even x = n + 1 \<and> 1 / 2 \<le> x - of_int n"
    by (auto simp: round_half_even_def Let_def n_def)
  with n show ?thesis by (auto simp: abs_if)
qed

lemma round_half_even_between:
  assumes "of_int a - 1 / 2 < x" and "x < of_int b + 1 / 2"
  shows "a \<le> round_half_even x \<and> round_half_even x \<le> b"
proof -
  have "of_int a - (1 :: rat) < of_int (round_half_even x)" "of_int (round_half_even x) < of_int b + (1 :: rat)"
    using round_half_even_error [of x] assms by linarith+
  then have "of_int (a - 1) < (of_int (round_half_even x) :: rat)" "of_int (round_half_even x) < (of_int (b + 1) :: rat)"
    by simp_all
  then show ?thesis by (simp only: of_int_less_iff) linarith
qed

lemma ulp_from_pos: "0 < u \<Longrightarrow> 0 < ulp_from n u x"
  by (induction n arbitrary: u) auto

text \<open>The search goes on while the current unit is too large.\<close>

lemma ulp_from_bound:
  assumes "0 < u" and "\<bar>x\<bar> * 2 ^ k < 2 ^ 52 * u" and "k < n"
  shows "ulp_from n u x * 2 ^ k \<le> u / 2"
  using assms
proof (induction n arbitrary: u k)
  case (Suc n)
  show ?case
  proof (cases k)
    case 0
    have le: "ulp_from m v x \<le> v" if "0 < v" for m v
      using that
    proof (induction m arbitrary: v)
      case (Suc m)
      from Suc.IH [of "v / 2"] Suc.prems have "ulp_from m (v / 2) x \<le> v / 2" by simp
      with Suc.prems show ?case by auto
    qed simp
    from 0 Suc.prems le [of "u / 2" n] show ?thesis by simp
  next
    case (Suc j)
    have "\<bar>x\<bar> < 2 ^ 52 * u"
    proof -
      have "\<bar>x\<bar> * 1 \<le> \<bar>x\<bar> * 2 ^ k" by (intro mult_left_mono) simp_all
      then show ?thesis using Suc.prems(2) by linarith
    qed
    moreover have "ulp_from n (u / 2) x * 2 ^ j \<le> u / 2 / 2"
      by (rule Suc.IH) (use Suc.prems \<open>k = Suc j\<close> in simp_all)
    ultimately show ?thesis using Suc by simp
  qed
qed simp

lemma ulp_pos: "0 < ulp x"
  by (simp add: ulp_def ulp_from_pos)

lemma ulp_small:
  assumes "\<bar>x\<bar> \<le> 128"
  shows "ulp x \<le> 1 / 2 ^ 45"
proof -
  have "\<bar>x\<bar> * 2 ^ 1015 \<le> 2 ^ 7 * 2 ^ 1015" by (intro mult_right_mono) (use assms in simp_all)
  also have "\<dots> < 2 ^ 52 * (2 ^ 971 :: rat)" by (simp add: power_add [symmetric] del: power_numeral)
  finally have "ulp x * 2 ^ 1015 \<le> 2 ^ 971 / 2"
    unfolding ulp_def by (intro ulp_from_bound) simp_all
  also have "\<dots> = 1 / 2 ^ 45 * (2 ^ 1015 :: rat)"
    by (simp add: field_simps)
  finally show ?thesis by (simp only: mult_le_cancel_right) simp
qed

lemma double_error:
  assumes "\<bar>x\<bar> \<le> 128"
  shows "\<bar>double x - x\<bar> \<le> 1 / 2 ^ 46"
proof -
  have "double x - x = (of_int (round_half_even (x / ulp x)) - x / ulp x) * ulp x"
    using ulp_pos [of x] by (simp add: double_def field_simps)
  then have "\<bar>double x - x\<bar> = \<bar>of_int (round_half_even (x / ulp x)) - x / ulp x\<bar> * ulp x"
    using ulp_pos [of x] by (simp add: abs_mult)
  also have "\<dots> \<le> 1 / 2 * (1 / 2 ^ 45)"
    by (intro mult_mono round_half_even_error ulp_small assms) (use ulp_pos [of x] in simp_all)
  finally show ?thesis by simp
qed

lemma double_0 [simp]: "double 0 = 0"
  by (simp add: double_def round_half_even_def)

text \<open>In the form the estimates use.\<close>

lemma double_near:
  "\<bar>x\<bar> \<le> 128 \<Longrightarrow> x - 1 / 10 ^ 13 \<le> double x \<and> double x \<le> x + 1 / 10 ^ 13"
proof -
  assume "\<bar>x\<bar> \<le> 128"
  then have "\<bar>double x - x\<bar> \<le> 1 / 2 ^ 46" by (rule double_error)
  also have "\<dots> \<le> 1 / 10 ^ 13" by simp
  finally show ?thesis by linarith
qed

lemma double_in_range [simp]:
  "\<bar>x\<bar> \<le> 89 \<Longrightarrow> - 90 \<le> double x" "\<bar>x\<bar> \<le> 89 \<Longrightarrow> double x \<le> 90"
  "\<bar>x\<bar> \<le> 128 \<Longrightarrow> - 180 \<le> double x" "\<bar>x\<bar> \<le> 128 \<Longrightarrow> double x \<le> 180"
  using double_near [of x] by (simp_all add: abs_le_iff)

end
