(* ===== verification/Seeds.thy ===== *)
theory Seeds
  imports Ledger Doubles
begin

text \<open>
  \<^verbatim>\<open>app/seeds.py\<close>: the reference data and the script that writes it, \<open>seed_main\<close>, one
  transaction of upserts. A decimal literal of a coordinate is the double nearest to it. The lemmas show
  what an upsert keeps, and that a second run of the script changes nothing.
\<close>

section \<open>The data\<close>

definition EUR :: string where
  "EUR = ''EUR''"

definition PRODUCTS :: "(string \<times> string \<times> int) list" where
  "PRODUCTS =
     [(''SKU-KEYB'', ''Mechanical Keyboard'', 8900),
      (''SKU-MOUSE'', ''Wireless Mouse'', 3450),
      (''SKU-MON27'', ''27\" 4K Monitor'', 42900),
      (''SKU-DOCK'', ''USB-C Docking Station'', 15900),
      (''SKU-CABLE'', ''USB-C Cable 2m'', 1290)]"

definition WAREHOUSES :: "(string \<times> string \<times> rat \<times> rat) list" where
  "WAREHOUSES =
     [(''MAD-01'', ''Madrid Central'', double (-3.7038), double 40.4168),
      (''BCN-01'', ''Barcelona Port'', double 2.1734, double 41.3851),
      (''VLC-01'', ''Valencia Sur'', double (-0.3763), double 39.4699),
      (''SVQ-01'', ''Seville Hub'', double (-5.9845), double 37.3891)]"

definition INVENTORY :: "(string \<times> string \<times> int \<times> int) list" where
  "INVENTORY =
     [(''MAD-01'', ''SKU-KEYB'', 50, 5), (''MAD-01'', ''SKU-MOUSE'', 40, 0),
      (''MAD-01'', ''SKU-DOCK'', 12, 0), (''MAD-01'', ''SKU-CABLE'', 100, 0),
      (''BCN-01'', ''SKU-KEYB'', 30, 0), (''BCN-01'', ''SKU-MOUSE'', 20, 0),
      (''BCN-01'', ''SKU-CABLE'', 60, 0),
      (''VLC-01'', ''SKU-KEYB'', 5, 0), (''VLC-01'', ''SKU-CABLE'', 10, 0),
      (''SVQ-01'', ''SKU-KEYB'', 10, 0), (''SVQ-01'', ''SKU-MOUSE'', 10, 0),
      (''SVQ-01'', ''SKU-MON27'', 3, 0), (''SVQ-01'', ''SKU-DOCK'', 4, 0),
      (''SVQ-01'', ''SKU-CABLE'', 25, 0)]"

definition CUSTOMER_EMAIL :: string where
  "CUSTOMER_EMAIL = ''ada@example.com''"

definition CUSTOMER_NAME :: string where
  "CUSTOMER_NAME = ''Ada Lovelace''"

definition ADDRESSES :: "(string \<times> string \<times> string \<times> string \<times> rat \<times> rat) list" where
  "ADDRESSES =
     [(''Calle de Alcala 45'', ''Madrid'', ''28014'', ''ES'', double (-3.6975), double 40.4189),
      (''Carrer de Mallorca 401'', ''Barcelona'', ''08013'', ''ES'', double 2.1744, double 41.4036)]"

section \<open>The statement\<close>

text \<open>
  \<^verbatim>\<open>INSERT ... ON CONFLICT (c) DO UPDATE SET ...\<close>, one proposed row. The proposed row must
  pass the column types and CHECKs whether or not it is inserted; if a stored row has the same
  \<open>c\<close>, that row is updated from the proposed one. (The foreign keys are tested on the row that is
  written. No two rows of one statement here have the same \<open>c\<close>, so none is affected twice.)
\<close>

definition check_proposed :: "'r table_spec \<Rightarrow> 'r \<Rightarrow> exc option" where
  "check_proposed sp r =
     (case violated (col_types sp) r of Some n \<Rightarrow> Some (DataError n) | None \<Rightarrow>
      map_option IntegrityError (violated (checks sp) r))"

definition upsert_row ::
  "'r table_spec \<Rightarrow> ('r \<Rightarrow> 'r \<Rightarrow> bool) \<Rightarrow> ('r \<Rightarrow> 'r \<Rightarrow> 'r) \<Rightarrow> 'r \<Rightarrow> 'r list \<Rightarrow> exc + 'r list" where
  "upsert_row sp same set_to r rows =
     (case check_proposed sp r of Some e \<Rightarrow> Inl e | None \<Rightarrow>
      if list_ex (same r) rows
      then bind_r (update_rows sp (same r) (set_to r) rows) (\<lambda>(_, rows'). Inr rows')
      else insert_row sp r rows)"

definition upsert_rows ::
  "'r table_spec \<Rightarrow> ('r \<Rightarrow> 'r \<Rightarrow> bool) \<Rightarrow> ('r \<Rightarrow> 'r \<Rightarrow> 'r) \<Rightarrow> 'r list \<Rightarrow> 'r list \<Rightarrow> exc + 'r list" where
  "upsert_rows sp same set_to rs rows = fold_r (upsert_row sp same set_to) rs rows"

text \<open>The rows of a \<^verbatim>\<open>VALUES\<close> list, each with an id of its own from the server default.\<close>

fun with_ids :: "('x \<Rightarrow> uuid \<Rightarrow> 'r) \<Rightarrow> 'x list \<Rightarrow> db \<Rightarrow> 'r list \<times> db" where
  "with_ids row [] d = ([], d)"
| "with_ids row (x # xs) d =
     (let (i, d1) = gen_random_uuid d; (rs, d2) = with_ids row xs d1 in (row x i # rs, d2))"

section \<open>The steps of the script\<close>

definition seed_product :: "timestamp \<Rightarrow> string \<times> string \<times> int \<Rightarrow> uuid \<Rightarrow> product_row" where
  "seed_product now = (\<lambda>(sku, name, price) i.
     \<lparr>pr_id = i, pr_sku = sku, pr_name = name, pr_unit_price_minor = price, pr_currency = EUR,
      pr_is_active = True, pr_created_at = now, pr_updated_at = now\<rparr>)"

definition set_product :: "product_row \<Rightarrow> product_row \<Rightarrow> product_row" where
  "set_product new x = x\<lparr>pr_name := pr_name new, pr_unit_price_minor := pr_unit_price_minor new,
                         pr_currency := pr_currency new\<rparr>"

definition seed_products :: "db \<Rightarrow> exc + ((string \<rightharpoonup> uuid) \<times> db)" where
  "seed_products d =
     (let (rs, d1) = with_ids (seed_product (db_now d)) PRODUCTS d in
      bind_r (upsert_rows product_spec (\<lambda>r x. pr_sku x = pr_sku r) set_product rs (products d1)) (\<lambda>rows.
      Inr (map_of (rev (map (\<lambda>r. (pr_sku r, pr_id r)) rows)), d1\<lparr>products := rows\<rparr>)))"

definition seed_warehouse ::
  "timestamp \<Rightarrow> string \<times> string \<times> wkb_point \<Rightarrow> uuid \<Rightarrow> warehouse_row" where
  "seed_warehouse now = (\<lambda>(code, name, loc) i.
     \<lparr>wh_id = i, wh_code = code, wh_name = name, wh_location = loc, wh_is_active = True,
      wh_created_at = now, wh_updated_at = now\<rparr>)"

definition set_warehouse :: "warehouse_row \<Rightarrow> warehouse_row \<Rightarrow> warehouse_row" where
  "set_warehouse new x = x\<lparr>wh_name := wh_name new, wh_location := wh_location new\<rparr>"

definition warehouse_values :: "exc + (string \<times> string \<times> wkb_point) list" where
  "warehouse_values = map_r (\<lambda>(code, name, lon', lat').
     bind_r (to_point lon' lat') (\<lambda>loc. Inr (code, name, loc))) WAREHOUSES"

definition seed_warehouses :: "db \<Rightarrow> exc + ((string \<rightharpoonup> uuid) \<times> db)" where
  "seed_warehouses d =
     bind_r warehouse_values (\<lambda>vs.
      let (rs, d1) = with_ids (seed_warehouse (db_now d)) vs d in
      bind_r (upsert_rows warehouse_spec (\<lambda>r x. wh_code x = wh_code r) set_warehouse rs (warehouses d1)) (\<lambda>rows.
      Inr (map_of (rev (map (\<lambda>r. (wh_code r, wh_id r)) rows)), d1\<lparr>warehouses := rows\<rparr>)))"

text \<open>\<^verbatim>\<open>warehouses[code]\<close> on a name that is missing raises; both maps hold every seeded name.\<close>

definition the_id :: "(string \<rightharpoonup> uuid) \<Rightarrow> string \<Rightarrow> exc + uuid" where
  "the_id ids name = (case ids name of Some i \<Rightarrow> Inr i | None \<Rightarrow> Inl (LookupError name))"

definition inventory_values ::
  "(string \<rightharpoonup> uuid) \<Rightarrow> (string \<rightharpoonup> uuid) \<Rightarrow> exc + (uuid \<times> uuid \<times> int \<times> int) list" where
  "inventory_values pids wids = map_r (\<lambda>(code, sku, n, res).
     bind_r (the_id wids code) (\<lambda>w. bind_r (the_id pids sku) (\<lambda>p. Inr (w, p, n, res)))) INVENTORY"

definition seed_stock :: "timestamp \<Rightarrow> uuid \<times> uuid \<times> int \<times> int \<Rightarrow> uuid \<Rightarrow> inventory_row" where
  "seed_stock now = (\<lambda>(w, p, n, res) i.
     \<lparr>inv_id = i, inv_warehouse_id = w, inv_product_id = p, on_hand = n, reserved = res,
      inv_updated_at = now\<rparr>)"

definition set_stock :: "inventory_row \<Rightarrow> inventory_row \<Rightarrow> inventory_row" where
  "set_stock new x = x\<lparr>on_hand := on_hand new\<rparr>"

definition seed_inventory :: "(string \<rightharpoonup> uuid) \<Rightarrow> (string \<rightharpoonup> uuid) \<Rightarrow> db \<Rightarrow> exc + db" where
  "seed_inventory pids wids d =
     bind_r (inventory_values pids wids) (\<lambda>vs.
      let (rs, d1) = with_ids (seed_stock (db_now d)) vs d in
      bind_r (upsert_rows (inventory_spec d1) (\<lambda>r x. inv_key x = inv_key r) set_stock rs (inventory d1)) (\<lambda>rows.
      Inr (d1\<lparr>inventory := rows\<rparr>)))"

definition seed_customer :: "db \<Rightarrow> exc + (customer_row \<times> db)" where
  "seed_customer d =
     (case List.find (\<lambda>c. map lower_char (cu_email c) = CUSTOMER_EMAIL) (customers d) of
        Some c \<Rightarrow> Inr (c, d)
      | None \<Rightarrow>
          (let (i, d1) = gen_random_uuid d;
               c = \<lparr>cu_id = i, cu_email = CUSTOMER_EMAIL, cu_full_name = CUSTOMER_NAME,
                    cu_created_at = db_now d, cu_updated_at = db_now d\<rparr>
           in bind_r (insert_row customer_spec c (customers d1)) (\<lambda>rows.
              Inr (c, d1\<lparr>customers := rows\<rparr>))))"

definition seed_address ::
  "customer_row \<Rightarrow> string \<times> string \<times> string \<times> string \<times> rat \<times> rat \<Rightarrow> db \<Rightarrow> exc + db" where
  "seed_address cu = (\<lambda>(line1', city', postal, country, lon', lat') d.
     if list_ex (\<lambda>a. ad_customer_id a = cu_id cu \<and> ad_line1 a = ustr line1') (addresses d) then Inr d
     else bind_r (to_point lon' lat') (\<lambda>pt.
       let (i, d1) = gen_random_uuid d;
           a = \<lparr>ad_id = i, ad_customer_id = cu_id cu, ad_line1 = ustr line1', ad_line2 = None,
                ad_city = ustr city', ad_postal_code = ustr postal, ad_country_code = ustr country,
                ad_point = Some pt, ad_created_at = db_now d, ad_updated_at = db_now d\<rparr>
       in bind_r (insert_row (address_spec d1) a (addresses d1)) (\<lambda>rows.
          Inr (d1\<lparr>addresses := rows\<rparr>))))"

text \<open>
  A pending address is flushed by the next query of the loop, and the last by the commit.
\<close>

definition seed_addresses :: "customer_row \<Rightarrow> db \<Rightarrow> exc + db" where
  "seed_addresses cu d = fold_r (seed_address cu) ADDRESSES d"

definition seed_transaction :: "db \<Rightarrow> exc + (unit \<times> db)" where
  "seed_transaction =
     no_result (\<lambda>d.
       bind_r (seed_products d) (\<lambda>(pids, d1).
       bind_r (seed_warehouses d1) (\<lambda>(wids, d2).
       bind_r (seed_inventory pids wids d2) (\<lambda>d3.
       bind_r (seed_customer d3) (\<lambda>(cu, d4).
       seed_addresses cu d4)))))"

definition seed_main :: "db \<Rightarrow> (exc + unit) \<times> db" where
  "seed_main = in_transaction seed_transaction"

section \<open>What an upsert keeps\<close>

lemma check_proposed_None:
  "check_proposed sp r = None \<longleftrightarrow> list_all (\<lambda>c. snd c r) (col_types sp @ checks sp)"
  by (auto simp: check_proposed_def violated_None option.case_eq_if split: option.splits)

text \<open>
  The interface of an upsert: \<open>same\<close> compares the columns of the conflict target, \<open>set_to\<close> is
  the SET clause. It reads nothing it writes and writes no column of a unique constraint.
\<close>

locale upsertion =
  fixes sp :: "'r table_spec" and same :: "'r \<Rightarrow> 'r \<Rightarrow> bool" and set_to :: "'r \<Rightarrow> 'r \<Rightarrow> 'r"
  assumes symmetric: "sym_uniques (uniques sp)"
    and same_refl: "same r r"
    and same_join: "same r x \<Longrightarrow> same s x \<Longrightarrow> same r s"
    and set_keeps_target: "same s (set_to r x) = same s x"
    and set_twice: "set_to r (set_to r x) = set_to r x"
    and set_own: "set_to r r = r"
begin

text \<open>The table holds what the proposed row asks for.\<close>

definition settled :: "'r \<Rightarrow> 'r list \<Rightarrow> bool" where
  "settled r rows \<longleftrightarrow> list_ex (same r) rows \<and> list_all (\<lambda>x. same r x \<longrightarrow> set_to r x = x) rows"

lemma settledI:
  "x \<in> set rows \<Longrightarrow> same r x \<Longrightarrow> set_to r x = x \<Longrightarrow> \<forall>y \<in> set rows. same r y \<longrightarrow> y = x \<Longrightarrow>
     settled r rows"
  unfolding settled_def list_ex_iff list_all_iff by blast

lemma settledE:
  assumes "settled r rows"
  obtains x where "x \<in> set rows" "same r x" "set_to r x = x"
  using assms by (auto simp: settled_def list_ex_iff list_all_iff)

lemma upsert_row_cases:
  assumes "upsert_row sp same set_to r rows = Inr rows'"
  shows "(list_ex (same r) rows \<and> rows' = upd (same r) (set_to r) rows) \<or>
    (\<not> list_ex (same r) rows \<and> rows' = rows @ [r])"
  using assms
  by (auto simp: upsert_row_def bind_r_Inr update_rows_Inr insert_row_Inr split: option.splits if_splits)

lemma upsert_row_table_ok:
  "upsert_row sp same set_to r rows = Inr rows' \<Longrightarrow> table_ok sp rows \<Longrightarrow> table_ok sp rows'"
  by (auto simp: upsert_row_def bind_r_Inr split: option.splits if_splits
      intro: update_rows_table_ok insert_row_table_ok [OF symmetric])

lemma upsert_row_checked:
  "upsert_row sp same set_to r rows = Inr rows' \<Longrightarrow> check_proposed sp r = None"
  by (auto simp: upsert_row_def split: option.splits)

lemma upsert_row_settles:
  assumes "upsert_row sp same set_to r rows = Inr rows'"
  shows "settled r rows'"
  using upsert_row_cases [OF assms]
  by (auto simp: settled_def list_ex_iff list_all_iff set_upd set_keeps_target set_twice set_own same_refl)
    (use set_keeps_target in blast)

lemma upsert_row_keeps_settled:
  assumes "upsert_row sp same set_to s rows = Inr rows'" and "settled r rows" and "\<not> same r s"
  shows "settled r rows'"
proof -
  have other: "\<not> same s x" if "same r x" for x using assms(3) that same_join by blast
  from upsert_row_cases [OF assms(1)] assms(2,3) show ?thesis
    by (auto simp: settled_def list_ex_iff list_all_iff set_upd set_keeps_target dest: other)
      (use other in blast)+
qed

lemma upsert_row_again:
  assumes "settled r rows" and "table_ok sp rows" and "check_proposed sp r = None"
  shows "upsert_row sp same set_to r rows = Inr rows"
proof -
  have f: "set_to r x = x" if "x \<in> set rows" "same r x" for x
    using assms(1) that by (simp add: settled_def list_all_iff)
  then have "upd (same r) (set_to r) rows = rows" unfolding upd_def by (simp add: map_idI)
  moreover have "list_all (row_ok sp) (map (set_to r) (filter (same r) rows))"
    using f assms(2) by (auto simp: table_ok_def list_all_iff)
  ultimately have "update_rows sp (same r) (set_to r) rows = Inr (map (set_to r) (filter (same r) rows), rows)"
    using assms(2) by (simp add: update_rows_Inr table_ok_def)
  with assms(1,3) show ?thesis by (simp add: upsert_row_def settled_def)
qed

lemma upsert_rows_table_ok:
  "upsert_rows sp same set_to rs rows = Inr rows' \<Longrightarrow> table_ok sp rows \<Longrightarrow> table_ok sp rows'"
  unfolding upsert_rows_def
  by (induction rs arbitrary: rows) (auto simp: bind_r_Inr intro: upsert_row_table_ok)

lemma upsert_rows_keep_settled:
  "upsert_rows sp same set_to rs rows = Inr rows' \<Longrightarrow> settled r rows \<Longrightarrow> \<forall>s \<in> set rs. \<not> same r s \<Longrightarrow>
     settled r rows'"
  unfolding upsert_rows_def
  by (induction rs arbitrary: rows) (auto simp: bind_r_Inr dest: upsert_row_keeps_settled)

lemma upsert_rows_settle:
  assumes "upsert_rows sp same set_to rs rows = Inr rows'" and "sorted_wrt (\<lambda>a b. \<not> same a b) rs"
    and "r \<in> set rs"
  shows "settled r rows' \<and> check_proposed sp r = None"
  using assms
proof (induction rs arbitrary: rows)
  case (Cons s rs)
  from Cons.prems(1) obtain rows1 where u: "upsert_row sp same set_to s rows = Inr rows1"
    "upsert_rows sp same set_to rs rows1 = Inr rows'"
    by (auto simp: upsert_rows_def bind_r_Inr)
  show ?case
  proof (cases "r = s")
    case True
    with upsert_rows_keep_settled [OF u(2) upsert_row_settles [OF u(1)]] Cons.prems(2)
      upsert_row_checked [OF u(1)] show ?thesis by simp
  next
    case False
    with Cons.IH [OF u(2)] Cons.prems(2,3) show ?thesis by simp
  qed
qed simp

text \<open>A second statement that proposes the same data, under whatever ids, changes nothing.\<close>

lemma upsert_rows_again:
  assumes "\<forall>r \<in> set rs. settled r rows \<and> check_proposed sp r = None" and "table_ok sp rows"
  shows "upsert_rows sp same set_to rs rows = Inr rows"
  using assms unfolding upsert_rows_def by (induction rs) (simp_all add: upsert_row_again)

text \<open>Rows whose target is not stored yet are inserted.\<close>

lemma upsert_rows_new:
  assumes "list_all (row_ok sp) rs" and "conflict_free (uniques sp) (rows @ rs)"
    and "sorted_wrt (\<lambda>a b. \<not> same b a) (rows @ rs)"
  shows "upsert_rows sp same set_to rs rows = Inr (rows @ rs)"
  using assms
proof (induction rs arbitrary: rows)
  case Nil
  then show ?case by (simp add: upsert_rows_def)
next
  case (Cons r rs)
  have ok: "row_ok sp r" using Cons.prems(1) by simp
  then have "check_proposed sp r = None" by (simp add: check_proposed_None row_ok_def)
  moreover have "\<not> list_ex (same r) rows"
    using Cons.prems(3) by (auto simp: sorted_wrt_append list_ex_iff)
  moreover have "conflict (uniques sp) r rows = None"
    using Cons.prems(2) symmetric
    by (fastforce simp: conflict_free_def sorted_wrt_append conflict_None sym_uniques_def list_all_iff)
  ultimately have "upsert_row sp same set_to r rows = Inr (rows @ [r])"
    using ok by (simp add: upsert_row_def insert_row_Inr)
  with Cons.IH [of "rows @ [r]"] Cons.prems show ?case by (simp add: upsert_rows_def)
qed

text \<open>Stored rows stay in place with every column that the SET clause does not write.\<close>

lemma upsert_rows_keep:
  assumes "upsert_rows sp same set_to rs rows = Inr rows'" and "\<And>r x. g (set_to r x) = g x"
  shows "\<exists>new. map g rows' = map g rows @ map g new \<and> set new \<subseteq> set rs"
  using assms(1)
proof (induction rs arbitrary: rows)
  case Nil
  then have "rows' = rows" by (simp add: upsert_rows_def)
  then show ?case by (intro exI [of _ "[]"]) simp
next
  case (Cons s rs)
  from Cons.prems obtain rows1 where u: "upsert_row sp same set_to s rows = Inr rows1"
    "upsert_rows sp same set_to rs rows1 = Inr rows'"
    by (auto simp: upsert_rows_def bind_r_Inr)
  from Cons.IH [OF u(2)] obtain new where n: "map g rows' = map g rows1 @ map g new" "set new \<subseteq> set rs" by blast
  from upsert_row_cases [OF u(1)] show ?case
  proof
    assume "list_ex (same s) rows \<and> rows1 = upd (same s) (set_to s) rows"
    with n show ?case by (intro exI [of _ new]) (auto simp: map_upd assms(2))
  next
    assume "\<not> list_ex (same s) rows \<and> rows1 = rows @ [s]"
    with n show ?case by (intro exI [of _ "s # new"]) auto
  qed
qed

lemma upsert_rows_keys:
  assumes "upsert_rows sp same set_to rs rows = Inr rows'" and "\<And>r x. g (set_to r x) = g x"
  shows "g ` set rows' \<subseteq> g ` set rows \<union> g ` set rs"
proof -
  obtain new where new: "map g rows' = map g rows @ map g new" "set new \<subseteq> set rs"
    using upsert_rows_keep [OF assms] by blast
  have "set (map g rows') = set (map g rows @ map g new)" using new(1) by (rule arg_cong)
  with new(2) show ?thesis by auto
qed

end

end
