(* ===== verification/Seeding.thy ===== *)
theory Seeding
  imports Seeds
begin

text \<open>
  What a run of \<^verbatim>\<open>app/seeds.py\<close> leaves behind, and that it can be repeated: every step
  establishes its part of \<open>seeded\<close>, and finds nothing to change where that part holds already.
\<close>

section \<open>Ids and results\<close>

definition fresh_ids :: "db \<Rightarrow> nat \<Rightarrow> uuid list" where
  "fresh_ids d n = map (uuid_seq d) [uuid_pos d ..< uuid_pos d + n]"

lemma length_fresh_ids [simp]: "length (fresh_ids d n) = n"
  by (simp add: fresh_ids_def)

lemma with_ids_eq:
  "with_ids row xs d = (map2 row xs (fresh_ids d (length xs)), d\<lparr>uuid_pos := uuid_pos d + length xs\<rparr>)"
proof (induction xs arbitrary: d)
  case (Cons x xs)
  show ?case using Cons [of "d\<lparr>uuid_pos := Suc (uuid_pos d)\<rparr>"]
    by (simp add: gen_random_uuid_def fresh_ids_def upt_conv_Cons del: upt_Suc)
qed (simp add: fresh_ids_def)

lemma map2_keys:
  "length is = length xs \<Longrightarrow> (\<And>x i. k (row x i) = c x) \<Longrightarrow> map k (map2 row xs is) = map c xs"
  by (induction xs "is" rule: list_induct2') auto

lemma map2_covers:
  assumes "length is = length xs" and "x \<in> set xs"
  obtains i where "row x i \<in> set (map2 row xs is)"
proof -
  have "\<exists>i. row x i \<in> set (map2 row xs is)"
    using assms by (induction xs "is" rule: list_induct2') auto
  with that show ?thesis by blast
qed

lemma distinct_keys_sorted: "distinct (map k rs) \<Longrightarrow> sorted_wrt (\<lambda>a b. k b \<noteq> k a) rs"
  by (simp add: distinct_conv_nth sorted_wrt_iff_nth_less)

lemma table_ok_more:
  "table_ok sp rows \<Longrightarrow> (\<And>r. row_ok sp r \<Longrightarrow> row_ok sp' r) \<Longrightarrow> uniques sp' = uniques sp \<Longrightarrow>
     table_ok sp' rows"
  by (auto simp: table_ok_def list_all_iff)

section \<open>Products\<close>

interpretation product_upsert: upsertion product_spec "\<lambda>r x. pr_sku x = pr_sku r" set_product
  by unfold_locales (auto simp: set_product_def sym_uniques_def product_spec_def)

definition products_seeded :: "product_row list \<Rightarrow> bool" where
  "products_seeded rows \<longleftrightarrow> list_all (\<lambda>(sku, name, price).
     list_ex (\<lambda>r. pr_sku r = sku \<and> pr_name r = name \<and> pr_unit_price_minor r = price \<and> pr_currency r = EUR)
       rows) PRODUCTS"

definition product_ids :: "product_row list \<Rightarrow> string \<rightharpoonup> uuid" where
  "product_ids rows = map_of (rev (map (\<lambda>r. (pr_sku r, pr_id r)) rows))"

lemma seed_product_simps [simp]:
  "pr_sku (seed_product t x i) = fst x" "pr_id (seed_product t x i) = i"
  by (simp_all add: seed_product_def split: prod.splits)

lemma set_product_same:
  "set_product new x = x \<longleftrightarrow> pr_name x = pr_name new \<and> pr_unit_price_minor x = pr_unit_price_minor new \<and>
     pr_currency x = pr_currency new"
  by (cases x) (auto simp: set_product_def)

lemma seed_products_Inr:
  assumes "seed_products d = Inr (pids, d')" and "table_ok product_spec (products d)"
  shows "\<exists>rows. d' = d\<lparr>uuid_pos := uuid_pos d + 5, products := rows\<rparr> \<and> pids = product_ids rows \<and>
    table_ok product_spec rows \<and> products_seeded rows \<and> (\<exists>new. map pr_id rows = map pr_id (products d) @ new)"
proof -
  let ?rs = "map2 (seed_product (db_now d)) PRODUCTS (fresh_ids d 5)"
  have five: "length PRODUCTS = 5" by (simp add: PRODUCTS_def)
  from assms(1) obtain rows where
    up: "upsert_rows product_spec (\<lambda>r x. pr_sku x = pr_sku r) set_product ?rs (products d) = Inr rows"
    and d': "d' = d\<lparr>uuid_pos := uuid_pos d + 5, products := rows\<rparr>" "pids = product_ids rows"
    by (auto simp: seed_products_def with_ids_eq five bind_r_Inr product_ids_def)
  have "map pr_sku ?rs = map fst PRODUCTS" by (rule map2_keys) (simp_all add: five)
  moreover have "distinct (map fst PRODUCTS)" by (simp add: PRODUCTS_def)
  ultimately have d: "sorted_wrt (\<lambda>a b. pr_sku b \<noteq> pr_sku a) ?rs" by (intro distinct_keys_sorted) simp
  have "products_seeded rows"
    unfolding products_seeded_def list_all_iff
  proof
    fix x assume x: "x \<in> set PRODUCTS"
    obtain i where "seed_product (db_now d) x i \<in> set ?rs"
      by (rule map2_covers [OF _ x, of "fresh_ids d 5" "seed_product (db_now d)"]) (simp_all add: five)
    from product_upsert.upsert_rows_settle [OF up d this]
    obtain r where "r \<in> set rows" "pr_sku r = fst x" "set_product (seed_product (db_now d) x i) r = r"
      by (auto elim: product_upsert.settledE)
    then show "case x of (sku, name, price) \<Rightarrow>
        list_ex (\<lambda>r. pr_sku r = sku \<and> pr_name r = name \<and> pr_unit_price_minor r = price \<and> pr_currency r = EUR) rows"
      by (auto simp: list_ex_iff set_product_same seed_product_def split: prod.splits intro!: bexI [of _ r])
  qed
  moreover obtain new where "map pr_id rows = map pr_id (products d) @ new"
    using product_upsert.upsert_rows_keep [OF up, of pr_id] by (auto simp: set_product_def)
  ultimately show ?thesis using product_upsert.upsert_rows_table_ok [OF up assms(2)] d' by blast
qed

lemma products_seeded_again:
  assumes "products_seeded (products d)" and "table_ok product_spec (products d)"
  shows "seed_products d = Inr (product_ids (products d), d\<lparr>uuid_pos := uuid_pos d + 5\<rparr>)"
proof -
  let ?rs = "map2 (seed_product (db_now d)) PRODUCTS (fresh_ids d 5)"
  have five: "length PRODUCTS = 5" by (simp add: PRODUCTS_def)
  have skus: "distinct (map pr_sku (products d))"
    by (rule table_ok_distinct [OF assms(2), where n = "''uq_products_sku''"]) (simp add: product_spec_def)
  have "product_upsert.settled r (products d) \<and> check_proposed product_spec r = None" if r: "r \<in> set ?rs" for r
  proof -
    from r obtain x i where x: "x \<in> set PRODUCTS" "r = seed_product (db_now d) x i"
      by (auto dest: set_zip_leftD)
    obtain sku name price where t: "x = (sku, name, price)" by (cases x)
    from assms(1) x(1) t obtain p where p: "p \<in> set (products d)" "pr_sku p = sku" "pr_name p = name"
      "pr_unit_price_minor p = price" "pr_currency p = EUR"
      by (auto simp: products_seeded_def list_all_iff list_ex_iff)
    have "product_upsert.settled r (products d)"
    proof (rule product_upsert.settledI [OF p(1)])
      show "pr_sku p = pr_sku r" using p x t by simp
      show "set_product r p = p" using p(2-) x(2) t by (simp add: set_product_same seed_product_def)
      show "\<forall>y \<in> set (products d). pr_sku y = pr_sku r \<longrightarrow> y = p"
        using distinct_key_unique [OF skus _ p(1)] p(2) x(2) t by simp
    qed
    moreover have "check_proposed product_spec r = None"
      using x(1) unfolding check_proposed_None x(2) by (auto simp: PRODUCTS_def seed_product_def product_spec_def
          fits_int8_def currency_format_def upper_ascii_def EUR_def)
    ultimately show ?thesis ..
  qed
  then have "upsert_rows product_spec (\<lambda>r x. pr_sku x = pr_sku r) set_product ?rs (products d) = Inr (products d)"
    by (intro product_upsert.upsert_rows_again assms(2)) blast
  then show ?thesis by (simp add: seed_products_def with_ids_eq five product_ids_def)
qed

section \<open>Warehouses\<close>

interpretation warehouse_upsert: upsertion warehouse_spec "\<lambda>r x. wh_code x = wh_code r" set_warehouse
  by unfold_locales (auto simp: set_warehouse_def sym_uniques_def warehouse_spec_def)

definition warehouses_seeded :: "warehouse_row list \<Rightarrow> bool" where
  "warehouses_seeded rows \<longleftrightarrow> list_all (\<lambda>(code, name, lon', lat').
     list_ex (\<lambda>r. wh_code r = code \<and> wh_name r = name \<and> wh_location r = (lon', lat')) rows) WAREHOUSES"

definition warehouse_ids :: "warehouse_row list \<Rightarrow> string \<rightharpoonup> uuid" where
  "warehouse_ids rows = map_of (rev (map (\<lambda>r. (wh_code r, wh_id r)) rows))"

lemma seed_warehouse_simps [simp]:
  "wh_code (seed_warehouse t x i) = fst x" "wh_id (seed_warehouse t x i) = i"
  by (simp_all add: seed_warehouse_def split: prod.splits)

lemma set_warehouse_same:
  "set_warehouse new x = x \<longleftrightarrow> wh_name x = wh_name new \<and> wh_location x = wh_location new"
  by (cases x) (auto simp: set_warehouse_def)

lemma warehouse_values_eq: "warehouse_values = Inr WAREHOUSES"
  by (simp add: warehouse_values_def WAREHOUSES_def to_point_def)

lemma seed_warehouses_Inr:
  assumes "seed_warehouses d = Inr (wids, d')" and "table_ok warehouse_spec (warehouses d)"
  shows "\<exists>rows. d' = d\<lparr>uuid_pos := uuid_pos d + 4, warehouses := rows\<rparr> \<and> wids = warehouse_ids rows \<and>
    table_ok warehouse_spec rows \<and> warehouses_seeded rows \<and>
    (\<exists>new. map wh_id rows = map wh_id (warehouses d) @ new)"
proof -
  let ?rs = "map2 (seed_warehouse (db_now d)) WAREHOUSES (fresh_ids d 4)"
  have four: "length WAREHOUSES = 4" by (simp add: WAREHOUSES_def)
  from assms(1) obtain rows where
    up: "upsert_rows warehouse_spec (\<lambda>r x. wh_code x = wh_code r) set_warehouse ?rs (warehouses d) = Inr rows"
    and d': "d' = d\<lparr>uuid_pos := uuid_pos d + 4, warehouses := rows\<rparr>" "wids = warehouse_ids rows"
    by (auto simp: seed_warehouses_def warehouse_values_eq with_ids_eq four bind_r_Inr warehouse_ids_def)
  have "map wh_code ?rs = map fst WAREHOUSES" by (rule map2_keys) (simp_all add: four)
  moreover have "distinct (map fst WAREHOUSES)" by (simp add: WAREHOUSES_def)
  ultimately have d: "sorted_wrt (\<lambda>a b. wh_code b \<noteq> wh_code a) ?rs" by (intro distinct_keys_sorted) simp
  have "warehouses_seeded rows"
    unfolding warehouses_seeded_def list_all_iff
  proof
    fix x assume x: "x \<in> set WAREHOUSES"
    obtain i where "seed_warehouse (db_now d) x i \<in> set ?rs"
      by (rule map2_covers [OF _ x, of "fresh_ids d 4" "seed_warehouse (db_now d)"]) (simp_all add: four)
    from warehouse_upsert.upsert_rows_settle [OF up d this]
    obtain r where "r \<in> set rows" "wh_code r = fst x"
      "set_warehouse (seed_warehouse (db_now d) x i) r = r"
      by (auto elim: warehouse_upsert.settledE)
    then show "case x of (code, name, lon', lat') \<Rightarrow>
        list_ex (\<lambda>r. wh_code r = code \<and> wh_name r = name \<and> wh_location r = (lon', lat')) rows"
      by (auto simp: list_ex_iff set_warehouse_same seed_warehouse_def split: prod.splits intro!: bexI [of _ r])
  qed
  moreover obtain new where "map wh_id rows = map wh_id (warehouses d) @ new"
    using warehouse_upsert.upsert_rows_keep [OF up, of wh_id] by (auto simp: set_warehouse_def)
  ultimately show ?thesis using warehouse_upsert.upsert_rows_table_ok [OF up assms(2)] d' by blast
qed

lemma warehouses_seeded_again:
  assumes "warehouses_seeded (warehouses d)" and "table_ok warehouse_spec (warehouses d)"
  shows "seed_warehouses d = Inr (warehouse_ids (warehouses d), d\<lparr>uuid_pos := uuid_pos d + 4\<rparr>)"
proof -
  let ?rs = "map2 (seed_warehouse (db_now d)) WAREHOUSES (fresh_ids d 4)"
  have four: "length WAREHOUSES = 4" by (simp add: WAREHOUSES_def)
  have codes: "distinct (map wh_code (warehouses d))"
    by (rule table_ok_distinct [OF assms(2), where n = "''uq_warehouses_code''"]) (simp add: warehouse_spec_def)
  have "warehouse_upsert.settled r (warehouses d) \<and> check_proposed warehouse_spec r = None"
    if r: "r \<in> set ?rs" for r
  proof -
    from r obtain x i where x: "x \<in> set WAREHOUSES" "r = seed_warehouse (db_now d) x i"
      by (auto dest: set_zip_leftD)
    obtain code name lo la where t: "x = (code, name, lo, la)" by (cases x)
    from assms(1) x(1) t obtain p where p: "p \<in> set (warehouses d)" "wh_code p = code" "wh_name p = name"
      "wh_location p = (lo, la)"
      by (auto simp: warehouses_seeded_def list_all_iff list_ex_iff)
    have "warehouse_upsert.settled r (warehouses d)"
    proof (rule warehouse_upsert.settledI [OF p(1)])
      show "wh_code p = wh_code r" using p x t by simp
      show "set_warehouse r p = p" using p(2-) x(2) t by (simp add: set_warehouse_same seed_warehouse_def)
      show "\<forall>y \<in> set (warehouses d). wh_code y = wh_code r \<longrightarrow> y = p"
        using distinct_key_unique [OF codes _ p(1)] p(2) x(2) t by simp
    qed
    moreover have "check_proposed warehouse_spec r = None"
      by (simp add: check_proposed_None warehouse_spec_def)
    ultimately show ?thesis ..
  qed
  then have "upsert_rows warehouse_spec (\<lambda>r x. wh_code x = wh_code r) set_warehouse ?rs (warehouses d) =
      Inr (warehouses d)"
    by (intro warehouse_upsert.upsert_rows_again assms(2)) blast
  then show ?thesis by (simp add: seed_warehouses_def warehouse_values_eq with_ids_eq four warehouse_ids_def)
qed


section \<open>Inventory\<close>

interpretation stock_upsert: upsertion "inventory_spec d" "\<lambda>r x. inv_key x = inv_key r" set_stock for d
  by unfold_locales (auto simp: set_stock_def sym_uniques_def inventory_spec_def)

definition stock_seeded :: "(string \<rightharpoonup> uuid) \<Rightarrow> (string \<rightharpoonup> uuid) \<Rightarrow> inventory_row list \<Rightarrow> bool" where
  "stock_seeded pids wids rows \<longleftrightarrow> list_all (\<lambda>(code, sku, n, _).
     case (wids code, pids sku) of
       (Some w, Some p) \<Rightarrow> list_ex (\<lambda>i. inv_key i = (w, p) \<and> on_hand i = n) rows
     | _ \<Rightarrow> False) INVENTORY"

definition names_ids :: "(string \<rightharpoonup> uuid) \<Rightarrow> bool" where
  "names_ids ids \<longleftrightarrow> (\<forall>s s' i. ids s = Some i \<and> ids s' = Some i \<longrightarrow> s = s')"

lemma map_of_names_ids:
  assumes "distinct (map key rows)"
  shows "names_ids (map_of (rev (map (\<lambda>r. (name r, key r)) rows)))"
proof -
  have "s = s'" if s: "map_of (rev (map (\<lambda>r. (name r, key r)) rows)) s = Some i"
    "map_of (rev (map (\<lambda>r. (name r, key r)) rows)) s' = Some i" for s s' i
  proof -
    from map_of_SomeD [OF s(1)] map_of_SomeD [OF s(2)] obtain r r' where
      "r \<in> set rows" "name r = s" "key r = i" "r' \<in> set rows" "name r' = s'" "key r' = i" by auto
    with distinct_key_unique [OF assms, of r r'] show ?thesis by simp
  qed
  then show ?thesis by (auto simp: names_ids_def)
qed

lemma product_names_ids: "table_ok product_spec rows \<Longrightarrow> names_ids (product_ids rows)"
  unfolding product_ids_def
  by (intro map_of_names_ids, erule table_ok_distinct [where n = "''pk_products''"]) (simp add: product_spec_def)

lemma warehouse_names_ids: "table_ok warehouse_spec rows \<Longrightarrow> names_ids (warehouse_ids rows)"
  unfolding warehouse_ids_def
  by (intro map_of_names_ids, erule table_ok_distinct [where n = "''pk_warehouses''"]) (simp add: warehouse_spec_def)

abbreviation named :: "(string \<rightharpoonup> uuid) \<Rightarrow> (string \<rightharpoonup> uuid) \<Rightarrow> string \<times> string \<times> int \<times> int \<Rightarrow>
    uuid \<times> uuid \<times> int \<times> int \<Rightarrow> bool" where
  "named pids wids x v \<equiv> (case (x, v) of ((code, sku, n, res), (w, p, n', res')) \<Rightarrow>
     wids code = Some w \<and> pids sku = Some p \<and> n' = n \<and> res' = res)"

lemma inventory_values_Inr:
  "inventory_values pids wids = Inr vs \<longleftrightarrow> list_all2 (named pids wids) INVENTORY vs"
proof -
  have one: "bind_r (the_id wids code) (\<lambda>w. bind_r (the_id pids sku) (\<lambda>p. Inr (w, p, n, res))) = Inr v \<longleftrightarrow>
      named pids wids (code, sku, n, res) v" for code sku n res v
    by (cases v) (auto simp: the_id_def bind_r_Inr split: option.splits)
  have "(case x of (code, sku, n, res) \<Rightarrow>
      bind_r (the_id wids code) (\<lambda>w. bind_r (the_id pids sku) (\<lambda>p. Inr (w, p, n, res)))) = Inr v \<longleftrightarrow>
      named pids wids x v" for x v
    using one by (cases x) simp
  then show ?thesis unfolding inventory_values_def map_r_Inr list_all2_conv_all_nth by (simp only:)
qed

lemma list_all2_distinct:
  assumes "list_all2 R xs ys" and "distinct (map f xs)"
    and "\<And>x x' y y'. R x y \<Longrightarrow> R x' y' \<Longrightarrow> g y = g y' \<Longrightarrow> f x = f x'"
  shows "distinct (map g ys)"
  using assms(1,2)
proof (induction rule: list_all2_induct)
  case (Cons x xs y ys)
  have "g y \<noteq> g y'" if y': "y' \<in> set ys" for y'
  proof
    assume eq: "g y = g y'"
    from y' obtain j where "j < length ys" "y' = ys ! j" by (auto simp: in_set_conv_nth)
    with Cons.hyps(2) have "xs ! j \<in> set xs" "R (xs ! j) y'" by (auto simp: list_all2_conv_all_nth)
    then obtain x' where "x' \<in> set xs" "R x' y'" by blast
    with assms(3) [OF Cons.hyps(1) _ eq] Cons.prems show False by (auto simp: image_iff)
  qed
  then show ?case using Cons by (auto simp: image_iff)
qed simp

lemma named_keys_distinct:
  assumes "list_all2 (named pids wids) INVENTORY vs" and "names_ids pids" and "names_ids wids"
  shows "distinct (map (\<lambda>(w, p, n, res). (w, p)) vs)"
proof (rule list_all2_distinct [OF assms(1), where f = "\<lambda>(code, sku, n, res). (code, sku)"])
  show "distinct (map (\<lambda>(code, sku, n, res). (code, sku)) INVENTORY)" by (simp add: INVENTORY_def)
next
  fix x x' y y'
  assume "named pids wids x y" "named pids wids x' y'"
    "(case y of (w, p, n, res) \<Rightarrow> (w, p)) = (case y' of (w, p, n, res) \<Rightarrow> (w, p))"
  then show "(case x of (code, sku, n, res) \<Rightarrow> (code, sku)) = (case x' of (code, sku, n, res) \<Rightarrow> (code, sku))"
    using assms(2,3) by (auto simp: names_ids_def split: prod.splits)
qed

lemma seed_stock_simps [simp]:
  "inv_key (seed_stock t v i) = (fst v, fst (snd v))" "inv_id (seed_stock t v i) = i"
  "on_hand (seed_stock t v i) = fst (snd (snd v))" "reserved (seed_stock t v i) = snd (snd (snd v))"
  by (simp_all add: seed_stock_def split: prod.splits)

lemma set_stock_same: "set_stock new x = x \<longleftrightarrow> on_hand x = on_hand new"
  by (cases x) (auto simp: set_stock_def)

lemma seed_inventory_Inr:
  assumes "seed_inventory pids wids d = Inr d'" and ok: "table_ok (inventory_spec d) (inventory d)"
    and inj: "names_ids pids" "names_ids wids"
  shows "\<exists>rows. d' = d\<lparr>uuid_pos := uuid_pos d + 14, inventory := rows\<rparr> \<and>
    table_ok (inventory_spec d) rows \<and> stock_seeded pids wids rows \<and> reserved_kept (inventory d) rows"
proof -
  from assms(1) obtain vs where vs: "list_all2 (named pids wids) INVENTORY vs"
    and rest: "(let (rs, d1) = with_ids (seed_stock (db_now d)) vs d in
      bind_r (upsert_rows (inventory_spec d1) (\<lambda>r x. inv_key x = inv_key r) set_stock rs (inventory d1)) (\<lambda>rows.
      Inr (d1\<lparr>inventory := rows\<rparr>))) = Inr d'"
    by (auto simp: seed_inventory_def bind_r_Inr inventory_values_Inr)
  have n: "length vs = 14" using list_all2_lengthD [OF vs] by (simp add: INVENTORY_def)
  let ?rs = "map2 (seed_stock (db_now d)) vs (fresh_ids d 14)"
  from rest n obtain rows where
    up: "upsert_rows (inventory_spec d) (\<lambda>r x. inv_key x = inv_key r) set_stock ?rs (inventory d) = Inr rows"
    and d': "d' = d\<lparr>uuid_pos := uuid_pos d + 14, inventory := rows\<rparr>"
    by (auto simp: with_ids_eq bind_r_Inr)
  have "map inv_key ?rs = map (\<lambda>(w, p, n, res). (w, p)) vs"
    by (rule map2_keys) (simp_all add: n split: prod.splits)
  then have d: "sorted_wrt (\<lambda>a b. inv_key b \<noteq> inv_key a) ?rs"
    using named_keys_distinct [OF vs inj] by (intro distinct_keys_sorted) simp
  have "stock_seeded pids wids rows"
    unfolding stock_seeded_def list_all_iff
  proof
    fix x assume "x \<in> set INVENTORY"
    then obtain j where "j < length vs" "x = INVENTORY ! j"
      using list_all2_lengthD [OF vs] by (auto simp: in_set_conv_nth)
    with vs have v: "vs ! j \<in> set vs" "named pids wids x (vs ! j)" by (auto simp: list_all2_conv_all_nth)
    obtain i where "seed_stock (db_now d) (vs ! j) i \<in> set ?rs"
      by (rule map2_covers [OF _ v(1), of "fresh_ids d 14" "seed_stock (db_now d)"]) (simp_all add: n)
    from stock_upsert.settledE [OF conjunct1 [OF stock_upsert.upsert_rows_settle [OF up d this]]]
    obtain r where "r \<in> set rows" "inv_key r = (fst (vs ! j), fst (snd (vs ! j)))"
      "on_hand r = fst (snd (snd (vs ! j)))"
      by (metis seed_stock_simps(1,3) set_stock_same)
    with v(2) show "case x of (code, sku, n, _) \<Rightarrow> (case (wids code, pids sku) of
        (Some w, Some p) \<Rightarrow> list_ex (\<lambda>i. inv_key i = (w, p) \<and> on_hand i = n) rows | _ \<Rightarrow> False)"
      by (auto simp: list_ex_iff split: prod.splits)
  qed
  moreover have "reserved_kept (inventory d) rows"
    unfolding reserved_kept_def
    using stock_upsert.upsert_rows_keep [OF up, of "\<lambda>i. (inv_id i, inv_key i, reserved i)"]
    by (auto simp: set_stock_def)
  ultimately show ?thesis using stock_upsert.upsert_rows_table_ok [OF up ok] d' by blast
qed

lemma INVENTORY_checked:
  "(code, sku, n, res) \<in> set INVENTORY \<Longrightarrow> fits_int4 n \<and> fits_int4 res \<and> 0 \<le> res \<and> res \<le> n"
  by (auto simp: INVENTORY_def fits_int4_def)

lemma stock_seeded_again:
  assumes "stock_seeded pids wids (inventory d)" and ok: "table_ok (inventory_spec d) (inventory d)"
  shows "seed_inventory pids wids d = Inr (d\<lparr>uuid_pos := uuid_pos d + 14\<rparr>)"
proof -
  have "\<exists>v. named pids wids x v" if x: "x \<in> set INVENTORY" for x
  proof -
    obtain code sku m res where t: "x = (code, sku, m, res)" by (cases x)
    with assms(1) x obtain w p where "wids code = Some w" "pids sku = Some p"
      by (fastforce simp: stock_seeded_def list_all_iff split: option.splits)
    then show ?thesis using t by (intro exI [of _ "(w, p, m, res)"]) simp
  qed
  then obtain f where "\<forall>x \<in> set INVENTORY. named pids wids x (f x)" by metis
  then have "list_all2 (named pids wids) INVENTORY (map f INVENTORY)"
    by (auto simp: list_all2_conv_all_nth)
  then obtain vs where vs: "list_all2 (named pids wids) INVENTORY vs" by blast
  have n: "length vs = 14" using list_all2_lengthD [OF vs] by (simp add: INVENTORY_def)
  let ?rs = "map2 (seed_stock (db_now d)) vs (fresh_ids d 14)"
  have "stock_upsert.settled r (inventory d) \<and> check_proposed (inventory_spec d) r = None"
    if r: "r \<in> set ?rs" for r
  proof -
    from r obtain v i where v: "v \<in> set vs" "r = seed_stock (db_now d) v i" by (auto dest: set_zip_leftD)
    then obtain j where "j < length vs" "v = vs ! j" by (auto simp: in_set_conv_nth)
    with vs have x: "INVENTORY ! j \<in> set INVENTORY" "named pids wids (INVENTORY ! j) v"
      by (auto simp: list_all2_conv_all_nth)
    obtain code sku m res where t: "INVENTORY ! j = (code, sku, m, res)" by (cases "INVENTORY ! j")
    with x(2) obtain w p where w: "v = (w, p, m, res)" "wids code = Some w" "pids sku = Some p" by (cases v) auto
    from assms(1) x(1) t w(2,3) obtain y where y: "y \<in> set (inventory d)" "inv_key y = (w, p)" "on_hand y = m"
      by (fastforce simp: stock_seeded_def list_all_iff list_ex_iff)
    have "stock_upsert.settled r (inventory d)"
    proof (rule stock_upsert.settledI [OF y(1)])
      show "inv_key y = inv_key r" using y(2) v(2) w(1) by simp
      show "set_stock r y = y" using y(3) v(2) w(1) by (simp add: set_stock_same)
      show "\<forall>z \<in> set (inventory d). inv_key z = inv_key r \<longrightarrow> z = y"
        using distinct_key_unique [OF inventory_keys_distinct [OF ok] _ y(1)] y(2) v(2) w(1) by simp
    qed
    moreover have "check_proposed (inventory_spec d) r = None"
      using INVENTORY_checked [of code sku m res] x(1) t v(2) w(1)
      by (simp add: check_proposed_None inventory_spec_def)
    ultimately show ?thesis ..
  qed
  then have "upsert_rows (inventory_spec d) (\<lambda>r x. inv_key x = inv_key r) set_stock ?rs (inventory d) =
      Inr (inventory d)"
    by (intro stock_upsert.upsert_rows_again ok) blast
  moreover from vs have "inventory_values pids wids = Inr vs" by (simp add: inventory_values_Inr)
  ultimately show ?thesis by (simp add: seed_inventory_def with_ids_eq n)
qed

section \<open>Customer and addresses\<close>

definition ada :: "customer_row list \<Rightarrow> customer_row option" where
  "ada rows = List.find (\<lambda>c. map lower_char (cu_email c) = CUSTOMER_EMAIL) rows"

definition addresses_seeded :: "customer_row \<Rightarrow> address_row list \<Rightarrow> bool" where
  "addresses_seeded cu rows \<longleftrightarrow> list_all (\<lambda>(line1', _).
     list_ex (\<lambda>a. ad_customer_id a = cu_id cu \<and> ad_line1 a = ustr line1') rows) ADDRESSES"

lemma seed_customer_Inr:
  assumes "seed_customer d = Inr (cu, d')" and "table_ok customer_spec (customers d)"
  shows "\<exists>new n. d' = d\<lparr>uuid_pos := n, customers := customers d @ new\<rparr> \<and>
    table_ok customer_spec (customers d') \<and> ada (customers d') = Some cu"
proof (cases "ada (customers d)")
  case (Some c)
  with assms have "d' = d" "cu = c" by (simp_all add: seed_customer_def ada_def)
  with Some assms(2) show ?thesis by (intro exI [of _ "[]"] exI [of _ "uuid_pos d"]) simp
next
  case None
  let ?c = "\<lparr>cu_id = uuid_seq d (uuid_pos d), cu_email = CUSTOMER_EMAIL, cu_full_name = CUSTOMER_NAME,
    cu_created_at = db_now d, cu_updated_at = db_now d\<rparr>"
  from None assms(1) have ins: "insert_row customer_spec ?c (customers d) = Inr (customers d @ [?c])"
    and d': "cu = ?c" "d' = d\<lparr>uuid_pos := Suc (uuid_pos d), customers := customers d @ [?c]\<rparr>"
    by (auto simp: seed_customer_def ada_def gen_random_uuid_def bind_r_Inr insert_row_Inr Let_def)
  have "table_ok customer_spec (customers d @ [?c])"
    by (rule insert_row_table_ok [OF _ ins assms(2)]) (auto simp: sym_uniques_def customer_spec_def)
  moreover have "map lower_char CUSTOMER_EMAIL = CUSTOMER_EMAIL" by (simp add: CUSTOMER_EMAIL_def lower_char_def)
  ultimately show ?thesis using None d'
    by (intro exI [of _ "[?c]"] exI [of _ "Suc (uuid_pos d)"]) (simp add: ada_def find_append)
qed

lemma seed_address_Inr:
  assumes "seed_address cu x d = Inr d'" and "table_ok (address_spec d) (addresses d)"
  shows "\<exists>new n. d' = d\<lparr>uuid_pos := n, addresses := addresses d @ new\<rparr> \<and>
    table_ok (address_spec d) (addresses d') \<and>
    list_ex (\<lambda>a. ad_customer_id a = cu_id cu \<and> ad_line1 a = ustr (fst x)) (addresses d')"
proof -
  obtain l c p k lo la where x: "x = (l, c, p, k, lo, la)" by (cases x)
  show ?thesis
  proof (cases "list_ex (\<lambda>a. ad_customer_id a = cu_id cu \<and> ad_line1 a = ustr l) (addresses d)")
    case True
    with assms x show ?thesis
      by (intro exI [of _ "[]"] exI [of _ "uuid_pos d"]) (simp add: seed_address_def)
  next
    case False
    with assms(1) x obtain a where ins: "insert_row (address_spec d) a (addresses d) = Inr (addresses d @ [a])"
      and a: "ad_customer_id a = cu_id cu" "ad_line1 a = ustr l"
      and d': "d' = d\<lparr>uuid_pos := Suc (uuid_pos d), addresses := addresses d @ [a]\<rparr>"
      by (auto simp: seed_address_def gen_random_uuid_def bind_r_Inr insert_row_Inr Let_def)
    have "table_ok (address_spec d) (addresses d @ [a])"
      by (rule insert_row_table_ok [OF _ ins assms(2)]) (auto simp: sym_uniques_def address_spec_def)
    with a d' x show ?thesis by (intro exI [of _ "[a]"] exI [of _ "Suc (uuid_pos d)"]) simp
  qed
qed

lemma seed_addresses_loop:
  assumes "fold_r (seed_address cu) xs d = Inr d'" and "table_ok (address_spec d) (addresses d)"
  shows "\<exists>new n. d' = d\<lparr>uuid_pos := n, addresses := addresses d @ new\<rparr> \<and>
    table_ok (address_spec d) (addresses d') \<and>
    list_all (\<lambda>x. list_ex (\<lambda>a. ad_customer_id a = cu_id cu \<and> ad_line1 a = ustr (fst x)) (addresses d')) xs"
  using assms
proof (induction xs arbitrary: d)
  case Nil
  then show ?case by (intro exI [of _ "[]"] exI [of _ "uuid_pos d"]) simp
next
  case (Cons x xs)
  from Cons.prems(1) obtain d1 where d1: "seed_address cu x d = Inr d1" "fold_r (seed_address cu) xs d1 = Inr d'"
    by (auto simp: bind_r_Inr)
  from seed_address_Inr [OF d1(1) Cons.prems(2)] obtain new n where
    one: "d1 = d\<lparr>uuid_pos := n, addresses := addresses d @ new\<rparr>" "table_ok (address_spec d) (addresses d1)"
    "list_ex (\<lambda>a. ad_customer_id a = cu_id cu \<and> ad_line1 a = ustr (fst x)) (addresses d1)" by blast
  have sp: "address_spec d1 = address_spec d" by (simp add: one(1) address_spec_def)
  with Cons.IH [OF d1(2)] one(2) obtain new' m where
    two: "d' = d1\<lparr>uuid_pos := m, addresses := addresses d1 @ new'\<rparr>" "table_ok (address_spec d) (addresses d')"
    "list_all (\<lambda>x. list_ex (\<lambda>a. ad_customer_id a = cu_id cu \<and> ad_line1 a = ustr (fst x)) (addresses d')) xs"
    by auto
  have "d' = d\<lparr>uuid_pos := m, addresses := addresses d @ new @ new'\<rparr>" using one(1) two(1) by simp
  moreover have "list_ex (\<lambda>a. ad_customer_id a = cu_id cu \<and> ad_line1 a = ustr (fst x)) (addresses d')"
    using one(3) two(1) by (simp add: list_ex_append)
  ultimately show ?case using two(2,3) by (intro exI [of _ "new @ new'"] exI [of _ m]) simp
qed

lemma seed_addresses_Inr:
  assumes "seed_addresses cu d = Inr d'" and "table_ok (address_spec d) (addresses d)"
  shows "\<exists>new n. d' = d\<lparr>uuid_pos := n, addresses := addresses d @ new\<rparr> \<and>
    table_ok (address_spec d) (addresses d') \<and> addresses_seeded cu (addresses d')"
  using seed_addresses_loop [OF assms [unfolded seed_addresses_def]]
  by (simp add: addresses_seeded_def case_prod_unfold)

lemma addresses_seeded_again: "addresses_seeded cu (addresses d) \<Longrightarrow> seed_addresses cu d = Inr d"
  by (simp add: seed_addresses_def addresses_seeded_def ADDRESSES_def seed_address_def)

section \<open>The whole script\<close>

definition seeded :: "db \<Rightarrow> bool" where
  "seeded d \<longleftrightarrow> products_seeded (products d) \<and> warehouses_seeded (warehouses d) \<and>
     stock_seeded (product_ids (products d)) (warehouse_ids (warehouses d)) (inventory d) \<and>
     (case ada (customers d) of Some cu \<Rightarrow> addresses_seeded cu (addresses d) | None \<Rightarrow> False)"

lemma seeded_again:
  assumes "seeded d" and "db_ok d"
  shows "seed_main d = (Inr (), d\<lparr>uuid_pos := uuid_pos d + 23\<rparr>)"
proof -
  note ok = assms(2) [unfolded db_ok_def]
  from assms(1) obtain cu where s: "products_seeded (products d)" "warehouses_seeded (warehouses d)"
    "stock_seeded (product_ids (products d)) (warehouse_ids (warehouses d)) (inventory d)"
    and cu: "ada (customers d) = Some cu" "addresses_seeded cu (addresses d)"
    by (auto simp: seeded_def split: option.splits)
  let ?d = "\<lambda>n. d\<lparr>uuid_pos := n\<rparr>"
  have "seed_products d = Inr (product_ids (products d), ?d (uuid_pos d + 5))"
    using products_seeded_again s(1) ok by simp
  moreover have "seed_warehouses (?d n) = Inr (warehouse_ids (warehouses d), ?d (n + 4))" for n
    using warehouses_seeded_again [of "?d n"] s(2) ok by simp
  moreover have "seed_inventory (product_ids (products d)) (warehouse_ids (warehouses d)) (?d n) = Inr (?d (n + 14))" for n
    using stock_seeded_again [of _ _ "?d n"] s(3) ok by simp
  moreover have "seed_customer (?d n) = Inr (cu, ?d n)" for n
    using cu(1) by (simp add: seed_customer_def ada_def)
  moreover have "seed_addresses cu (?d n) = Inr (?d n)" for n
    using addresses_seeded_again [of cu "?d n"] cu(2) by simp
  ultimately have "seed_transaction d = Inr ((), ?d (uuid_pos d + 23))"
    by (simp add: seed_transaction_def no_result_def add.assoc)
  then show ?thesis by (simp add: seed_main_def in_transaction_def)
qed

section \<open>The ids the script draws\<close>

text \<open>Between two databases of a transaction: the ids used since were drawn since.\<close>

definition draws :: "db \<Rightarrow> db \<Rightarrow> bool" where
  "draws d d' \<longleftrightarrow> uuid_seq d' = uuid_seq d \<and> uuid_pos d \<le> uuid_pos d' \<and>
     used_ids d' \<subseteq> used_ids d \<union> uuid_seq d ` {uuid_pos d ..< uuid_pos d'}"

lemma draws_fresh: "draws d d' \<Longrightarrow> uuids_fresh d \<Longrightarrow> uuids_fresh d'"
  unfolding draws_def by (blast intro: uuids_fresh_step)

lemma draws_refl: "draws d d"
  by (simp add: draws_def)

lemma draws_trans:
  assumes "draws d e" and "draws e f"
  shows "draws d f"
proof -
  have "{uuid_pos d ..< uuid_pos e} \<union> {uuid_pos e ..< uuid_pos f} = {uuid_pos d ..< uuid_pos f}"
    using assms by (simp add: draws_def ivl_disj_un)
  then have "uuid_seq d ` {uuid_pos d ..< uuid_pos f} =
      uuid_seq d ` {uuid_pos d ..< uuid_pos e} \<union> uuid_seq d ` {uuid_pos e ..< uuid_pos f}"
    by (metis image_Un)
  with assms show ?thesis unfolding draws_def by auto
qed

lemma set_fresh_ids: "set (fresh_ids d n) = uuid_seq d ` {uuid_pos d ..< uuid_pos d + n}"
  by (simp add: fresh_ids_def)

lemma map2_ids: "(\<And>x i. k (row x i) = i) \<Longrightarrow> k ` set (map2 row xs is) \<subseteq> set is"
  by (induction xs "is" rule: list_induct2') auto

lemma draws_table:
  assumes "uuid_seq d' = uuid_seq d" "uuid_pos d' = uuid_pos d + n"
    and "used_ids d' \<subseteq> used_ids d \<union> ids" and "old \<subseteq> used_ids d"
    and "ids \<subseteq> old \<union> new" and "new \<subseteq> set (fresh_ids d n)"
  shows "draws d d'"
proof -
  have "used_ids d' \<subseteq> used_ids d \<union> set (fresh_ids d n)" using assms(3-6) by blast
  with assms(1,2) show ?thesis by (simp add: draws_def set_fresh_ids)
qed

lemma seed_products_draws:
  assumes "seed_products d = Inr (pids, d')"
  shows "draws d d'"
proof -
  let ?rs = "map2 (seed_product (db_now d)) PRODUCTS (fresh_ids d (length PRODUCTS))"
  from assms obtain rows where
    up: "upsert_rows product_spec (\<lambda>r x. pr_sku x = pr_sku r) set_product ?rs (products d) = Inr rows"
    and d': "d' = d\<lparr>uuid_pos := uuid_pos d + length PRODUCTS, products := rows\<rparr>"
    by (auto simp: seed_products_def with_ids_eq bind_r_Inr)
  have "pr_id ` set rows \<subseteq> pr_id ` set (products d) \<union> pr_id ` set ?rs"
    by (rule product_upsert.upsert_rows_keys [OF up]) (simp add: set_product_def)
  moreover have "pr_id ` set ?rs \<subseteq> set (fresh_ids d (length PRODUCTS))" by (rule map2_ids) simp
  ultimately show ?thesis by (rule draws_table [rotated 4]) (auto simp: d' used_ids_def)
qed

lemma seed_warehouses_draws:
  assumes "seed_warehouses d = Inr (wids, d')"
  shows "draws d d'"
proof -
  let ?rs = "\<lambda>vs. map2 (seed_warehouse (db_now d)) vs (fresh_ids d (length vs))"
  from assms obtain vs rows where
    up: "upsert_rows warehouse_spec (\<lambda>r x. wh_code x = wh_code r) set_warehouse (?rs vs) (warehouses d) = Inr rows"
    and d': "d' = d\<lparr>uuid_pos := uuid_pos d + length vs, warehouses := rows\<rparr>"
    by (auto simp: seed_warehouses_def with_ids_eq bind_r_Inr)
  have "wh_id ` set rows \<subseteq> wh_id ` set (warehouses d) \<union> wh_id ` set (?rs vs)"
    by (rule warehouse_upsert.upsert_rows_keys [OF up]) (simp add: set_warehouse_def)
  moreover have "wh_id ` set (?rs vs) \<subseteq> set (fresh_ids d (length vs))" by (rule map2_ids) simp
  ultimately show ?thesis by (rule draws_table [rotated 4]) (auto simp: d' used_ids_def)
qed

lemma seed_inventory_draws:
  assumes "seed_inventory pids wids d = Inr d'"
  shows "draws d d'"
proof -
  let ?rs = "\<lambda>vs. map2 (seed_stock (db_now d)) vs (fresh_ids d (length vs))"
  from assms obtain vs rows where
    up: "upsert_rows (inventory_spec d) (\<lambda>r x. inv_key x = inv_key r) set_stock (?rs vs) (inventory d) = Inr rows"
    and d': "d' = d\<lparr>uuid_pos := uuid_pos d + length vs, inventory := rows\<rparr>"
    by (auto simp: seed_inventory_def with_ids_eq bind_r_Inr)
  have "inv_id ` set rows \<subseteq> inv_id ` set (inventory d) \<union> inv_id ` set (?rs vs)"
    by (rule stock_upsert.upsert_rows_keys [OF up]) (simp add: set_stock_def)
  moreover have "inv_id ` set (?rs vs) \<subseteq> set (fresh_ids d (length vs))" by (rule map2_ids) simp
  ultimately show ?thesis by (rule draws_table [rotated 4]) (auto simp: d' used_ids_def)
qed

lemma seed_customer_draws: "seed_customer d = Inr (cu, d') \<Longrightarrow> draws d d'"
  by (auto simp: seed_customer_def gen_random_uuid_def Let_def bind_r_Inr insert_row_Inr draws_def used_ids_def
      split: option.splits)

lemma seed_address_draws: "seed_address cu x d = Inr d' \<Longrightarrow> draws d d'"
  by (auto simp: seed_address_def gen_random_uuid_def Let_def bind_r_Inr insert_row_Inr draws_def used_ids_def
      split: if_splits prod.splits)

lemma seed_addresses_draws: "seed_addresses cu d = Inr d' \<Longrightarrow> draws d d'"
  unfolding seed_addresses_def
  by (erule fold_r_invariant) (auto intro: draws_refl draws_trans seed_address_draws)

lemma seed_transaction_draws:
  assumes "seed_transaction d = Inr ((), d')"
  shows "draws d d'"
proof -
  from assms obtain pids d1 wids d2 d3 cu d4 where s: "seed_products d = Inr (pids, d1)"
    "seed_warehouses d1 = Inr (wids, d2)" "seed_inventory pids wids d2 = Inr d3" "seed_customer d3 = Inr (cu, d4)"
    "seed_addresses cu d4 = Inr d'"
    by (auto simp: seed_transaction_def no_result_def bind_r_Inr)
  show ?thesis
    using draws_trans [OF seed_products_draws [OF s(1)] draws_trans [OF seed_warehouses_draws [OF s(2)]
        draws_trans [OF seed_inventory_draws [OF s(3)] draws_trans [OF seed_customer_draws [OF s(4)]
        seed_addresses_draws [OF s(5)]]]]] .
qed

end
