(* ===== verification/Seed_Properties.thy ===== *)
theory Seed_Properties
  imports Seeding System Stock_Properties Order_Properties Demo
begin

text \<open>
  The properties of \<^verbatim>\<open>app/seeds.py\<close>: what it installs and leaves alone, that it can be run
  again, and that the shop it builds makes the choice of a warehouse interesting.
\<close>

section \<open>The effect of the script\<close>

text \<open>Tables that only gain rows keep every foreign key satisfied.\<close>

definition gains :: "db \<Rightarrow> db \<Rightarrow> bool" where
  "gains d d' \<longleftrightarrow> cu_id ` set (customers d) \<subseteq> cu_id ` set (customers d') \<and>
     pr_id ` set (products d) \<subseteq> pr_id ` set (products d') \<and>
     wh_id ` set (warehouses d) \<subseteq> wh_id ` set (warehouses d') \<and> orders d' = orders d"

lemma gains_specs:
  assumes "gains d d'"
  shows "table_ok (address_spec d) as \<Longrightarrow> table_ok (address_spec d') as"
    and "table_ok (inventory_spec d) iv \<Longrightarrow> table_ok (inventory_spec d') iv"
    and "table_ok (order_spec d) os \<Longrightarrow> table_ok (order_spec d') os"
    and "table_ok (order_item_spec d) ois \<Longrightarrow> table_ok (order_item_spec d') ois"
    and "table_ok (reservation_spec d) srs \<Longrightarrow> table_ok (reservation_spec d') srs"
  using assms unfolding gains_def
  by (erule_tac [!] table_ok_more)
    (auto simp: row_ok_def address_spec_def inventory_spec_def order_spec_def order_item_spec_def
      reservation_spec_def null_or_def split: option.splits)

lemma gains_other_specs:
  "orders d' = orders d \<Longrightarrow> history_spec d' = history_spec d \<and> payment_spec d' = payment_spec d \<and>
     idempotency_spec d' = idempotency_spec d"
  by (simp add: history_spec_def payment_spec_def idempotency_spec_def)

lemma seed_transaction_Inr:
  assumes "seed_transaction d = Inr ((), d')" and ok: "db_ok d"
  shows "only_reference_data d d' \<and> seeded d' \<and> db_ok d' \<and> reserved_kept (inventory d) (inventory d')"
proof -
  note ok' = ok [unfolded db_ok_def]
  from assms(1) obtain pids d1 wids d2 d3 cu d4 where
    s1: "seed_products d = Inr (pids, d1)" and s2: "seed_warehouses d1 = Inr (wids, d2)"
    and s3: "seed_inventory pids wids d2 = Inr d3" and s4: "seed_customer d3 = Inr (cu, d4)"
    and s5: "seed_addresses cu d4 = Inr d'"
    by (auto simp: seed_transaction_def no_result_def bind_r_Inr)
  from seed_products_Inr [OF s1] ok' obtain ps nps where
    p: "d1 = d\<lparr>uuid_pos := uuid_pos d + 5, products := ps\<rparr>" "pids = product_ids ps"
    "table_ok product_spec ps" "products_seeded ps" "map pr_id ps = map pr_id (products d) @ nps" by blast
  have "table_ok warehouse_spec (warehouses d1)" using ok' p(1) by simp
  from seed_warehouses_Inr [OF s2 this] obtain ws nws where
    w: "d2 = d1\<lparr>uuid_pos := uuid_pos d1 + 4, warehouses := ws\<rparr>" "wids = warehouse_ids ws"
    "table_ok warehouse_spec ws" "warehouses_seeded ws" "map wh_id ws = map wh_id (warehouses d1) @ nws" by blast
  have "set (map pr_id (products d)) \<subseteq> set (map pr_id ps)" "set (map wh_id (warehouses d)) \<subseteq> set (map wh_id ws)"
    using p(1,5) w(5) by simp_all
  then have g2: "gains d d2" using p(1) w(1) by (simp add: gains_def)
  then have "table_ok (inventory_spec d2) (inventory d2)" using gains_specs(2) ok' p(1) w(1) by simp
  from seed_inventory_Inr [OF s3 this] obtain iv where
    i: "d3 = d2\<lparr>uuid_pos := uuid_pos d2 + 14, inventory := iv\<rparr>" "table_ok (inventory_spec d2) iv"
    "stock_seeded pids wids iv" "reserved_kept (inventory d2) iv"
    using product_names_ids [OF p(3)] warehouse_names_ids [OF w(3)] p(2) w(2) by blast
  have "table_ok customer_spec (customers d3)" using ok' p(1) w(1) i(1) by simp
  from seed_customer_Inr [OF s4 this] obtain cs n where
    c: "d4 = d3\<lparr>uuid_pos := n, customers := customers d3 @ cs\<rparr>" "table_ok customer_spec (customers d4)"
    "ada (customers d4) = Some cu" by blast
  have g4: "gains d d4" using g2 p(1) w(1) i(1) c(1) by (auto simp: gains_def)
  then have "table_ok (address_spec d4) (addresses d4)" using gains_specs(1) ok' p(1) w(1) i(1) c(1) by simp
  from seed_addresses_Inr [OF s5 this] obtain as m where
    a: "d' = d4\<lparr>uuid_pos := m, addresses := addresses d4 @ as\<rparr>" "table_ok (address_spec d4) (addresses d')"
    "addresses_seeded cu (addresses d')" by blast
  have all: "d' = d\<lparr>customers := customers d @ cs, products := ps, warehouses := ws, addresses := addresses d @ as,
      inventory := iv, uuid_pos := m\<rparr>"
    using p(1) w(1) i(1) c(1) a(1) by simp
  then have "only_reference_data d d'" unfolding only_reference_data_def by blast
  moreover have "seeded d'"
    using all p w i(3) c a(1,3) i(1) by (simp add: seeded_def)
  moreover have "reserved_kept (inventory d) (inventory d')" using i(4) all p(1) w(1) by simp
  moreover have "db_ok d'"
  proof -
    have g: "gains d d'" using g4 a(1) by (simp add: gains_def)
    have sp: "address_spec d' = address_spec d4" "inventory_spec d' = inventory_spec d2"
      using a(1) c(1) i(1) by (simp_all add: address_spec_def inventory_spec_def)
    have f: "products d' = ps" "warehouses d' = ws" "inventory d' = iv" "customers d' = customers d4"
      "orders d' = orders d" "order_items d' = order_items d" "order_status_history d' = order_status_history d"
      "payments d' = payments d" "stock_reservations d' = stock_reservations d"
      "idempotency_keys d' = idempotency_keys d" "outbox d' = outbox d"
      by (simp_all add: a(1) c(1) i(1) w(1) p(1))
    from p(3) w(3) i(2) a(2) c(2) ok' gains_specs(3-5) [OF g] gains_other_specs [of d' d] sp
    show ?thesis unfolding db_ok_def f by simp
  qed
  ultimately show ?thesis by blast
qed

section \<open>The shop the script builds\<close>

definition no_reference_data :: "db \<Rightarrow> bool" where
  "no_reference_data d \<longleftrightarrow> customers d = [] \<and> products d = [] \<and> warehouses d = [] \<and> addresses d = [] \<and>
     inventory d = []"

abbreviation nth_id :: "db \<Rightarrow> nat \<Rightarrow> uuid" where
  "nth_id d k \<equiv> uuid_seq d (uuid_pos d + k)"

definition shop_products :: "db \<Rightarrow> product_row list" where
  "shop_products d = map2 (seed_product (db_now d)) PRODUCTS (map (nth_id d) [0, 1, 2, 3, 4])"

definition shop_warehouses :: "db \<Rightarrow> warehouse_row list" where
  "shop_warehouses d = map2 (seed_warehouse (db_now d)) WAREHOUSES (map (nth_id d) [5, 6, 7, 8])"

definition shop_stock :: "db \<Rightarrow> (uuid \<times> uuid \<times> int \<times> int) list" where
  "shop_stock d = map (\<lambda>(w, p, n, res). (nth_id d w, nth_id d p, n, res))
     [(5, 0, 50, 5), (5, 1, 40, 0), (5, 3, 12, 0), (5, 4, 100, 0), (6, 0, 30, 0), (6, 1, 20, 0), (6, 4, 60, 0),
      (7, 0, 5, 0), (7, 4, 10, 0), (8, 0, 10, 0), (8, 1, 10, 0), (8, 2, 3, 0), (8, 3, 4, 0), (8, 4, 25, 0)]"

definition shop_inventory :: "db \<Rightarrow> inventory_row list" where
  "shop_inventory d = map2 (seed_stock (db_now d)) (shop_stock d)
     (map (nth_id d) [9, 10, 11, 12, 13, 14, 15, 16, 17, 18, 19, 20, 21, 22])"

lemma fresh_ids_shift: "fresh_ids d n = map (nth_id d) [0 ..< n]"
  by (simp add: fresh_ids_def map_add_upt [symmetric] add.commute del: map_add_upt)

lemma upts:
  "[0 ..< 4] = [0, 1, 2, 3 :: nat]" "[0 ..< 5] = [0, 1, 2, 3, 4 :: nat]"
  "[0 ..< 14] = [0, 1, 2, 3, 4, 5, 6, 7, 8, 9, 10, 11, 12, 13 :: nat]"
  by (simp_all add: upt_rec)

lemma shop_products_seeded:
  assumes "inj (uuid_seq d)" and "products d = []"
  shows "seed_products d = Inr (product_ids (shop_products d),
     d\<lparr>uuid_pos := uuid_pos d + 5, products := shop_products d\<rparr>)"
proof -
  have ids: "fresh_ids d 5 = map (nth_id d) [0, 1, 2, 3, 4]" by (simp add: fresh_ids_shift upts)
  have "upsert_rows product_spec (\<lambda>r x. pr_sku x = pr_sku r) set_product (shop_products d) [] = Inr ([] @ shop_products d)"
    by (rule product_upsert.upsert_rows_new)
      (simp_all add: shop_products_def PRODUCTS_def seed_product_def product_spec_def row_ok_def
        conflict_free_def fits_int8_def currency_format_def upper_ascii_def EUR_def inj_eq [OF assms(1)])
  moreover have "length PRODUCTS = 5" by (simp add: PRODUCTS_def)
  ultimately show ?thesis
    by (simp add: seed_products_def with_ids_eq ids shop_products_def product_ids_def assms(2))
qed

lemma shop_warehouses_seeded:
  assumes "inj (uuid_seq d)" and "warehouses d = []" and "uuid_pos d = n + 5"
  shows "seed_warehouses d = Inr (warehouse_ids (shop_warehouses (d\<lparr>uuid_pos := n\<rparr>)),
     d\<lparr>uuid_pos := n + 9, warehouses := shop_warehouses (d\<lparr>uuid_pos := n\<rparr>)\<rparr>)"
proof -
  let ?w = "shop_warehouses (d\<lparr>uuid_pos := n\<rparr>)"
  have ids: "fresh_ids d 4 = map (nth_id (d\<lparr>uuid_pos := n\<rparr>)) [5, 6, 7, 8]"
    by (simp add: fresh_ids_shift upts assms(3) ac_simps)
  have "upsert_rows warehouse_spec (\<lambda>r x. wh_code x = wh_code r) set_warehouse ?w [] = Inr ([] @ ?w)"
    by (rule warehouse_upsert.upsert_rows_new)
      (simp_all add: shop_warehouses_def WAREHOUSES_def seed_warehouse_def warehouse_spec_def row_ok_def
        conflict_free_def inj_eq [OF assms(1)])
  moreover have "length WAREHOUSES = 4" by (simp add: WAREHOUSES_def)
  ultimately show ?thesis
    by (simp add: seed_warehouses_def warehouse_values_eq with_ids_eq ids shop_warehouses_def warehouse_ids_def
        assms(2,3))
qed


lemma shop_stock_seeded:
  assumes "inj (uuid_seq d)" and "inventory d = []" and "uuid_pos d = n + 9"
    and "products d = shop_products (d\<lparr>uuid_pos := n\<rparr>)" and "warehouses d = shop_warehouses (d\<lparr>uuid_pos := n\<rparr>)"
  shows "seed_inventory (product_ids (products d)) (warehouse_ids (warehouses d)) d =
     Inr (d\<lparr>uuid_pos := n + 23, inventory := shop_inventory (d\<lparr>uuid_pos := n\<rparr>)\<rparr>)"
proof -
  let ?i = "shop_inventory (d\<lparr>uuid_pos := n\<rparr>)" and ?s = "shop_stock (d\<lparr>uuid_pos := n\<rparr>)"
  have ids: "fresh_ids d 14 = map (nth_id (d\<lparr>uuid_pos := n\<rparr>)) [9, 10, 11, 12, 13, 14, 15, 16, 17, 18, 19, 20, 21, 22]"
    by (simp add: fresh_ids_shift upts assms(3) ac_simps)
  have p: "product_ids (products d) s = map_of [(''SKU-CABLE'', uuid_seq d (n + 4)), (''SKU-DOCK'', uuid_seq d (n + 3)),
      (''SKU-MON27'', uuid_seq d (n + 2)), (''SKU-MOUSE'', uuid_seq d (n + 1)), (''SKU-KEYB'', uuid_seq d n)] s" for s
    unfolding assms(4) by (simp add: product_ids_def shop_products_def PRODUCTS_def)
  have w: "warehouse_ids (warehouses d) s = map_of [(''SVQ-01'', uuid_seq d (n + 8)), (''VLC-01'', uuid_seq d (n + 7)),
      (''BCN-01'', uuid_seq d (n + 6)), (''MAD-01'', uuid_seq d (n + 5))] s" for s
    unfolding assms(5) by (simp add: warehouse_ids_def shop_warehouses_def WAREHOUSES_def)
  have vs: "inventory_values (product_ids (products d)) (warehouse_ids (warehouses d)) = Inr ?s"
    by (simp add: inventory_values_def INVENTORY_def the_id_def p w shop_stock_def)
  have "upsert_rows (inventory_spec d) (\<lambda>r x. inv_key x = inv_key r) set_stock ?i [] = Inr ([] @ ?i)"
  proof (rule stock_upsert.upsert_rows_new)
    have "wh_id ` set (warehouses d) = {uuid_seq d (n + 5), uuid_seq d (n + 6), uuid_seq d (n + 7), uuid_seq d (n + 8)}"
      unfolding assms(5) by (simp add: shop_warehouses_def WAREHOUSES_def)
    moreover have "pr_id ` set (products d) = {uuid_seq d n, uuid_seq d (n + 1), uuid_seq d (n + 2), uuid_seq d (n + 3), uuid_seq d (n + 4)}"
      unfolding assms(4) by (simp add: shop_products_def PRODUCTS_def)
    ultimately show "list_all (row_ok (inventory_spec d)) ?i"
      by (simp add: inventory_row_ok shop_inventory_def shop_stock_def seed_stock_def fits_int4_def)
    show "conflict_free (uniques (inventory_spec d)) ([] @ ?i)"
      by (simp add: conflict_free_def inventory_spec_def shop_inventory_def shop_stock_def seed_stock_def
          inj_eq [OF assms(1)])
    show "sorted_wrt (\<lambda>a b. inv_key a \<noteq> inv_key b) ([] @ ?i)"
      by (simp add: shop_inventory_def shop_stock_def seed_stock_def inj_eq [OF assms(1)])
  qed
  moreover have "length ?s = 14" by (simp add: shop_stock_def)
  ultimately show ?thesis
    by (simp add: seed_inventory_def vs with_ids_eq ids shop_inventory_def assms(2,3))
qed

definition shop_customer :: "db \<Rightarrow> customer_row" where
  "shop_customer d = \<lparr>cu_id = nth_id d 23, cu_email = CUSTOMER_EMAIL, cu_full_name = CUSTOMER_NAME,
     cu_created_at = db_now d, cu_updated_at = db_now d\<rparr>"

definition shop_address :: "db \<Rightarrow> string \<times> string \<times> string \<times> string \<times> rat \<times> rat \<Rightarrow> uuid \<Rightarrow> address_row" where
  "shop_address d = (\<lambda>(l, c, p, k, pt) i.
     \<lparr>ad_id = i, ad_customer_id = nth_id d 23, ad_line1 = ustr l, ad_line2 = None, ad_city = ustr c,
      ad_postal_code = ustr p, ad_country_code = ustr k, ad_point = Some pt, ad_created_at = db_now d,
      ad_updated_at = db_now d\<rparr>)"

definition seeded_shop :: "db \<Rightarrow> db" where
  "seeded_shop d = d\<lparr>customers := [shop_customer d], products := shop_products d, warehouses := shop_warehouses d,
     addresses := map2 (shop_address d) ADDRESSES [nth_id d 24, nth_id d 25], inventory := shop_inventory d,
     uuid_pos := uuid_pos d + 26\<rparr>"

lemma shop_customer_seeded:
  assumes "customers d = []" and "uuid_pos d = n + 23"
  shows "seed_customer d = Inr (shop_customer (d\<lparr>uuid_pos := n\<rparr>),
     d\<lparr>uuid_pos := n + 24, customers := [shop_customer (d\<lparr>uuid_pos := n\<rparr>)]\<rparr>)"
  using assms
  by (simp add: seed_customer_def gen_random_uuid_def insert_row_def check_row_def violated_def conflict_def
      customer_spec_def shop_customer_def Let_def)

lemma shop_addresses_seeded:
  assumes "inj (uuid_seq d)" and "addresses d = []" and "uuid_pos d = n + 24"
    and "customers d = [shop_customer (d\<lparr>uuid_pos := n\<rparr>)]"
  shows "seed_addresses (shop_customer (d\<lparr>uuid_pos := n\<rparr>)) d = Inr (d\<lparr>uuid_pos := n + 26,
     addresses := map2 (shop_address (d\<lparr>uuid_pos := n\<rparr>)) ADDRESSES [nth_id (d\<lparr>uuid_pos := n\<rparr>) 24, nth_id (d\<lparr>uuid_pos := n\<rparr>) 25]\<rparr>)"
  using assms(2-4)
  by (simp add: seed_addresses_def ADDRESSES_def seed_address_def to_point_def gen_random_uuid_def insert_row_def
      check_row_def violated_def conflict_def address_spec_def shop_customer_def shop_address_def Let_def
      country_code_format_def upper_ascii_def ustr_def inj_eq [OF assms(1)])

lemma seed_main_new_shop:
  assumes "no_reference_data d" and "inj (uuid_seq d)"
  shows "seed_main d = (Inr (), seeded_shop d)"
proof -
  let ?d1 = "d\<lparr>uuid_pos := uuid_pos d + 5, products := shop_products d\<rparr>"
  let ?d2 = "?d1\<lparr>uuid_pos := uuid_pos d + 9, warehouses := shop_warehouses d\<rparr>"
  let ?d3 = "?d2\<lparr>uuid_pos := uuid_pos d + 23, inventory := shop_inventory d\<rparr>"
  let ?d4 = "?d3\<lparr>uuid_pos := uuid_pos d + 24, customers := [shop_customer d]\<rparr>"
  note e = assms(1) [unfolded no_reference_data_def]
  have same: "shop_products (d'\<lparr>uuid_pos := uuid_pos d\<rparr>) = shop_products d"
    "shop_warehouses (d'\<lparr>uuid_pos := uuid_pos d\<rparr>) = shop_warehouses d"
    "shop_inventory (d'\<lparr>uuid_pos := uuid_pos d\<rparr>) = shop_inventory d"
    "shop_customer (d'\<lparr>uuid_pos := uuid_pos d\<rparr>) = shop_customer d"
    "shop_address (d'\<lparr>uuid_pos := uuid_pos d\<rparr>) = shop_address d"
    if "uuid_seq d' = uuid_seq d" "db_now d' = db_now d" for d'
    using that by (simp_all add: shop_products_def shop_warehouses_def shop_inventory_def shop_stock_def
        shop_customer_def shop_address_def)
  have "seed_products d = Inr (product_ids (shop_products d), ?d1)"
    using shop_products_seeded [OF assms(2)] e by simp
  moreover have "seed_warehouses ?d1 = Inr (warehouse_ids (shop_warehouses d), ?d2)"
    using shop_warehouses_seeded [of ?d1 "uuid_pos d"] same [of ?d1] assms(2) e by simp
  moreover have "seed_inventory (product_ids (shop_products d)) (warehouse_ids (shop_warehouses d)) ?d2 = Inr ?d3"
    using shop_stock_seeded [of ?d2 "uuid_pos d"] same [of ?d2] assms(2) e by simp
  moreover have "seed_customer ?d3 = Inr (shop_customer d, ?d4)"
    using shop_customer_seeded [of ?d3 "uuid_pos d"] same [of ?d3] e by simp
  moreover have "seed_addresses (shop_customer d) ?d4 = Inr (seeded_shop d)"
    using shop_addresses_seeded [of ?d4 "uuid_pos d"] same [of ?d4] assms(2) e by (simp add: seeded_shop_def)
  ultimately show ?thesis by (simp add: seed_main_def in_transaction_def seed_transaction_def no_result_def)
qed

section \<open>The properties\<close>

text \<open>
  C34: seeding is safe on a live shop. On a consistent database whose ledger is in order the script
  either fails and changes nothing, or installs the reference data: then every seeded product,
  warehouse, stock level, customer and address is there, only the five tables of reference data were
  written, every constraint still holds, no unit counted as reserved was touched, and what the
  reservations hold is still covered. So a run of the script while checkouts are in flight is one of
  the steps of the system, and all that holds of its runs holds of runs with the script in them.
\<close>

theorem seeding_is_safe_on_a_live_shop:
  assumes "consistent d" and "ledger_ok d" and "seed_main d = (r, d')"
  shows "case r of Inl _ \<Rightarrow> d' = d
     | Inr _ \<Rightarrow> seeded d' \<and> only_reference_data d d' \<and> consistent d' \<and>
         reserved_kept (inventory d) (inventory d') \<and> ledger_ok d' \<and>
         (\<forall>env s. sys_db s = d \<longrightarrow> sys_step env s (s\<lparr>sys_db := d'\<rparr>))"
proof (cases r)
  case (Inl e)
  with assms(3) show ?thesis
    using in_transaction_cases [of seed_transaction d r d'] by (auto simp: seed_main_def)
next
  case (Inr u)
  with assms(3) have s: "seed_transaction d = Inr ((), d')"
    using in_transaction_cases [of seed_transaction d r d'] by (auto simp: seed_main_def)
  have ok: "db_ok d" "uuids_fresh d" using assms(1) by (simp_all add: consistent_def)
  note eff = seed_transaction_Inr [OF s ok(1)]
  have con: "consistent d'"
    using eff draws_fresh [OF seed_transaction_draws [OF s] ok(2)] by (simp add: consistent_def)
  with eff have m: "managed d d'" by (simp add: managed_def)
  then show ?thesis using eff con Inr managed_ledger [OF m assms(2)] sys_step.Manage by auto
qed

text \<open>
  seeding again changes nothing. After the script has run, and whatever orders, reservations and
  other rows were written since, a second run succeeds and leaves the database as it is, as long as
  nobody changed the reference data or a stock level in between; only ids are drawn and dropped.
\<close>

theorem seeding_again_changes_nothing:
  assumes "db_ok d" and "seed_main d = (Inr (), d1)" and "db_ok d2"
    and "products d2 = products d1" "warehouses d2 = warehouses d1" "customers d2 = customers d1"
      "addresses d2 = addresses d1"
    and "map (\<lambda>i. (inv_key i, on_hand i)) (inventory d2) = map (\<lambda>i. (inv_key i, on_hand i)) (inventory d1)"
  shows "seed_main d2 = (Inr (), d2\<lparr>uuid_pos := uuid_pos d2 + 23\<rparr>)"
proof (rule seeded_again [OF _ assms(3)])
  have "seed_transaction d = Inr ((), d1)"
    using in_transaction_cases [of seed_transaction d "Inr ()" d1] assms(2) by (simp add: seed_main_def)
  then have s: "seeded d1" using seed_transaction_Inr [OF _ assms(1)] by blast
  let ?f = "\<lambda>i. (inv_key i, on_hand i)"
  have ex: "list_ex (\<lambda>i. inv_key i = k \<and> on_hand i = n) rows \<longleftrightarrow> (k, n) \<in> set (map ?f rows)" for k n rows
    by (auto simp: list_ex_iff image_iff)
  have "stock_seeded pids wids (inventory d2) = stock_seeded pids wids (inventory d1)" for pids wids
    unfolding stock_seeded_def ex assms(8) ..
  with s show "seeded d2" by (auto simp: seeded_def assms(4-7) split: option.splits)
qed

definition basket :: "db \<Rightarrow> string list \<Rightarrow> requested_item list" where
  "basket d skus = map (\<lambda>s. \<lparr>product_id = the (product_ids (products d) s), quantity = 1\<rparr>) skus"

lemma seeded_shop_simps [simp]:
  "products (seeded_shop d) = shop_products d" "warehouses (seeded_shop d) = shop_warehouses d"
  "inventory (seeded_shop d) = shop_inventory d"
  by (simp_all add: seeded_shop_def)

lemma basket_seeded_shop:
  "basket (seeded_shop d) [''SKU-KEYB'', ''SKU-MOUSE''] =
     [\<lparr>product_id = nth_id d 0, quantity = 1\<rparr>, \<lparr>product_id = nth_id d 1, quantity = 1\<rparr>]"
  "basket (seeded_shop d) [''SKU-KEYB'', ''SKU-MOUSE'', ''SKU-MON27''] =
     [\<lparr>product_id = nth_id d 0, quantity = 1\<rparr>, \<lparr>product_id = nth_id d 1, quantity = 1\<rparr>,
      \<lparr>product_id = nth_id d 2, quantity = 1\<rparr>]"
  by (simp_all add: basket_def product_ids_def shop_products_def PRODUCTS_def)

abbreviation shop_warehouse :: "db \<Rightarrow> nat \<Rightarrow> warehouse_row" where
  "shop_warehouse d k \<equiv> shop_warehouses d ! k"

lemma able_seeded_shop:
  assumes "inj (uuid_seq d)"
  shows "able (seeded_shop d) (basket (seeded_shop d) [''SKU-KEYB'', ''SKU-MOUSE'']) =
      [shop_warehouse d 0, shop_warehouse d 1, shop_warehouse d 3]"
    and "able (seeded_shop d) (basket (seeded_shop d) [''SKU-KEYB'', ''SKU-MOUSE'', ''SKU-MON27'']) =
      [shop_warehouse d 3]"
  unfolding basket_seeded_shop
  by (simp_all add: able_def supplies_def stocked_def shop_warehouses_def WAREHOUSES_def seed_warehouse_def
      shop_inventory_def shop_stock_def seed_stock_def inj_eq [OF assms])

lemma select_in_seeded_shop:
  assumes "inj (uuid_seq d)" and "geocode addr = Inr c" and "to_point (lon c) (lat c) = Inr pt"
    and "skus = [''SKU-KEYB'', ''SKU-MOUSE''] \<or> skus = [''SKU-KEYB'', ''SKU-MOUSE'', ''SKU-MON27'']"
    and "able (seeded_shop d) (basket (seeded_shop d) skus) = w # ws"
    and "\<forall>x \<in> set ws. warehouse_rank pg pt w \<le> warehouse_rank pg pt x"
  shows "select_warehouse geocode pg addr (basket (seeded_shop d) skus) (seeded_shop d) =
    Inr (candidate_of pg pt w)"
proof -
  define items where "items = basket (seeded_shop d) skus"
  have d: "distinct (map product_id items)" "items \<noteq> []" "list_all (\<lambda>it. fits_int4 (quantity it)) items"
    and known: "set (map product_id items) \<subseteq> pr_id ` set (products (seeded_shop d))"
    using assms(4)
    by (auto simp: items_def basket_seeded_shop fits_int4_def shop_products_def PRODUCTS_def inj_eq [OF assms(1)])
  have "sort_key (warehouse_rank pg pt) (w # ws) = w # sort_key (warehouse_rank pg pt) ws"
    using assms(6) by (simp add: insort_is_Cons)
  then have "select_best pg pt items (seeded_shop d) = Inr (Some (candidate_of pg pt w))"
    by (simp add: select_best_by_rank [OF d] assms(5) [folded items_def])
  moreover have "set (map product_id items) - existing_ids (set (map product_id items)) (seeded_shop d) = {}"
    using known by (auto simp: existing_ids_iff) blast
  ultimately show ?thesis using assms(2,3) d(2) unfolding items_def [symmetric]
    by (simp add: select_warehouse_def Let_def)
qed

text \<open>
  the seeded shop makes selection interesting. On a database without reference data the script
  succeeds, and whatever the ids and the distance functions, a keyboard and a mouse go to Madrid
  Central when it is nearer than Barcelona Port and Seville Hub, while adding the monitor forces
  Seville Hub however far it is.
\<close>

theorem seeded_shop_exercises_selection:
  assumes "no_reference_data d" and "inj (uuid_seq d)"
    and "geocode addr = Inr c" and "to_point (lon c) (lat c) = Inr pt"
    and "knn_distance pg (double (-3.7038), double 40.4168) pt < knn_distance pg (double 2.1734, double 41.3851) pt"
    and "knn_distance pg (double (-3.7038), double 40.4168) pt < knn_distance pg (double (-5.9845), double 37.3891) pt"
  shows "\<exists>shop near complete. seed_main d = (Inr (), shop) \<and>
     select_warehouse geocode pg addr (basket shop [''SKU-KEYB'', ''SKU-MOUSE'']) shop = Inr near \<and>
     cand_code near = ''MAD-01'' \<and>
     select_warehouse geocode pg addr (basket shop [''SKU-KEYB'', ''SKU-MOUSE'', ''SKU-MON27'']) shop = Inr complete \<and>
     cand_code complete = ''SVQ-01''"
proof (intro exI conjI)
  show "seed_main d = (Inr (), seeded_shop d)" by (rule seed_main_new_shop [OF assms(1,2)])
  have rank: "\<forall>x \<in> set [shop_warehouse d 1, shop_warehouse d 3].
      warehouse_rank pg pt (shop_warehouse d 0) \<le> warehouse_rank pg pt x"
    using assms(5,6) by (simp add: warehouse_rank_def shop_warehouses_def WAREHOUSES_def seed_warehouse_def)
  show "select_warehouse geocode pg addr (basket (seeded_shop d) [''SKU-KEYB'', ''SKU-MOUSE'']) (seeded_shop d) =
      Inr (candidate_of pg pt (shop_warehouse d 0))"
    by (rule select_in_seeded_shop [where geocode = geocode and addr = addr, OF assms(2-4)], simp, rule able_seeded_shop(1) [OF assms(2)], rule rank)
  show "select_warehouse geocode pg addr (basket (seeded_shop d) [''SKU-KEYB'', ''SKU-MOUSE'', ''SKU-MON27''])
      (seeded_shop d) = Inr (candidate_of pg pt (shop_warehouse d 3))"
    by (rule select_in_seeded_shop [where geocode = geocode and addr = addr, OF assms(2-4)], simp, rule able_seeded_shop(2) [OF assms(2)], simp)
  show "cand_code (candidate_of pg pt (shop_warehouse d 0)) = ''MAD-01''"
    "cand_code (candidate_of pg pt (shop_warehouse d 3)) = ''SVQ-01''"
    by (simp_all add: candidate_of_def shop_warehouses_def WAREHOUSES_def seed_warehouse_def)
qed

section \<open>Witnesses\<close>

definition new_shop :: db where
  "new_shop = demo_db\<lparr>customers := [], products := [], warehouses := [], inventory := []\<rparr>"

lemma new_shop_facts: "no_reference_data new_shop" "inj (uuid_seq new_shop)" "db_ok new_shop" "ledger_ok new_shop"
  by (simp_all add: new_shop_def demo_db_def no_reference_data_def inj_def)
    (simp_all add: db_ok_def ledger_ok_def table_ok_def conflict_free_def)

lemma new_shop_consistent: "consistent new_shop"
  using new_shop_facts(3)
  by (simp add: consistent_def uuids_fresh_def used_ids_def) (simp add: new_shop_def demo_db_def inj_def)

theorem seeding_is_safe_on_a_live_shop_witness:
  "seeded (seeded_shop new_shop) \<and> consistent (seeded_shop new_shop) \<and> ledger_ok (seeded_shop new_shop)"
  using seeding_is_safe_on_a_live_shop [OF new_shop_consistent new_shop_facts(4) seed_main_new_shop [OF new_shop_facts(1,2)]]
  by simp

text \<open>The shop after somebody took two keyboards out of the stock of Madrid Central.\<close>

definition sold_shop :: db where
  "sold_shop = (seeded_shop new_shop)\<lparr>inventory := map (\<lambda>i. if inv_id i = 109 then i\<lparr>reserved := 7\<rparr> else i)
     (shop_inventory new_shop)\<rparr>"

lemma new_shop_inventory:
  "shop_inventory new_shop = map2 (seed_stock 0)
     [(105, 100, 50, 5), (105, 101, 40, 0), (105, 103, 12, 0), (105, 104, 100, 0), (106, 100, 30, 0),
      (106, 101, 20, 0), (106, 104, 60, 0), (107, 100, 5, 0), (107, 104, 10, 0), (108, 100, 10, 0),
      (108, 101, 10, 0), (108, 102, 3, 0), (108, 103, 4, 0), (108, 104, 25, 0)]
     [109, 110, 111, 112, 113, 114, 115, 116, 117, 118, 119, 120, 121, 122]"
  by (simp add: shop_inventory_def shop_stock_def new_shop_def demo_db_def)

lemma sold_shop_same:
  "products sold_shop = products (seeded_shop new_shop)" "warehouses sold_shop = warehouses (seeded_shop new_shop)"
  "customers sold_shop = customers (seeded_shop new_shop)" "addresses sold_shop = addresses (seeded_shop new_shop)"
  by (simp_all add: sold_shop_def)

lemma sold_shop_stock:
  "map (\<lambda>i. (inv_key i, on_hand i)) (inventory sold_shop) =
     map (\<lambda>i. (inv_key i, on_hand i)) (shop_inventory new_shop)"
  by (simp add: sold_shop_def)

lemma sold_shop_pos: "uuid_pos sold_shop = 26"
  by (simp add: sold_shop_def seeded_shop_def new_shop_def demo_db_def)

lemma sold_shop_ok: "db_ok sold_shop"
proof -
  have "seed_transaction new_shop = Inr ((), seeded_shop new_shop)"
    using in_transaction_cases [of seed_transaction new_shop "Inr ()" "seeded_shop new_shop"]
      seed_main_new_shop [OF new_shop_facts(1,2)] by (simp add: seed_main_def)
  then have "db_ok (seeded_shop new_shop)" using seed_transaction_Inr [OF _ new_shop_facts(3)] by blast
  moreover have "table_ok (inventory_spec (seeded_shop new_shop)) (inventory sold_shop)"
  proof -
    have "wh_id ` set (shop_warehouses new_shop) = {105, 106, 107, 108}"
      "pr_id ` set (shop_products new_shop) = {100, 101, 102, 103, 104}"
      by (simp_all add: shop_warehouses_def WAREHOUSES_def shop_products_def PRODUCTS_def new_shop_def demo_db_def)
    then have "list_all (row_ok (inventory_spec (seeded_shop new_shop))) (inventory sold_shop)"
      by (simp add: sold_shop_def new_shop_inventory inventory_row_ok seed_stock_def fits_int4_def)
    moreover have "conflict_free (uniques (inventory_spec (seeded_shop new_shop))) (inventory sold_shop)"
      by (simp add: sold_shop_def new_shop_inventory seed_stock_def conflict_free_def inventory_spec_def)
    ultimately show ?thesis by (simp add: table_ok_def)
  qed
  ultimately show ?thesis by (simp add: db_ok_def sold_shop_def)
qed

theorem seeding_again_changes_nothing_witness:
  "seed_main sold_shop = (Inr (), sold_shop\<lparr>uuid_pos := 49\<rparr>)"
  using seeding_again_changes_nothing [OF new_shop_facts(3) seed_main_new_shop [OF new_shop_facts(1,2)]
      sold_shop_ok sold_shop_same] sold_shop_stock sold_shop_pos by simp

lemma seeded_points:
  "\<bar>double (-3.7038) + 4\<bar> \<le> 3 / 10" "\<bar>double 40.4168 - 40\<bar> \<le> 1 / 2" "6 \<le> \<bar>double 2.1734 + 4\<bar>"
  "19 / 10 \<le> \<bar>double (-5.9845) + 4\<bar>"
  using double_near [of "-3.7038"] double_near [of "40.4168"] double_near [of "2.1734"] double_near [of "-5.9845"]
  by (simp_all add: abs_if)

lemma seeded_distances:
  "knn_distance demo_pg (double (-3.7038), double 40.4168) (-4, 40) <
     knn_distance demo_pg (double 2.1734, double 41.3851) (-4, 40)"
  "knn_distance demo_pg (double (-3.7038), double 40.4168) (-4, 40) <
     knn_distance demo_pg (double (-5.9845), double 37.3891) (-4, 40)"
  using seeded_points abs_ge_zero [of "double 41.3851 - 40"] abs_ge_zero [of "double 37.3891 - 40"]
  unfolding demo_pg_def by (simp_all only: postgis.simps fst_conv snd_conv diff_minus_eq_add)

theorem seeded_shop_exercises_selection_witness:
  "\<exists>shop near complete. seed_main new_shop = (Inr (), shop) \<and>
     select_warehouse (\<lambda>_. Inr \<lparr>lat = 40, lon = -4\<rparr>) demo_pg demo_address
       (basket shop [''SKU-KEYB'', ''SKU-MOUSE'']) shop = Inr near \<and> cand_code near = ''MAD-01'' \<and>
     select_warehouse (\<lambda>_. Inr \<lparr>lat = 40, lon = -4\<rparr>) demo_pg demo_address
       (basket shop [''SKU-KEYB'', ''SKU-MOUSE'', ''SKU-MON27'']) shop = Inr complete \<and>
     cand_code complete = ''SVQ-01''"
  by (rule seeded_shop_exercises_selection [OF new_shop_facts(1,2) refl _ seeded_distances])
    (simp add: to_point_def)

end
