(* ===== verification/Transport.thy ===== *)
theory Transport
  imports Api
begin

text \<open>
  The layers around the route: \<^verbatim>\<open>app/main.py\<close> wires them, \<^verbatim>\<open>app/api/middleware.py\<close> binds
  the correlation id, \<^verbatim>\<open>app/api/errors.py\<close> registers the handlers and
  \<^verbatim>\<open>app/api/logging.py\<close> formats what they log. A handler registered for \<^verbatim>\<open>Exception\<close>
  runs outside the middleware, the others inside, as Starlette builds its stack. A context variable is
  an argument of what runs while it is bound. \<^verbatim>\<open>app/api/routes/health.py\<close> is here too.
\<close>

section \<open>Logging\<close>

record log_record =
  levelname :: string
  logger_name :: string
  message :: string

text \<open>The value of the context variable outside a request.\<close>

definition default_correlation_id :: string where
  "default_correlation_id = ''-''"

text \<open>The object that \<^verbatim>\<open>JsonFormatter.format\<close> dumps; the traceback is an argument.\<close>

definition format_record :: "string \<Rightarrow> log_record \<Rightarrow> ustr option \<Rightarrow> json" where
  "format_record cid r trace =
     JObj ([(''level'', JStr (ustr (levelname r))), (''logger'', JStr (ustr (logger_name r))),
            (''message'', JStr (ustr (message r))), (''correlation_id'', JStr (ustr cid))] @
           (case trace of Some t \<Rightarrow> [(''exception'', JStr t)] | None \<Rightarrow> []))"

type_synonym log = "(string \<times> log_record) list"

definition error_record :: "string \<Rightarrow> log_record" where
  "error_record msg = \<lparr>levelname = ''ERROR'', logger_name = ''app.api.errors'', message = msg\<rparr>"

section \<open>The stack\<close>

text \<open>A response as it leaves a layer, with its \<^verbatim>\<open>X-Request-ID\<close> header.\<close>

record sent =
  sent_response :: http_response
  x_request_id :: "string option"

text \<open>
  The innermost layer: the route, with the handlers for validation and domain errors around it. The
  log lines it writes carry the id bound to it; any other exception goes on.
\<close>

definition handled_route ::
  "env \<Rightarrow> ucd \<Rightarrow> (string \<Rightarrow> string) \<Rightarrow> (charge_request \<Rightarrow> 'p \<Rightarrow> payment_result \<times> 'p) \<Rightarrow> (db \<Rightarrow> db) \<Rightarrow>
   string option \<Rightarrow> create_order_request \<Rightarrow> string \<Rightarrow> db \<times> 'p \<Rightarrow> (exc + sent) \<times> log \<times> (db \<times> 'p)" where
  "handled_route env u sha charge between idem raw cid s =
     (case validate_request u raw of
        Inl ps \<Rightarrow> (Inr \<lparr>sent_response = on_validation_error ''/orders'' ps, x_request_id = None\<rparr>, [], s)
      | Inr rq \<Rightarrow>
        (case create_order_route env sha charge between idem rq s of
           (Inl (DomainError e), s') \<Rightarrow>
             (Inr \<lparr>sent_response = on_domain_error ''/orders'' e, x_request_id = None\<rparr>,
              (if fst (error_mapping e) \<ge> 500
               then [(cid, error_record (''domain error: '' @ domain_error_str e))] else []), s')
         | (Inl e, s') \<Rightarrow> (Inl e, [], s')
         | (Inr resp, s') \<Rightarrow> (Inr \<lparr>sent_response = resp, x_request_id = None\<rparr>, [], s')))"

definition correlation_id_middleware ::
  "string option \<Rightarrow> string \<Rightarrow> (string \<Rightarrow> 's \<Rightarrow> (exc + sent) \<times> log \<times> 's) \<Rightarrow> 's \<Rightarrow> (exc + sent) \<times> log \<times> 's" where
  "correlation_id_middleware incoming fresh call_next s =
     (let request_id = (case incoming of Some h \<Rightarrow> if h = [] then fresh else h | None \<Rightarrow> fresh) in
      case call_next request_id s of
        (Inl e, lines, s') \<Rightarrow> (Inl e, lines, s')
      | (Inr resp, lines, s') \<Rightarrow> (Inr (resp\<lparr>x_request_id := Some request_id\<rparr>), lines, s'))"

text \<open>The outermost layer answers every exception that is left, outside the binding.\<close>

definition server_errors ::
  "string \<Rightarrow> ('s \<Rightarrow> (exc + sent) \<times> log \<times> 's) \<Rightarrow> 's \<Rightarrow> sent \<times> log \<times> 's" where
  "server_errors path app s =
     (case app s of
        (Inl e, lines, s') \<Rightarrow>
          (\<lparr>sent_response = on_unhandled path, x_request_id = None\<rparr>,
           lines @ [(default_correlation_id, error_record ''unhandled exception'')], s')
      | (Inr resp, lines, s') \<Rightarrow> (resp, lines, s'))"

text \<open>\<^verbatim>\<open>POST /orders\<close> through the whole application; \<open>fresh\<close> is \<^verbatim>\<open>uuid4().hex\<close>.\<close>

definition serve_orders ::
  "env \<Rightarrow> ucd \<Rightarrow> (string \<Rightarrow> string) \<Rightarrow> (charge_request \<Rightarrow> 'p \<Rightarrow> payment_result \<times> 'p) \<Rightarrow> (db \<Rightarrow> db) \<Rightarrow>
   string option \<Rightarrow> create_order_request \<Rightarrow> string option \<Rightarrow> string \<Rightarrow> db \<times> 'p \<Rightarrow> sent \<times> log \<times> (db \<times> 'p)" where
  "serve_orders env u sha charge between idem raw incoming fresh =
     server_errors ''/orders''
       (correlation_id_middleware incoming fresh (handled_route env u sha charge between idem raw))"

text \<open>\<^verbatim>\<open>GET /health\<close>: the status and the body, from what \<^verbatim>\<open>SELECT 1\<close> does.\<close>

definition health :: "exc + unit \<Rightarrow> int \<times> json" where
  "health select_1 =
     (let (st, overall, database) = (case select_1 of
        Inr _ \<Rightarrow> (200, ''ok'', ''ok'') | Inl _ \<Rightarrow> (503, ''unhealthy'', ''unavailable''))
      in (st, JObj [(''status'', JStr (ustr overall)),
                    (''checks'', JObj [(''database'', JStr (ustr database))])]))"

section \<open>The stack answers what the route answers\<close>

text \<open>An error no inner handler takes.\<close>

definition crashes :: "exc + http_response \<Rightarrow> bool" where
  "crashes r \<longleftrightarrow> (case r of Inl (DomainError _) \<Rightarrow> False | Inl _ \<Rightarrow> True | Inr _ \<Rightarrow> False)"

definition request_crashes ::
  "env \<Rightarrow> ucd \<Rightarrow> (string \<Rightarrow> string) \<Rightarrow> (charge_request \<Rightarrow> 'p \<Rightarrow> payment_result \<times> 'p) \<Rightarrow> (db \<Rightarrow> db) \<Rightarrow>
   string option \<Rightarrow> create_order_request \<Rightarrow> db \<times> 'p \<Rightarrow> bool" where
  "request_crashes env u sha charge between idem raw s =
     (case validate_request u raw of Inl _ \<Rightarrow> False
      | Inr rq \<Rightarrow> crashes (fst (create_order_route env sha charge between idem rq s)))"

definition bound_id :: "string option \<Rightarrow> string \<Rightarrow> string" where
  "bound_id incoming fresh = (case incoming of Some h \<Rightarrow> if h = [] then fresh else h | None \<Rightarrow> fresh)"

lemma crashes_iff: "crashes r \<longleftrightarrow> (\<exists>e. r = Inl e \<and> (\<forall>x. e \<noteq> DomainError x))"
  by (auto simp: crashes_def split: sum.splits exc.splits)

lemma serve_crash:
  assumes "request_crashes env u sha charge between idem raw s"
  shows "serve_orders env u sha charge between idem raw incoming fresh s =
    (\<lparr>sent_response = on_unhandled ''/orders'', x_request_id = None\<rparr>,
     [(default_correlation_id, error_record ''unhandled exception'')],
     snd (post_orders env u sha charge between idem raw s))"
proof -
  from assms obtain rq where rq: "validate_request u raw = Inr rq"
    and c: "crashes (fst (create_order_route env sha charge between idem rq s))"
    by (auto simp: request_crashes_def split: sum.splits)
  obtain r s' where route: "create_order_route env sha charge between idem rq s = (r, s')" by (cases "create_order_route env sha charge between idem rq s")
  with c obtain e where e: "r = Inl e" "\<forall>x. e \<noteq> DomainError x" by (auto simp: crashes_iff)
  have "handled_route env u sha charge between idem raw cid s = (Inl e, [], s')" for cid
    using e rq route by (cases e) (simp_all add: handled_route_def)
  then show ?thesis
    by (simp add: serve_orders_def server_errors_def correlation_id_middleware_def Let_def post_orders_def rq
        route e(1))
qed

lemma post_orders_crash:
  assumes "request_crashes env u sha charge between idem raw s"
  shows "fst (post_orders env u sha charge between idem raw s) = on_unhandled ''/orders''"
proof -
  from assms obtain rq where rq: "validate_request u raw = Inr rq"
    and c: "crashes (fst (create_order_route env sha charge between idem rq s))"
    by (auto simp: request_crashes_def split: sum.splits)
  obtain r s' where route: "create_order_route env sha charge between idem rq s = (r, s')"
    by (cases "create_order_route env sha charge between idem rq s")
  with c obtain e where "r = Inl e" "\<forall>x. e \<noteq> DomainError x" by (auto simp: crashes_iff)
  then show ?thesis using rq route by (cases e) (simp_all add: post_orders_def on_exception_def)
qed

lemma serve_no_crash:
  assumes "\<not> request_crashes env u sha charge between idem raw s"
    and "serve_orders env u sha charge between idem raw incoming fresh s = (answer, lines, s')"
  shows "sent_response answer = fst (post_orders env u sha charge between idem raw s) \<and>
    x_request_id answer = Some (bound_id incoming fresh) \<and> (\<forall>l \<in> set lines. fst l = bound_id incoming fresh) \<and>
    s' = snd (post_orders env u sha charge between idem raw s)"
proof (cases "validate_request u raw")
  case (Inl ps)
  with assms(2) show ?thesis
    by (auto simp: serve_orders_def server_errors_def correlation_id_middleware_def Let_def handled_route_def
        post_orders_def bound_id_def)
next
  case (Inr rq)
  obtain r t where route: "create_order_route env sha charge between idem rq s = (r, t)" by (cases "create_order_route env sha charge between idem rq s")
  with assms(1) Inr have ok: "\<not> crashes r" by (simp add: request_crashes_def)
  show ?thesis
  proof (cases r)
    case l: (Inl e)
    with ok obtain de where "e = DomainError de" by (auto simp: crashes_iff)
    with l assms(2) Inr route show ?thesis
      by (auto simp: serve_orders_def server_errors_def correlation_id_middleware_def Let_def handled_route_def
          post_orders_def bound_id_def on_exception_def)
  next
    case (Inr resp)
    with \<open>validate_request u raw = Inr rq\<close> assms(2) route show ?thesis
      by (auto simp: serve_orders_def server_errors_def correlation_id_middleware_def Let_def handled_route_def
          post_orders_def bound_id_def)
  qed
qed

end
