(* ===== verification/Geocoder.thy ===== *)
theory Geocoder
  imports Doubles Text
begin

text \<open>
  \<^verbatim>\<open>app/adapters/geocoding_mock.py\<close> and the key an address is hashed by,
  \<^verbatim>\<open>PostalAddress.normalized_key\<close>. Unicode case mapping and SHA-256 are parameters. The
  lemmas show that spacing and the second line of an address do not move it, and that every point
  the mock gives is a known city or a six-decimal point of the Iberian box.
\<close>

section \<open>Text\<close>

text \<open>\<^verbatim>\<open>str.casefold\<close> and \<^verbatim>\<open>str.upper\<close>.\<close>

record case_maps =
  casefold :: "ustr \<Rightarrow> ustr"
  upper :: "ustr \<Rightarrow> ustr"

text \<open>\<^verbatim>\<open>str.isspace\<close>, which \<^verbatim>\<open>strip\<close> and \<^verbatim>\<open>\s\<close> agree on.\<close>

definition is_space :: "nat \<Rightarrow> bool" where
  "is_space c \<longleftrightarrow> (9 \<le> c \<and> c \<le> 13) \<or> (28 \<le> c \<and> c \<le> 32) \<or> c = 0x85 \<or> c = 0xA0 \<or> c = 0x1680 \<or>
     (0x2000 \<le> c \<and> c \<le> 0x200A) \<or> c = 0x2028 \<or> c = 0x2029 \<or> c = 0x202F \<or> c = 0x205F \<or> c = 0x3000"

definition strip :: "ustr \<Rightarrow> ustr" where
  "strip s = rev (dropWhile is_space (rev (dropWhile is_space s)))"

text \<open>\<^verbatim>\<open>re.sub(r"\s+", " ", s)\<close>\<close>

function squeeze :: "ustr \<Rightarrow> ustr" where
  "squeeze [] = []"
| "squeeze (c # s) = (if is_space c then 32 # squeeze (dropWhile is_space s) else c # squeeze s)"
  by pat_completeness auto
termination
  by (relation "measure length") (auto simp: less_Suc_eq_le length_dropWhile_le)

definition norm_field :: "case_maps \<Rightarrow> ustr \<Rightarrow> ustr" where
  "norm_field m s = casefold m (squeeze (strip s))"

definition normalized_key :: "case_maps \<Rightarrow> postal_address \<Rightarrow> ustr" where
  "normalized_key m a =
     norm_field m (line1 a) @ [124] @ norm_field m (city a) @ [124] @ norm_field m (postal_code a) @ [124] @
     upper m (strip (country_code a))"

text \<open>\<^verbatim>\<open>str.encode("utf-8")\<close>; surrogates cannot be encoded.\<close>

definition utf8_char :: "nat \<Rightarrow> exc + nat list" where
  "utf8_char c =
     (if c < 0x80 then Inr [c]
      else if c < 0x800 then Inr [0xC0 + c div 64, 0x80 + c mod 64]
      else if 0xD800 \<le> c \<and> c \<le> 0xDFFF then Inl (ValueError ''surrogates not allowed'')
      else if c < 0x10000 then Inr [0xE0 + c div 4096, 0x80 + c div 64 mod 64, 0x80 + c mod 64]
      else Inr [0xF0 + c div 262144, 0x80 + c div 4096 mod 64, 0x80 + c div 64 mod 64, 0x80 + c mod 64])"

definition utf8 :: "ustr \<Rightarrow> exc + nat list" where
  "utf8 s = bind_r (map_r utf8_char s) (\<lambda>cs. Inr (concat cs))"

section \<open>The mock\<close>

definition CITIES :: "((string \<times> string) \<times> rat \<times> rat) list" where
  "CITIES =
     [((''madrid'', ''ES''), double 40.4168, double (-3.7038)),
      ((''barcelona'', ''ES''), double 41.3851, double 2.1734),
      ((''valencia'', ''ES''), double 39.4699, double (-0.3763)),
      ((''sevilla'', ''ES''), double 37.3891, double (-5.9845)),
      ((''seville'', ''ES''), double 37.3891, double (-5.9845)),
      ((''bilbao'', ''ES''), double 43.2630, double (-2.9350)),
      ((''zaragoza'', ''ES''), double 41.6488, double (-0.8891)),
      ((''malaga'', ''ES''), double 36.7213, double (-4.4214)),
      ((''lisboa'', ''PT''), double 38.7223, double (-9.1393)),
      ((''lisbon'', ''PT''), double 38.7223, double (-9.1393)),
      ((''porto'', ''PT''), double 41.1579, double (-8.6291)),
      ((''paris'', ''FR''), double 48.8566, double 2.3522)]"

definition LAT_MIN :: rat where "LAT_MIN = double 36.0"
definition LAT_MAX :: rat where "LAT_MAX = double 43.8"
definition LON_MIN :: rat where "LON_MIN = double (-9.3)"
definition LON_MAX :: rat where "LON_MAX = double 3.3"

text \<open>\<^verbatim>\<open>int.from_bytes(bs, "big")\<close>\<close>

definition from_bytes :: "nat list \<Rightarrow> int" where
  "from_bytes bs = foldl (\<lambda>n b. n * 256 + int b) 0 bs"

text \<open>One coordinate from four bytes of the digest.\<close>

definition place :: "nat list \<Rightarrow> rat \<Rightarrow> rat \<Rightarrow> rat" where
  "place bs lo hi =
     round6 (add_double lo (times_double (int_divide (from_bytes bs) 0xFFFFFFFF) (diff_double hi lo)))"

definition derive :: "case_maps \<Rightarrow> (nat list \<Rightarrow> nat list) \<Rightarrow> postal_address \<Rightarrow> exc + coordinates" where
  "derive m sha256 a =
     bind_r (utf8 (normalized_key m a)) (\<lambda>bs.
       let digest = sha256 bs in
       mk_coordinates (place (take 4 digest) LAT_MIN LAT_MAX) (place (take 4 (drop 4 digest)) LON_MIN LON_MAX))"

definition mock_geocode :: "case_maps \<Rightarrow> (nat list \<Rightarrow> nat list) \<Rightarrow> postal_address \<Rightarrow> exc + coordinates" where
  "mock_geocode m sha256 a =
     (if strip (city a) = [] then Inl (DomainError (GeocodingFailed ''city is empty'')) else
      case map_of (map (\<lambda>((c, k), p). ((ustr c, ustr k), p)) CITIES)
             (casefold m (strip (city a)), upper m (strip (country_code a))) of
        Some (la, lo) \<Rightarrow> mk_coordinates la lo
      | None \<Rightarrow> derive m sha256 a)"

section \<open>The box\<close>

lemma from_bytes_bounds:
  assumes "length bs \<le> 4" and "\<forall>b \<in> set bs. b < 256"
  shows "0 \<le> from_bytes bs \<and> from_bytes bs \<le> 0xFFFFFFFF"
proof -
  have step: "0 \<le> foldl (\<lambda>n b. n * 256 + int b) n bs \<and>
      foldl (\<lambda>n b. n * 256 + int b) n bs < (n + 1) * 256 ^ length bs"
    if "0 \<le> n" "\<forall>b \<in> set bs. b < 256" for n
    using that
  proof (induction bs arbitrary: n)
    case (Cons b bs)
    have b: "int b < 256" using Cons.prems(2) by simp
    from Cons.IH [of "n * 256 + int b"] Cons.prems
    have ih: "0 \<le> foldl (\<lambda>n b. n * 256 + int b) (n * 256 + int b) bs"
      "foldl (\<lambda>n b. n * 256 + int b) (n * 256 + int b) bs < (n * 256 + int b + 1) * 256 ^ length bs" by simp_all
    have "(n * 256 + int b + 1) * 256 ^ length bs \<le> ((n + 1) * 256) * (256 :: int) ^ length bs"
      by (intro mult_right_mono) (use b in simp_all)
    then have "(n * 256 + int b + 1) * 256 ^ length bs \<le> (n + 1) * 256 ^ length (b # bs)" by (simp add: mult.assoc)
    with ih show ?case by (simp del: power_Suc)
  qed simp
  have "(256 :: int) ^ length bs \<le> 256 ^ 4" using assms(1) by (intro power_increasing) simp_all
  with step [of 0] assms(2) show ?thesis by (simp add: from_bytes_def)
qed

text \<open>A number of four bytes, placed between two bounds, is a six-decimal number between them.\<close>

lemma place_in_box:
  assumes "0 \<le> n" "n \<le> 0xFFFFFFFF" and "\<bar>lo - of_int a / 10 ^ 6\<bar> \<le> 1 / 10 ^ 12"
    and "\<bar>hi - of_int b / 10 ^ 6\<bar> \<le> 1 / 10 ^ 12"
    and "- 50000000 \<le> a" "a < b" "b \<le> 50000000"
  shows "\<exists>k. a \<le> k \<and> k \<le> b \<and>
    round6 (add_double lo (times_double (int_divide n 0xFFFFFFFF) (diff_double hi lo))) = double (of_int k / 10 ^ 6)"
proof -
  define f w p x where "f = int_divide n 0xFFFFFFFF" and "w = diff_double hi lo" and "p = times_double f w"
    and "x = add_double lo p"
  have lo: "lo \<le> of_int a / 10 ^ 6 + 1 / 10 ^ 12" "of_int a / 10 ^ 6 - 1 / 10 ^ 12 \<le> lo"
    and hi: "hi \<le> of_int b / 10 ^ 6 + 1 / 10 ^ 12" "of_int b / 10 ^ 6 - 1 / 10 ^ 12 \<le> hi"
    using assms(3,4) unfolding abs_le_iff by linarith+
  have "of_int (a + 1) \<le> (of_int b :: rat)" "of_int (- 50000000) \<le> (of_int a :: rat)" "of_int b \<le> (of_int 50000000 :: rat)"
    using assms(5-7) by (simp_all only: of_int_le_iff)
  then have ab: "of_int a / 10 ^ 6 + 1 / 10 ^ 6 \<le> (of_int b / 10 ^ 6 :: rat)" "- 50 \<le> (of_int a / 10 ^ 6 :: rat)"
    "of_int b / 10 ^ 6 \<le> (50 :: rat)" by simp_all
  define A B :: rat where "A = of_int a / 10 ^ 6" and "B = of_int b / 10 ^ 6"
  note bounds = lo [folded A_def] hi [folded B_def] ab [folded A_def B_def]
  have "of_int n \<le> (of_int 0xFFFFFFFF :: rat)" using assms(2) by (simp only: of_int_le_iff)
  then have q: "0 \<le> of_int n / (of_int 0xFFFFFFFF :: rat)" "of_int n / (of_int 0xFFFFFFFF :: rat) \<le> 1"
    using assms(1) by simp_all
  then have f: "- 1 / 10 ^ 13 \<le> f" "f \<le> 1 + 1 / 10 ^ 13"
    using double_near [of "of_int n / of_int 0xFFFFFFFF"] unfolding f_def int_divide_def by linarith+
  have w: "0 \<le> w" "w \<le> B - A + 3 / 10 ^ 12"
    using double_near [of "hi - lo"] bounds unfolding w_def diff_double_def by (simp_all add: abs_le_iff)
  have fw: "- 1 / 10 ^ 13 * w \<le> f * w" "f * w \<le> (1 + 1 / 10 ^ 13) * w"
    using f w(1) by (intro mult_right_mono; simp)+
  have W: "w \<le> 101" using w(2) bounds by simp
  have p: "- 1 / 10 ^ 10 \<le> p" "p \<le> B - A + 1 / 10 ^ 10"
    using double_near [of "f * w"] fw w W bounds unfolding p_def times_double_def
    by (simp_all add: abs_le_iff algebra_simps)
  have x: "A - 1 / 10 ^ 9 \<le> x" "x \<le> B + 1 / 10 ^ 9"
    using double_near [of "lo + p"] p bounds unfolding x_def add_double_def by (simp_all add: abs_le_iff)
  have "of_int a - 1 / 2 < x * 10 ^ 6" "x * 10 ^ 6 < of_int b + 1 / 2"
    using x unfolding A_def B_def by simp_all
  from round_half_even_between [OF this]
  show ?thesis unfolding f_def [symmetric] w_def [symmetric] p_def [symmetric] x_def [symmetric] round6_def by blast
qed


lemma bound_near: "\<bar>x\<bar> \<le> 128 \<Longrightarrow> \<bar>double x - x\<bar> \<le> 1 / 10 ^ 12"
  by (rule order_trans [OF double_error]) simp_all

text \<open>The six-decimal points of the box, as the doubles nearest to them.\<close>

definition in_box :: "coordinates \<Rightarrow> bool" where
  "in_box c \<longleftrightarrow> (\<exists>m n. 36000000 \<le> m \<and> m \<le> 43800000 \<and> lat c = double (of_int m / 10 ^ 6) \<and>
     -9300000 \<le> n \<and> n \<le> 3300000 \<and> lon c = double (of_int n / 10 ^ 6))"

lemma place_lat:
  assumes "length bs \<le> 4" and "\<forall>b \<in> set bs. b < 256"
  shows "\<exists>m. 36000000 \<le> m \<and> m \<le> 43800000 \<and> place bs LAT_MIN LAT_MAX = double (of_int m / 10 ^ 6)"
  unfolding place_def
  by (rule place_in_box)
    (use from_bytes_bounds [OF assms] bound_near [of 36] bound_near [of "43.8"]
      in \<open>simp_all add: LAT_MIN_def LAT_MAX_def\<close>)

lemma place_lon:
  assumes "length bs \<le> 4" and "\<forall>b \<in> set bs. b < 256"
  shows "\<exists>n. -9300000 \<le> n \<and> n \<le> 3300000 \<and> place bs LON_MIN LON_MAX = double (of_int n / 10 ^ 6)"
  unfolding place_def
  by (rule place_in_box)
    (use from_bytes_bounds [OF assms] bound_near [of "-9.3"] bound_near [of "3.3"]
      in \<open>simp_all add: LON_MIN_def LON_MAX_def\<close>)

lemma in_box_valid:
  assumes "in_box c"
  shows "mk_coordinates (lat c) (lon c) = Inr c"
proof -
  from assms obtain m n where "36000000 \<le> m" "m \<le> 43800000" "lat c = double (of_int m / 10 ^ 6)"
    "-9300000 \<le> n" "n \<le> 3300000" "lon c = double (of_int n / 10 ^ 6)" by (auto simp: in_box_def)
  moreover from this have "\<bar>of_int m / 10 ^ 6\<bar> \<le> (89 :: rat)" "\<bar>of_int n / 10 ^ 6\<bar> \<le> (128 :: rat)"
    by (simp_all add: abs_le_iff)
  ultimately show ?thesis by (simp add: mk_coordinates_def)
qed

lemma derive_in_box:
  assumes "utf8 (normalized_key m a) = Inr bs" and "\<forall>b \<in> set (sha256 bs). b < 256"
  shows "\<exists>c. derive m sha256 a = Inr c \<and> in_box c"
proof -
  have "\<forall>b \<in> set (take 4 (sha256 bs)). b < 256" "\<forall>b \<in> set (take 4 (drop 4 (sha256 bs))). b < 256"
    using assms(2) by (meson in_set_takeD in_set_dropD)+
  then obtain la lo where
    "place (take 4 (sha256 bs)) LAT_MIN LAT_MAX = lat \<lparr>lat = la, lon = lo\<rparr>"
    "place (take 4 (drop 4 (sha256 bs))) LON_MIN LON_MAX = lon \<lparr>lat = la, lon = lo\<rparr>"
    "in_box \<lparr>lat = la, lon = lo\<rparr>"
    using place_lat [of "take 4 (sha256 bs)"] place_lon [of "take 4 (drop 4 (sha256 bs))"]
    unfolding in_box_def by auto
  with in_box_valid [of "\<lparr>lat = la, lon = lo\<rparr>"] assms(1) show ?thesis by (simp add: derive_def)
qed

lemma cities_valid:
  assumes "map_of (map (\<lambda>((c, k), p). ((ustr c, ustr k), p)) CITIES) key = Some (la, lo)"
  shows "mk_coordinates la lo = Inr \<lparr>lat = la, lon = lo\<rparr> \<and> (la, lo) \<in> snd ` set CITIES"
proof -
  from map_of_SomeD [OF assms] have city: "(la, lo) \<in> snd ` set CITIES" by (auto simp: image_iff) force
  then show ?thesis by (auto simp: CITIES_def mk_coordinates_def)
qed

section \<open>What does not move an address\<close>

text \<open>The words of a text, cut at runs of white space: \<^verbatim>\<open>s.split()\<close>.\<close>

function split_words :: "ustr \<Rightarrow> ustr list" where
  "split_words [] = []"
| "split_words (c # s) =
     (if is_space c then split_words s
      else (c # takeWhile (\<lambda>x. \<not> is_space x) s) # split_words (dropWhile (\<lambda>x. \<not> is_space x) s))"
  by pat_completeness auto
termination
  by (relation "measure length") (auto simp: less_Suc_eq_le length_dropWhile_le)

fun join_words :: "ustr list \<Rightarrow> ustr" where
  "join_words [] = []"
| "join_words [w] = w"
| "join_words (w # ws) = w @ [32] @ join_words ws"

lemma squeeze_word: "\<forall>c \<in> set w. \<not> is_space c \<Longrightarrow> squeeze (w @ r) = w @ squeeze r"
  by (induction w) auto

lemma split_words_drop: "split_words (dropWhile is_space s) = split_words s"
  by (induction s) auto

lemma split_words_spaces: "\<forall>c \<in> set r. is_space c \<Longrightarrow> split_words r = []"
  by (induction r) auto

lemma split_words_trailing: "\<forall>c \<in> set r. is_space c \<Longrightarrow> split_words (s @ r) = split_words s"
proof (induction s rule: split_words.induct)
  case 1
  then show ?case by (simp add: split_words_spaces)
next
  case (2 c s)
  show ?case
  proof (cases "is_space c")
    case False
    let ?ns = "\<lambda>x. \<not> is_space x"
    have r: "takeWhile ?ns r = []" "dropWhile ?ns r = r" using "2.prems" by (cases r; simp)+
    show ?thesis
    proof (cases "\<forall>x \<in> set s. ?ns x")
      case True
      then have all: "takeWhile ?ns s = s" "dropWhile ?ns s = []"
        by (simp_all add: takeWhile_eq_all_conv dropWhile_eq_Nil_conv)
      with True r False "2.prems" show ?thesis by (simp add: split_words_spaces takeWhile_append2 dropWhile_append2 all)
    next
      case some: False
      then have "takeWhile ?ns (s @ r) = takeWhile ?ns s" "dropWhile ?ns (s @ r) = dropWhile ?ns s @ r"
        by (auto simp: takeWhile_append1 dropWhile_append1)
      with 2 False show ?thesis by simp
    qed
  qed (use 2 in simp)
qed

lemma split_words_strip: "split_words (strip s) = split_words s"
proof -
  let ?t = "dropWhile is_space s"
  have "?t = strip s @ rev (takeWhile is_space (rev ?t))"
    unfolding strip_def by (metis rev_append rev_rev_ident takeWhile_dropWhile_id)
  then have "split_words ?t = split_words (strip s)"
    using split_words_trailing [of "rev (takeWhile is_space (rev ?t))" "strip s"] by (auto dest: set_takeWhileD)
  then show ?thesis by (simp add: split_words_drop)
qed

lemma strip_ends:
  assumes "strip s \<noteq> []"
  shows "\<not> is_space (hd (strip s)) \<and> \<not> is_space (last (strip s))"
proof -
  let ?t = "dropWhile is_space s"
  have ne: "dropWhile is_space (rev ?t) \<noteq> []" using assms by (simp add: strip_def)
  then have "\<not> is_space (last (strip s))" by (simp add: strip_def last_rev hd_dropWhile)
  moreover have "hd (strip s) = hd ?t"
    using ne by (metis strip_def append_is_Nil_conv hd_append2 rev_append rev_is_Nil_conv rev_rev_ident takeWhile_dropWhile_id)
  moreover have "?t \<noteq> []" using ne by (metis dropWhile.simps(1) rev.simps(1))
  ultimately show ?thesis by (simp add: hd_dropWhile)
qed

lemma squeeze_words:
  assumes "t \<noteq> []" and "\<not> is_space (hd t)" and "\<not> is_space (last t)"
  shows "squeeze t = join_words (split_words t) \<and> split_words t \<noteq> []"
  using assms
proof (induction "length t" arbitrary: t rule: less_induct)
  case less
  let ?ns = "\<lambda>x. \<not> is_space x"
  obtain c s where t: "t = c # s" using less.prems(1) by (cases t) auto
  with less.prems have c: "\<not> is_space c" by simp
  define w r where "w = takeWhile ?ns s" and "r = dropWhile ?ns s"
  have s: "s = w @ r" by (simp add: w_def r_def)
  have sq: "squeeze s = w @ squeeze r" unfolding s by (rule squeeze_word) (auto simp: w_def dest: set_takeWhileD)
  have sp: "split_words t = (c # w) # split_words r" using c by (simp add: t w_def r_def)
  show ?case
  proof (cases r)
    case Nil
    with sq sp c show ?thesis by (simp add: t)
  next
    case (Cons x q)
    have x: "is_space x" using Cons unfolding r_def by (metis dropWhile_eq_Cons_conv)
    define u where "u = dropWhile is_space q"
    have u: "u \<noteq> []"
    proof
      assume "u = []"
      then have "\<forall>y \<in> set q. is_space y" by (simp add: u_def)
      with x less.prems(3) show False by (simp add: t s Cons split: if_splits)
    qed
    have "last u = last t"
    proof -
      have "q = takeWhile is_space q @ u" by (simp add: u_def)
      then have "last q = last u" "q \<noteq> []" using u by (metis last_appendR, auto)
      then show ?thesis by (simp add: t s Cons)
    qed
    moreover have "length u < length t"
      using length_dropWhile_le [of is_space q] by (simp add: t s Cons u_def)
    moreover have "\<not> is_space (hd u)" using u by (simp add: u_def hd_dropWhile)
    ultimately have "squeeze u = join_words (split_words u) \<and> split_words u \<noteq> []" using less u by simp
    moreover have "split_words r = split_words u" using x by (simp add: Cons u_def split_words_drop)
    moreover have "squeeze r = 32 # squeeze u" using x by (simp add: Cons u_def)
    ultimately show ?thesis using sq sp c by (cases "split_words u") (simp_all add: t)
  qed
qed

text \<open>Stripping and squeezing is joining the words with single spaces.\<close>

lemma squeeze_strip_words: "squeeze (strip s) = join_words (split_words s)"
proof (cases "strip s = []")
  case True
  with split_words_strip [of s] show ?thesis by simp
next
  case False
  with squeeze_words [OF False] strip_ends [OF False] show ?thesis by (simp add: split_words_strip)
qed

lemma normalized_key_words:
  assumes "split_words (line1 a) = split_words (line1 b)" and "split_words (city a) = split_words (city b)"
    and "split_words (postal_code a) = split_words (postal_code b)"
    and "strip (country_code a) = strip (country_code b)"
  shows "normalized_key m a = normalized_key m b"
  using assms by (simp add: normalized_key_def norm_field_def squeeze_strip_words)

end
