(* ===== verification/Answer_Properties.thy ===== *)
theory Answer_Properties
  imports Edge_Properties Transport Geocoder
begin

text \<open>
  The properties at the two ends of a request: the layers of the HTTP application around the route,
  and the mock geocoder that selection asks for a point.
\<close>

text \<open>
  C39: every answer is traced, unless the request crashes. The layers around the route send the answer
  the route's model gives and do to the database and the provider what it does. If the request ends in
  an exception that no inner handler takes, the answer has no \<^verbatim>\<open>X-Request-ID\<close> and the one line the
  handlers log carries the default correlation id; otherwise the answer echoes the caller's id, or the
  generated one, and every line the handlers log carries it.
\<close>

theorem answers_are_traced_unless_the_request_crashes:
  assumes "serve_orders env u sha charge between idem raw incoming fresh s = (answer, lines, s')"
  shows "(sent_response answer, s') = post_orders env u sha charge between idem raw s \<and>
    (if request_crashes env u sha charge between idem raw s
     then x_request_id answer = None \<and> map fst lines = [''-'']
     else x_request_id answer = Some (bound_id incoming fresh) \<and>
       list_all (\<lambda>l. fst l = bound_id incoming fresh) lines)"
proof (cases "request_crashes env u sha charge between idem raw s")
  case True
  note crash = serve_crash [OF True, of incoming fresh, unfolded assms]
  then have "fst (post_orders env u sha charge between idem raw s) = on_unhandled ''/orders''"
    using post_orders_crash [OF True] by simp
  with crash True show ?thesis by (simp add: prod_eq_iff default_correlation_id_def)
next
  case False
  from serve_no_crash [OF False assms] show ?thesis by (simp add: prod_eq_iff False list_all_iff)
qed

theorem answers_are_traced_unless_the_request_crashes_witness:
  "\<exists>answer lines. serve_orders demo_env demo_ucd (\<lambda>_. demo_hash) (demo_pay demo_result) (\<lambda>x. x) None demo_payload
     (Some ''trace-1'') ''f00d'' (demo_db, 0) = (answer, lines, (demo_db, 0)) \<and>
     http_status (sent_response answer) = 400 \<and> x_request_id answer = Some ''trace-1''"
proof -
  have r: "create_order_route demo_env (\<lambda>_. demo_hash) (demo_pay demo_result) (\<lambda>x. x) None demo_payload (demo_db, 0) =
      (Inl (DomainError IdempotencyKeyRequired), (demo_db, 0 :: nat))" by (simp add: create_order_route_def)
  obtain answer lines t where s: "serve_orders demo_env demo_ucd (\<lambda>_. demo_hash) (demo_pay demo_result) (\<lambda>x. x) None
      demo_payload (Some ''trace-1'') ''f00d'' (demo_db, 0 :: nat) = (answer, lines, t)"
    by (metis prod.collapse)
  have p: "post_orders demo_env demo_ucd (\<lambda>_. demo_hash) (demo_pay demo_result) (\<lambda>x. x) None demo_payload (demo_db, 0) =
      (on_domain_error ''/orders'' IdempotencyKeyRequired, (demo_db, 0))"
    by (simp add: post_orders_def demo_payload_valid r on_exception_def)
  have c: "\<not> request_crashes demo_env demo_ucd (\<lambda>_. demo_hash) (demo_pay demo_result) (\<lambda>x. x) None demo_payload (demo_db, 0)"
    by (simp add: request_crashes_def demo_payload_valid r crashes_def)
  from answers_are_traced_unless_the_request_crashes [OF s] have
    "sent_response answer = on_domain_error ''/orders'' IdempotencyKeyRequired" "t = (demo_db, 0)"
    "x_request_id answer = Some ''trace-1''"
    by (simp_all add: p c bound_id_def)
  with s show ?thesis by (auto simp: on_domain_error_def make_problem_def)
qed

text \<open>
  C40: the mock geocoder places every address. For any hash that gives bytes, an address whose city
  is not blank and whose key can be encoded gets a valid point that the database accepts: the stored
  one of a known city, or the double of a six-decimal point between 36.0 and 43.8 degrees north and
  between 9.3 degrees west and 3.3 degrees east.
\<close>

theorem mock_geocoder_places_every_address:
  assumes "strip (city a) \<noteq> []" and "utf8 (normalized_key m a) = Inr bs" and "\<forall>b \<in> set (sha256 bs). b < 256"
  shows "\<exists>c pt. mock_geocode m sha256 a = Inr c \<and> to_point (lon c) (lat c) = Inr pt \<and>
    (in_box c \<or> (lat c, lon c) \<in> snd ` set CITIES)"
proof (cases "map_of (map (\<lambda>((c, k), p). ((ustr c, ustr k), p)) CITIES)
    (casefold m (strip (city a)), upper m (strip (country_code a)))")
  case None
  from derive_in_box [OF assms(2), of sha256] assms(3) obtain c where
    c: "derive m sha256 a = Inr c" "in_box c" by blast
  then have "mock_geocode m sha256 a = Inr c" using assms(1) None by (simp add: mock_geocode_def)
  moreover from to_point_of_coordinates [OF in_box_valid [OF c(2)]] obtain pt where
    "to_point (lon c) (lat c) = Inr pt" by blast
  ultimately show ?thesis using c(2) by blast
next
  case (Some p)
  obtain la lo where p: "p = (la, lo)" by (cases p)
  note v = cities_valid [OF Some [unfolded p]]
  then have "mock_geocode m sha256 a = Inr \<lparr>lat = la, lon = lo\<rparr>"
    using assms(1) Some p by (simp add: mock_geocode_def)
  with v to_point_of_coordinates [OF conjunct1 [OF v]] show ?thesis
    by (intro exI [of _ "\<lparr>lat = la, lon = lo\<rparr>"] exI [of _ "(lo, la)"]) simp
qed

definition ascii_maps :: case_maps where
  "ascii_maps = \<lparr>casefold = map (\<lambda>c. if 65 \<le> c \<and> c \<le> 90 then c + 32 else c), upper = map ascii_upper\<rparr>"

definition nowhere :: postal_address where
  "nowhere = \<lparr>line1 = ustr ''17 Nowhere Lane'', city = ustr ''Fictionville'', postal_code = ustr ''ZZ999'',
     country_code = ustr ''ES'', line2 = None\<rparr>"

theorem mock_geocoder_places_every_address_witness:
  "\<exists>c pt. mock_geocode ascii_maps (\<lambda>bs. take 32 (bs @ replicate 32 0)) nowhere = Inr c \<and>
     to_point (lon c) (lat c) = Inr pt \<and> (in_box c \<or> (lat c, lon c) \<in> snd ` set CITIES)"
proof (rule mock_geocoder_places_every_address [where bs = "ustr ''17 nowhere lane|fictionville|zz999|ES''"])
  show "strip (city nowhere) \<noteq> []" by (simp add: nowhere_def strip_def is_space_def ustr_def)
  show "utf8 (normalized_key ascii_maps nowhere) = Inr (ustr ''17 nowhere lane|fictionville|zz999|ES'')"
    by (simp add: nowhere_def normalized_key_def norm_field_def ascii_maps_def strip_def is_space_def ustr_def
        utf8_def utf8_char_def ascii_upper_def)
qed (simp add: ustr_def)

end
