(* ===== verification/Saga_Book.thy ===== *)
theory Saga_Book
  imports System
begin

text \<open>
  The abstract specification of the shop: a book that knows of every order whether it awaits its
  money, is sold or was refused, what the provider answered, how many units are kept for it and
  whether its sale has been announced, and what is on the shelf. No tables, keys, transactions or clocks. The running system
  of \<open>System\<close> refines it: every step is a step of the book or leaves it as it is.
\<close>

section \<open>The book\<close>

datatype stage = Awaiting | Sold | Refused

record book =
  stages :: "uuid \<Rightarrow> stage option"
  answers :: "uuid \<Rightarrow> payment_outcome option"
  kept :: "uuid \<Rightarrow> uuid \<times> uuid \<Rightarrow> int"
  shelf :: "uuid \<times> uuid \<Rightarrow> int"
  untold :: "uuid set"
  told :: "uuid set"

definition kept_in_all :: "book \<Rightarrow> uuid \<times> uuid \<Rightarrow> int" where
  "kept_in_all b k = (\<Sum>x \<in> dom (stages b). kept b x k)"

inductive book_step :: "book \<Rightarrow> book \<Rightarrow> bool" where
  Take: "stages b x = None \<Longrightarrow> answers b x = None \<Longrightarrow>
    (\<And>k. 0 \<le> hold k \<and> kept_in_all b k + hold k \<le> shelf b k) \<Longrightarrow>
    book_step b (b\<lparr>stages := (stages b)(x \<mapsto> Awaiting), kept := (kept b)(x := hold)\<rparr>)"
| Ask: "stages b x = Some Awaiting \<Longrightarrow> answers b x = None \<Longrightarrow>
    book_step b (b\<lparr>answers := (answers b)(x \<mapsto> a)\<rparr>)"
| Sell: "stages b x = Some Awaiting \<Longrightarrow> answers b x = Some Outcome_succeeded \<Longrightarrow>
    book_step b (b\<lparr>stages := (stages b)(x \<mapsto> Sold), untold := insert x (untold b)\<rparr>)"
| Refuse: "stages b x = Some Awaiting \<Longrightarrow> answers b x = Some Outcome_declined \<Longrightarrow>
    book_step b (b\<lparr>stages := (stages b)(x \<mapsto> Refused), kept := (kept b)(x := (\<lambda>_. 0))\<rparr>)"
| Expire: "(\<And>x k. 0 \<le> kept' x k \<and> kept' x k \<le> kept b x k) \<Longrightarrow>
    (\<And>x. stages b x \<noteq> Some Awaiting \<Longrightarrow> kept' x = kept b x) \<Longrightarrow>
    book_step b (b\<lparr>kept := kept'\<rparr>)"
| Restock: "(\<And>k. kept_in_all b k \<le> shelf' k) \<Longrightarrow> book_step b (b\<lparr>shelf := shelf'\<rparr>)"
| Tell: "S \<subseteq> untold b \<Longrightarrow> book_step b (b\<lparr>untold := untold b - S, told := told b \<union> S\<rparr>)"

definition blank :: "book \<Rightarrow> bool" where
  "blank b \<longleftrightarrow> (\<forall>x. stages b x = None \<and> answers b x = None \<and> kept b x = (\<lambda>_. 0)) \<and>
     (\<forall>k. 0 \<le> shelf b k) \<and> untold b = {} \<and> told b = {}"

text \<open>What the book promises of itself.\<close>

definition book_ok :: "book \<Rightarrow> bool" where
  "book_ok b \<longleftrightarrow> finite (dom (stages b)) \<and> (\<forall>k. kept_in_all b k \<le> shelf b k) \<and>
     (\<forall>x. stages b x = Some Sold \<longrightarrow> answers b x = Some Outcome_succeeded) \<and>
     (\<forall>x. stages b x = Some Refused \<longrightarrow> answers b x = Some Outcome_declined \<and> kept b x = (\<lambda>_. 0)) \<and>
     untold b \<inter> told b = {} \<and> untold b \<union> told b = {x. stages b x = Some Sold}"

lemma blank_ok: "blank b \<Longrightarrow> book_ok b"
proof -
  assume b: "blank b"
  then have "stages b = Map.empty" by (auto simp: blank_def)
  with b show ?thesis by (auto simp: blank_def book_ok_def kept_in_all_def)
qed

lemma kept_in_all_take:
  assumes "finite (dom (stages b))" and "stages b x = None"
  shows "kept_in_all (b\<lparr>stages := (stages b)(x \<mapsto> st), kept := (kept b)(x := hold)\<rparr>) k = kept_in_all b k + hold k"
proof -
  have "x \<notin> dom (stages b)" using assms(2) by auto
  moreover from this have "(\<Sum>y \<in> dom (stages b). ((kept b)(x := hold)) y k) = (\<Sum>y \<in> dom (stages b). kept b y k)"
    by (intro sum.cong) auto
  ultimately show ?thesis using assms(1) by (simp add: kept_in_all_def)
qed

lemma kept_in_all_le:
  assumes "book_ok b" and "dom (stages c) = dom (stages b)" and "shelf c = shelf b"
    and "\<And>x k. kept c x k \<le> kept b x k"
  shows "\<forall>k. kept_in_all c k \<le> shelf c k"
proof
  fix k
  have "kept_in_all c k \<le> kept_in_all b k" using assms(2,4) by (simp add: kept_in_all_def sum_mono)
  moreover have "kept_in_all b k \<le> shelf b k" using assms(1) unfolding book_ok_def by blast
  ultimately show "kept_in_all c k \<le> shelf c k" by (simp add: assms(3))
qed

text \<open>Every step keeps the promises; what is settled, answered or told stays so.\<close>

lemma book_step_settled:
  assumes "book_step b c" and "book_ok b"
  shows "stages b x \<in> {Some Sold, Some Refused} \<Longrightarrow> stages c x = stages b x \<and> kept c x = kept b x"
    and "answers b x = Some a \<Longrightarrow> answers c x = Some a"
    and "told b \<subseteq> told c"
  using assms by (induction rule: book_step.induct) auto

lemmas book_step_cases = book_step.cases [consumes 1, case_names Take Ask Sell Refuse Expire Restock Tell]

lemma book_step_ok:
  assumes "book_step b c" and ok: "book_ok b" and nn: "\<forall>x k. 0 \<le> kept b x k"
  shows "book_ok c \<and> (\<forall>x k. 0 \<le> kept c x k)"
  using assms(1)
proof (cases rule: book_step_cases)
  case (Take x hold)
  have "finite (dom (stages b))" using ok by (simp add: book_ok_def)
  with Take ok nn show ?thesis by (auto simp: book_ok_def kept_in_all_take)
next
  case (Ask x a)
  have "kept_in_all c = kept_in_all b" using Ask by (simp add: kept_in_all_def fun_eq_iff)
  with Ask ok nn show ?thesis by (auto simp: book_ok_def)
next
  case (Sell x)
  have "\<forall>k. kept_in_all c k \<le> shelf c k"
    by (rule kept_in_all_le [OF ok]) (use Sell in auto)
  with Sell ok nn show ?thesis by (auto simp: book_ok_def)
next
  case (Refuse x)
  have "\<forall>k. kept_in_all c k \<le> shelf c k"
    by (rule kept_in_all_le [OF ok]) (use Refuse nn in auto)
  with Refuse ok nn show ?thesis by (auto simp: book_ok_def)
next
  case (Expire kept')
  have "\<forall>k. kept_in_all c k \<le> shelf c k"
    by (rule kept_in_all_le [OF ok]) (use Expire in auto)
  with Expire ok nn show ?thesis by (auto simp: book_ok_def)
next
  case (Restock shelf')
  have "kept_in_all c = kept_in_all b" using Restock by (simp add: kept_in_all_def fun_eq_iff)
  with Restock ok nn show ?thesis by (auto simp: book_ok_def)
next
  case (Tell S)
  have "kept_in_all c = kept_in_all b" using Tell by (simp add: kept_in_all_def fun_eq_iff)
  with Tell ok nn show ?thesis by (auto simp: book_ok_def)
qed

section \<open>The book of a system\<close>

definition stage_of :: "order_status \<Rightarrow> stage" where
  "stage_of st = (case st of Confirmed \<Rightarrow> Sold | Payment_failed \<Rightarrow> Refused | _ \<Rightarrow> Awaiting)"

definition units_kept :: "db \<Rightarrow> uuid \<Rightarrow> uuid \<times> uuid \<Rightarrow> int" where
  "units_kept d x k = sum_where sr_quantity
     (\<lambda>r. (holding r \<and> (sr_warehouse_id r, sr_product_id r) = k) \<and> sr_order_id r = x) (stock_reservations d)"

definition units_on_hand :: "db \<Rightarrow> uuid \<times> uuid \<Rightarrow> int" where
  "units_on_hand d k = sum_where on_hand (\<lambda>i. inv_key i = k) (inventory d)"

definition stages_of :: "db \<Rightarrow> uuid \<Rightarrow> stage option" where
  "stages_of d = map_of (map (\<lambda>r. (o_id r, stage_of (o_status r))) (orders d))"

definition announced :: "(outbox_row \<Rightarrow> bool) \<Rightarrow> db \<Rightarrow> uuid set" where
  "announced p d = aggregate_id ` set (filter p (outbox d))"

definition answers_of :: "uuid set \<Rightarrow> mock \<Rightarrow> uuid \<Rightarrow> payment_outcome option" where
  "answers_of ids p x = (if x \<in> ids then map_option outcome (results p (uuid_str x)) else None)"

definition book_of :: "system \<Rightarrow> book" where
  "book_of s =
     \<lparr>stages = stages_of (sys_db s),
      answers = answers_of (o_id ` set (orders (sys_db s))) (sys_provider s),
      kept = units_kept (sys_db s), shelf = units_on_hand (sys_db s),
      untold = announced (\<lambda>e. processed_at e = None) (sys_db s),
      told = announced (\<lambda>e. processed_at e \<noteq> None) (sys_db s)\<rparr>"

lemma stages_of_Some:
  assumes "distinct (map o_id (orders d))"
  shows "stages_of d x = Some st \<longleftrightarrow> (\<exists>r \<in> set (orders d). o_id r = x \<and> stage_of (o_status r) = st)"
proof -
  have "distinct (map fst (map (\<lambda>r. (o_id r, stage_of (o_status r))) (orders d)))"
    using assms by (simp add: comp_def)
  then show ?thesis unfolding stages_of_def by (auto simp: image_iff)
qed

lemma stages_of_dom [simp]: "dom (stages_of d) = o_id ` set (orders d)"
  by (auto simp: stages_of_def dom_map_of_conv_image_fst image_image)

lemma stages_of_None: "stages_of d x = None \<longleftrightarrow> x \<notin> o_id ` set (orders d)"
  using stages_of_dom [of d] by (metis domIff)

lemma stages_of_take:
  "orders d' = orders d @ [ord] \<Longrightarrow> \<forall>r \<in> set (orders d). o_id r \<noteq> o_id ord \<Longrightarrow>
     stages_of d' = (stages_of d)(o_id ord \<mapsto> stage_of (o_status ord))"
proof -
  assume a: "orders d' = orders d @ [ord]" "\<forall>r \<in> set (orders d). o_id r \<noteq> o_id ord"
  have "o_id ord \<notin> o_id ` set rows \<Longrightarrow> map_of (map (\<lambda>r. (o_id r, stage_of (o_status r))) (rows @ [ord])) =
      (map_of (map (\<lambda>r. (o_id r, stage_of (o_status r))) rows))(o_id ord \<mapsto> stage_of (o_status ord))" for rows
    by (induction rows) (auto simp: fun_upd_twist)
  moreover have "o_id ord \<notin> o_id ` set (orders d)" using a(2) by auto
  ultimately show ?thesis by (simp only: stages_of_def a(1))
qed

lemma stages_of_move:
  assumes "orders d' = at_status x st d" and "x \<in> o_id ` set (orders d)"
  shows "stages_of d' = (stages_of d)(x \<mapsto> stage_of st)"
proof -
  have *: "map_of (map (\<lambda>r. (o_id r, stage_of (o_status r)))
      (upd (\<lambda>r. o_id r = x) (\<lambda>r. r\<lparr>o_status := st, o_updated_at := db_now d\<rparr>) rows)) y =
    (if y = x \<and> x \<in> o_id ` set rows then Some (stage_of st)
     else map_of (map (\<lambda>r. (o_id r, stage_of (o_status r))) rows) y)" for y rows
    by (induction rows) auto
  show ?thesis using assms by (auto simp: stages_of_def at_status_def * fun_eq_iff)
qed

lemma sum_where_partition:
  assumes "finite A" and "\<forall>r \<in> set rows. key r \<in> A"
  shows "(\<Sum>x \<in> A. sum_where g (\<lambda>r. p r \<and> key r = x) rows) = sum_where g p rows"
  using assms(2)
proof (induction rows)
  case (Cons r rows)
  have "(\<Sum>x \<in> A. if p r \<and> key r = x then g r else 0) = (if p r then g r else 0)"
    using Cons.prems assms(1) by (simp add: sum.delta)
  with Cons show ?case by (simp add: sum.distrib)
qed simp

text \<open>What is kept for all orders is what the ledger counts as held, so it fits on the shelf.\<close>

lemma kept_on_shelf:
  assumes "db_inv d"
  shows "(\<Sum>x \<in> o_id ` set (orders d). units_kept d x k) \<le> units_on_hand d k" and "0 \<le> units_kept d x k"
proof -
  note i = assms [unfolded db_inv_def ledger_ok_iff]
  obtain w p where k: "k = (w, p)" by fastforce
  have "\<forall>r \<in> set (stock_reservations d). sr_order_id r \<in> o_id ` set (orders d)"
    unfolding holds_ok_def using i [unfolded holds_ok_def] by (metis imageI)
  then have "(\<Sum>x \<in> o_id ` set (orders d). units_kept d x k) = held d w p"
    unfolding units_kept_def by (subst sum_where_partition) (simp_all add: held_def k)
  also have "held d w p \<le> reserved_at d w p" using i by blast
  also have "\<dots> \<le> units_on_hand d k"
  proof -
    have "sum_where reserved q rows \<le> sum_where on_hand q rows" if "\<forall>j \<in> set rows. reserved j \<le> on_hand j" for q rows
      using that by (induction rows) auto
    moreover have "\<forall>j \<in> set (inventory d). reserved j \<le> on_hand j"
      using i table_ok_bounds [of d] by (simp add: inventory_bounds_def list_all_iff)
    ultimately show ?thesis by (simp add: reserved_at_def units_on_hand_def k)
  qed
  finally show "(\<Sum>x \<in> o_id ` set (orders d). units_kept d x k) \<le> units_on_hand d k" .
  show "0 \<le> units_kept d x k" unfolding units_kept_def
    using i by (intro sum_where_nonneg) (auto simp: table_ok_def list_all_iff reservation_row_ok)
qed

lemma same_shelf:
  assumes "map inv_key (inventory d') = map inv_key (inventory d)" "map on_hand (inventory d') = map on_hand (inventory d)"
  shows "units_on_hand d' = units_on_hand d"
proof
  fix k
  have "sum_where on_hand (\<lambda>i. inv_key i = k) rows =
      sum_where snd (\<lambda>x. fst x = k) (zip (map inv_key rows) (map on_hand rows))" for rows
    by (induction rows) auto
  then show "units_on_hand d' k = units_on_hand d k" unfolding units_on_hand_def by (simp only: assms)
qed

lemma creation_shelf:
  assumes "create_from_reads env cid addr items pt seen priced d = Inr (ord, d')"
  shows "map inv_key (inventory d') = map inv_key (inventory d) \<and>
    map on_hand (inventory d') = map on_hand (inventory d)"
proof (rule create_from_reads_calls [OF assms])
  fix cand tot o1 d1 d2 res d3
  assume "create_order cid (cand_id cand) addr pt
      (hd (basket_currencies (get_by_ids (set (map product_id items)) priced) items)) tot d = Inr (o1, d1)"
    and "add_items (o_id o1) (get_by_ids (set (map product_id items)) priced)
      (map (\<lambda>i. (product_id i, quantity i)) items) d1 = Inr d2"
    and res: "reserve_stock (reservation_ttl_seconds env) (o_id o1) (cand_id cand) items d2 = Inr (res, d3)"
    and "transition (o_id o1) Pending Reserved (Some ''stock reserved'') d3 = Inr d'"
  then have "inventory d1 = inventory d" "inventory d2 = inventory d1" "inventory d' = inventory d3"
    by (auto dest: create_order_Inr(2) add_items_Inr transition_Inr(3))
  then show ?thesis using only_stock_frame(13,14) [OF reserve_stock_only_stock [OF res]] by simp
qed

lemma checkout_tx1_from_reads_stock_rows:
  assumes "checkout_tx1_from_reads env rq pt seen priced d = Inr ((ord, pay), d')"
  shows "map inv_key (inventory d') = map inv_key (inventory d)" "map on_hand (inventory d') = map on_hand (inventory d)"
proof -
  from checkout_tx1_from_reads_Inr [OF assms] obtain d1 d2 where
    d1: "claim_key (rq_key rq) (rq_hash rq) d = Inr d1" and
    d2: "create_from_reads env (rq_customer rq) (rq_address rq) (rq_items rq) pt seen priced d1 = Inr (ord, d2)" and
    d3: "create_pending (o_id ord) (o_total_minor ord) (o_currency ord)
           (''Order '' @ uuid_str (o_id ord)) ''mock'' d2 = Inr (pay, d')" .
  have "inventory d' = inventory d2" using d3 by (auto simp: create_pending_Inr)
  moreover have "map inv_key (inventory d2) = map inv_key (inventory d1)"
    "map on_hand (inventory d2) = map on_hand (inventory d1)"
    using creation_shelf [OF d2] by simp_all
  moreover have "inventory d1 = inventory d" using only_keys_frame [OF claim_key_only_keys [OF d1]] by simp
  ultimately show "map inv_key (inventory d') = map inv_key (inventory d)"
    "map on_hand (inventory d') = map on_hand (inventory d)" by simp_all
qed

lemmas checkout_tx1_from_reads_shelf = same_shelf [OF checkout_tx1_from_reads_stock_rows]

lemma compensate_stock_rows:
  assumes c: "compensate ord pid result key d = Inr d'" and "ledger_ok d"
  shows "map inv_key (inventory d') = map inv_key (inventory d)" "map on_hand (inventory d') = map on_hand (inventory d)"
proof -
  from c obtain d1 rel d2 d3 where
    d1: "mark_payment_failed pid (or_else (failure_reason result) ''declined'')
           (card_brand result) (card_last4 result) d = Inr d1" and
    d2: "release_reservation (o_id ord) d1 = Inr (rel, d2)" and
    d3: "transition (o_id ord) Reserved Payment_failed
           (Some (or_else (failure_reason result) ''declined'')) d2 = Inr d3" and
    d4: "mark_key_failed key (Some (o_id ord)) d3 = Inr d'"
    by (auto simp: compensate_def bind_r_Inr)
  have e1: "d1 = d\<lparr>payments := upd (\<lambda>r. pay_id r = pid) (declined result (db_now d)) (payments d)\<rparr>"
    using update_payment_Inr [OF d1 [unfolded mark_payment_failed_def]] by (simp add: declined_def [abs_def])
  have led1: "ledger_ok d1" using assms(2) by (rule ledger_ok_orders_grow) (simp_all add: e1)
  note fr = only_stock_frame [OF release_effect(4) [OF d2 led1]]
  have "inventory d' = inventory d2" using transition_Inr(3) [OF d3] mark_key_failed_Inr [OF d4] by simp
  with fr show "map inv_key (inventory d') = map inv_key (inventory d)"
    "map on_hand (inventory d') = map on_hand (inventory d)" by (simp_all add: e1)
qed

lemmas compensate_shelf = same_shelf [OF compensate_stock_rows]

section \<open>What the steps do to the book\<close>

lemma holding_stop [simp]: "holding (stop_holding st t r) \<longleftrightarrow> st = Active \<or> st = Committed"
  by (simp add: holding_def stop_holding_def)

lemma units_kept_other:
  assumes "stock_reservations d' = upd c (stop_holding st t) (stock_reservations d)"
    and "\<And>r. r \<in> set (stock_reservations d) \<Longrightarrow> c r \<Longrightarrow> sr_order_id r \<noteq> x"
  shows "units_kept d' x = units_kept d x"
proof
  fix k
  have "\<forall>r \<in> set rows. c r \<longrightarrow> sr_order_id r \<noteq> x \<Longrightarrow>
     sum_where sr_quantity (\<lambda>r. (holding r \<and> (sr_warehouse_id r, sr_product_id r) = k) \<and> sr_order_id r = x)
        (upd c (stop_holding st t) rows) =
     sum_where sr_quantity (\<lambda>r. (holding r \<and> (sr_warehouse_id r, sr_product_id r) = k) \<and> sr_order_id r = x) rows" for rows
    by (induction rows) auto
  with assms show "units_kept d' x k = units_kept d x k" by (simp add: units_kept_def)
qed

lemma units_kept_settled:
  assumes "stock_reservations d' = upd c (stop_holding st t) (stock_reservations d)"
    and "\<And>r. c r \<Longrightarrow> sr_status r = Active" and "\<forall>r \<in> set (stock_reservations d). 0 \<le> sr_quantity r"
  shows "units_kept d' x k \<le> units_kept d x k"
proof -
  have "\<forall>r \<in> set rows. 0 \<le> sr_quantity r \<Longrightarrow>
     sum_where sr_quantity (\<lambda>r. (holding r \<and> (sr_warehouse_id r, sr_product_id r) = k) \<and> sr_order_id r = x)
        (upd c (stop_holding st t) rows) \<le>
     sum_where sr_quantity (\<lambda>r. (holding r \<and> (sr_warehouse_id r, sr_product_id r) = k) \<and> sr_order_id r = x) rows" for rows
    by (induction rows) (use assms(2) in \<open>auto simp: holding_def stop_holding_def\<close>)
  with assms show ?thesis by (simp add: units_kept_def)
qed

lemma quantities_nonneg: "ledger_ok d \<Longrightarrow> \<forall>r \<in> set (stock_reservations d). 0 \<le> sr_quantity r"
  by (auto simp: ledger_ok_def table_ok_def list_all_iff reservation_row_ok)

lemma take_in_book:
  assumes "checkout_tx1_from_reads env rq pt seen priced (sys_db s) = Inr ((ord, pay), d')" and "sys_inv s"
    and "distinct (map product_id (rq_items rq))" and "o_id ord < 2 ^ 128"
    and t: "t = s\<lparr>sys_db := d', flights := flights s @
      [\<lparr>fl_order = ord, fl_payment = pay_id pay, fl_request = rq, fl_result = None\<rparr>]\<rparr>"
  shows "book_step (book_of s) (book_of t)"
proof -
  let ?d = "sys_db s" and ?x = "o_id ord"
  have inv: "db_inv ?d" and inv': "sys_inv t"
    using assms(2) begin_step [OF assms(1-4)] by (simp_all add: sys_inv_def t)
  then have led: "ledger_ok ?d" and dinv': "db_inv d'" by (simp_all add: db_inv_def sys_inv_def t)
  note e = checkout_tx1_from_reads_effect [OF assms(1) led assms(3)]
  obtain w :: warehouse_row and new where new: "stock_reservations d' = stock_reservations ?d @ new"
    "map reservation_content new = map (\<lambda>i. (?x, wh_id w, product_id i, quantity i, Active,
       db_now ?d + seconds (reservation_ttl_seconds env))) (lock_order (rq_items rq) (wh_id w))"
    using checkout_tx1_from_reads_rows(3) [OF assms(1) led assms(3)] by blast
  have mine: "sr_order_id r = ?x" if "r \<in> set new" for r
  proof -
    have "reservation_content r \<in> set (map reservation_content new)" using that by simp
    then show ?thesis unfolding new(2) by (auto simp: reservation_content_def)
  qed
  have other: "units_kept d' x k = units_kept ?d x k" if "x \<noteq> ?x" for x k
    using mine that by (simp add: units_kept_def new(1)) (rule sum_where_none, auto)
  have fresh: "?x \<notin> o_id ` set (orders ?d)" using e(3) by auto
  have none: "results (sys_provider s) (uuid_str ?x) = None"
    using inv' by (simp add: sys_inv_def provider_ok_def t)
  have "0 \<le> units_kept d' ?x k \<and> kept_in_all (book_of s) k + units_kept d' ?x k \<le> units_on_hand ?d k" for k
  proof -
    have "(\<Sum>x \<in> o_id ` set (orders ?d). units_kept d' x k) = (\<Sum>x \<in> o_id ` set (orders ?d). units_kept ?d x k)"
    proof (rule sum.cong [OF refl])
      fix x assume "x \<in> o_id ` set (orders ?d)"
      with fresh have "x \<noteq> ?x" by blast
      then show "units_kept d' x k = units_kept ?d x k" by (rule other)
    qed
    then have "kept_in_all (book_of s) k + units_kept d' ?x k = (\<Sum>x \<in> o_id ` set (orders d'). units_kept d' x k)"
      using fresh by (simp add: kept_in_all_def book_of_def e(1))
    with kept_on_shelf(1) [OF dinv', of k] kept_on_shelf(2) [OF dinv', of ?x k] checkout_tx1_from_reads_shelf [OF assms(1) assms(1)]
    show ?thesis by simp
  qed
  then have "book_step (book_of s) ((book_of s)\<lparr>stages := (stages (book_of s))(?x \<mapsto> Awaiting),
      kept := (kept (book_of s))(?x := units_kept d' ?x)\<rparr>)"
    by (intro book_step.Take) (use fresh in \<open>simp_all add: book_of_def answers_of_def stages_of_None\<close>)
  moreover have "stages_of d' = (stages_of ?d)(?x \<mapsto> Awaiting)"
    using stages_of_take [OF e(1,3)] e(2) by (simp add: stage_of_def)
  moreover have "units_kept d' = (units_kept ?d)(?x := units_kept d' ?x)" using other by (auto simp: fun_eq_iff)
  moreover have "answers_of (o_id ` set (orders d')) (sys_provider s) = answers_of (o_id ` set (orders ?d)) (sys_provider s)"
    using none by (auto simp: answers_of_def e(1))
  ultimately show ?thesis using checkout_tx1_from_reads_shelf [OF assms(1) assms(1)]
    by (simp add: book_of_def t announced_def e(13))
qed

lemma ask_in_book:
  assumes f: "flights s = fs @ f # gs" "fl_result f = None" and inv: "sys_inv s"
    and ch: "mock_charge (charge_request_of (fl_request f) (fl_order f)) (sys_provider s) = (result, p')"
  shows "book_step (book_of s) (book_of (s\<lparr>flights := fs @ f\<lparr>fl_result := Some result\<rparr> # gs, sys_provider := p'\<rparr>))"
proof -
  let ?d = "sys_db s" and ?p = "sys_provider s" and ?x = "o_id (fl_order f)"
  have dinv: "db_inv ?d" and fl: "flights_ok ?d (fs @ f # gs)" and pr: "provider_ok ?d (fs @ f # gs) ?p"
    using inv f by (simp_all add: sys_inv_def)
  have none: "results ?p (uuid_str ?x) = None" using pr f(2) by (simp add: provider_ok_def)
  have p': "results p' = (results ?p)(uuid_str ?x \<mapsto> result)"
    using ch none mock_charge_new [of ?p "charge_request_of (fl_request f) (fl_order f)"]
    by (auto simp: charge_request_of_def)
  obtain r where r: "r \<in> set (orders ?d)" "o_id r = ?x" "o_status r = Reserved"
    using fl by (auto simp: flights_ok_def)
  have mem: "?x \<in> o_id ` set (orders ?d)" using r(1,2) by (metis imageI)
  moreover have "\<forall>y \<in> o_id ` set (orders ?d). y < 2 ^ 128" using dinv by (simp add: db_inv_def)
  ultimately have same: "(uuid_str x = uuid_str ?x) = (x = ?x)" if "x \<in> o_id ` set (orders ?d)" for x
    using uuid_str_inj [of x ?x] that by blast
  have stage: "stages_of ?d ?x = Some Awaiting"
    using stages_of_Some [of ?d ?x Awaiting] dinv r by (auto simp: db_inv_def stage_of_def)
  from mem have "answers_of (o_id ` set (orders ?d)) p' = (answers_of (o_id ` set (orders ?d)) ?p)(?x \<mapsto> outcome result)"
    using same by (auto simp: p' fun_eq_iff answers_of_def)
  moreover have "book_step (book_of s) ((book_of s)\<lparr>answers := (answers (book_of s))(?x \<mapsto> outcome result)\<rparr>)"
    by (rule book_step.Ask) (use stage none in \<open>simp_all add: book_of_def answers_of_def\<close>)
  ultimately show ?thesis by (simp add: book_of_def)
qed

text \<open>What the book says of the order of a flight that has its answer.\<close>

lemma answered_flight:
  assumes "flights s = fs @ f # gs" and "fl_result f = Some result" and "sys_inv s"
  shows "stages (book_of s) (o_id (fl_order f)) = Some Awaiting"
    and "answers (book_of s) (o_id (fl_order f)) = Some (outcome result)"
    and "o_id (fl_order f) \<in> o_id ` set (orders (sys_db s))"
proof -
  have dinv: "db_inv (sys_db s)" and fl: "flights_ok (sys_db s) (fs @ f # gs)"
    and pr: "provider_ok (sys_db s) (fs @ f # gs) (sys_provider s)"
    using assms(1,3) by (simp_all add: sys_inv_def)
  obtain r where r: "r \<in> set (orders (sys_db s))" "o_id r = o_id (fl_order f)" "o_status r = Reserved"
    using fl by (auto simp: flights_ok_def)
  then show mem: "o_id (fl_order f) \<in> o_id ` set (orders (sys_db s))" by (metis imageI)
  show "stages (book_of s) (o_id (fl_order f)) = Some Awaiting"
    using stages_of_Some [of "sys_db s" "o_id (fl_order f)" Awaiting] dinv r
    by (auto simp: db_inv_def stage_of_def book_of_def)
  show "answers (book_of s) (o_id (fl_order f)) = Some (outcome result)"
    using pr assms(2) mem by (simp add: book_of_def answers_of_def provider_ok_def)
qed

lemma sell_in_book:
  assumes f: "flights s = fs @ f # gs" "fl_result f = Some result" and inv: "sys_inv s"
    and out: "outcome result = Outcome_succeeded"
    and c: "complete (fl_order f) pid result key (sys_db s) = Inr (body, d')"
  shows "book_step (book_of s) (book_of (s\<lparr>sys_db := d', flights := fs @ gs\<rparr>))"
proof -
  let ?d = "sys_db s" and ?x = "o_id (fl_order f)"
  note a = answered_flight [OF f inv]
  have dist: "distinct (map o_id (orders ?d))" using inv by (simp add: sys_inv_def db_inv_def)
  note e = complete_effect [OF c dist]
  have ids: "o_id ` set (orders d') = o_id ` set (orders ?d)" by (simp add: e(1))
  have "units_kept d' x k = units_kept ?d x k" for x k
    unfolding units_kept_def e(4) by (rule sum_where_upd_frame) (auto simp: holding_def stop_holding_def)
  then have units: "units_kept d' = units_kept ?d" by (simp add: fun_eq_iff)
  have stages: "stages_of d' = (stages_of ?d)(?x \<mapsto> Sold)"
    using stages_of_move [OF e(1) a(3)] by (simp add: stage_of_def)
  obtain ev where ev: "outbox d' = outbox ?d @ [ev]" "aggregate_id ev = ?x" "processed_at ev = None"
    using e(6) by blast
  have "announced p d' = announced p ?d \<union> (if p ev then {?x} else {})" for p
    by (auto simp: announced_def ev(1) ev(2) [symmetric])
  then have "book_of (s\<lparr>sys_db := d', flights := fs @ gs\<rparr>) = (book_of s)
      \<lparr>stages := (stages (book_of s))(?x \<mapsto> Sold), untold := insert ?x (untold (book_of s))\<rparr>"
    using ev(3) by (simp add: book_of_def stages units ids units_on_hand_def [abs_def] e(5))
  moreover have "book_step (book_of s) \<dots>" by (rule book_step.Sell) (use a out in simp_all)
  ultimately show ?thesis by simp
qed

lemma refuse_in_book:
  assumes f: "flights s = fs @ f # gs" "fl_result f = Some result" and inv: "sys_inv s"
    and out: "outcome result = Outcome_declined"
    and c: "compensate (fl_order f) pid result key (sys_db s) = Inr d'"
  shows "book_step (book_of s) (book_of (s\<lparr>sys_db := d', flights := fs @ gs\<rparr>))"
proof -
  let ?d = "sys_db s" and ?x = "o_id (fl_order f)"
  note a = answered_flight [OF f inv]
  have i: "db_inv ?d" using inv by (simp add: sys_inv_def)
  then have dist: "distinct (map o_id (orders ?d))" and led: "ledger_ok ?d" by (simp_all add: db_inv_def)
  note e = compensate_effect [OF c dist led]
  obtain r where r: "r \<in> set (orders ?d)" "o_id r = ?x" "o_status r = Reserved" using e(2) by blast
  have ids: "o_id ` set (orders d') = o_id ` set (orders ?d)" by (simp add: e(1))
  have "units_kept d' x = units_kept ?d x" if "x \<noteq> ?x" for x
    by (rule units_kept_other [OF e(4)]) (use that in auto)
  moreover have "units_kept d' ?x = (\<lambda>_. 0)"
  proof
    fix k
    have "\<not> holding q" if q: "q \<in> set (stock_reservations d')" "sr_order_id q = ?x" for q
    proof -
      obtain p where p: "p \<in> set (stock_reservations ?d)" "q = (if sr_order_id p = ?x \<and> sr_status p = Active
          then stop_holding Released (db_now ?d) p else p)" using q(1) by (auto simp: e(4) set_upd)
      then obtain y where y: "y \<in> set (orders ?d)" "o_id y = sr_order_id p" "sr_status p = Committed \<longrightarrow> o_status y = Confirmed"
        using i by (auto simp: db_inv_def holds_ok_def)
      have po: "sr_order_id p = ?x" using p(2) q(2) by (auto split: if_splits)
      with distinct_key_unique [OF dist y(1) r(1)] y(2) r(2) have "y = r" by simp
      with y(3) r(3) have "sr_status p \<noteq> Committed" by auto
      with p(2) po show ?thesis by (auto simp: holding_def stop_holding_def)
    qed
    then show "units_kept d' ?x k = 0" unfolding units_kept_def by (intro sum_where_none) auto
  qed
  ultimately have units: "units_kept d' = (units_kept ?d)(?x := (\<lambda>_. 0))" by (auto simp: fun_eq_iff)
  have stages: "stages_of d' = (stages_of ?d)(?x \<mapsto> Refused)"
    using stages_of_move [OF e(1) a(3)] by (simp add: stage_of_def)
  have "book_of (s\<lparr>sys_db := d', flights := fs @ gs\<rparr>) = (book_of s)
      \<lparr>stages := (stages (book_of s))(?x \<mapsto> Refused), kept := (kept (book_of s))(?x := (\<lambda>_. 0))\<rparr>"
    by (simp add: book_of_def stages units ids compensate_shelf [OF c led c led] announced_def e(8))
  moreover have "book_step (book_of s) \<dots>" by (rule book_step.Refuse) (use a out in simp_all)
  ultimately show ?thesis by simp
qed

lemma expire_in_book:
  assumes sw: "sweep_expired batch (sys_db s) = Inr (rel, d')" and inv: "sys_inv s"
  shows "book_step (book_of s) (book_of (s\<lparr>sys_db := d'\<rparr>))"
proof -
  let ?d = "sys_db s"
  have i: "db_inv ?d" and i': "db_inv d'" using inv sweep_step [OF sw inv] by (simp_all add: sys_inv_def)
  then have led: "ledger_ok ?d" and dist: "distinct (map o_id (orders ?d))" by (simp_all add: db_inv_def)
  note e = sweep_effect [OF sw led]
  note fr = only_stock_frame [OF e(4)]
  have "units_kept d' x k \<le> units_kept ?d x k" for x k
    by (rule units_kept_settled [OF e(2) _ quantities_nonneg [OF led]]) simp
  moreover have "units_kept d' x = units_kept ?d x" if x: "stages_of ?d x \<noteq> Some Awaiting" for x
  proof (rule units_kept_other [OF e(2)])
    fix r assume r: "r \<in> set (stock_reservations ?d)" "sr_status r = Active \<and> sr_id r \<in> set (expired_ids batch ?d)"
    then obtain y where "y \<in> set (orders ?d)" "o_id y = sr_order_id r" "o_status y = Reserved"
      using i by (auto simp: db_inv_def holds_ok_def)
    then have "stages_of ?d (sr_order_id r) = Some Awaiting"
      unfolding stages_of_Some [OF dist] by (auto simp: stage_of_def)
    with x show "sr_order_id r \<noteq> x" by auto
  qed
  ultimately have "book_step (book_of s) ((book_of s)\<lparr>kept := units_kept d'\<rparr>)"
    by (intro book_step.Expire) (use kept_on_shelf(2) [OF i'] in \<open>auto simp: book_of_def\<close>)
  moreover have "book_of (s\<lparr>sys_db := d'\<rparr>) = (book_of s)\<lparr>kept := units_kept d'\<rparr>"
    using same_shelf [OF fr(13,14)] by (simp add: book_of_def stages_of_def announced_def fr)
  ultimately show ?thesis by simp
qed

lemma tell_in_book:
  assumes "mark_processed ids (sys_db s) = Inr d'" and inv: "sys_inv s"
  shows "book_step (book_of s) (book_of (s\<lparr>sys_db := d'\<rparr>))"
proof -
  let ?d = "sys_db s" and ?S = "announced (\<lambda>e. processed_at e = None \<and> ob_id e \<in> set ids) (sys_db s)"
  note d' = mark_processed_Inr [OF assms(1)]
  have "mset (map aggregate_id (outbox ?d)) = confirmed_ids ?d" and "distinct (map o_id (orders ?d))"
    using inv by (simp_all add: sys_inv_def db_inv_def money_ok_def)
  then have dist: "distinct (map aggregate_id (outbox ?d))"
    by (metis distinct_map_filter mset_eq_imp_distinct_iff)
  let ?mark = "upd (\<lambda>e. ob_id e \<in> set ids) (\<lambda>e. e\<lparr>processed_at := Some (db_now ?d), attempts := attempts e + 1\<rparr>)"
  have ob: "outbox d' = ?mark (outbox ?d)" by (simp add: d')
  have marked: "aggregate_id ` set (filter (\<lambda>e. processed_at e \<noteq> None) (?mark rows)) =
      aggregate_id ` set (filter (\<lambda>e. processed_at e \<noteq> None) rows) \<union>
      aggregate_id ` set (filter (\<lambda>e. processed_at e = None \<and> ob_id e \<in> set ids) rows)"
    for rows by (induction rows) auto
  have left: "aggregate_id ` set (filter (\<lambda>e. processed_at e = None) (?mark rows)) =
      aggregate_id ` set (filter (\<lambda>e. processed_at e = None \<and> ob_id e \<notin> set ids) rows)" for rows
    by (induction rows) auto
  have told: "announced (\<lambda>e. processed_at e \<noteq> None) d' = announced (\<lambda>e. processed_at e \<noteq> None) ?d \<union> ?S"
    unfolding announced_def ob by (rule marked)
  have apart: "aggregate_id e \<notin> ?S" if "e \<in> set (outbox ?d)" "ob_id e \<notin> set ids" for e
    using distinct_key_unique [OF dist that(1)] that(2) by (auto simp: announced_def)
  have "announced (\<lambda>e. processed_at e = None) d' = aggregate_id `
      set (filter (\<lambda>e. processed_at e = None \<and> ob_id e \<notin> set ids) (outbox ?d))"
    unfolding announced_def ob by (rule left)
  also have "\<dots> = announced (\<lambda>e. processed_at e = None) ?d - ?S"
    using apart unfolding announced_def by auto
  finally have untold: "announced (\<lambda>e. processed_at e = None) d' = announced (\<lambda>e. processed_at e = None) ?d - ?S" .
  have "?S \<subseteq> untold (book_of s)" by (auto simp: announced_def book_of_def)
  moreover have "stages_of d' = stages_of ?d" "units_kept d' = units_kept ?d" "units_on_hand d' = units_on_hand ?d"
    "orders d' = orders ?d"
    by (simp_all add: d' stages_of_def units_kept_def [abs_def] units_on_hand_def [abs_def])
  then have "book_of (s\<lparr>sys_db := d'\<rparr>) = (book_of s)\<lparr>untold := untold (book_of s) - ?S, told := told (book_of s) \<union> ?S\<rparr>"
    by (simp add: book_of_def untold told [simplified])
  ultimately show ?thesis by (simp add: book_step.Tell)
qed

lemma restock_in_book:
  assumes m: "managed (sys_db s) d'" and inv: "sys_inv s"
  shows "book_step (book_of s) (book_of (s\<lparr>sys_db := d'\<rparr>))"
proof -
  note f = managed_frame [OF m]
  have "db_inv d'" using manage_step [OF m inv] by (simp add: sys_inv_def)
  note fits = kept_on_shelf(1) [OF this]
  have same: "units_kept d' = units_kept (sys_db s)" by (simp add: units_kept_def [abs_def] f)
  have "kept_in_all (book_of s) k \<le> units_on_hand d' k" for k
    using fits [of k] by (simp add: kept_in_all_def book_of_def same f)
  from book_step.Restock [of "book_of s" "units_on_hand d'", OF this] show ?thesis
    by (simp add: book_of_def stages_of_def same announced_def f)
qed

lemma book_frame:
  assumes "orders d' = orders (sys_db s)" "stock_reservations d' = stock_reservations (sys_db s)"
    "inventory d' = inventory (sys_db s)" "outbox d' = outbox (sys_db s)"
  shows "book_of (s\<lparr>sys_db := d', flights := fl\<rparr>) = book_of s"
  by (simp add: book_of_def stages_of_def units_kept_def [abs_def] units_on_hand_def [abs_def] announced_def assms)

text \<open>Every step of the system is a step of the book or leaves it alone.\<close>

lemma step_in_book:
  assumes "sys_step env s t" and inv: "sys_inv s"
  shows "book_step (book_of s) (book_of t) \<or> book_of t = book_of s"
  using assms(1)
proof (cases rule: sys_step.cases)
  case (Begin rq co pt seen priced ord pay d')
  with take_in_book [OF Begin(5) inv Begin(4,6) refl] show ?thesis by simp
next
  case (Charge fs f gs result p')
  with ask_in_book [OF Charge(2,3) inv Charge(4)] show ?thesis by simp
next
  case (Finish fs f gs result body d')
  show ?thesis
  proof (cases "outcome result")
    case Outcome_succeeded
    with Finish(4) obtain b where "complete (fl_order f) (fl_payment f) result (rq_key (fl_request f)) (sys_db s) = Inr (b, d')"
      by (auto simp: checkout_tx2_def bind_r_Inr)
    from sell_in_book [OF Finish(2,3) inv Outcome_succeeded this] Finish(1) show ?thesis by simp
  next
    case Outcome_declined
    with Finish(4) have "compensate (fl_order f) (fl_payment f) result (rq_key (fl_request f)) (sys_db s) = Inr d'"
      by (auto simp: checkout_tx2_def bind_r_Inr)
    from refuse_in_book [OF Finish(2,3) inv Outcome_declined this] Finish(1) show ?thesis by simp
  next
    case Outcome_unknown
    with Finish(4) have "leave_unresolved (fl_payment f) result (sys_db s) = Inr d'"
      by (auto simp: checkout_tx2_def bind_r_Inr)
    note d' = leave_unresolved_effect [OF this]
    have "book_of t = book_of s" unfolding Finish(1) by (rule book_frame) (simp_all add: d')
    then show ?thesis ..
  qed
next
  case (Sweep batch rel d')
  with expire_in_book [OF Sweep(2) inv] show ?thesis by simp
next
  case (Publish batch locked d')
  with tell_in_book [OF Publish(2) inv] show ?thesis by simp
next
  case (Manage d')
  with restock_in_book [OF Manage(2) inv] show ?thesis by simp
qed (auto simp: book_of_def stages_of_def units_kept_def [abs_def] units_on_hand_def [abs_def] announced_def)

lemma run_in_book:
  assumes "reachable env s t" and "sys_inv s"
  shows "book_step\<^sup>*\<^sup>* (book_of s) (book_of t)"
  using assms
proof (induction rule: reachable.induct)
  case (Next s t u)
  with step_in_book [OF Next(2) reachable_inv [OF Next(1) Next(4)]] show ?case
    by (auto intro: rtranclp.rtrancl_into_rtrancl)
qed simp

lemma initial_blank:
  assumes "initial s"
  shows "blank (book_of s)"
proof -
  have "\<forall>i \<in> set rows. 0 \<le> on_hand i \<Longrightarrow> 0 \<le> sum_where on_hand (\<lambda>i. inv_key i = k) rows" for rows k
    by (rule sum_where_nonneg) simp
  moreover have "\<forall>i \<in> set (inventory (sys_db s)). 0 \<le> on_hand i"
    using assms table_ok_bounds [of "sys_db s"]
    by (force simp: initial_def ledger_ok_def inventory_bounds_def list_all_iff)
  ultimately show ?thesis using assms
    by (simp add: blank_def book_of_def initial_def stages_of_def answers_of_def units_kept_def [abs_def]
        units_on_hand_def announced_def)
qed

text \<open>What is settled in the book stays settled along a run of it.\<close>

lemma book_run_ok:
  assumes "book_step\<^sup>*\<^sup>* b c" and "book_ok b" and "\<forall>x k. 0 \<le> kept b x k"
  shows "book_ok c \<and> (\<forall>x k. 0 \<le> kept c x k)"
  using assms by (induction rule: rtranclp_induct) (auto dest: book_step_ok)

lemma book_run_settled:
  assumes "book_step\<^sup>*\<^sup>* b c" and "book_ok b" and "\<forall>x k. 0 \<le> kept b x k"
  shows "(stages b x \<in> {Some Sold, Some Refused} \<longrightarrow> stages c x = stages b x \<and> kept c x = kept b x) \<and>
    (\<forall>a. answers b x = Some a \<longrightarrow> answers c x = Some a) \<and> told b \<subseteq> told c"
  using assms(1)
proof (induction rule: rtranclp_induct)
  case (step c e)
  have ok: "book_ok c" using book_run_ok [OF step(1) assms(2,3)] by blast
  note s = book_step_settled [OF step(2) ok]
  have "stages c x \<in> {Some Sold, Some Refused} \<Longrightarrow> stages e x = stages c x \<and> kept e x = kept c x" by (rule s(1))
  moreover have "answers c x = Some a \<Longrightarrow> answers e x = Some a" for a by (rule s(2))
  ultimately show ?case using step(3) s(3) by auto
qed simp

end
