(* ===== verification/Consistency.thy ===== *)
theory Consistency
  imports System
begin

text \<open>
  Every statement, hence every transaction and every step of the system, keeps a database
  \<open>consistent\<close>: the rows satisfy their tables' declarations and the ids to come are unused. With it come progress lemmas: a checkout that
  has its answer can land.
\<close>

named_theorems keeps_consistent

section \<open>One table at a time\<close>

lemma table_ok_mono:
  "table_ok S rows \<Longrightarrow> (\<And>r. row_ok S r \<Longrightarrow> row_ok T r) \<Longrightarrow> uniques T = uniques S \<Longrightarrow> table_ok T rows"
  by (auto simp: table_ok_def list_all_iff)

lemma sym_specs [simp]:
  "sym_uniques (uniques (order_spec d))" "sym_uniques (uniques (order_item_spec d))"
  "sym_uniques (uniques (history_spec d))" "sym_uniques (uniques (payment_spec d))"
  "sym_uniques (uniques (reservation_spec d))" "sym_uniques (uniques (idempotency_spec d))"
  "sym_uniques (uniques outbox_spec)"
  by (auto simp: sym_uniques_def order_spec_def order_item_spec_def history_spec_def payment_spec_def
      reservation_spec_def idempotency_spec_def outbox_spec_def)

lemma db_ok_uuid_pos [simp]: "db_ok (d\<lparr>uuid_pos := n\<rparr>) = db_ok d"
  by (simp add: db_ok_def)

lemma db_ok_clock [simp]: "db_ok (d\<lparr>db_now := t\<rparr>) = db_ok d"
  by (simp add: db_ok_def)

lemma db_ok_tables:
  "db_ok d \<Longrightarrow> table_ok (inventory_spec d) iv \<Longrightarrow> db_ok (d\<lparr>inventory := iv\<rparr>)"
  "db_ok d \<Longrightarrow> table_ok (order_item_spec d) ois \<Longrightarrow> db_ok (d\<lparr>order_items := ois\<rparr>)"
  "db_ok d \<Longrightarrow> table_ok (history_spec d) hs \<Longrightarrow> db_ok (d\<lparr>order_status_history := hs\<rparr>)"
  "db_ok d \<Longrightarrow> table_ok (payment_spec d) ps \<Longrightarrow> db_ok (d\<lparr>payments := ps\<rparr>)"
  "db_ok d \<Longrightarrow> table_ok (reservation_spec d) srs \<Longrightarrow> db_ok (d\<lparr>stock_reservations := srs\<rparr>)"
  "db_ok d \<Longrightarrow> table_ok (idempotency_spec d) iks \<Longrightarrow> db_ok (d\<lparr>idempotency_keys := iks\<rparr>)"
  "db_ok d \<Longrightarrow> table_ok outbox_spec obs \<Longrightarrow> db_ok (d\<lparr>outbox := obs\<rparr>)"
  by (simp_all add: db_ok_def)

text \<open>The orders are what the other tables refer to, so they may only gain ids.\<close>

lemma db_ok_orders:
  assumes "db_ok d" and "table_ok (order_spec d) rows" and "o_id ` set (orders d) \<subseteq> o_id ` set rows"
  shows "db_ok (d\<lparr>orders := rows\<rparr>)"
proof -
  let ?d = "d\<lparr>orders := rows\<rparr>"
  note ok = assms(1) [unfolded db_ok_def]
  have "table_ok (order_item_spec ?d) (order_items d)"
    by (rule table_ok_mono [of "order_item_spec d"])
      (use ok assms(3) in \<open>auto simp: row_ok_def order_item_spec_def\<close>)
  moreover have "table_ok (history_spec ?d) (order_status_history d)"
    by (rule table_ok_mono [of "history_spec d"]) (use ok assms(3) in \<open>auto simp: row_ok_def history_spec_def\<close>)
  moreover have "table_ok (payment_spec ?d) (payments d)"
    by (rule table_ok_mono [of "payment_spec d"]) (use ok assms(3) in \<open>auto simp: row_ok_def payment_spec_def\<close>)
  moreover have "table_ok (reservation_spec ?d) (stock_reservations d)"
    by (rule table_ok_mono [of "reservation_spec d"])
      (use ok assms(3) in \<open>auto simp: row_ok_def reservation_spec_def\<close>)
  moreover have "table_ok (idempotency_spec ?d) (idempotency_keys d)"
  proof (rule table_ok_mono [of "idempotency_spec d"])
    fix r assume "row_ok (idempotency_spec d) r"
    then show "row_ok (idempotency_spec ?d) r" using assms(3) by (cases "ik_order_id r") (auto simp: idempotency_row_ok)
  qed (use ok in \<open>auto simp: idempotency_spec_def\<close>)
  ultimately show ?thesis using ok assms(2) by (simp add: db_ok_def)
qed

text \<open>An INSERT uses the id that was drawn for it, an UPDATE none.\<close>

lemma fresh_insert:
  assumes "uuids_fresh d" and "uuid_seq d' = uuid_seq d" and "uuid_pos d' = Suc (uuid_pos d)"
    and "used_ids d' \<subseteq> insert (uuid_seq d (uuid_pos d)) (used_ids d)"
  shows "uuids_fresh d'"
  by (rule uuids_fresh_step [OF assms(1,2)]) (use assms(3,4) in auto)

lemma fresh_update:
  "uuids_fresh d \<Longrightarrow> uuid_seq d' = uuid_seq d \<Longrightarrow> uuid_pos d' = uuid_pos d \<Longrightarrow> used_ids d' = used_ids d \<Longrightarrow>
     uuids_fresh d'"
  by (simp add: uuids_fresh_def)

lemma ids_of_upd: "(\<And>r. k (f r) = k r) \<Longrightarrow> k ` set (upd p f rows) = k ` set rows"
  by (metis list.set_map map_upd)

lemma consistent_draw: "consistent d \<Longrightarrow> consistent (d\<lparr>uuid_pos := Suc (uuid_pos d)\<rparr>)"
  by (auto simp: consistent_def intro: uuids_fresh_step simp: used_ids_def)

lemma consistent_clock: "consistent d \<Longrightarrow> consistent (d\<lparr>db_now := t\<rparr>)"
  by (auto simp: consistent_def intro: fresh_update simp: used_ids_def)

section \<open>The statements of the repositories\<close>

lemma history_consistent [keeps_consistent]:
  assumes "insert_history oid frm to why d = Inr d'" and "consistent d"
  shows "consistent d'"
proof -
  let ?h = "history_entry oid frm to why d"
  have d': "d' = d\<lparr>order_status_history := order_status_history d @ [?h], uuid_pos := Suc (uuid_pos d)\<rparr>"
    and ins: "insert_row (history_spec d) ?h (order_status_history d) = Inr (order_status_history d @ [?h])"
    using assms(1) by (auto simp: insert_history_Inr insert_row_Inr)
  have "table_ok (history_spec d) (order_status_history d @ [?h])"
    by (rule insert_row_table_ok [OF _ ins]) (use assms(2) in \<open>simp_all add: consistent_def db_ok_def\<close>)
  then have "db_ok d'" using assms(2) by (simp add: d' consistent_def db_ok_tables)
  moreover have "uuids_fresh d'"
    by (rule fresh_insert [of d]) (use assms(2) in \<open>auto simp: d' consistent_def used_ids_def history_entry_def\<close>)
  ultimately show ?thesis by (simp add: consistent_def)
qed

lemma transition_consistent [keeps_consistent]:
  assumes "transition oid frm to why d = Inr d'" and "consistent d"
  shows "consistent d'"
proof -
  let ?d1 = "d\<lparr>orders := moved_orders oid frm to d\<rparr>"
  obtain ret where "update_rows (order_spec d) (\<lambda>r. o_id r = oid \<and> o_status r = frm)
      (\<lambda>r. r\<lparr>o_status := to, o_updated_at := db_now d\<rparr>) (orders d) = Inr (ret, moved_orders oid frm to d)"
    and h: "insert_history oid (Some frm) to why ?d1 = Inr d'"
    using assms(1) by (auto simp: transition_def bind_r_Inr update_rows_Inr moved_orders_def split: if_splits)
  from update_rows_table_ok [OF this(1)] assms(2) have "table_ok (order_spec d) (moved_orders oid frm to d)"
    by (simp add: consistent_def db_ok_def)
  then have "db_ok ?d1" using assms(2) by (simp add: consistent_def db_ok_orders)
  moreover have "uuids_fresh ?d1"
    by (rule fresh_update [of d]) (use assms(2) in \<open>simp_all add: consistent_def used_ids_def\<close>)
  ultimately show ?thesis using history_consistent [OF h] by (simp add: consistent_def)
qed

lemma create_order_consistent [keeps_consistent]:
  assumes "create_order cid wid addr pt cur tot d = Inr (o1, d')" and "consistent d"
  shows "consistent d'"
proof -
  let ?d1 = "d\<lparr>uuid_pos := Suc (uuid_pos d), orders := orders d @ [o1]\<rparr>"
  have o1: "o_id o1 = uuid_seq d (uuid_pos d)" using create_order_Inr(1) [OF assms(1)] by (simp add: new_order_def)
  have ins: "insert_row (order_spec d) o1 (orders d) = Inr (orders d @ [o1])"
    and h: "insert_history (o_id o1) None Pending (Some ''order created'') ?d1 = Inr d'"
    using assms(1) by (auto simp: create_order_def gen_random_uuid_def Let_def bind_r_Inr insert_row_Inr o1 new_order_def)
  have "table_ok (order_spec d) (orders d @ [o1])"
    by (rule insert_row_table_ok [OF _ ins]) (use assms(2) in \<open>simp_all add: consistent_def db_ok_def\<close>)
  then have "db_ok ?d1" using assms(2) by (intro db_ok_orders) (auto simp: consistent_def)
  moreover have "uuids_fresh ?d1"
    by (rule fresh_insert [of d]) (use assms(2) o1 in \<open>auto simp: consistent_def used_ids_def\<close>)
  ultimately show ?thesis using history_consistent [OF h] by (simp add: consistent_def)
qed

lemma add_item_consistent:
  assumes "add_item oid ps it d = Inr d'" and "consistent d"
  shows "consistent d'"
proof -
  obtain l where d': "d' = d\<lparr>uuid_pos := Suc (uuid_pos d), order_items := order_items d @ [l]\<rparr>"
    and l: "oi_id l = uuid_seq d (uuid_pos d)"
    and ins: "insert_row (order_item_spec d) l (order_items d) = Inr (order_items d @ [l])"
    using assms(1) by (auto simp: add_item_def gen_random_uuid_def bind_r_Inr insert_row_Inr split: option.splits)
  have "table_ok (order_item_spec d) (order_items d @ [l])"
    by (rule insert_row_table_ok [OF _ ins]) (use assms(2) in \<open>simp_all add: consistent_def db_ok_def\<close>)
  then have "db_ok d'" using assms(2) by (simp add: d' consistent_def db_ok_tables)
  moreover have "uuids_fresh d'"
    by (rule fresh_insert [of d]) (use assms(2) l in \<open>auto simp: d' consistent_def used_ids_def\<close>)
  ultimately show ?thesis by (simp add: consistent_def)
qed

lemma add_items_consistent [keeps_consistent]:
  "add_items oid ps its d = Inr d' \<Longrightarrow> consistent d \<Longrightarrow> consistent d'"
  unfolding add_items_def by (erule fold_r_invariant) (auto intro: add_item_consistent)

lemma create_pending_consistent [keeps_consistent]:
  assumes "create_pending oid amt cur descr prov d = Inr (p, d')" and "consistent d"
  shows "consistent d'"
proof -
  have d': "d' = d\<lparr>uuid_pos := Suc (uuid_pos d), payments := payments d @ [p]\<rparr>"
    and id: "pay_id p = uuid_seq d (uuid_pos d)"
    and ins: "insert_row (payment_spec d) p (payments d) = Inr (payments d @ [p])"
    using assms(1)
    by (auto simp: create_pending_def gen_random_uuid_def Let_def bind_r_Inr insert_row_Inr new_payment_def)
  have "table_ok (payment_spec d) (payments d @ [p])"
    by (rule insert_row_table_ok [OF _ ins]) (use assms(2) in \<open>simp_all add: consistent_def db_ok_def\<close>)
  then have "db_ok d'" using assms(2) by (simp add: d' consistent_def db_ok_tables)
  moreover have "uuids_fresh d'"
    by (rule fresh_insert [of d]) (use assms(2) id in \<open>auto simp: d' consistent_def used_ids_def\<close>)
  ultimately show ?thesis by (simp add: consistent_def)
qed

lemma update_payment_consistent:
  assumes "update_payment pid f d = Inr d'" and "consistent d" and "\<And>r. pay_id (f r) = pay_id r"
  shows "consistent d'"
proof -
  note d' = update_payment_Inr [OF assms(1)]
  have "table_ok (payment_spec d) (payments d')"
    using update_payment_ok [OF assms(1)] assms(2) by (simp add: d' consistent_def db_ok_def)
  then have "db_ok d'" using assms(2) by (simp add: d' consistent_def db_ok_tables)
  moreover have "uuids_fresh d'"
    using uuids_fresh_payments [of d f] assms(2,3) by (simp add: d' consistent_def)
  ultimately show ?thesis by (simp add: consistent_def)
qed

lemma payment_marks_consistent [keeps_consistent]:
  "mark_succeeded pid ref brand last4 d = Inr d' \<Longrightarrow> consistent d \<Longrightarrow> consistent d'"
  "mark_payment_failed pid why brand last4 d = Inr d' \<Longrightarrow> consistent d \<Longrightarrow> consistent d'"
  "mark_unknown pid why brand last4 d = Inr d' \<Longrightarrow> consistent d \<Longrightarrow> consistent d'"
  unfolding mark_succeeded_def mark_payment_failed_def mark_unknown_def
  by (erule update_payment_consistent; simp)+

section \<open>The stock\<close>

lemma reservations_consistent:
  assumes "update_rows (reservation_spec d) p f (stock_reservations d) = Inr (ret, rows)" and "consistent d"
    and "\<And>r. sr_id (f r) = sr_id r"
  shows "consistent (d\<lparr>stock_reservations := rows\<rparr>)"
proof -
  have "table_ok (reservation_spec d) rows"
    using update_rows_table_ok [OF assms(1)] assms(2) by (simp add: consistent_def db_ok_def)
  moreover have "uuids_fresh (d\<lparr>stock_reservations := rows\<rparr>)"
    using uuids_fresh_reservations [of d f] assms by (auto simp: consistent_def update_rows_Inr)
  ultimately show ?thesis using assms(2) by (simp add: consistent_def db_ok_tables)
qed

lemma inventory_consistent:
  assumes "update_rows (inventory_spec d) p f (inventory d) = Inr (ret, rows)" and "consistent d"
    and "\<And>r. inv_id (f r) = inv_id r"
  shows "consistent (d\<lparr>inventory := rows\<rparr>)"
proof -
  have "table_ok (inventory_spec d) rows"
    using update_rows_table_ok [OF assms(1)] assms(2) by (simp add: consistent_def db_ok_def)
  moreover have "uuids_fresh (d\<lparr>inventory := rows\<rparr>)"
    by (rule fresh_update [of d])
      (use assms in \<open>auto simp: consistent_def used_ids_def update_rows_Inr ids_of_upd\<close>)
  ultimately show ?thesis using assms(2) by (simp add: consistent_def db_ok_tables)
qed

lemma insert_reservation_consistent:
  assumes "insert_reservation oid wid pid q expiry d = Inr d'" and "consistent d"
  shows "consistent d'"
proof -
  obtain r where d': "d' = d\<lparr>uuid_pos := Suc (uuid_pos d), stock_reservations := stock_reservations d @ [r]\<rparr>"
    and id: "sr_id r = uuid_seq d (uuid_pos d)"
    and ins: "insert_row (reservation_spec d) r (stock_reservations d) = Inr (stock_reservations d @ [r])"
    using assms(1) by (auto simp: insert_reservation_def gen_random_uuid_def Let_def bind_r_Inr insert_row_Inr)
  have "table_ok (reservation_spec d) (stock_reservations d @ [r])"
    by (rule insert_row_table_ok [OF _ ins]) (use assms(2) in \<open>simp_all add: consistent_def db_ok_def\<close>)
  then have "db_ok d'" using assms(2) by (simp add: d' consistent_def db_ok_tables)
  moreover have "uuids_fresh d'"
    by (rule fresh_insert [of d]) (use assms(2) id in \<open>auto simp: d' consistent_def used_ids_def\<close>)
  ultimately show ?thesis by (simp add: consistent_def)
qed

lemma reserve_one_consistent:
  assumes "reserve_one ttl oid wid it d = Inr d'" and "consistent d"
  shows "consistent d'"
proof -
  obtain claimed rows where "update_rows (inventory_spec d)
      (\<lambda>i. inv_warehouse_id i = wid \<and> inv_product_id i = product_id it \<and> on_hand i - reserved i \<ge> quantity it)
      (\<lambda>i. i\<lparr>reserved := reserved i + quantity it, inv_updated_at := db_now d\<rparr>) (inventory d) = Inr (claimed, rows)"
    and i: "insert_reservation oid wid (product_id it) (quantity it) (db_now d + seconds ttl)
      (d\<lparr>inventory := rows\<rparr>) = Inr d'"
    using assms(1) by (auto simp: reserve_one_def bind_r_Inr split: if_splits)
  from inventory_consistent [OF this(1) assms(2)] have "consistent (d\<lparr>inventory := rows\<rparr>)" by simp
  then show ?thesis by (rule insert_reservation_consistent [OF i])
qed

lemma reserve_stock_consistent [keeps_consistent]:
  assumes "reserve_stock ttl oid wid items d = Inr (res, d')" and "consistent d"
  shows "consistent d'"
proof -
  have "fold_r (reserve_one ttl oid wid) (lock_order items wid) d = Inr d'"
    using assms(1) by (auto simp: reserve_stock_def bind_r_Inr)
  then show ?thesis using assms(2) by (rule fold_r_invariant) (auto intro: reserve_one_consistent)
qed

lemma hand_back_consistent:
  assumes "hand_back it d = Inr d'" and "consistent d"
  shows "consistent d'"
proof -
  obtain dec rows where "update_rows (inventory_spec d)
      (\<lambda>i. inv_warehouse_id i = rel_warehouse_id it \<and> inv_product_id i = rel_product_id it \<and> reserved i \<ge> rel_quantity it)
      (\<lambda>i. i\<lparr>reserved := reserved i - rel_quantity it, inv_updated_at := db_now d\<rparr>) (inventory d) = Inr (dec, rows)"
    and d': "d' = d\<lparr>inventory := rows\<rparr>"
    using assms(1) by (auto simp: hand_back_def bind_r_Inr split: if_splits)
  from inventory_consistent [OF this(1) assms(2)] show ?thesis by (simp add: d')
qed

lemma settle_consistent:
  assumes "settle p f d = Inr (released, d')" and "consistent d" and "\<And>r. sr_id (f r) = sr_id r"
  shows "consistent d'"
proof -
  obtain claimed rows its where u: "update_rows (reservation_spec d) p f (stock_reservations d) = Inr (claimed, rows)"
    and f: "fold_r hand_back its (d\<lparr>stock_reservations := rows\<rparr>) = Inr d'"
    using assms(1) by (auto simp: settle_def bind_r_Inr Let_def)
  have "consistent (d\<lparr>stock_reservations := rows\<rparr>)" by (rule reservations_consistent [OF u assms(2,3)])
  with f show ?thesis by (rule fold_r_invariant) (auto intro: hand_back_consistent)
qed

lemma stock_settled_consistent [keeps_consistent]:
  "release_reservation oid d = Inr (released, d') \<Longrightarrow> consistent d \<Longrightarrow> consistent d'"
  "sweep_expired batch d = Inr (released, d') \<Longrightarrow> consistent d \<Longrightarrow> consistent d'"
  unfolding release_reservation_def sweep_expired_def
  by (erule settle_consistent; simp add: stop_holding_def)+

lemma settle_for_order_consistent [keeps_consistent]:
  assumes "settle_for_order oid st d = Inr d'" and "consistent d"
  shows "consistent d'"
proof -
  obtain ret rows where u: "update_rows (reservation_spec d) (\<lambda>r. sr_order_id r = oid \<and> sr_status r = Active)
      (stop_holding st (db_now d)) (stock_reservations d) = Inr (ret, rows)" and d': "d' = d\<lparr>stock_reservations := rows\<rparr>"
    using assms(1) by (auto simp: settle_for_order_def bind_r_Inr)
  show ?thesis unfolding d' by (rule reservations_consistent [OF u assms(2)]) (simp add: stop_holding_def)
qed

section \<open>Keys and events\<close>

lemma keys_consistent:
  assumes "update_rows (idempotency_spec d) p f (idempotency_keys d) = Inr (ret, rows)" and "consistent d"
    and "\<And>r. ik_id (f r) = ik_id r"
  shows "consistent (d\<lparr>idempotency_keys := rows\<rparr>)"
proof -
  have "table_ok (idempotency_spec d) rows"
    using update_rows_table_ok [OF assms(1)] assms(2) by (simp add: consistent_def db_ok_def)
  moreover have "uuids_fresh (d\<lparr>idempotency_keys := rows\<rparr>)"
    by (rule fresh_update [of d])
      (use assms in \<open>auto simp: consistent_def used_ids_def update_rows_Inr ids_of_upd\<close>)
  ultimately show ?thesis using assms(2) by (simp add: consistent_def db_ok_tables)
qed

lemma claim_consistent:
  assumes "claim key hashed d = Inr (claimed, d')" and "consistent d"
  shows "consistent d'"
proof (cases claimed)
  case None
  with assms(1) have "d' = d\<lparr>uuid_pos := Suc (uuid_pos d)\<rparr>"
    by (auto simp: claim_def gen_random_uuid_def Let_def bind_r_Inr split: option.splits if_splits)
  then show ?thesis using consistent_draw [OF assms(2)] by simp
next
  case (Some x)
  then obtain r where d': "d' = d\<lparr>uuid_pos := Suc (uuid_pos d), idempotency_keys := idempotency_keys d @ [r]\<rparr>"
    and id: "ik_id r = uuid_seq d (uuid_pos d)"
    and ins: "insert_row (idempotency_spec d) r (idempotency_keys d) = Inr (idempotency_keys d @ [r])"
    using assms(1)
    by (auto simp: claim_def gen_random_uuid_def Let_def bind_r_Inr insert_row_Inr split: option.splits if_splits)
  have "table_ok (idempotency_spec d) (idempotency_keys d @ [r])"
    by (rule insert_row_table_ok [OF _ ins]) (use assms(2) in \<open>simp_all add: consistent_def db_ok_def\<close>)
  then have "db_ok d'" using assms(2) by (simp add: d' consistent_def db_ok_tables)
  moreover have "uuids_fresh d'"
    by (rule fresh_insert [of d]) (use assms(2) id in \<open>auto simp: d' consistent_def used_ids_def\<close>)
  ultimately show ?thesis by (simp add: consistent_def)
qed

lemma key_marks_consistent [keeps_consistent]:
  "reclaim_failed key d = Inr (took, d') \<Longrightarrow> consistent d \<Longrightarrow> consistent d'"
  "settle_completed key body st oid d = Inr d' \<Longrightarrow> consistent d \<Longrightarrow> consistent d'"
  "mark_key_failed key x d = Inr d' \<Longrightarrow> consistent d \<Longrightarrow> consistent d'"
  unfolding reclaim_failed_def settle_completed_def mark_key_failed_def
  by (auto simp: bind_r_Inr elim!: keys_consistent)

lemma claim_key_consistent [keeps_consistent]:
  assumes "claim_key key hashed d = Inr d'" and "consistent d"
  shows "consistent d'"
proof -
  obtain claimed d1 where c: "claim key hashed d = Inr (claimed, d1)"
    and next_step: "d' = d1 \<or> (\<exists>took. reclaim_failed key d1 = Inr (took, d'))"
    using assms(1) by (auto simp: claim_key_def bind_r_Inr split: if_splits option.splits)
  have "consistent d1" by (rule claim_consistent [OF c assms(2)])
  with next_step show ?thesis by (auto intro: key_marks_consistent(1))
qed

lemma add_event_consistent [keeps_consistent]:
  assumes "add_event ty agg body aggty d = Inr d'" and "consistent d"
  shows "consistent d'"
proof -
  obtain e where d': "d' = d\<lparr>uuid_pos := Suc (uuid_pos d), outbox := outbox d @ [e]\<rparr>"
    and id: "ob_id e = uuid_seq d (uuid_pos d)"
    and ins: "insert_row outbox_spec e (outbox d) = Inr (outbox d @ [e])"
    using assms(1) by (auto simp: add_event_def gen_random_uuid_def Let_def bind_r_Inr insert_row_Inr)
  have "table_ok outbox_spec (outbox d @ [e])"
    by (rule insert_row_table_ok [OF _ ins]) (use assms(2) in \<open>simp_all add: consistent_def db_ok_def\<close>)
  then have "db_ok d'" using assms(2) by (simp add: d' consistent_def db_ok_tables)
  moreover have "uuids_fresh d'"
    by (rule fresh_insert [of d]) (use assms(2) id in \<open>auto simp: d' consistent_def used_ids_def\<close>)
  ultimately show ?thesis by (simp add: consistent_def)
qed

lemma mark_processed_consistent [keeps_consistent]:
  assumes "mark_processed ids d = Inr d'" and "consistent d"
  shows "consistent d'"
proof (cases "ids = []")
  case False
  then obtain ret rows where
    u: "update_rows outbox_spec (\<lambda>e. ob_id e \<in> set ids)
      (\<lambda>e. e\<lparr>processed_at := Some (db_now d), attempts := attempts e + 1\<rparr>) (outbox d) = Inr (ret, rows)"
    and d': "d' = d\<lparr>outbox := rows\<rparr>"
    using assms(1) by (auto simp: mark_processed_def bind_r_Inr)
  have "table_ok outbox_spec rows"
    using update_rows_table_ok [OF u] assms(2) by (simp add: consistent_def db_ok_def)
  moreover have "uuids_fresh d'"
    by (rule fresh_update [of d])
      (use u assms(2) in \<open>auto simp: d' consistent_def used_ids_def update_rows_Inr ids_of_upd\<close>)
  ultimately show ?thesis using assms(2) by (simp add: d' consistent_def db_ok_tables)
qed (use assms in \<open>simp add: mark_processed_def\<close>)

section \<open>The transactions and the system\<close>

lemma create_from_reads_consistent [keeps_consistent]:
  assumes "create_from_reads env cid addr items pt seen priced d = Inr (ord, d')" and d: "consistent d"
  shows "consistent d'"
proof (rule create_from_reads_calls [OF assms(1)])
  fix cand tot o1 d1 d2 res d3
  assume c: "create_order cid (cand_id cand) addr pt
      (hd (basket_currencies (get_by_ids (set (map product_id items)) priced) items)) tot d = Inr (o1, d1)"
    and a: "add_items (o_id o1) (get_by_ids (set (map product_id items)) priced)
      (map (\<lambda>i. (product_id i, quantity i)) items) d1 = Inr d2"
    and r: "reserve_stock (reservation_ttl_seconds env) (o_id o1) (cand_id cand) items d2 = Inr (res, d3)"
    and t: "transition (o_id o1) Pending Reserved (Some ''stock reserved'') d3 = Inr d'"
  note d [THEN create_order_consistent [OF c], THEN add_items_consistent [OF a], THEN reserve_stock_consistent [OF r],
      THEN transition_consistent [OF t]]
  then show ?thesis .
qed

lemma checkout_tx1_from_reads_consistent [keeps_consistent]:
  assumes "checkout_tx1_from_reads env rq pt seen priced d = Inr ((ord, pay), d')" and d: "consistent d"
  shows "consistent d'"
proof (rule checkout_tx1_from_reads_Inr [OF assms(1)])
  fix d1 d2
  assume k: "claim_key (rq_key rq) (rq_hash rq) d = Inr d1"
    and c: "create_from_reads env (rq_customer rq) (rq_address rq) (rq_items rq) pt seen priced d1 = Inr (ord, d2)"
    and p: "create_pending (o_id ord) (o_total_minor ord) (o_currency ord)
      (''Order '' @ uuid_str (o_id ord)) ''mock'' d2 = Inr (pay, d')"
  note d [THEN claim_key_consistent [OF k], THEN create_from_reads_consistent [OF c],
      THEN create_pending_consistent [OF p]]
  then show ?thesis .
qed

lemmas checkout_tx1_consistent [keeps_consistent] =
  checkout_tx1_from_reads_consistent [of _ _ _ d d d for d, folded checkout_tx1_reads]

lemma complete_consistent [keeps_consistent]:
  assumes "complete ord pid result key d = Inr (body, d')" and d: "consistent d"
  shows "consistent d'"
proof -
  obtain d1 d2 d3 d4 d5 where m: "mark_succeeded pid (reference result) (card_brand result) (card_last4 result) d = Inr d1"
    and t: "transition (o_id ord) Reserved Paid (Some ''payment succeeded'') d1 = Inr d2"
      "transition (o_id ord) Paid Confirmed (Some ''order confirmed'') d2 = Inr d3"
    and s: "settle_for_order (o_id ord) Committed d3 = Inr d4"
    and e: "add_event ''order_confirmed'' (o_id ord) (confirmed_payload ord (reference result)) ''order'' d4 = Inr d5"
    and k: "settle_completed key body 201 (o_id ord) d5 = Inr d'"
    using assms(1) by (auto simp: complete_def bind_r_Inr)
  note d [THEN payment_marks_consistent(1) [OF m], THEN transition_consistent [OF t(1)],
      THEN transition_consistent [OF t(2)], THEN settle_for_order_consistent [OF s],
      THEN add_event_consistent [OF e], THEN key_marks_consistent(2) [OF k]]
  then show ?thesis .
qed

lemma compensate_consistent [keeps_consistent]:
  assumes "compensate ord pid result key d = Inr d'" and d: "consistent d"
  shows "consistent d'"
proof -
  obtain d1 released d2 d3 where m: "mark_payment_failed pid (or_else (failure_reason result) ''declined'')
      (card_brand result) (card_last4 result) d = Inr d1"
    and r: "release_reservation (o_id ord) d1 = Inr (released, d2)"
    and t: "transition (o_id ord) Reserved Payment_failed
      (Some (or_else (failure_reason result) ''declined'')) d2 = Inr d3"
    and k: "mark_key_failed key (Some (o_id ord)) d3 = Inr d'"
    using assms(1) by (auto simp: compensate_def bind_r_Inr)
  note d [THEN payment_marks_consistent(2) [OF m], THEN stock_settled_consistent(1) [OF r],
      THEN transition_consistent [OF t], THEN key_marks_consistent(3) [OF k]]
  then show ?thesis .
qed

lemma checkout_tx2_consistent [keeps_consistent]:
  "checkout_tx2 ord pid result key d = Inr (body, d') \<Longrightarrow> consistent d \<Longrightarrow> consistent d'"
  by (cases "outcome result")
    (auto simp: checkout_tx2_def bind_r_Inr leave_unresolved_def
      dest: complete_consistent compensate_consistent payment_marks_consistent(3))

lemma step_consistent:
  assumes "sys_step env s t" and "consistent (sys_db s)"
  shows "consistent (sys_db t)"
  using assms
proof (induction rule: sys_step.induct)
  case (Begin rq co pt seen priced s ord pay d')
  then show ?case by (auto dest: checkout_tx1_from_reads_consistent)
next
  case (Finish s fs f gs result body d')
  then show ?case by (auto dest: checkout_tx2_consistent)
next
  case (Sweep batch s rel d')
  then show ?case by (auto dest: stock_settled_consistent(2))
next
  case (Publish batch locked s d')
  then show ?case by (auto dest: mark_processed_consistent)
qed (simp_all add: consistent_clock managed_def)

lemma reachable_consistent: "reachable env s t \<Longrightarrow> consistent (sys_db s) \<Longrightarrow> consistent (sys_db t)"
  by (induction rule: reachable.induct) (auto intro: step_consistent)

section \<open>Checkouts in flight can land\<close>

definition status_after :: "payment_outcome \<Rightarrow> order_status" where
  "status_after a = (case a of Outcome_succeeded \<Rightarrow> Confirmed | Outcome_declined \<Rightarrow> Payment_failed
     | Outcome_unknown \<Rightarrow> Reserved)"

lemma flight_settleable:
  assumes inv: "sys_inv t" and con: "consistent (sys_db t)" and f: "f \<in> set (flights t)"
  shows "settleable (fl_order f) (fl_payment f) (sys_db t)"
    and "\<forall>q \<in> set (payments (sys_db t)). provider_reference q = None \<or> provider_reference q \<noteq> ref \<Longrightarrow>
      can_be_paid (fl_payment f) ref (sys_db t)"
proof -
  let ?d = "sys_db t"
  note i = inv [unfolded sys_inv_def db_inv_def]
  have fo: "\<exists>r \<in> set (orders ?d). o_id r = o_id (fl_order f) \<and> o_status r = Reserved"
    and fp: "\<exists>p \<in> set (payments ?d). pay_id p = fl_payment f \<and> pay_order_id p = o_id (fl_order f) \<and>
      pay_status p = Payment_pending"
    using i f unfolding flights_ok_def by blast+
  show "settleable (fl_order f) (fl_payment f) ?d"
    using con i fo by (simp add: settleable_def consistent_def db_ok_def)
  obtain r where r: "r \<in> set (orders ?d)" "o_id r = o_id (fl_order f)" "o_status r = Reserved" using fo by blast
  obtain p where p: "p \<in> set (payments ?d)" "pay_id p = fl_payment f" "pay_order_id p = o_id (fl_order f)"
    using fp by blast
  have paid: "mset (map pay_order_id (filter (\<lambda>p. pay_status p = Payment_succeeded) (payments ?d))) = confirmed_ids ?d"
    using i unfolding money_ok_def by blast
  have unpaid: "\<not> (pay_status q = Payment_succeeded \<and> pay_order_id q = pay_order_id p)" if q: "q \<in> set (payments ?d)" for q
  proof
    assume s: "pay_status q = Payment_succeeded \<and> pay_order_id q = pay_order_id p"
    then have "pay_order_id q \<in># mset (map pay_order_id (filter (\<lambda>p. pay_status p = Payment_succeeded) (payments ?d)))"
      using q s by (auto intro: rev_image_eqI)
    then have "pay_order_id q \<in># confirmed_ids ?d" unfolding paid .
    then obtain x where "x \<in> set (orders ?d)" "o_id x = pay_order_id q" "o_status x = Confirmed" by auto
    with r p(3) s distinct_key_unique [of o_id "orders ?d" x r] i show False by auto
  qed
  show "can_be_paid (fl_payment f) ref ?d"
    if "\<forall>q \<in> set (payments ?d). provider_reference q = None \<or> provider_reference q \<noteq> ref"
    unfolding can_be_paid_def by (rule bexI [OF _ p(1)]) (use p(2) unpaid that in fastforce)
qed

lemma landed_status:
  assumes "checkout_tx2 ord pid result key d = Inr (body, d')" and "ledger_ok d"
    and "distinct (map o_id (orders d))"
    and "r \<in> set (orders d)" "o_id r = o_id ord" "o_status r = Reserved"
  shows "\<exists>r' \<in> set (orders d'). o_id r' = o_id ord \<and> o_status r' = status_after (outcome result)"
proof -
  have moved: "\<exists>r' \<in> set (at_status (o_id ord) st d). o_id r' = o_id ord \<and> o_status r' = st" for st
    using at_status_member [OF assms(4), of "o_id ord" st] assms(5) by (intro bexI) auto
  consider (sold) b where "outcome result = Outcome_succeeded" "complete ord pid result key d = Inr (b, d')"
    | (refused) "outcome result = Outcome_declined" "compensate ord pid result key d = Inr d'"
    | (asked) "outcome result = Outcome_unknown" "leave_unresolved pid result d = Inr d'"
    using assms(1) by (auto simp: checkout_tx2_def bind_r_Inr split: payment_outcome.splits)
  then show ?thesis
  proof cases
    case sold
    with complete_effect(1) [OF sold(2) assms(3)] moved show ?thesis by (simp add: status_after_def)
  next
    case refused
    with compensate_effect(1) [OF refused(2) assms(3,2)] moved show ?thesis by (simp add: status_after_def)
  next
    case asked
    with leave_unresolved_effect [OF asked(2)] assms(4-6) show ?thesis by (auto simp: status_after_def)
  qed
qed

lemma answered_flight_lands:
  assumes inv: "sys_inv t" and con: "consistent (sys_db t)" and f: "flights t = fs @ f # gs" "fl_result f = Some result"
    and l4: "null_or card_last4_format (card_last4 result)"
    and ref: "outcome result = Outcome_succeeded \<Longrightarrow>
      \<forall>q \<in> set (payments (sys_db t)). provider_reference q = None \<or> provider_reference q \<noteq> reference result"
  shows "\<exists>u. sys_step env t u \<and> flights u = fs @ gs \<and>
    (\<exists>r \<in> set (orders (sys_db u)). o_id r = o_id (fl_order f) \<and> o_status r = status_after (outcome result))"
proof -
  let ?d = "sys_db t"
  have mem: "f \<in> set (flights t)" by (simp add: f)
  note ready = flight_settleable [OF inv con mem]
  obtain body d' where tx2: "checkout_tx2 (fl_order f) (fl_payment f) result (rq_key (fl_request f)) ?d = Inr (body, d')"
    using checkout_tx2_succeeds [OF ready(1) l4] ready(2) ref by blast
  obtain r where "r \<in> set (orders ?d)" "o_id r = o_id (fl_order f)" "o_status r = Reserved"
    using ready(1) by (auto simp: settleable_def)
  from landed_status [OF tx2 _ _ this] inv
  have "\<exists>r' \<in> set (orders d'). o_id r' = o_id (fl_order f) \<and> o_status r' = status_after (outcome result)"
    by (simp add: sys_inv_def db_inv_def)
  with sys_step.Finish [OF f tx2, of env] show ?thesis by (intro exI conjI) auto
qed

text \<open>Asking the provider under an order's id again gives the answer the flight already has.\<close>

lemma flight_lands:
  assumes inv: "sys_inv t" and con: "consistent (sys_db t)" and f: "flights t = fs @ f # gs"
    and res: "result = fst (mock_charge (charge_request_of (fl_request f) (fl_order f)) (sys_provider t))"
    and l4: "null_or card_last4_format (card_last4 result)"
    and ref: "outcome result = Outcome_succeeded \<Longrightarrow>
      \<forall>q \<in> set (payments (sys_db t)). provider_reference q = None \<or> provider_reference q \<noteq> reference result"
  shows "\<exists>u. reachable env t u \<and> flights u = fs @ gs \<and>
    (\<exists>r \<in> set (orders (sys_db u)). o_id r = o_id (fl_order f) \<and> o_status r = status_after (outcome result))"
proof (cases "fl_result f")
  case None
  obtain p' where ch: "mock_charge (charge_request_of (fl_request f) (fl_order f)) (sys_provider t) = (result, p')"
    using res by (cases "mock_charge (charge_request_of (fl_request f) (fl_order f)) (sys_provider t)") simp
  let ?u = "t\<lparr>flights := fs @ f\<lparr>fl_result := Some result\<rparr> # gs, sys_provider := p'\<rparr>"
  have step: "sys_step env t ?u" by (rule sys_step.Charge [OF f None ch])
  have "sys_inv ?u" by (rule charge_step [OF f None inv ch])
  from answered_flight_lands [OF this, of fs "f\<lparr>fl_result := Some result\<rparr>" gs result env] con l4 ref
  obtain v where "sys_step env ?u v" "flights v = fs @ gs" "\<exists>r \<in> set (orders (sys_db v)).
      o_id r = o_id (fl_order f) \<and> o_status r = status_after (outcome result)" by auto
  with Next [OF Next [OF Here step]] show ?thesis by blast
next
  case (Some x)
  then have "results (sys_provider t) (uuid_str (o_id (fl_order f))) = Some x"
    using inv f by (simp add: sys_inv_def provider_ok_def)
  then have "x = result" by (simp add: res mock_charge_def charge_request_of_def)
  with answered_flight_lands [OF inv con f _ l4 ref, of env] Some Next [OF Here] show ?thesis by blast
qed

end
