(* ===== verification/System_Properties.thy ===== *)
theory System_Properties
  imports Saga_Book Consistency Demo_System Jobs Saga_Properties
begin

text \<open>
  What holds along the runs of the whole shop: the system refines its book, what is settled stays
  settled, stock that nobody paid for comes back, and nothing ever wedges: the checkouts in flight can
  land and new customers are served.
\<close>

section \<open>Refinement\<close>

lemma reachable_book:
  assumes "initial s" and "reachable env s t"
  shows "book_step\<^sup>*\<^sup>* (book_of s) (book_of t)" and "book_ok (book_of t)"
proof -
  have b: "blank (book_of s)" by (rule initial_blank [OF assms(1)])
  show run: "book_step\<^sup>*\<^sup>* (book_of s) (book_of t)"
    by (rule run_in_book [OF assms(2) initial_inv [OF assms(1)]])
  show "book_ok (book_of t)" using book_run_ok [OF run blank_ok [OF b]] b by (simp add: blank_def)
qed

text \<open>
  C3: the shop refines its book. Every run of the system, with its tables, keys, transactions, sweeps
  and clock, is a run of the abstract book: an order is taken only when its units are on the shelf
  beside everything kept for others, the provider is asked once, only an order with a successful
  answer is sold and only one with a refusal is refused, expiry touches none but the orders still
  awaiting, the shelf changes only above what is kept, and only sold orders are announced. So the
  book's own promises hold of it.
\<close>

theorem shop_refines_its_book:
  assumes "initial s" and "reachable env s t"
  shows "blank (book_of s) \<and> book_step\<^sup>*\<^sup>* (book_of s) (book_of t) \<and> book_ok (book_of t)"
  using initial_blank [OF assms(1)] reachable_book [OF assms] by blast

theorem shop_refines_its_book_witness:
  "\<exists>s. reachable demo_env demo_system s \<and> book_step\<^sup>*\<^sup>* (book_of demo_system) (book_of s) \<and>
     stages (book_of s) 101 = Some Sold \<and> answers (book_of s) 101 = Some Outcome_succeeded"
proof -
  obtain s r where r: "reachable demo_env demo_system s" "orders (sys_db s) = [r]" "o_status r = Confirmed" "o_id r = 101"
    using demo_run by blast
  then have "stages (book_of s) 101 = Some Sold" by (simp add: book_of_def stages_of_def stage_of_def)
  with shop_refines_its_book [OF demo_initial r(1)] r(1) show ?thesis
    by (intro exI [of _ s]) (auto simp: book_ok_def)
qed

section \<open>What is settled\<close>

lemma settled_stage: "stage_of st = Sold \<longleftrightarrow> st = Confirmed" "stage_of st = Refused \<longleftrightarrow> st = Payment_failed"
  by (simp_all add: stage_of_def split: order_status.split)

text \<open>
  C10: what is settled stays settled. Whatever happens afterwards, a confirmed order stays confirmed
  and keeps at every warehouse exactly the units it held, an order whose payment failed stays so,
  and what the provider answered for an order it goes on answering.
\<close>

theorem settled_orders_stay_settled:
  assumes "initial s" and "reachable env s t" and "reachable env' t u"
    and "r \<in> set (orders (sys_db t))" and "o_status r \<in> {Confirmed, Payment_failed}"
  shows "\<exists>r' \<in> set (orders (sys_db u)). o_id r' = o_id r \<and> o_status r' = o_status r \<and>
    units_kept (sys_db u) (o_id r) = units_kept (sys_db t) (o_id r) \<and>
    map_option outcome (get_by_idempotency_key (uuid_str (o_id r)) (sys_provider u)) =
      map_option outcome (get_by_idempotency_key (uuid_str (o_id r)) (sys_provider t))"
proof -
  have inv: "sys_inv t" "sys_inv u"
    using reachable_inv [OF assms(2) initial_inv [OF assms(1)]] reachable_inv [OF assms(3)] by blast+
  then have dist: "distinct (map o_id (orders (sys_db t)))" "distinct (map o_id (orders (sys_db u)))"
    using kept_on_shelf(2) by (simp_all add: sys_inv_def db_inv_def)
  have pos: "\<forall>x k. 0 \<le> kept (book_of t) x k" and ok: "book_ok (book_of t)"
    using kept_on_shelf(2) inv(1) reachable_book(2) [OF assms(1,2)] by (simp_all add: sys_inv_def book_of_def)
  note run = run_in_book [OF assms(3) inv(1)]
  have ok': "book_ok (book_of u)" using book_run_ok [OF run ok pos] by blast
  let ?x = "o_id r" and ?st = "stage_of (o_status r)"
  have st: "stages (book_of t) ?x = Some ?st" "?st \<in> {Sold, Refused}"
    using stages_of_Some [OF dist(1), of ?x ?st] assms(4,5) by (auto simp: book_of_def settled_stage)
  with book_run_settled [OF run ok pos, of ?x]
  have same: "stages (book_of u) ?x = Some ?st" "units_kept (sys_db u) ?x = units_kept (sys_db t) ?x"
    by (auto simp: book_of_def)
  from same(1) obtain r' where r': "r' \<in> set (orders (sys_db u))" "o_id r' = ?x" "stage_of (o_status r') = ?st"
    using stages_of_Some [OF dist(2), of ?x ?st] by (auto simp: book_of_def)
  then have "o_status r' = o_status r" using assms(5) by (auto simp: stage_of_def split: order_status.splits)
  moreover have "answers (book_of t) ?x = answers (book_of u) ?x"
    using st same(1) ok ok' unfolding book_ok_def by (metis insert_iff singletonD)
  then have "map_option outcome (results (sys_provider u) (uuid_str ?x)) =
      map_option outcome (results (sys_provider t) (uuid_str ?x))"
    using r'(1,2) assms(4) by (auto simp: book_of_def answers_of_def rev_image_eqI split: if_splits)
  ultimately show ?thesis using r'(1,2) same(2) by (auto simp: get_by_idempotency_key_def)
qed

theorem settled_orders_stay_settled_witness:
  "\<exists>s u r. reachable demo_env demo_system s \<and> reachable demo_env s u \<and>
     db_now (sys_db u) = db_now (sys_db s) + 900000001 \<and> orders (sys_db s) = [r] \<and> o_id r = 101 \<and>
     o_status r = Confirmed \<and> (\<exists>r' \<in> set (orders (sys_db u)). o_id r' = 101 \<and> o_status r' = Confirmed) \<and>
     units_kept (sys_db u) 101 = units_kept (sys_db s) 101"
proof -
  obtain s r where r: "reachable demo_env demo_system s" "orders (sys_db s) = [r]" "o_status r = Confirmed" "o_id r = 101"
    using demo_run by blast
  let ?u = "s\<lparr>sys_db := (sys_db s)\<lparr>db_now := db_now (sys_db s) + 900000001\<rparr>\<rparr>"
  have u: "reachable demo_env s ?u" by (rule Next [OF Here Tick]) simp
  with settled_orders_stay_settled [OF demo_initial r(1) u, of r] r show ?thesis
    by (intro exI [of _ s] exI [of _ ?u] exI [of _ r]) auto
qed

section \<open>Stock comes back\<close>

text \<open>
  No step moves a unit that no reservation accounts for, and no stock row goes away; new ones may
  come with units of their own.
\<close>

lemma same_keys:
  "map inv_key (inventory d') = map inv_key (inventory d) \<Longrightarrow> inv_key ` set (inventory d') = inv_key ` set (inventory d)"
  by (metis list.set_map)

lemma step_unattributed:
  assumes "sys_step env s t" and "sys_inv s" and wp: "(w, p) \<in> inv_key ` set (inventory (sys_db s))"
  shows "(w, p) \<in> inv_key ` set (inventory (sys_db t)) \<and> unattributed (sys_db t) w p = unattributed (sys_db s) w p"
proof -
  have dist: "distinct (map o_id (orders (sys_db s)))" and led: "ledger_ok (sys_db s)"
    using assms(2) by (simp_all add: sys_inv_def db_inv_def)
  note frame = unattributed_def reserved_at_def held_def
  from assms(1) show ?thesis
  proof (cases rule: sys_step.cases)
    case (Begin rq co pt seen priced ord pay d')
    with checkout_tx1_from_reads_effect(12) [OF Begin(5) led Begin(4)] same_keys [OF checkout_tx1_from_reads_stock_rows(1) [OF Begin(5)]] wp
    show ?thesis by simp
  next
    case (Finish fs f gs result body d')
    from Finish(4) consider (sold) b where "complete (fl_order f) (fl_payment f) result (rq_key (fl_request f)) (sys_db s) = Inr (b, d')"
      | (refused) "compensate (fl_order f) (fl_payment f) result (rq_key (fl_request f)) (sys_db s) = Inr d'"
      | (asked) "leave_unresolved (fl_payment f) result (sys_db s) = Inr d'"
      by (auto simp: checkout_tx2_def bind_r_Inr split: payment_outcome.splits)
    then show ?thesis
    proof cases
      case sold
      note e = complete_effect [OF sold dist]
      have "held d' w p = held (sys_db s) w p"
        unfolding held_def e(4) by (rule sum_where_upd_frame) (auto simp: holding_def stop_holding_def)
      with Finish(1) wp show ?thesis by (simp add: unattributed_def reserved_at_def e(5))
    next
      case refused
      with compensate_effect(6) [OF refused dist led] same_keys [OF compensate_stock_rows(1) [OF refused led]] Finish(1) wp
      show ?thesis by simp
    next
      case asked
      with leave_unresolved_effect [OF asked] Finish(1) wp show ?thesis by (simp add: frame)
    qed
  next
    case (Sweep batch rel d')
    with sweep_effect(7) [OF Sweep(2) led] same_keys [OF only_stock_frame(13) [OF sweep_effect(4) [OF Sweep(2) led]]] wp
    show ?thesis by simp
  next
    case (Publish batch locked d')
    with mark_processed_Inr [OF Publish(2)] wp show ?thesis by (simp add: frame)
  next
    case (Manage d')
    obtain i where i: "i \<in> set (inventory (sys_db s))" "inv_key i = (w, p)" using wp by force
    have inv: "table_ok (inventory_spec (sys_db s)) (inventory (sys_db s))" using led by (simp add: ledger_ok_def)
    have "held d' w p = held (sys_db s) w p" by (simp add: held_def managed_frame [OF Manage(2)])
    with managed_counter [OF Manage(2) i(1) inv] i(2) Manage(1) show ?thesis
      by (auto simp: unattributed_def intro: rev_image_eqI)
  qed (use wp in \<open>simp_all add: frame\<close>)
qed

lemma reachable_unattributed:
  assumes "reachable env s t" and "sys_inv s" and "(w, p) \<in> inv_key ` set (inventory (sys_db s))"
  shows "(w, p) \<in> inv_key ` set (inventory (sys_db t)) \<and> unattributed (sys_db t) w p = unattributed (sys_db s) w p"
  using assms
proof (induction rule: reachable.induct)
  case (Next s t u)
  with step_unattributed [OF Next(2) reachable_inv [OF Next(1) Next(4)]] show ?case by simp
qed simp

text \<open>The committed units are those kept for the confirmed orders.\<close>

lemma committed_units:
  assumes "db_inv d"
  shows "sum_where sr_quantity (\<lambda>r. sr_status r = Committed \<and> sr_warehouse_id r = w \<and> sr_product_id r = p)
      (stock_reservations d) =
    (\<Sum>x \<in> {o_id r | r. r \<in> set (orders d) \<and> o_status r = Confirmed}. units_kept d x (w, p))"
proof -
  let ?q = "\<lambda>r. sr_status r = Committed \<and> sr_warehouse_id r = w \<and> sr_product_id r = p"
    and ?A = "{o_id r | r. r \<in> set (orders d) \<and> o_status r = Confirmed}"
    and ?B = "o_id ` set (orders d)"
  have dist: "distinct (map o_id (orders d))" using assms by (simp add: db_inv_def)
  have own: "\<exists>y \<in> set (orders d). o_id y = sr_order_id r \<and> (sr_status r = Active \<longrightarrow> o_status y = Reserved) \<and>
      (sr_status r = Committed \<longrightarrow> o_status y = Confirmed)" if "r \<in> set (stock_reservations d)" for r
    using assms that by (auto simp: db_inv_def holds_ok_def)
  have "sum_where sr_quantity ?q (stock_reservations d) =
      (\<Sum>x \<in> ?B. sum_where sr_quantity (\<lambda>r. ?q r \<and> sr_order_id r = x) (stock_reservations d))"
    by (rule sum_where_partition [symmetric]) (simp, use own in \<open>metis imageI\<close>)
  also have "\<dots> = (\<Sum>x \<in> ?A. sum_where sr_quantity (\<lambda>r. ?q r \<and> sr_order_id r = x) (stock_reservations d))"
    by (rule sum.mono_neutral_right) (use own in \<open>fastforce intro!: sum_where_none\<close>)+
  also have "\<dots> = (\<Sum>x \<in> ?A. units_kept d x (w, p))"
  proof (rule sum.cong [OF refl])
    fix x assume "x \<in> ?A"
    then obtain z where z: "z \<in> set (orders d)" "o_id z = x" "o_status z = Confirmed" by auto
    have "sr_status r \<noteq> Active" if r: "r \<in> set (stock_reservations d)" "sr_order_id r = x" for r
      using own [OF r(1)] distinct_key_unique [OF dist _ z(1)] z r(2) by force
    then show "sum_where sr_quantity (\<lambda>r. ?q r \<and> sr_order_id r = x) (stock_reservations d) = units_kept d x (w, p)"
      unfolding units_kept_def by (intro sum_where_cong) (auto simp: holding_def)
  qed
  finally show ?thesis .
qed



section \<open>Nothing wedges\<close>

lemma consistent_shop_ok: "consistent d \<Longrightarrow> ledger_ok d \<Longrightarrow> shop_ok d"
  unfolding shop_ok_def refs_ok_def consistent_def db_ok_def
  by (auto simp: table_ok_def list_all_iff row_ok_def order_item_spec_def reservation_spec_def)

lemma demo_consistent: "consistent demo_db"
proof -
  have "table_ok customer_spec (customers demo_db)"
    by (simp add: demo_db_def table_ok_def customer_spec_def row_ok_def conflict_free_def)
  moreover have "table_ok warehouse_spec (warehouses demo_db)"
    by (simp add: demo_db_def table_ok_def warehouse_spec_def row_ok_def conflict_free_def demo_warehouse_def)
  moreover have "table_ok (inventory_spec demo_db) (inventory demo_db)" using demo_ledger by (simp add: ledger_ok_def)
  moreover have "addresses demo_db = []" "orders demo_db = []" "order_items demo_db = []"
    "order_status_history demo_db = []" "payments demo_db = []" "stock_reservations demo_db = []"
    "idempotency_keys demo_db = []" "outbox demo_db = []" by (simp_all add: demo_db_def)
  ultimately show ?thesis
    using demo_products_ok demo_fresh by (simp add: consistent_def db_ok_def table_ok_def conflict_free_def)
qed

text \<open>
  C7: every checkout in flight can finish. In every state that a consistent shop can reach, whatever
  was swept, published or lost meanwhile, a checkout between its two transactions can be brought to
  its end, with the order confirmed, payment-failed or still reserved as the provider answers; all it
  takes is that the answer's last four are ASCII digits and its reference is not yet another
  payment's. If the worker asked already, asking again under the order's id gives the same answer.
\<close>

theorem every_checkout_can_finish:
  assumes "initial s" and "consistent (sys_db s)" and "reachable env s t" and "flights t = fs @ f # gs"
    and "result = fst (mock_charge (charge_request_of (fl_request f) (fl_order f)) (sys_provider t))"
    and "null_or card_last4_format (card_last4 result)"
    and "\<forall>q \<in> set (payments (sys_db t)). provider_reference q = None \<or> provider_reference q \<noteq> reference result"
  shows "\<exists>u. reachable env t u \<and> flights u = fs @ gs \<and>
    (\<exists>r \<in> set (orders (sys_db u)). o_id r = o_id (fl_order f) \<and>
       o_status r = (case outcome result of Outcome_succeeded \<Rightarrow> Confirmed
         | Outcome_declined \<Rightarrow> Payment_failed | Outcome_unknown \<Rightarrow> Reserved))"
proof -
  have "sys_inv t" by (rule reachable_inv [OF assms(3) initial_inv [OF assms(1)]])
  moreover have "consistent (sys_db t)" by (rule reachable_consistent [OF assms(3,2)])
  ultimately show ?thesis
    using flight_lands [OF _ _ assms(4-6), of env] assms(7) by (simp add: status_after_def)
qed

theorem every_checkout_can_finish_witness:
  "\<exists>t u. reachable demo_env demo_system t \<and> flights t = [demo_flight None] \<and> reachable demo_env t u \<and>
     flights u = [] \<and> (\<exists>r \<in> set (orders (sys_db u)). o_id r = 101 \<and> o_status r = Confirmed)"
proof -
  define t where "t = \<lparr>sys_db = demo_db1, flights = [demo_flight None], sys_provider = new_mock\<rparr>"
  have t: "reachable demo_env demo_system t" unfolding t_def by (rule Next [OF Here demo_begins])
  have f: "flights t = [] @ demo_flight None # []" by (simp add: t_def)
  have res: "demo_result =
      fst (mock_charge (charge_request_of (fl_request (demo_flight None)) (fl_order (demo_flight None))) (sys_provider t))"
    using demo_charge by (simp add: t_def demo_flight_def)
  have l4: "null_or card_last4_format (card_last4 demo_result)"
    by (simp add: demo_result_simps card_last4_format_def ustr_def)
  have refs: "\<forall>q \<in> set (payments (sys_db t)). provider_reference q = None \<or> provider_reference q \<noteq> reference demo_result"
    by (simp add: t_def demo_db1_def demo_rows)
  have con: "consistent (sys_db demo_system)" using demo_consistent by (simp add: demo_system_def)
  have "o_id (fl_order (demo_flight None)) = 101" by (simp add: demo_flight_def)
  with every_checkout_can_finish [OF demo_initial con t f res l4 refs]
  have "\<exists>u. reachable demo_env t u \<and> flights u = [] \<and>
      (\<exists>r \<in> set (orders (sys_db u)). o_id r = 101 \<and> o_status r = Confirmed)"
    by (simp add: demo_result_simps)
  with t f show ?thesis by auto
qed

text \<open>
  C5: the shop stays open. In every state that a consistent shop can reach, however many orders,
  declined cards, crashed workers and sweeps there were before, a new request under an unused key for
  what is in stock, with a total above zero, is confirmed by a provider that says yes, under a
  reference that no payment has and with a last four of ASCII digits or none, if nobody else commits
  while it is asked: the answer lists what was asked for with the sum of its prices, and the warehouse
  that ships it is the nearest of those that still have everything.
\<close>

theorem shop_stays_open:
  assumes "initial s" and "consistent (sys_db s)" and "reachable env' s t"
    and "orderable env (rq_customer rq) (rq_address rq) (rq_items rq) (sys_db t)"
    and "key_row (rq_key rq) (sys_db t) = None" and "length (rq_hash rq) = 64"
    and "0 < basket_total (get_by_ids (set (map product_id (rq_items rq))) (sys_db t)) (rq_items rq)"
    and "\<And>cr. cr_card cr = rq_card rq \<Longrightarrow> outcome (fst (charge cr p)) = Outcome_succeeded"
    and "\<And>cr. cr_card cr = rq_card rq \<Longrightarrow> null_or card_last4_format (card_last4 (fst (charge cr p)))"
    and "\<And>cr. cr_card cr = rq_card rq \<Longrightarrow> \<forall>q \<in> set (payments (sys_db t)). provider_reference q = None \<or>
           provider_reference q \<noteq> reference (fst (charge cr p))"
  shows "\<exists>ord body d'. checkout env charge (\<lambda>x. x) rq (sys_db t, p) =
      (Inr \<lparr>co_order_id = o_id ord, co_body = body, co_status_code = 201\<rparr>,
        (d', snd (charge (charge_request_of rq ord) p))) \<and>
    answer_fits env rq (sys_db t) ord body"
proof -
  have "ledger_ok (sys_db t)"
    using reachable_inv [OF assms(3) initial_inv [OF assms(1)]] by (simp add: sys_inv_def db_inv_def)
  then have "shop_ok (sys_db t)" using reachable_consistent [OF assms(3,2)] by (simp add: consistent_shop_ok)
  from orderable_checkout_is_confirmed [where charge = charge and p = p, OF this assms(4-10)] show ?thesis .
qed

lemma demo_still_able: "able demo_db1 demo_items = [demo_warehouse 20 ''MAD-01'' (0, 0)]"
  by (simp add: able_def supplies_def stocked_def demo_db1_def demo_defs)

lemma demo_still_orderable: "orderable demo_env 1 demo_address demo_items demo_db1"
proof -
  have same: "customers demo_db1 = customers demo_db" "products demo_db1 = products demo_db"
    by (simp_all add: demo_db1_def)
  have "get_by_ids ids demo_db1 = get_by_ids ids demo_db" for ids by (simp add: get_by_ids_def same)
  with demo_orderable show ?thesis by (simp add: orderable_def same demo_still_able)
qed

theorem shop_stays_open_witness:
  "\<exists>t ord body d'. reachable demo_env demo_system t \<and> orders (sys_db t) = [demo_order] \<and>
     checkout demo_env (demo_pay demo_result) (\<lambda>x. x) (demo_request\<lparr>rq_key := ''k2''\<rparr>) (sys_db t, 0) =
      (Inr \<lparr>co_order_id = o_id ord, co_body = body, co_status_code = 201\<rparr>,
        (d', snd (demo_pay demo_result (charge_request_of (demo_request\<lparr>rq_key := ''k2''\<rparr>) ord) 0))) \<and>
     answer_fits demo_env (demo_request\<lparr>rq_key := ''k2''\<rparr>) (sys_db t) ord body"
proof -
  let ?t = "\<lparr>sys_db = demo_db1, flights = [demo_flight None], sys_provider = new_mock\<rparr>"
    and ?rq = "demo_request\<lparr>rq_key := ''k2''\<rparr>"
  have t: "reachable demo_env demo_system ?t" by (rule Next [OF Here demo_begins])
  have con: "consistent (sys_db demo_system)" using demo_consistent by (simp add: demo_system_def)
  have "\<exists>ord body d'. checkout demo_env (demo_pay demo_result) (\<lambda>x. x) ?rq (sys_db ?t, 0) =
      (Inr \<lparr>co_order_id = o_id ord, co_body = body, co_status_code = 201\<rparr>,
        (d', snd (demo_pay demo_result (charge_request_of ?rq ord) 0))) \<and>
    answer_fits demo_env ?rq (sys_db ?t) ord body"
  proof (rule shop_stays_open [OF demo_initial con t])
    show "orderable demo_env (rq_customer ?rq) (rq_address ?rq) (rq_items ?rq) (sys_db ?t)"
      using demo_still_orderable by (simp add: demo_request_def)
    show "key_row (rq_key ?rq) (sys_db ?t) = None" by (simp add: demo_db1_def key_row_def fresh_key_row_def)
    show "0 < basket_total (get_by_ids (set (map product_id (rq_items ?rq))) (sys_db ?t)) (rq_items ?rq)"
      by (simp add: basket_total_def get_by_ids_def demo_items_def demo_db1_def demo_db_def demo_product_def demo_request_def)
    show "\<forall>q \<in> set (payments (sys_db ?t)). provider_reference q = None \<or>
        provider_reference q \<noteq> reference (fst (demo_pay demo_result cr 0))" for cr
      by (simp add: demo_db1_def demo_rows)
  qed (simp_all add: demo_request_def demo_hash_def demo_pay_def demo_result_simps card_last4_format_def ustr_def)
  moreover have "orders (sys_db ?t) = [demo_order]" by (simp add: demo_db1_def)
  ultimately show ?thesis using t by blast
qed

end
