(* ===== verification/Application.thy ===== *)
theory Application
  imports Transport Geocoder Jobs Selection
begin

text \<open>
  How the parts are put together: \<^verbatim>\<open>app/config.py\<close>, what \<^verbatim>\<open>app/db/session.py\<close> and
  \<^verbatim>\<open>app/main.py\<close> read of it, and \<^verbatim>\<open>app/api/deps.py\<close>, the one module that names
  concrete adapters. \<open>application\<close> is \<^verbatim>\<open>POST /orders\<close> with the adapters that are wired in.
  What pydantic reads from the environment is a value of the record \<open>settings\<close>; what the platform
  computes (PostGIS, Unicode tables, SHA-256) is a value of the record \<open>platform\<close>.
\<close>

section \<open>Settings\<close>

record settings =
  postgres_user :: string
  postgres_password :: string
  postgres_db :: string
  postgres_host :: string
  postgres_port :: int
  app_env :: string
  sql_echo :: bool
  reservation_ttl :: int
  postgres_test_host :: string
  postgres_test_db :: string

definition default_settings :: settings where
  "default_settings =
     \<lparr>postgres_user = ''canals'', postgres_password = ''canals'', postgres_db = ''canals'', postgres_host = ''db'',
      postgres_port = 5432, app_env = ''local'', sql_echo = False, reservation_ttl = 900,
      postgres_test_host = ''db-test'', postgres_test_db = ''canals_test''\<rparr>"

definition test_database_url :: "settings \<Rightarrow> string" where
  "test_database_url s =
     ''postgresql+asyncpg://'' @ postgres_user s @ '':'' @ postgres_password s @
     ''@'' @ postgres_test_host s @ '':'' @ int_str (postgres_port s) @ ''/'' @ postgres_test_db s"

definition database_url :: "settings \<Rightarrow> string" where
  "database_url s =
     ''postgresql+asyncpg://'' @ postgres_user s @ '':'' @ postgres_password s @
     ''@'' @ postgres_host s @ '':'' @ int_str (postgres_port s) @ ''/'' @ postgres_db s"

text \<open>The engine's arguments; a session keeps the attributes of its objects after a commit.\<close>

record engine_options =
  eo_url :: string
  pool_size :: nat
  max_overflow :: nat
  pool_pre_ping :: bool
  pool_recycle :: nat
  eo_echo :: bool

definition engine_of :: "settings \<Rightarrow> engine_options" where
  "engine_of s = \<lparr>eo_url = database_url s, pool_size = 10, max_overflow = 5, pool_pre_ping = True,
                  pool_recycle = 1800, eo_echo = sql_echo s\<rparr>"

text \<open>The level of the root logger: \<^verbatim>\<open>logging.DEBUG\<close> or \<^verbatim>\<open>logging.INFO\<close>.\<close>

definition log_level :: "settings \<Rightarrow> nat" where
  "log_level s = (if app_env s = ''local'' then 10 else 20)"

section \<open>Wiring\<close>

record platform =
  pf_postgis :: postgis
  pf_case :: case_maps
  pf_sha256 :: "nat list \<Rightarrow> nat list"
  pf_ucd :: ucd

text \<open>\<^verbatim>\<open>hashlib.sha256(canonical.encode("utf-8")).hexdigest()\<close>, of an ASCII string.\<close>

definition hexdigest :: "(nat list \<Rightarrow> nat list) \<Rightarrow> string \<Rightarrow> string" where
  "hexdigest sha256 s = concat (map (hex 2) (sha256 (map of_char s)))"

definition get_geocoder :: "platform \<Rightarrow> postal_address \<Rightarrow> exc + coordinates" where
  "get_geocoder pf = mock_geocode (pf_case pf) (pf_sha256 pf)"

definition get_warehouse_selection_service ::
  "platform \<Rightarrow> postal_address \<Rightarrow> requested_item list \<Rightarrow> db \<Rightarrow> exc + warehouse_candidate" where
  "get_warehouse_selection_service pf = select_warehouse (get_geocoder pf) (pf_postgis pf)"

text \<open>What the creation and checkout services are constructed with.\<close>

definition service_env :: "settings \<Rightarrow> platform \<Rightarrow> env" where
  "service_env cfg pf = \<lparr>env_geocode = get_geocoder pf, env_pg = pf_postgis pf,
                         reservation_ttl_seconds = reservation_ttl cfg\<rparr>"

definition get_order_creation_service ::
  "settings \<Rightarrow> platform \<Rightarrow> uuid \<Rightarrow> postal_address \<Rightarrow> requested_item list \<Rightarrow> db \<Rightarrow> (exc + order_row) \<times> db" where
  "get_order_creation_service cfg pf = create (service_env cfg pf)"

text \<open>The module-level provider starts without charges and lives as long as the process.\<close>

definition payment_provider_at_start :: mock where
  "payment_provider_at_start = new_mock"

definition get_payment_provider :: "charge_request \<Rightarrow> mock \<Rightarrow> payment_result \<times> mock" where
  "get_payment_provider = mock_charge"

definition get_event_publisher :: "outbox_row \<Rightarrow> (string \<times> uuid) list \<Rightarrow> exc option \<times> (string \<times> uuid) list" where
  "get_event_publisher = log_publish"

definition get_checkout_service ::
  "settings \<Rightarrow> platform \<Rightarrow> (db \<Rightarrow> db) \<Rightarrow> checkout_request \<Rightarrow> db \<times> mock \<Rightarrow> (exc + checkout_result) \<times> (db \<times> mock)" where
  "get_checkout_service cfg pf = checkout (service_env cfg pf) get_payment_provider"

definition application ::
  "settings \<Rightarrow> platform \<Rightarrow> (db \<Rightarrow> db) \<Rightarrow> string option \<Rightarrow> create_order_request \<Rightarrow> string option \<Rightarrow> string \<Rightarrow>
     db \<times> mock \<Rightarrow> sent \<times> log \<times> (db \<times> mock)" where
  "application cfg pf = serve_orders (service_env cfg pf) (pf_ucd pf) (hexdigest (pf_sha256 pf)) get_payment_provider"

lemma length_hexdigest: "length (sha256 (map of_char s)) = 32 \<Longrightarrow> length (hexdigest sha256 s) = 64"
proof -
  have "length (concat (map (hex 2) bs)) = 2 * length bs" for bs
    by (induction bs) (simp_all add: numeral_2_eq_2)
  then show "length (sha256 (map of_char s)) = 32 \<Longrightarrow> ?thesis" by (simp add: hexdigest_def)
qed

text \<open>A request that validation accepts and whose checkout succeeds is answered 201 by the whole stack.\<close>

lemma application_success:
  assumes "validate_request (pf_ucd pf) raw = Inr rq" and "\<not> list_all py_space key"
    and "get_checkout_service cfg pf between (checkout_request_of (hexdigest (pf_sha256 pf)) key rq) s =
      (Inr res, s')"
  shows "application cfg pf between (Some key) raw incoming fresh s =
    (\<lparr>sent_response = created_response (co_body res) (co_order_id res),
      x_request_id = Some (bound_id incoming fresh)\<rparr>, [], s')"
proof -
  have "\<forall>i \<in> set (req_items rq). 0 < in_quantity i" using validate_request_Inr [OF assms(1)] by (simp add: list_all_iff)
  note items = make_items_map [OF this]
  have "create_order_route (service_env cfg pf) (hexdigest (pf_sha256 pf)) get_payment_provider between (Some key) rq s =
      (Inr (created_response (co_body res) (co_order_id res)), s')"
    using assms(2,3) items
    by (simp add: create_order_route_def get_checkout_service_def checkout_request_of_def created_response_def)
  then show ?thesis using assms(1)
    by (simp add: application_def serve_orders_def server_errors_def correlation_id_middleware_def handled_route_def
        bound_id_def Let_def)
qed

end
