(* ===== verification/Application_Properties.thy ===== *)
theory Application_Properties
  imports Application Seed_Properties Answer_Properties
begin

text \<open>
  The shop from an empty database to its first sale: the seed script, then one request through the
  whole application with the adapters that are wired in.
\<close>

section \<open>The shop after installation\<close>

text \<open>A database with the tables and nothing in them.\<close>

definition empty_database :: "db \<Rightarrow> bool" where
  "empty_database d \<longleftrightarrow> no_reference_data d \<and> orders d = [] \<and> order_items d = [] \<and> order_status_history d = [] \<and>
     payments d = [] \<and> stock_reservations d = [] \<and> idempotency_keys d = [] \<and> outbox d = [] \<and> inj (uuid_seq d)"

lemma empty_database_ok: "empty_database d \<Longrightarrow> db_ok d"
  by (simp add: empty_database_def no_reference_data_def db_ok_def table_ok_def conflict_free_def)

lemma seeded_shop_ok:
  assumes "empty_database d"
  shows "shop_ok (seeded_shop d)"
proof -
  have e: "no_reference_data d" "inj (uuid_seq d)" using assms by (simp_all add: empty_database_def)
  have "seed_transaction d = Inr ((), seeded_shop d)"
    using in_transaction_cases [of seed_transaction d "Inr ()" "seeded_shop d"] seed_main_new_shop [OF e]
    by (simp add: seed_main_def)
  then have ok: "db_ok (seeded_shop d)" using seed_transaction_Inr [OF _ empty_database_ok [OF assms]] by blast
  have none: "stock_reservations (seeded_shop d) = []" "orders (seeded_shop d) = []" "order_items (seeded_shop d) = []"
    "order_status_history (seeded_shop d) = []" "payments (seeded_shop d) = []" "idempotency_keys (seeded_shop d) = []"
    "outbox (seeded_shop d) = []" using assms by (simp_all add: seeded_shop_def empty_database_def)
  have led: "ledger_ok (seeded_shop d)" using ok by (simp add: ledger_ok_def db_ok_def none)
  have "used_ids (seeded_shop d) \<subseteq> uuid_seq d ` {n. n < uuid_pos d + 26}"
    unfolding used_ids_def none
    by (auto simp: seeded_shop_def shop_customer_def shop_products_def PRODUCTS_def shop_warehouses_def WAREHOUSES_def
        ADDRESSES_def shop_address_def shop_inventory_def shop_stock_def seed_product_def seed_warehouse_def seed_stock_def)
  then have "uuids_fresh (seeded_shop d)"
    using e(2) by (auto simp: uuids_fresh_def seeded_shop_def inj_eq)
  with ok led show ?thesis by (simp add: shop_ok_def db_ok_def refs_ok_def none)
qed

text \<open>Keyboards and mice: the first two products of the script.\<close>

definition desk_items :: "db \<Rightarrow> int \<Rightarrow> int \<Rightarrow> requested_item list" where
  "desk_items d q1 q2 = [\<lparr>product_id = nth_id d 0, quantity = q1\<rparr>, \<lparr>product_id = nth_id d 1, quantity = q2\<rparr>]"

lemma desk_products:
  assumes "inj (uuid_seq d)"
  shows "get_by_ids (set (map product_id (desk_items d q1 q2))) (seeded_shop d) =
    [nth_id d 0 \<mapsto> shop_products d ! 0, nth_id d 1 \<mapsto> shop_products d ! 1]"
  by (auto simp: get_by_ids_def desk_items_def shop_products_def PRODUCTS_def seed_product_def inj_eq [OF assms] fun_eq_iff)

lemma desk_total:
  assumes "inj (uuid_seq d)"
  shows "basket_total (get_by_ids (set (map product_id (desk_items d q1 q2))) (seeded_shop d)) (desk_items d q1 q2) =
    8900 * q1 + 3450 * q2"
  unfolding desk_products [OF assms]
  by (simp add: basket_total_def desk_items_def shop_products_def PRODUCTS_def seed_product_def inj_eq [OF assms])

lemma desk_able:
  assumes "inj (uuid_seq d)" and "0 < q1" "q1 \<le> 45" "0 < q2" "q2 \<le> 40"
  shows "shop_warehouse d 0 \<in> set (able (seeded_shop d) (desk_items d q1 q2))"
    and "w \<in> set (able (seeded_shop d) (desk_items d q1 q2)) \<Longrightarrow>
      w \<in> {shop_warehouse d 0, shop_warehouse d 1, shop_warehouse d 3}"
  using assms(2-5)
  by (auto simp: able_def supplies_def stocked_def shop_warehouses_def WAREHOUSES_def seed_warehouse_def desk_items_def
      shop_inventory_def shop_stock_def seed_stock_def inj_eq [OF assms(1)] split: if_splits)

section \<open>An address in Madrid\<close>

definition in_madrid :: "case_maps \<Rightarrow> postal_address \<Rightarrow> bool" where
  "in_madrid m a \<longleftrightarrow> strip (city a) \<noteq> [] \<and> casefold m (strip (city a)) = ustr ''madrid'' \<and>
     upper m (strip (country_code a)) = ustr ''ES''"

abbreviation madrid :: wkb_point where
  "madrid \<equiv> (double (-3.7038), double 40.4168)"

lemma geocoded_madrid:
  assumes "in_madrid (pf_case pf) a"
  shows "\<exists>c. env_geocode (service_env cfg pf) a = Inr c \<and> to_point (lon c) (lat c) = Inr madrid"
proof -
  let ?key = "(ustr ''madrid'', ustr ''ES'')"
  have "map_of (map (\<lambda>((c, k), p). ((ustr c, ustr k), p)) CITIES) ?key = Some (double 40.4168, double (-3.7038))"
    by (simp add: CITIES_def)
  from cities_valid [OF this] this assms show ?thesis
    by (auto simp: service_env_def get_geocoder_def mock_geocode_def in_madrid_def dest: to_point_of_coordinates)
qed

text \<open>The one of the able warehouses that is nearest to Madrid is the one in Madrid.\<close>

lemma nearest_to_madrid:
  assumes "inj (uuid_seq d)" and q: "0 < q1" "q1 \<le> 45" "0 < q2" "q2 \<le> 40"
    and geo: "in_madrid (pf_case pf) addr"
    and near: "knn_distance (pf_postgis pf) madrid madrid < knn_distance (pf_postgis pf) (double 2.1734, double 41.3851) madrid"
      "knn_distance (pf_postgis pf) madrid madrid < knn_distance (pf_postgis pf) (double (-5.9845), double 37.3891) madrid"
    and w: "nearest_able (service_env cfg pf) addr (desk_items d q1 q2) (seeded_shop d) w"
  shows "w = shop_warehouse d 0"
proof -
  note able = desk_able [OF assms(1) q]
  from w able(2) have c: "w \<in> {shop_warehouse d 0, shop_warehouse d 1, shop_warehouse d 3}"
    by (simp add: nearest_able_def)
  have "warehouse_rank (pf_postgis pf) madrid w \<le> warehouse_rank (pf_postgis pf) madrid (shop_warehouse d 0)"
    using w able(1) geocoded_madrid [OF geo, of cfg] by (auto simp: nearest_able_def service_env_def)
  with c near show ?thesis
    by (auto simp: warehouse_rank_def shop_warehouses_def WAREHOUSES_def seed_warehouse_def)
qed

text \<open>The mock says yes to a card whose last four digits are ASCII and not one of its test numbers.\<close>

definition pays :: "ustr \<Rightarrow> bool" where
  "pays pan \<longleftrightarrow> card_last4_format (last4_of (card_digits pan)) \<and>
     last4_of (card_digits pan) \<notin> {ustr ''0002'', ustr ''0069'', ustr ''0119''}"

definition storable :: "postal_address \<Rightarrow> bool" where
  "storable a \<longleftrightarrow> fits_text (line1 a) \<and> null_or fits_text (line2 a) \<and> fits_text (city a) \<and> fits_text (postal_code a)"

section \<open>The first sale\<close>

lemma desk_orderable:
  assumes e: "empty_database d" and q: "0 < q1" "q1 \<le> 45" "0 < q2" "q2 \<le> 40"
    and "in_madrid (pf_case pf) addr" and "storable addr" and "country_code_format (country_code addr)"
  shows "orderable (service_env cfg pf) (cu_id (shop_customer d)) addr (desk_items d q1 q2) (seeded_shop d)"
proof -
  have inj: "inj (uuid_seq d)" using e by (simp add: empty_database_def)
  have "fits_int8 (q1 * 8900)" "fits_int8 (q2 * 3450)" "fits_int8 (8900 * q1 + 3450 * q2)"
    using q by (auto simp: fits_int8_def)
  moreover have "\<exists>co pt. env_geocode (service_env cfg pf) addr = Inr co \<and> to_point (lon co) (lat co) = Inr pt"
    using geocoded_madrid [OF assms(6)] by blast
  moreover have "able (seeded_shop d) (desk_items d q1 q2) \<noteq> []" using desk_able(1) [OF inj q] by auto
  moreover have "distinct (map product_id (desk_items d q1 q2))" "desk_items d q1 q2 \<noteq> []"
    "\<forall>i \<in> set (desk_items d q1 q2). 0 < quantity i" using q by (simp_all add: desk_items_def inj_eq [OF inj])
  moreover have "product_id i \<in> pr_id ` set (products (seeded_shop d))" "\<forall>p \<in> set (products (seeded_shop d)).
      pr_id p = product_id i \<longrightarrow> pr_currency p = ''EUR'' \<and> fits_int8 (quantity i * pr_unit_price_minor p)"
    if "i \<in> set (desk_items d q1 q2)" for i
    using that calculation(1,2)
    by (auto simp: desk_items_def shop_products_def PRODUCTS_def seed_product_def EUR_def inj_eq [OF inj])
  moreover have "cu_id (shop_customer d) \<in> cu_id ` set (customers (seeded_shop d))" by (simp add: seeded_shop_def)
  ultimately show ?thesis unfolding orderable_def desk_total [OF inj]
    using assms(7,8) by (auto simp: storable_def)
qed

text \<open>The checkout of such a basket, and what its answer says.\<close>

lemma desk_checkout:
  assumes e: "empty_database d" and q: "0 < q1" "q1 \<le> 45" "0 < q2" "q2 \<le> 40"
    and rq: "rq_items rq = desk_items d q1 q2" "rq_customer rq = cu_id (shop_customer d)" "length (rq_hash rq) = 64"
    and addr: "in_madrid (pf_case pf) (rq_address rq)" "storable (rq_address rq)"
      "country_code_format (country_code (rq_address rq))"
    and card: "pays (rq_card rq)"
  shows "\<exists>ord body d'. get_checkout_service cfg pf (\<lambda>x. x) rq (seeded_shop d, payment_provider_at_start) =
      (Inr \<lparr>co_order_id = o_id ord, co_body = body, co_status_code = 201\<rparr>,
        (d', snd (get_payment_provider (charge_request_of rq ord) payment_provider_at_start))) \<and>
    answer_fits (service_env cfg pf) rq (seeded_shop d) ord body"
  unfolding get_checkout_service_def
proof (rule orderable_checkout_is_confirmed [OF seeded_shop_ok [OF e]])
  have inj: "inj (uuid_seq d)" using e by (simp add: empty_database_def)
  show "orderable (service_env cfg pf) (rq_customer rq) (rq_address rq) (rq_items rq) (seeded_shop d)"
    unfolding rq by (rule desk_orderable [OF e q addr])
  show "0 < basket_total (get_by_ids (set (map product_id (rq_items rq))) (seeded_shop d)) (rq_items rq)"
    using q by (simp only: rq desk_total [OF inj])
  show "outcome (fst (get_payment_provider cr payment_provider_at_start)) = Outcome_succeeded"
    "null_or card_last4_format (card_last4 (fst (get_payment_provider cr payment_provider_at_start)))"
    if "cr_card cr = rq_card rq" for cr
    using that card by (simp_all add: get_payment_provider_def payment_provider_at_start_def new_mock_def
        mock_charge_def Let_def mock_outcome_simps pays_def)
qed (use e rq in \<open>simp_all add: seeded_shop_def empty_database_def key_row_def\<close>)

lemma desk_answer:
  assumes inj: "inj (uuid_seq d)" and q: "0 < q1" "q1 \<le> 45" "0 < q2" "q2 \<le> 40"
    and items: "rq_items rq = desk_items d q1 q2" and geo: "in_madrid (pf_case pf) (rq_address rq)"
    and near: "knn_distance (pf_postgis pf) madrid madrid < knn_distance (pf_postgis pf) (double 2.1734, double 41.3851) madrid"
      "knn_distance (pf_postgis pf) madrid madrid < knn_distance (pf_postgis pf) (double (-5.9845), double 37.3891) madrid"
    and fits: "answer_fits (service_env cfg pf) rq (seeded_shop d) ord body"
  shows "resp_id body = o_id ord \<and> resp_status body = Confirmed \<and> resp_total_minor body = 8900 * q1 + 3450 * q2 \<and>
    resp_currency body = ''EUR'' \<and> map_option wo_code (resp_warehouse body) = Some ''MAD-01''"
proof -
  note f = fits [unfolded answer_fits_def Let_def items desk_total [OF inj]]
  obtain w where w: "nearest_able (service_env cfg pf) (rq_address rq) (desk_items d q1 q2) (seeded_shop d) w"
    "resp_warehouse body =
       map_option warehouse_out_of (List.find (\<lambda>x. wh_id x = wh_id w) (warehouses (seeded_shop d)))"
    using f by blast
  have "w = shop_warehouse d 0" by (rule nearest_to_madrid [OF inj q geo near w(1)])
  with w(2) have "map_option wo_code (resp_warehouse body) = Some ''MAD-01''"
    by (simp add: shop_warehouses_def WAREHOUSES_def seed_warehouse_def warehouse_out_of_def)
  moreover have "resp_currency body = ''EUR''"
    using f unfolding desk_products [OF inj]
    by (simp add: desk_items_def shop_products_def PRODUCTS_def seed_product_def EUR_def inj_eq [OF inj])
  ultimately show ?thesis using f by blast
qed

text \<open>
  C28: a new shop makes its first sale. Whatever the settings and the platform, on an empty database the
  seed script succeeds, and the first request of its customer for up to 45 keyboards and 40 mice to an
  address in Madrid, with any accepted card that is not one of the mock's test numbers, is answered
  201 with the request's id: the order is confirmed, costs the sum of the list prices in euros, and
  ships from Madrid Central, which the database's distances put nearest. The provider has been
  charged once, for the order, under its id, and nothing is logged as an error.
\<close>

theorem new_shop_makes_its_first_sale:
  assumes "empty_database d" and "validate_request (pf_ucd pf) raw = Inr rq"
    and "req_customer_id rq = cu_id (shop_customer d)"
    and "map (\<lambda>i. (in_product_id i, in_quantity i)) (req_items rq) =
      [(the (product_ids (shop_products d) ''SKU-KEYB''), q1), (the (product_ids (shop_products d) ''SKU-MOUSE''), q2)]"
    and "q1 \<le> 45" and "q2 \<le> 40"
    and "in_madrid (pf_case pf) (req_address rq)" and "storable (req_address rq)" and "pays (req_card_number rq)"
    and "\<not> list_all py_space key" and "\<And>bs. length (pf_sha256 pf bs) = 32"
    and "knn_distance (pf_postgis pf) madrid madrid < knn_distance (pf_postgis pf) (double 2.1734, double 41.3851) madrid"
    and "knn_distance (pf_postgis pf) madrid madrid < knn_distance (pf_postgis pf) (double (-5.9845), double 37.3891) madrid"
  shows "\<exists>shop body d' p'. seed_main d = (Inr (), shop) \<and>
    application cfg pf (\<lambda>x. x) (Some key) raw incoming fresh (shop, payment_provider_at_start) =
      (\<lparr>sent_response = created_response body (resp_id body), x_request_id = Some (bound_id incoming fresh)\<rparr>, [],
       (d', p')) \<and>
    resp_status body = Confirmed \<and> resp_total_minor body = 8900 * q1 + 3450 * q2 \<and> resp_currency body = ''EUR'' \<and>
    map_option wo_code (resp_warehouse body) = Some ''MAD-01'' \<and> charged_keys p' = [uuid_str (resp_id body)]"
proof -
  have inj: "inj (uuid_seq d)" and nr: "no_reference_data d" using assms(1) by (simp_all add: empty_database_def)
  note v = validate_request_Inr [OF assms(2)]
  let ?rq = "checkout_request_of (hexdigest (pf_sha256 pf)) key rq"
  have ids: "the (product_ids (shop_products d) ''SKU-KEYB'') = nth_id d 0"
    "the (product_ids (shop_products d) ''SKU-MOUSE'') = nth_id d 1"
    by (simp_all add: product_ids_def shop_products_def PRODUCTS_def seed_product_def)
  have items: "rq_items ?rq = desk_items d q1 q2" and q: "0 < q1" "0 < q2"
    using assms(4) v(4) unfolding ids by (auto simp: checkout_request_of_def desk_items_def map_eq_Cons_conv)
  have rq: "rq_customer ?rq = cu_id (shop_customer d)" "rq_address ?rq = req_address rq"
    "rq_card ?rq = req_card_number rq" "length (rq_hash ?rq) = 64"
    using assms(3,11) by (simp_all add: checkout_request_of_def request_hash_def length_hexdigest)
  obtain ord body d' where co: "get_checkout_service cfg pf (\<lambda>x. x) ?rq (seeded_shop d, payment_provider_at_start) =
      (Inr \<lparr>co_order_id = o_id ord, co_body = body, co_status_code = 201\<rparr>,
        (d', snd (get_payment_provider (charge_request_of ?rq ord) payment_provider_at_start)))"
    and fits: "answer_fits (service_env cfg pf) ?rq (seeded_shop d) ord body"
    using desk_checkout [OF assms(1) q(1) assms(5) q(2) assms(6) items rq(1,4), of pf cfg] assms(7-9) v(1) rq(2,3)
    by auto
  note answer = desk_answer [OF inj q(1) assms(5) q(2) assms(6) items _ assms(12,13) fits]
  have "charged_keys (snd (get_payment_provider (charge_request_of ?rq ord) payment_provider_at_start)) =
      [uuid_str (o_id ord)]"
    by (simp add: get_payment_provider_def payment_provider_at_start_def new_mock_def mock_charge_def Let_def
        charge_request_of_def)
  then show ?thesis
    using answer assms(7) rq(2) application_success [OF assms(2,10) co, of incoming fresh] seed_main_new_shop [OF nr inj]
    by (intro exI [of _ "seeded_shop d"] exI [of _ body] exI [of _ d']) simp
qed

section \<open>Witness\<close>

definition demo_platform :: platform where
  "demo_platform = \<lparr>pf_postgis = demo_pg, pf_case = ascii_maps, pf_sha256 = (\<lambda>bs. take 32 (bs @ replicate 32 0)),
     pf_ucd = demo_ucd\<rparr>"

text \<open>Two keyboards and a mouse for the seeded customer, at the address the script gives her.\<close>

definition first_request :: create_order_request where
  "first_request = \<lparr>req_customer_id = 123, req_address = \<lparr>line1 = ustr ''Calle de Alcala 45'', city = ustr '' Madrid'',
       postal_code = ustr ''28014'', country_code = ustr ''ES'', line2 = None\<rparr>,
     req_items = [\<lparr>in_product_id = 100, in_quantity = 2\<rparr>, \<lparr>in_product_id = 101, in_quantity = 1\<rparr>],
     req_card_number = ustr ''4242 4242 4242 4242''\<rparr>"

lemma first_request_valid: "validate_request demo_ucd first_request = Inr first_request"
  by (simp add: validate_request_def first_request_def address_problems_def sized_def items_problems_def
      card_problems_def validate_card_def strip_card_def luhn_ok_def luhn_value_def demo_ucd_def
      ustr_def ascii_letter_def ascii_upper_def enumerate_eq_zip Let_def)

lemma madrid_nearest:
  "knn_distance demo_pg madrid madrid < knn_distance demo_pg (double 2.1734, double 41.3851) madrid"
  "knn_distance demo_pg madrid madrid < knn_distance demo_pg (double (-5.9845), double 37.3891) madrid"
proof -
  have "double 2.1734 \<noteq> double (-3.7038)" "double (-5.9845) \<noteq> double (-3.7038)"
    using seeded_points by linarith+
  then show "knn_distance demo_pg madrid madrid < knn_distance demo_pg (double 2.1734, double 41.3851) madrid"
    "knn_distance demo_pg madrid madrid < knn_distance demo_pg (double (-5.9845), double 37.3891) madrid"
    unfolding demo_pg_def by (simp_all add: add_pos_nonneg)
qed

theorem new_shop_makes_its_first_sale_witness:
  "\<exists>shop body d' p'. seed_main new_shop = (Inr (), shop) \<and>
     application default_settings demo_platform (\<lambda>x. x) (Some ''k1'') first_request None ''f00d''
       (shop, payment_provider_at_start) =
       (\<lparr>sent_response = created_response body (resp_id body), x_request_id = Some ''f00d''\<rparr>, [], (d', p')) \<and>
     resp_total_minor body = 21250 \<and> map_option wo_code (resp_warehouse body) = Some ''MAD-01''"
proof -
  have e: "empty_database new_shop"
    using new_shop_facts(1,2) by (simp add: empty_database_def) (simp add: new_shop_def demo_db_def)
  have v: "validate_request (pf_ucd demo_platform) first_request = Inr first_request"
    by (simp add: demo_platform_def first_request_valid)
  have c: "req_customer_id first_request = cu_id (shop_customer new_shop)"
    by (simp add: first_request_def shop_customer_def new_shop_def demo_db_def)
  have i: "map (\<lambda>i. (in_product_id i, in_quantity i)) (req_items first_request) =
      [(the (product_ids (shop_products new_shop) ''SKU-KEYB''), 2), (the (product_ids (shop_products new_shop) ''SKU-MOUSE''), 1)]"
    by (simp add: first_request_def product_ids_def shop_products_def PRODUCTS_def seed_product_def new_shop_def demo_db_def)
  have m: "in_madrid (pf_case demo_platform) (req_address first_request)" "storable (req_address first_request)"
    by (simp_all add: in_madrid_def storable_def demo_platform_def ascii_maps_def first_request_def strip_def is_space_def
        ustr_def ascii_upper_def fits_text_def)
  have p: "pays (req_card_number first_request)"
    by (simp add: pays_def first_request_def card_digits_def last4_of_def card_last4_format_def ustr_def)
  have k: "\<not> list_all py_space ''k1''" by (simp add: py_space_def)
  have h: "length (pf_sha256 demo_platform bs) = 32" for bs by (simp add: demo_platform_def)
  have pg: "pf_postgis demo_platform = demo_pg" by (simp add: demo_platform_def)
  have "\<exists>shop body d' p'. seed_main new_shop = (Inr (), shop) \<and>
    application default_settings demo_platform (\<lambda>x. x) (Some ''k1'') first_request None ''f00d'' (shop, payment_provider_at_start) =
      (\<lparr>sent_response = created_response body (resp_id body), x_request_id = Some (bound_id None ''f00d'')\<rparr>, [],
       (d', p')) \<and>
    resp_status body = Confirmed \<and> resp_total_minor body = 8900 * 2 + 3450 * 1 \<and> resp_currency body = ''EUR'' \<and>
    map_option wo_code (resp_warehouse body) = Some ''MAD-01'' \<and> charged_keys p' = [uuid_str (resp_id body)]"
    by (rule new_shop_makes_its_first_sale [OF e v c i _ _ m p k h madrid_nearest [folded pg]]) simp_all
  then show ?thesis by (auto simp: bound_id_def)
qed

end
