(* ===== verification/Locks.thy ===== *)
theory Locks
  imports Prelude
begin

text \<open>
  Transactions that update rows one at a time and keep each row locked until they end, interleaved
  statement by statement: PostgreSQL at READ COMMITTED, as \<^verbatim>\<open>app/repositories/reservation.py\<close>
  relies on it. A conditional UPDATE of a row that another transaction has written waits, and tests
  its condition on what that transaction leaves behind. Two facts are proved of any such
  transactions: what is committed is what they leave one after the other, in the order of their
  commits, and if each locks its rows in ascending order then somebody can always go on.
\<close>

section \<open>Sessions\<close>

text \<open>
  An UPDATE of one row: its key, and what becomes of the row or \<open>None\<close> where the condition does
  not hold, which makes the transaction raise and roll back.
\<close>

type_synonym ('k, 'v) row_update = "'k \<times> ('v \<Rightarrow> 'v option)"

fun run_updates :: "('k, 'v) row_update list \<Rightarrow> ('k \<rightharpoonup> 'v) \<Rightarrow> ('k \<rightharpoonup> 'v) option" where
  "run_updates [] m = Some m"
| "run_updates (u # us) m =
     (case Option.bind (m (fst u)) (snd u) of None \<Rightarrow> None
      | Some v \<Rightarrow> run_updates us (m(fst u \<mapsto> v)))"

datatype phase = Running | Done | Rolled_back

text \<open>
  What a session has run, what it has yet to run, and the rows it has written with the versions it
  found, newest first: those rows are the ones it has locked.
\<close>

record ('k, 'v) session_state =
  phase_of :: phase
  executed :: "('k, 'v) row_update list"
  todo :: "('k, 'v) row_update list"
  found :: "('k \<times> 'v) list"

record ('k, 'v) contention =
  current :: "'k \<rightharpoonup> 'v"
  sessions :: "nat \<Rightarrow> ('k, 'v) session_state"
  commits :: "nat list"

definition locked :: "('k, 'v) session_state \<Rightarrow> 'k set" where
  "locked t = fst ` set (found t)"

text \<open>The committed version of a row that the session has written.\<close>

definition version_before :: "('k, 'v) session_state \<Rightarrow> 'k \<rightharpoonup> 'v" where
  "version_before t = map_of (rev (found t))"

definition roll_back :: "('k, 'v) session_state \<Rightarrow> ('k \<rightharpoonup> 'v) \<Rightarrow> ('k \<rightharpoonup> 'v)" where
  "roll_back t m = m ++ version_before t"

definition others_lock :: "('k, 'v) contention \<Rightarrow> nat \<Rightarrow> 'k \<Rightarrow> bool" where
  "others_lock c i k \<longleftrightarrow> (\<exists>j. j \<noteq> i \<and> k \<in> locked (sessions c j))"

definition ended :: "phase \<Rightarrow> ('k, 'v) session_state \<Rightarrow> ('k, 'v) session_state" where
  "ended p t = t\<lparr>phase_of := p, found := []\<rparr>"

section \<open>Steps\<close>

text \<open>
  \<open>Update\<close> writes a row that nobody else has locked. \<open>Unmatched\<close> finds the condition false on the row
  as it is, and \<open>Unseen\<close> on the committed version of a row that another session has written: such a
  statement does not wait. A statement with neither is blocked. \<open>Crash\<close> is a session that dies.
\<close>

inductive work :: "('k, 'v) contention \<Rightarrow> ('k, 'v) contention \<Rightarrow> bool" where
  Update: "phase_of (sessions c i) = Running \<Longrightarrow> todo (sessions c i) = u # us \<Longrightarrow>
    \<not> others_lock c i (fst u) \<Longrightarrow> current c (fst u) = Some v \<Longrightarrow> snd u v = Some v' \<Longrightarrow>
    work c (c\<lparr>current := (current c)(fst u \<mapsto> v'), sessions := (sessions c)(i := (sessions c i)
      \<lparr>executed := executed (sessions c i) @ [u], todo := us, found := (fst u, v) # found (sessions c i)\<rparr>)\<rparr>)"
| Unmatched: "phase_of (sessions c i) = Running \<Longrightarrow> todo (sessions c i) = u # us \<Longrightarrow>
    \<not> others_lock c i (fst u) \<Longrightarrow> Option.bind (current c (fst u)) (snd u) = None \<Longrightarrow>
    work c (c\<lparr>current := roll_back (sessions c i) (current c),
      sessions := (sessions c)(i := ended Rolled_back (sessions c i))\<rparr>)"
| Unseen: "phase_of (sessions c i) = Running \<Longrightarrow> todo (sessions c i) = u # us \<Longrightarrow>
    j \<noteq> i \<Longrightarrow> version_before (sessions c j) (fst u) = Some v \<Longrightarrow> snd u v = None \<Longrightarrow>
    work c (c\<lparr>current := roll_back (sessions c i) (current c),
      sessions := (sessions c)(i := ended Rolled_back (sessions c i))\<rparr>)"
| Commit: "phase_of (sessions c i) = Running \<Longrightarrow> todo (sessions c i) = [] \<Longrightarrow>
    work c (c\<lparr>sessions := (sessions c)(i := ended Done (sessions c i)), commits := commits c @ [i]\<rparr>)"

inductive contend :: "('k, 'v) contention \<Rightarrow> ('k, 'v) contention \<Rightarrow> bool" where
  Work: "work c c' \<Longrightarrow> contend c c'"
| Crash: "phase_of (sessions c i) = Running \<Longrightarrow>
    contend c (c\<lparr>current := roll_back (sessions c i) (current c),
      sessions := (sessions c)(i := ended Rolled_back (sessions c i))\<rparr>)"

text \<open>One session per plan, none of which has begun.\<close>

definition starting :: "('k \<rightharpoonup> 'v) \<Rightarrow> ('k, 'v) row_update list list \<Rightarrow> ('k, 'v) contention" where
  "starting m plans =
     \<lparr>current = m,
      sessions = (\<lambda>i. if i < length plans
        then \<lparr>phase_of = Running, executed = [], todo = plans ! i, found = []\<rparr>
        else \<lparr>phase_of = Done, executed = [], todo = [], found = []\<rparr>),
      commits = []\<rparr>"

definition all_ended :: "('k, 'v) contention \<Rightarrow> bool" where
  "all_ended c \<longleftrightarrow> (\<forall>i. phase_of (sessions c i) \<noteq> Running)"

definition deadlocked :: "('k, 'v) contention \<Rightarrow> bool" where
  "deadlocked c \<longleftrightarrow> \<not> all_ended c \<and> (\<nexists>c'. work c c')"

text \<open>Statements and commits that are still to come.\<close>

definition work_left :: "nat \<Rightarrow> ('k, 'v) contention \<Rightarrow> nat" where
  "work_left n c = (\<Sum>i<n. if phase_of (sessions c i) = Running then Suc (length (todo (sessions c i))) else 0)"

section \<open>A transaction touches its own rows only\<close>

lemma run_updates_append:
  "run_updates (us @ vs) m = (case run_updates us m of None \<Rightarrow> None | Some m' \<Rightarrow> run_updates vs m')"
  by (induction us arbitrary: m) (auto split: option.splits)

lemma run_updates_other: "run_updates us m = Some m' \<Longrightarrow> k \<notin> fst ` set us \<Longrightarrow> m' k = m k"
  by (induction us arbitrary: m) (auto split: option.splits if_splits)

text \<open>What a run does to its own rows depends on those rows alone.\<close>

lemma run_updates_local:
  assumes "run_updates us m = Some m'" and "\<forall>k \<in> A. m2 k = m k" and "fst ` set us \<subseteq> A"
  shows "run_updates us m2 = Some (\<lambda>k. if k \<in> A then m' k else m2 k)"
  using assms
proof (induction us arbitrary: m m2)
  case (Cons u us)
  from Cons.prems(1) obtain v where v: "Option.bind (m (fst u)) (snd u) = Some v"
    and r: "run_updates us (m(fst u \<mapsto> v)) = Some m'" by (auto split: option.splits)
  have "fst u \<in> A" and "m2 (fst u) = m (fst u)" using Cons.prems(2,3) by auto
  moreover from this have "\<forall>k \<in> A. (m2(fst u \<mapsto> v)) k = (m(fst u \<mapsto> v)) k" using Cons.prems(2) by simp
  note Cons.IH [OF r this]
  moreover have "(\<lambda>k. if k \<in> A then m' k else (m2(fst u \<mapsto> v)) k) = (\<lambda>k. if k \<in> A then m' k else m2 k)"
    using \<open>fst u \<in> A\<close> by auto
  ultimately show ?case using v Cons.prems(3) by (simp add: fun_upd_def)
qed (auto simp: fun_eq_iff)

lemma roll_back_apply: "roll_back t m k = (if k \<in> locked t then version_before t k else m k)"
proof -
  have "k \<in> locked t \<longleftrightarrow> k \<in> dom (version_before t)"
    by (simp add: locked_def version_before_def dom_map_of_conv_image_fst)
  then show ?thesis by (auto simp: roll_back_def map_add_def split: option.splits)
qed

lemma ended_simps [simp]:
  "phase_of (ended p t) = p" "executed (ended p t) = executed t" "todo (ended p t) = todo t"
  "found (ended p t) = []" "locked (ended p t) = {}"
  by (simp_all add: ended_def locked_def)

lemma locked_updated [simp]:
  "locked (t\<lparr>executed := us, todo := vs, found := (k, v) # found t\<rparr>) = insert k (locked t)"
  by (simp add: locked_def)

section \<open>The invariant\<close>

text \<open>
  \<open>base\<close> is what is committed: no row is locked twice, an ended session locks none, an unlocked row is
  as committed, a locked one can be put back, and a running session's rows are what its statements
  make of the committed ones.
\<close>

definition isolated :: "('k \<rightharpoonup> 'v) \<Rightarrow> ('k, 'v) contention \<Rightarrow> bool" where
  "isolated base c \<longleftrightarrow>
     (\<forall>i j. i \<noteq> j \<longrightarrow> locked (sessions c i) \<inter> locked (sessions c j) = {}) \<and>
     (\<forall>i. phase_of (sessions c i) \<noteq> Running \<longrightarrow> found (sessions c i) = []) \<and>
     (\<forall>k. (\<forall>i. k \<notin> locked (sessions c i)) \<longrightarrow> current c k = base k) \<and>
     (\<forall>i. \<forall>k \<in> locked (sessions c i). version_before (sessions c i) k = base k) \<and>
     (\<forall>i. phase_of (sessions c i) = Running \<longrightarrow>
        fst ` set (executed (sessions c i)) = locked (sessions c i) \<and>
        run_updates (executed (sessions c i)) base =
          Some (\<lambda>k. if k \<in> locked (sessions c i) then current c k else base k))"

definition serial_so_far :: "('k \<rightharpoonup> 'v) \<Rightarrow> ('k, 'v) row_update list list \<Rightarrow> ('k, 'v) contention \<Rightarrow> bool" where
  "serial_so_far m plans c \<longleftrightarrow>
     (\<forall>i < length plans. executed (sessions c i) @ todo (sessions c i) = plans ! i) \<and>
     (\<forall>i \<ge> length plans. phase_of (sessions c i) = Done \<and> todo (sessions c i) = []) \<and>
     distinct (commits c) \<and>
     set (commits c) = {i. i < length plans \<and> phase_of (sessions c i) = Done} \<and>
     (\<exists>base. run_updates (concat (map ((!) plans) (commits c))) m = Some base \<and> isolated base c)"

lemma isolatedD:
  assumes "isolated base c"
  shows "i \<noteq> j \<Longrightarrow> k \<in> locked (sessions c i) \<Longrightarrow> k \<notin> locked (sessions c j)"
    and "phase_of (sessions c i) \<noteq> Running \<Longrightarrow> found (sessions c i) = []"
    and "(\<And>i. k \<notin> locked (sessions c i)) \<Longrightarrow> current c k = base k"
    and "k \<in> locked (sessions c i) \<Longrightarrow> version_before (sessions c i) k = base k"
    and "phase_of (sessions c i) = Running \<Longrightarrow> fst ` set (executed (sessions c i)) = locked (sessions c i)"
    and "phase_of (sessions c i) = Running \<Longrightarrow> run_updates (executed (sessions c i)) base =
      Some (\<lambda>k. if k \<in> locked (sessions c i) then current c k else base k)"
  using assms unfolding isolated_def by blast+

lemma starting_serial: "serial_so_far m plans (starting m plans)"
  by (auto simp: serial_so_far_def starting_def isolated_def locked_def version_before_def fun_eq_iff)

lemma isolated_update:
  assumes c: "isolated base c" and run: "phase_of (sessions c i) = Running"
    and free: "\<not> others_lock c i (fst u)" and v: "current c (fst u) = Some v" "snd u v = Some v'"
  shows "isolated base (c\<lparr>current := (current c)(fst u \<mapsto> v'), sessions := (sessions c)(i := (sessions c i)
      \<lparr>executed := executed (sessions c i) @ [u], todo := us, found := (fst u, v) # found (sessions c i)\<rparr>)\<rparr>)"
    (is "isolated base ?c")
proof -
  let ?t = "sessions c i"
  let ?k = "fst u"
  note d = isolatedD [OF c]
  have lk: "locked (sessions ?c j) = (if j = i then insert ?k (locked ?t) else locked (sessions c j))" for j
    by simp
  have none: "j \<noteq> i \<Longrightarrow> ?k \<notin> locked (sessions c j)" for j using free by (auto simp: others_lock_def)
  have same: "?k \<notin> locked ?t \<Longrightarrow> base ?k = Some v" using d(3) [of ?k] none v(1) by metis
  have first: "version_before (sessions ?c i) k = base k" if k: "k \<in> insert ?k (locked ?t)" for k
  proof (cases "k \<in> locked ?t")
    case True
    then obtain x where "map_of (rev (found ?t)) k = Some x"
      by (metis locked_def image_set map_of_eq_None_iff not_Some_eq rev_map set_rev)
    then have "version_before (sessions ?c i) k = version_before ?t k" by (simp add: version_before_def)
    with d(4) [OF True] show ?thesis by simp
  next
    case False
    then have "map_of (rev (found ?t)) k = None" by (simp add: locked_def map_of_eq_None_iff)
    with False k same show ?thesis by (auto simp: version_before_def map_add_def)
  qed
  have runs: "run_updates (executed ?t @ [u]) base =
      Some (\<lambda>k. if k \<in> insert ?k (locked ?t) then ((current c)(?k \<mapsto> v')) k else base k)"
    using d(6) [OF run] same v by (auto simp: run_updates_append fun_eq_iff)
  have mine: "fst ` set (executed ?t @ [u]) = insert ?k (locked ?t)" using d(5) [OF run] by simp
  have free': "current ?c k = base k" if "\<And>j. k \<notin> locked (sessions ?c j)" for k
  proof -
    have k: "k \<noteq> ?k" "k \<notin> locked ?t" using that [of i] unfolding lk by simp_all
    have "k \<notin> locked (sessions c j)" for j using that [of j] k unfolding lk by (cases "j = i") simp_all
    with d(3) [OF this] k(1) show ?thesis by simp
  qed
  have others: "run_updates (executed (sessions c j)) base =
      Some (\<lambda>k. if k \<in> locked (sessions c j) then current ?c k else base k)"
    if j: "j \<noteq> i" "phase_of (sessions c j) = Running" for j
    using d(6) [OF j(2)] none [OF j(1)] by (auto simp: fun_eq_iff)
  show ?thesis
    unfolding isolated_def
  proof (intro conjI allI impI ballI)
    fix j l :: nat
    assume "j \<noteq> l"
    then show "locked (sessions ?c j) \<inter> locked (sessions ?c l) = {}"
      using d(1) none by (cases "j = i"; cases "l = i") (auto simp: Int_commute)
  next
    fix j k
    assume "k \<in> locked (sessions ?c j)"
    then show "version_before (sessions ?c j) k = base k"
      using first d(4) by (cases "j = i") (simp_all add: lk)
  qed (use d(2,5) run runs mine free' others in \<open>auto simp: lk split: if_splits\<close>)
qed

lemma isolated_roll_back:
  assumes c: "isolated base c"
  shows "isolated base (c\<lparr>current := roll_back (sessions c i) (current c),
      sessions := (sessions c)(i := ended Rolled_back (sessions c i))\<rparr>)" (is "isolated base ?c")
proof -
  note d = isolatedD [OF c]
  have same: "current ?c k = current c k" if "k \<in> locked (sessions c j)" "j \<noteq> i" for j k
    using d(1) that by (auto simp: roll_back_apply)
  have free: "current ?c k = base k" if "\<And>j. k \<notin> locked (sessions ?c j)" for k
  proof (cases "k \<in> locked (sessions c i)")
    case False
    have "k \<notin> locked (sessions c j)" for j using that [of j] False by (cases "j = i") auto
    from d(3) [OF this] False show ?thesis by (simp add: roll_back_apply)
  qed (simp add: roll_back_apply d(4))
  have others: "run_updates (executed (sessions c j)) base =
      Some (\<lambda>k. if k \<in> locked (sessions c j) then current ?c k else base k)"
    if j: "j \<noteq> i" "phase_of (sessions c j) = Running" for j
    using d(6) [OF j(2)] same [OF _ j(1)] by (auto simp: fun_eq_iff)
  show ?thesis
    unfolding isolated_def
    by (intro conjI allI impI ballI) (use d(1,2,4,5) free others in \<open>auto split: if_splits\<close>)
qed

lemma isolated_commit:
  assumes c: "isolated base c" and run: "phase_of (sessions c i) = Running"
  shows "\<exists>base'. run_updates (executed (sessions c i)) base = Some base' \<and>
    isolated base' (c\<lparr>sessions := (sessions c)(i := ended Done (sessions c i)), commits := cs\<rparr>)"
proof -
  let ?t = "sessions c i"
  let ?base = "\<lambda>k. if k \<in> locked ?t then current c k else base k"
  let ?c = "c\<lparr>sessions := (sessions c)(i := ended Done ?t), commits := cs\<rparr>"
  note d = isolatedD [OF c]
  have others: "run_updates (executed (sessions c j)) ?base =
      Some (\<lambda>k. if k \<in> locked (sessions c j) then current c k else ?base k)"
    if j: "j \<noteq> i" "phase_of (sessions c j) = Running" for j
  proof -
    have "\<forall>k \<in> locked (sessions c j). ?base k = base k" using d(1) [OF j(1)] by auto
    from run_updates_local [OF d(6) [OF j(2)] this] d(5) [OF j(2)] show ?thesis by (auto simp: fun_eq_iff)
  qed
  have before: "version_before (sessions c j) k = ?base k" if "j \<noteq> i" "k \<in> locked (sessions c j)" for j k
    using d(1) [OF that] d(4) [OF that(2)] by auto
  have free: "current c k = ?base k" if "\<And>j. k \<notin> locked (sessions ?c j)" for k
  proof (cases "k \<in> locked ?t")
    case False
    have "k \<notin> locked (sessions c j)" for j using that [of j] False by (cases "j = i") auto
    from d(3) [OF this] False show ?thesis by simp
  qed simp
  have "isolated ?base ?c"
    unfolding isolated_def
    by (intro conjI allI impI ballI)
      (use d(1,2,5) free before others in \<open>auto split: if_splits\<close>)
  then show ?thesis using d(6) [OF run] by blast
qed

section \<open>Every schedule is a serial one\<close>

lemma running_small: "serial_so_far m plans c \<Longrightarrow> phase_of (sessions c i) = Running \<Longrightarrow> i < length plans"
  unfolding serial_so_far_def by (metis not_le phase.distinct(1))

lemma contend_step:
  assumes "contend c c'" and "serial_so_far m plans c"
  shows "serial_so_far m plans c'"
proof -
  from assms(2) obtain base where
    plans: "\<forall>i < length plans. executed (sessions c i) @ todo (sessions c i) = plans ! i"
      "\<forall>i \<ge> length plans. phase_of (sessions c i) = Done \<and> todo (sessions c i) = []"
      "distinct (commits c)" "set (commits c) = {i. i < length plans \<and> phase_of (sessions c i) = Done}" and
    base: "run_updates (concat (map ((!) plans) (commits c))) m = Some base" "isolated base c"
    by (auto simp: serial_so_far_def)
  note small = running_small [OF assms(2)]
  have back_out: "serial_so_far m plans (c\<lparr>current := roll_back (sessions c i) (current c),
      sessions := (sessions c)(i := ended Rolled_back (sessions c i))\<rparr>)"
    if "phase_of (sessions c i) = Running" for i
    unfolding serial_so_far_def
    using plans base(1) isolated_roll_back [OF base(2), of i] that small [OF that] by auto
  from assms(1) show ?thesis
  proof cases
    case Work
    then show ?thesis
    proof cases
      case (Update i u us v v')
      then show ?thesis
        unfolding serial_so_far_def
        using plans base(1) small [OF Update(2)]
          isolated_update [OF base(2) Update(2,4-6), of us] by auto
    next
      case (Commit i)
      let ?c = "c\<lparr>sessions := (sessions c)(i := ended Done (sessions c i)), commits := commits c @ [i]\<rparr>"
      from isolated_commit [OF base(2) Commit(2), of "commits c @ [i]"] obtain base' where
        b: "run_updates (executed (sessions c i)) base = Some base'" "isolated base' ?c" by blast
      have "executed (sessions c i) = plans ! i" using plans(1) small [OF Commit(2)] Commit(3) by force
      with b(1) base(1) have "run_updates (concat (map ((!) plans) (commits c @ [i]))) m = Some base'"
        by (simp add: run_updates_append)
      with b(2) plans small [OF Commit(2)] Commit(1,2) show ?thesis
        unfolding serial_so_far_def by auto
    qed (use back_out in \<open>simp_all\<close>)
  next
    case (Crash i)
    with back_out show ?thesis by simp
  qed
qed

lemma contend_serial:
  "contend\<^sup>*\<^sup>* (starting m plans) c \<Longrightarrow> serial_so_far m plans c"
  by (induction rule: rtranclp_induct) (auto intro: starting_serial contend_step)

text \<open>When all have ended, the table is what the committed ones leave one after the other.\<close>

lemma serial_at_the_end:
  assumes "serial_so_far m plans c" and "all_ended c"
  shows "distinct (commits c)" and "set (commits c) = {i. i < length plans \<and> phase_of (sessions c i) = Done}"
    and "run_updates (concat (map ((!) plans) (commits c))) m = Some (current c)"
proof -
  show "distinct (commits c)" "set (commits c) = {i. i < length plans \<and> phase_of (sessions c i) = Done}"
    using assms(1) by (simp_all add: serial_so_far_def)
  from assms(1) obtain base where
    base: "run_updates (concat (map ((!) plans) (commits c))) m = Some base" "isolated base c"
    by (auto simp: serial_so_far_def)
  have "found (sessions c i) = []" for i using isolatedD(2) [OF base(2)] assms(2) by (auto simp: all_ended_def)
  then have "current c = base" using isolatedD(3) [OF base(2)] by (auto simp: locked_def fun_eq_iff)
  with base(1) show "run_updates (concat (map ((!) plans) (commits c))) m = Some (current c)" by simp
qed

text \<open>Every step is one of finitely many.\<close>

lemma contend_uses_up:
  assumes "contend c c'" and "serial_so_far m plans c"
  shows "work_left (length plans) c' < work_left (length plans) c"
proof -
  note small = running_small [OF assms(2)]
  have less: "(\<Sum>j<n. g j) < (\<Sum>j<n. h j)" if "i < n" "g i < h i" "\<And>j. j \<noteq> i \<Longrightarrow> g j = h j" for g h :: "nat \<Rightarrow> nat" and i n
  proof (rule sum_strict_mono_ex1)
    have "g x \<le> h x" for x using that by (cases "x = i") simp_all
    then show "\<forall>x \<in> {..<n}. g x \<le> h x" by simp
  qed (use that in auto)
  from assms(1) obtain i where i: "phase_of (sessions c i) = Running"
    "phase_of (sessions c' i) \<noteq> Running \<or> length (todo (sessions c' i)) < length (todo (sessions c i))"
    "\<And>j. j \<noteq> i \<Longrightarrow> sessions c' j = sessions c j"
    by (auto elim!: contend.cases work.cases)
  show ?thesis unfolding work_left_def by (rule less [OF small [OF i(1)]]) (use i in auto)
qed

section \<open>No deadlock\<close>

text \<open>
  Transactions whose statements lock their rows in ascending order. Of the sessions that are still
  running, the one whose next row is the greatest cannot be blocked: who holds that row would be
  about to lock a greater one.
\<close>

locale lock_discipline =
  fixes plan :: "'w \<Rightarrow> ('k :: linorder, 'v) row_update list"
  assumes ascending: "sorted (map fst (plan w))"
begin

lemma held_below_wanted:
  assumes ser: "serial_so_far m (map plan ws) c" and j: "phase_of (sessions c j) = Running"
    and k: "k \<in> locked (sessions c j)" and u: "u \<in> set (todo (sessions c j))"
  shows "k \<le> fst u"
proof -
  have "j < length ws" using running_small [OF ser j] by simp
  then have "executed (sessions c j) @ todo (sessions c j) = plan (ws ! j)"
    using ser by (simp add: serial_so_far_def)
  then have "sorted (map fst (executed (sessions c j) @ todo (sessions c j)))" using ascending by metis
  moreover have "k \<in> fst ` set (executed (sessions c j))"
    using ser j k isolatedD(5) unfolding serial_so_far_def by blast
  ultimately show ?thesis using u by (auto simp: sorted_append)
qed

lemma free_session_works:
  assumes "phase_of (sessions c i) = Running" and "\<forall>u us. todo (sessions c i) = u # us \<longrightarrow> \<not> others_lock c i (fst u)"
  shows "\<exists>c'. work c c'"
proof (cases "todo (sessions c i)")
  case Nil
  with assms(1) show ?thesis by (blast intro: work.Commit)
next
  case (Cons u us)
  with assms(2) have free: "\<not> others_lock c i (fst u)" by blast
  show ?thesis
  proof (cases "Option.bind (current c (fst u)) (snd u)")
    case None
    with assms(1) Cons free show ?thesis by (blast intro: work.Unmatched)
  next
    case (Some v')
    then obtain v where "current c (fst u) = Some v" "snd u v = Some v'" by (auto simp: bind_eq_Some_conv)
    with assms(1) Cons free show ?thesis by (blast intro: work.Update)
  qed
qed

lemma someone_goes_on:
  assumes ser: "serial_so_far m (map plan ws) c" and "\<not> all_ended c"
  shows "\<exists>c'. work c c'"
proof (rule ccontr)
  assume stuck: "\<nexists>c'. work c c'"
  define R where "R = {i. phase_of (sessions c i) = Running}"
  have "R \<subseteq> {..< length ws}"
    using running_small [OF ser] by (auto simp: R_def)
  then have fin: "finite R" by (rule finite_subset) simp
  have ne: "R \<noteq> {}" using assms(2) by (auto simp: R_def all_ended_def)
  have blocked: "todo (sessions c i) \<noteq> [] \<and> others_lock c i (fst (hd (todo (sessions c i))))" if "i \<in> R" for i
    using free_session_works [of c i] stuck that by (fastforce simp: R_def)
  let ?wanted = "\<lambda>i. fst (hd (todo (sessions c i)))"
  have "Max (?wanted ` R) \<in> ?wanted ` R" using fin ne by (intro Max_in) auto
  then obtain i where i: "i \<in> R" "?wanted i = Max (?wanted ` R)" by auto
  have top: "?wanted j \<le> ?wanted i" if "j \<in> R" for j unfolding i(2) using fin that by (intro Max_ge) auto
  obtain j where j: "j \<noteq> i" "?wanted i \<in> locked (sessions c j)"
    using blocked [OF i(1)] by (auto simp: others_lock_def)
  obtain base where iso: "isolated base c" using ser by (auto simp: serial_so_far_def)
  have jR: "j \<in> R" using isolatedD(2) [OF iso, of j] j(2) by (cases "j \<in> R") (simp_all add: R_def locked_def)
  have "?wanted i \<le> ?wanted j"
    using held_below_wanted [OF ser _ j(2), of "hd (todo (sessions c j))"] blocked [OF jR] jR by (simp add: R_def)
  with top [OF jR] have same: "?wanted j = ?wanted i" by (rule order_antisym)
  obtain l where "l \<noteq> j" "?wanted j \<in> locked (sessions c l)" using blocked [OF jR] by (auto simp: others_lock_def)
  with isolatedD(1) [OF iso] j(2) same show False by metis
qed

end

section \<open>Without the discipline\<close>

text \<open>The second session has written the row that the first wants, and the other way round.\<close>

lemma crossed_is_deadlocked:
  assumes "sessions c = (\<lambda>j. if j = 0 then s else if j = Suc 0 then t else x)" and "phase_of x \<noteq> Running"
    and "phase_of s = Running" "todo s = u # us" "locked t = {fst u}" "version_before t (fst u) = Some a" "snd u a \<noteq> None"
    and "phase_of t = Running" "todo t = v # vs" "locked s = {fst v}" "version_before s (fst v) = Some b" "snd v b \<noteq> None"
    and "version_before x = Map.empty"
  shows "deadlocked c"
proof -
  have "\<not> work c c'" for c'
  proof
    assume "work c c'"
    then show False
      by (cases rule: work.cases)
        (use assms in \<open>auto simp: others_lock_def version_before_def locked_def split: if_splits\<close>)
  qed
  moreover have "\<not> all_ended c" using assms(1,3) by (auto simp: all_ended_def)
  ultimately show ?thesis by (simp add: deadlocked_def)
qed

text \<open>Two transactions that lock the same two rows in opposite orders.\<close>

lemma crossed_orders_deadlock:
  assumes "m (fst v) = Some b" "snd v b = Some b'" and "m (fst u) = Some a" "snd u a = Some a'"
    and "fst u2 = fst u" "snd u2 a \<noteq> None" and "fst v2 = fst v" "snd v2 b \<noteq> None" and "fst u \<noteq> fst v"
  shows "\<exists>c. contend\<^sup>*\<^sup>* (starting m [v # u2 # us, u # v2 # vs]) c \<and> deadlocked c"
proof -
  let ?c0 = "starting m [v # u2 # us, u # v2 # vs]"
  let ?s = "(sessions ?c0 0)\<lparr>executed := executed (sessions ?c0 0) @ [v], todo := u2 # us,
      found := (fst v, b) # found (sessions ?c0 0)\<rparr>"
  let ?c1 = "?c0\<lparr>current := (current ?c0)(fst v \<mapsto> b'), sessions := (sessions ?c0)(0 := ?s)\<rparr>"
  let ?t = "(sessions ?c1 1)\<lparr>executed := executed (sessions ?c1 1) @ [u], todo := v2 # vs,
      found := (fst u, a) # found (sessions ?c1 1)\<rparr>"
  let ?c2 = "?c1\<lparr>current := (current ?c1)(fst u \<mapsto> a'), sessions := (sessions ?c1)(1 := ?t)\<rparr>"
  have "work ?c0 ?c1"
    by (rule work.Update) (use assms in \<open>auto simp: starting_def others_lock_def locked_def\<close>)
  moreover have "work ?c1 ?c2"
    by (rule work.Update) (use assms in \<open>auto simp: starting_def others_lock_def locked_def\<close>)
  moreover have "deadlocked ?c2"
    by (rule crossed_is_deadlocked [where s = ?s and t = ?t and x = "sessions ?c0 2" and u = u2 and us = us
          and v = v2 and vs = vs and a = a and b = b])
      (use assms in \<open>auto simp: starting_def fun_eq_iff locked_def version_before_def\<close>)
  ultimately show ?thesis by (meson Work r_into_rtranclp rtranclp_trans)
qed

end
