(* ===== verification/Contention.thy ===== *)
theory Contention
  imports Locks Stocking Seeds
begin

text \<open>
  The transactions that update \<^verbatim>\<open>inventory\<close>, statement by statement: reserving, handing back
  (a release or a sweep) and the seed script, each as the list of its UPDATEs of one row in the
  order the code runs them. The lemmas say that these lists are what \<open>reserve_stock\<close>, \<open>settle\<close> and
  \<open>seed_inventory\<close> do to the table, and that the first two kinds keep the order of locks of theory
  \<open>Locks\<close>; the third does not.
\<close>

section \<open>UPDATEs of one stock row\<close>

text \<open>The table by its unique key, and the column types and CHECKs of a written row.\<close>

definition by_key :: "inventory_row list \<Rightarrow> uuid \<times> uuid \<rightharpoonup> inventory_row" where
  "by_key rows = map_of (map (\<lambda>i. (inv_key i, i)) rows)"

definition counters :: "db \<Rightarrow> uuid \<times> uuid \<rightharpoonup> inventory_row" where
  "counters d = by_key (inventory d)"

definition counters_fit :: "inventory_row \<Rightarrow> bool" where
  "counters_fit i \<longleftrightarrow> fits_int4 (on_hand i) \<and> fits_int4 (reserved i) \<and> 0 \<le> reserved i \<and> reserved i \<le> on_hand i"

definition checked :: "inventory_row \<Rightarrow> inventory_row option" where
  "checked i = (if counters_fit i then Some i else None)"

type_synonym stock_update = "(uuid \<times> uuid, inventory_row) row_update"

definition take_units :: "timestamp \<Rightarrow> uuid \<Rightarrow> requested_item \<Rightarrow> stock_update" where
  "take_units now wid it = ((wid, product_id it),
     \<lambda>i. if fits_int4 (quantity it) \<and> on_hand i - reserved i \<ge> quantity it
         then checked (i\<lparr>reserved := reserved i + quantity it, inv_updated_at := now\<rparr>) else None)"

definition give_units :: "timestamp \<Rightarrow> released_item \<Rightarrow> stock_update" where
  "give_units now it = ((rel_warehouse_id it, rel_product_id it),
     \<lambda>i. if reserved i \<ge> rel_quantity it
         then checked (i\<lparr>reserved := reserved i - rel_quantity it, inv_updated_at := now\<rparr>) else None)"

text \<open>The seed script's upsert on a row that exists; the values are those of \<open>inventory_values\<close>.\<close>

definition reseed_units :: "uuid \<times> uuid \<times> int \<times> int \<Rightarrow> stock_update" where
  "reseed_units v = ((fst v, fst (snd v)), \<lambda>i. checked (set_stock (seed_stock 0 v 0) i))"

lemma update_keys [simp]:
  "fst (take_units now wid it) = (wid, product_id it)"
  "fst (give_units now r) = (rel_warehouse_id r, rel_product_id r)"
  "fst (reseed_units v) = (fst v, fst (snd v))"
  by (simp_all add: take_units_def give_units_def reseed_units_def)

section \<open>The transactions\<close>

datatype stock_writer =
    Reserving timestamp uuid "requested_item list"
  | Handing_back timestamp "released_item list"

fun stock_plan :: "stock_writer \<Rightarrow> stock_update list" where
  "stock_plan (Reserving now wid items) = map (take_units now wid) (lock_order items wid)"
| "stock_plan (Handing_back now items) =
     map (give_units now) (sort_key (\<lambda>r. (rel_warehouse_id r, rel_product_id r)) items)"

definition reseed_plan :: "(uuid \<times> uuid \<times> int \<times> int) list \<Rightarrow> stock_update list" where
  "reseed_plan vs = map reseed_units vs"

text \<open>Every writer of the saga takes its row locks in the order of (warehouse, product).\<close>

interpretation writers: lock_discipline stock_plan
proof
  fix w
  show "sorted (map fst (stock_plan w))"
    by (cases w) (simp_all add: lock_order_def comp_def)
qed

section \<open>The plans are what the code does\<close>

lemma by_key_row: "by_key rows k = Some i \<Longrightarrow> i \<in> set rows \<and> inv_key i = k"
  unfolding by_key_def by (drule map_of_SomeD) auto

lemma by_key_member: "distinct (map inv_key rows) \<Longrightarrow> i \<in> set rows \<Longrightarrow> by_key rows (inv_key i) = Some i"
  unfolding by_key_def by (rule map_of_is_SomeI) (auto simp: comp_def)

lemma counters_key: "counters d k = Some i \<Longrightarrow> i \<in> set (inventory d) \<and> inv_key i = k"
  unfolding counters_def by (rule by_key_row)

lemma counters_member:
  "distinct (map inv_key (inventory d)) \<Longrightarrow> i \<in> set (inventory d) \<Longrightarrow> counters d (inv_key i) = Some i"
  unfolding counters_def by (rule by_key_member)

lemma counters_fit_row: "row_ok (inventory_spec d) i \<Longrightarrow> counters_fit i"
  by (simp add: inventory_row_ok counters_fit_def)

text \<open>An UPDATE whose condition names one row of the table writes that row.\<close>

lemma by_key_upd:
  assumes "distinct (map inv_key rows)" and "i \<in> set rows" and "c i"
    and "\<And>x. c x \<Longrightarrow> inv_key x = inv_key i" and "\<And>x. inv_key (f x) = inv_key x"
  shows "by_key (upd c f rows) = (by_key rows)(inv_key i \<mapsto> f i)"
  using assms(1,2)
proof (induction rows)
  case (Cons r rows)
  show ?case
  proof (cases "r = i")
    case True
    with Cons.prems(1) have "\<forall>x \<in> set rows. \<not> c x" using assms(4) by (auto simp: rev_image_eqI)
    then have "upd c f rows = rows" by (simp add: upd_none)
    with True assms(3,5) show ?thesis by (simp add: by_key_def fun_eq_iff)
  next
    case False
    with Cons.prems have "inv_key r \<noteq> inv_key i" by (auto simp: rev_image_eqI)
    with False Cons assms(4) show ?thesis by (auto simp: by_key_def fun_upd_twist)
  qed
qed simp

lemma reserve_one_follows:
  assumes "reserve_one ttl oid wid it d = Inr d'" and "table_ok (inventory_spec d) (inventory d)"
  shows "\<exists>i. Option.bind (counters d (wid, product_id it)) (snd (take_units (db_now d) wid it)) = Some i \<and>
    counters d' = (counters d)((wid, product_id it) \<mapsto> i)"
proof -
  note r = assms(1) [unfolded reserve_one_Inr]
  let ?c = "\<lambda>i. inv_warehouse_id i = wid \<and> inv_product_id i = product_id it \<and> on_hand i - reserved i \<ge> quantity it"
  let ?f = "\<lambda>i. i\<lparr>reserved := reserved i + quantity it, inv_updated_at := db_now d\<rparr>"
  from r obtain i where i: "i \<in> set (inventory d)" "inv_warehouse_id i = wid" "inv_product_id i = product_id it"
    "on_hand i - reserved i \<ge> quantity it" by blast
  note dist = inventory_keys_distinct [OF assms(2)]
  have "inventory d' = take_stock wid it d" using r by simp
  then have "counters d' = (counters d)(inv_key i \<mapsto> ?f i)"
    unfolding counters_def take_stock_def using by_key_upd [OF dist i(1), of ?c ?f] i by simp
  moreover have "?f i \<in> set (map ?f (filter (\<lambda>i. inv_warehouse_id i = wid \<and> inv_product_id i = product_id it \<and>
      on_hand i - reserved i \<ge> quantity it) (inventory d)))" using i by auto
  then have "row_ok (inventory_spec d) (?f i)"
    using r unfolding update_rows_Inr list_all_iff by blast
  ultimately show ?thesis
    using counters_member [OF dist i(1)] i r counters_fit_row by (auto simp: take_units_def checked_def)
qed

lemma reserve_one_unmatched:
  assumes "reserve_one ttl oid wid it d = Inl (DomainError e)"
  shows "Option.bind (counters d (wid, product_id it)) (snd (take_units now wid it)) = None"
proof -
  have "\<not> stocked d wid (product_id it) (quantity it)" by (rule reserve_one_refused(2) [OF assms])
  then show ?thesis
    using counters_key [of d "(wid, product_id it)"]
    by (cases "counters d (wid, product_id it)") (auto simp: take_units_def stocked_def list_ex_iff)
qed

lemma hand_back_follows:
  assumes "hand_back it d = Inr d'" and "table_ok (inventory_spec d) (inventory d)"
  shows "\<exists>i. Option.bind (counters d (rel_warehouse_id it, rel_product_id it)) (snd (give_units (db_now d) it)) = Some i \<and>
    counters d' = (counters d)((rel_warehouse_id it, rel_product_id it) \<mapsto> i)"
proof -
  let ?c = "\<lambda>i. inv_warehouse_id i = rel_warehouse_id it \<and> inv_product_id i = rel_product_id it \<and>
            reserved i \<ge> rel_quantity it"
  let ?f = "\<lambda>i. i\<lparr>reserved := reserved i - rel_quantity it, inv_updated_at := db_now d\<rparr>"
  from assms(1) obtain ret rows where u: "update_rows (inventory_spec d) ?c ?f (inventory d) = Inr (ret, rows)"
    "ret \<noteq> []" "d' = d\<lparr>inventory := rows\<rparr>"
    unfolding hand_back_def bind_r_Inr by (auto split: if_split_asm)
  then obtain i where i: "i \<in> set (inventory d)" "?c i" by (auto simp: update_rows_Inr filter_empty_conv)
  note dist = inventory_keys_distinct [OF assms(2)]
  have "inventory d' = upd ?c ?f (inventory d)" using u by (simp add: update_rows_Inr)
  then have "counters d' = (counters d)(inv_key i \<mapsto> ?f i)"
    unfolding counters_def using by_key_upd [OF dist i(1), of ?c ?f] i(2) by simp
  moreover have "row_ok (inventory_spec d) (?f i)"
    using u(1) i unfolding update_rows_Inr list_all_iff by auto
  ultimately show ?thesis
    using counters_member [OF dist i(1)] i counters_fit_row by (auto simp: give_units_def checked_def)
qed

text \<open>A loop each of whose rounds is one UPDATE of a view of the state.\<close>

lemma loop_follows:
  assumes "fold_r step xs s = Inr s'" and "P s"
    and "\<And>x s s1. x \<in> set xs \<Longrightarrow> step x s = Inr s1 \<Longrightarrow> P s \<Longrightarrow> P s1 \<and>
      (\<exists>v. Option.bind (view s (fst (u x))) (snd (u x)) = Some v \<and> view s1 = (view s)(fst (u x) \<mapsto> v))"
  shows "run_updates (map u xs) (view s) = Some (view s')"
  using assms
proof (induction xs arbitrary: s)
  case (Cons x xs)
  from Cons.prems(1) obtain s1 where s1: "step x s = Inr s1" "fold_r step xs s1 = Inr s'"
    by (auto simp: bind_r_Inr)
  from Cons.prems(3) [OF _ s1(1) Cons.prems(2)] obtain v where v: "P s1"
    "Option.bind (view s (fst (u x))) (snd (u x)) = Some v" "view s1 = (view s)(fst (u x) \<mapsto> v)" by (metis list.set_intros(1))
  have "run_updates (map u xs) (view s1) = Some (view s')"
    by (rule Cons.IH [OF s1(2) v(1)]) (rule Cons.prems(3), simp)
  with v(2,3) show ?case by (simp add: fun_upd_def)
qed simp

lemma loop_refuses:
  assumes "fold_r step xs s = Inl e" and "P s"
    and "\<And>x s s1. step x s = Inr s1 \<Longrightarrow> P s \<Longrightarrow> P s1 \<and>
      (\<exists>v. Option.bind (view s (fst (u x))) (snd (u x)) = Some v \<and> view s1 = (view s)(fst (u x) \<mapsto> v))"
    and "\<And>x s. step x s = Inl e \<Longrightarrow> Option.bind (view s (fst (u x))) (snd (u x)) = None"
  shows "run_updates (map u xs) (view s) = None"
  using assms(1,2)
proof (induction xs arbitrary: s)
  case (Cons x xs)
  show ?case
  proof (cases "step x s")
    case (Inl e')
    with Cons.prems(1) assms(4) show ?thesis by simp
  next
    case (Inr s1)
    with Cons.prems(1) have "fold_r step xs s1 = Inl e" by simp
    from assms(3) [OF Inr Cons.prems(2)] obtain v where v: "P s1"
      "Option.bind (view s (fst (u x))) (snd (u x)) = Some v" "view s1 = (view s)(fst (u x) \<mapsto> v)" by blast
    with Cons.IH [OF \<open>fold_r step xs s1 = Inl e\<close> v(1)] show ?thesis by (simp add: fun_upd_def)
  qed
qed simp

lemma reserve_one_round:
  assumes "reserve_one ttl oid wid it d = Inr d1" and "ledger_ok d \<and> db_now d = now"
  shows "(ledger_ok d1 \<and> db_now d1 = now) \<and>
    (\<exists>i. Option.bind (counters d (fst (take_units now wid it))) (snd (take_units now wid it)) = Some i \<and>
       counters d1 = (counters d)(fst (take_units now wid it) \<mapsto> i))"
  using reserve_one_effect(1) [OF assms(1)] only_stock_frame(11) [OF reserve_one_only_stock [OF assms(1)]]
    reserve_one_follows [OF assms(1)] assms(2) by (auto simp: ledger_ok_def)

lemma reserving_follows_plan:
  assumes "reserve_stock ttl oid wid items d = Inr (res, d')" and "ledger_ok d"
  shows "run_updates (stock_plan (Reserving (db_now d) wid items)) (counters d) = Some (counters d')"
proof -
  have "fold_r (reserve_one ttl oid wid) (lock_order items wid) d = Inr d'"
    using assms(1) by (auto simp: reserve_stock_def bind_r_Inr)
  from loop_follows [where u = "take_units (db_now d) wid" and view = counters, OF this _ reserve_one_round] assms(2)
  show ?thesis by simp
qed

text \<open>A basket that is refused for lack of stock is a plan that does not run through.\<close>

lemma refusing_follows_plan:
  assumes "reserve_stock ttl oid wid items d = Inl (DomainError e)" and "ledger_ok d"
  shows "run_updates (stock_plan (Reserving (db_now d) wid items)) (counters d) = None"
proof -
  have "fold_r (reserve_one ttl oid wid) (lock_order items wid) d = Inl (DomainError e)"
    using assms(1) by (auto simp: reserve_stock_def bind_r_Inl)
  from loop_refuses [where u = "take_units (db_now d) wid" and view = counters, OF this _ reserve_one_round]
    assms(2) reserve_one_unmatched show ?thesis by simp
qed

lemma settling_follows_plan:
  assumes "settle c f d = Inr (released, d')" and "table_ok (inventory_spec d) (inventory d)"
  shows "run_updates (stock_plan (Handing_back (db_now d) released)) (counters d) = Some (counters d')"
proof -
  from assms(1) obtain claimed rows where
    loop: "fold_r hand_back (sort_key (\<lambda>r. (rel_warehouse_id r, rel_product_id r)) released)
      (d\<lparr>stock_reservations := rows\<rparr>) = Inr d'"
    by (auto simp: settle_def bind_r_Inr Let_def)
  have round: "(table_ok (inventory_spec d2) (inventory d2) \<and> db_now d2 = db_now d) \<and>
      (\<exists>i. Option.bind (counters d1 (fst (give_units (db_now d) it))) (snd (give_units (db_now d) it)) = Some i \<and>
         counters d2 = (counters d1)(fst (give_units (db_now d) it) \<mapsto> i))"
    if "hand_back it d1 = Inr d2" "table_ok (inventory_spec d1) (inventory d1) \<and> db_now d1 = db_now d" for it d1 d2
    using hand_back_Inr(1,3) [OF that(1)] hand_back_follows [OF that(1)] that(2) by auto
  from loop_follows [where u = "give_units (db_now d)" and view = counters, OF loop _ round] assms(2)
  show ?thesis by (simp add: counters_def inventory_spec_def)
qed

text \<open>The seed script on a table that has every one of its rows.\<close>

lemma reseeding_follows_plan:
  assumes vs: "inventory_values pids wids = Inr vs" and seed: "seed_inventory pids wids d = Inr d'"
    and tab: "table_ok (inventory_spec d) (inventory d)"
    and all: "\<forall>v \<in> set vs. (fst v, fst (snd v)) \<in> inv_key ` set (inventory d)"
  shows "run_updates (reseed_plan vs) (counters d) = Some (counters d')"
proof -
  obtain rs d1 where rs: "with_ids (seed_stock (db_now d)) vs d = (rs, d1)" by (metis surj_pair)
  have ids: "with_ids (seed_stock now) xs e = (ys, e') \<Longrightarrow>
      inventory_spec e' = inventory_spec e \<and> inventory e' = inventory e \<and>
      map (\<lambda>r. (inv_key r, \<lambda>i. checked (set_stock r i))) ys = reseed_plan xs" for now xs e ys e'
    by (induction xs arbitrary: e ys)
      (auto simp: gen_random_uuid_def reseed_plan_def reseed_units_def seed_stock_def set_stock_def inventory_spec_def
        split: prod.splits)
  note w = ids [OF rs]
  from seed vs rs obtain rows where rows:
    "upsert_rows (inventory_spec d) (\<lambda>r x. inv_key x = inv_key r) set_stock rs (inventory d) = Inr rows"
    "d' = d1\<lparr>inventory := rows\<rparr>"
    using w by (auto simp: seed_inventory_def bind_r_Inr)
  have keys: "inv_key r \<in> inv_key ` set (inventory d)" if "r \<in> set rs" for r
  proof -
    have "(inv_key r, \<lambda>i. checked (set_stock r i)) \<in> set (reseed_plan vs)" using that w by (metis (lifting) image_eqI list.set_map)
    with all show ?thesis by (auto simp: reseed_plan_def reseed_units_def)
  qed
  have round: "(table_ok (inventory_spec d) xs' \<and> inv_key ` set (inventory d) \<subseteq> inv_key ` set xs') \<and>
      (\<exists>i. Option.bind (by_key xs (inv_key r)) (\<lambda>i. checked (set_stock r i)) = Some i \<and>
         by_key xs' = (by_key xs)(inv_key r \<mapsto> i))"
    if r: "r \<in> set rs" "upsert_row (inventory_spec d) (\<lambda>r x. inv_key x = inv_key r) set_stock r xs = Inr xs'"
      and P: "table_ok (inventory_spec d) xs \<and> inv_key ` set (inventory d) \<subseteq> inv_key ` set xs" for r xs xs'
  proof -
    let ?same = "\<lambda>x. inv_key x = inv_key r"
    have dist: "distinct (map inv_key xs)"
      using P by (auto elim!: table_ok_distinct [where n = "''uq_inventory_warehouse_product''"] simp: inventory_spec_def)
    from keys [OF r(1)] P obtain i where i: "i \<in> set xs" "inv_key i = inv_key r" by (metis (no_types, lifting) imageE subsetD)
    then have "list_ex ?same xs" by (auto simp: list_ex_iff)
    with r(2) obtain ret where u: "update_rows (inventory_spec d) ?same (set_stock r) xs = Inr (ret, xs')"
      by (auto simp: upsert_row_def bind_r_Inr split: option.splits)
    note rows = u [unfolded update_rows_Inr]
    have "row_ok (inventory_spec d) (set_stock r i)" using rows i by (auto simp: list_all_iff)
    moreover have "by_key xs' = (by_key xs)(inv_key i \<mapsto> set_stock r i)"
      using by_key_upd [OF dist i(1), of ?same "set_stock r"] i(2) rows by (simp add: set_stock_def)
    moreover have "map inv_key xs' = map inv_key xs" using rows by (simp add: map_upd_keys set_stock_def)
    from arg_cong [OF this, of set] have "inv_key ` set xs' = inv_key ` set xs" by simp
    ultimately show ?thesis
      using by_key_member [OF dist i(1)] i(2) P update_rows_table_ok [OF u] counters_fit_row
      by (simp add: checked_def) 
  qed
  have "fold_r (upsert_row (inventory_spec d) (\<lambda>r x. inv_key x = inv_key r) set_stock) rs (inventory d) = Inr rows"
    using rows(1) by (simp add: upsert_rows_def)
  then have "run_updates (map (\<lambda>r. (inv_key r, \<lambda>i. checked (set_stock r i))) rs) (by_key (inventory d)) = Some (by_key rows)"
    by (rule loop_follows [where P = "\<lambda>xs. table_ok (inventory_spec d) xs \<and>
          inv_key ` set (inventory d) \<subseteq> inv_key ` set xs"])
      (use tab round in \<open>simp_all only: fst_conv snd_conv subset_refl simp_thms\<close>)
  with w show ?thesis by (simp add: counters_def rows(2))
qed

section \<open>The units a writer moves\<close>

definition units_moved :: "uuid \<times> uuid \<Rightarrow> stock_writer \<Rightarrow> int" where
  "units_moved k w = (case w of
     Reserving now wid items \<Rightarrow> sum_where quantity (\<lambda>it. (wid, product_id it) = k) items
   | Handing_back now items \<Rightarrow> - sum_where rel_quantity (\<lambda>r. (rel_warehouse_id r, rel_product_id r) = k) items)"

definition moved_by :: "int \<Rightarrow> inventory_row option \<Rightarrow> inventory_row option \<Rightarrow> bool" where
  "moved_by n x y \<longleftrightarrow> (case (x, y) of
     (Some i, Some i') \<Rightarrow> on_hand i' = on_hand i \<and> reserved i' = reserved i + n \<and> (counters_fit i \<longrightarrow> counters_fit i')
   | (None, None) \<Rightarrow> True | _ \<Rightarrow> False)"

lemma moved_by_0: "moved_by 0 x x"
  by (simp add: moved_by_def split: option.split)

lemma moved_by_trans: "moved_by a x y \<Longrightarrow> moved_by b y z \<Longrightarrow> moved_by (a + b) x z"
  by (auto simp: moved_by_def split: option.splits)

lemma updates_move:
  assumes "run_updates (map u xs) m = Some m'"
    and "\<And>x i i'. snd (u x) i = Some i' \<Longrightarrow> moved_by (q x) (Some i) (Some i')"
  shows "moved_by (sum_where q (\<lambda>x. fst (u x) = k) xs) (m k) (m' k)"
  using assms(1)
proof (induction xs arbitrary: m)
  case (Cons x xs)
  from Cons.prems obtain i i' where i: "m (fst (u x)) = Some i" "snd (u x) i = Some i'"
    "run_updates (map u xs) (m(fst (u x) \<mapsto> i')) = Some m'"
    by (auto simp: bind_eq_Some_conv split: option.splits)
  note rest = Cons.IH [OF i(3)]
  show ?case
  proof (cases "fst (u x) = k")
    case True
    with rest have "moved_by (sum_where q (\<lambda>x. fst (u x) = k) xs) (Some i') (m' k)" by simp
    from moved_by_trans [OF assms(2) [OF i(2)] this] True i(1) show ?thesis by simp
  qed (use rest in simp)
qed (simp add: moved_by_0)

lemma checked_Some: "checked i = Some i' \<longleftrightarrow> counters_fit i \<and> i' = i"
  by (auto simp: checked_def)

lemma one_update_moves:
  "snd (take_units now wid it) i = Some i' \<Longrightarrow> moved_by (quantity it) (Some i) (Some i')"
  "snd (give_units now r) i = Some i' \<Longrightarrow> moved_by (- rel_quantity r) (Some i) (Some i')"
  by (auto simp: take_units_def give_units_def moved_by_def checked_Some split: if_splits)

lemma plan_moves:
  assumes "run_updates (stock_plan w) m = Some m'"
  shows "moved_by (units_moved k w) (m k) (m' k)"
proof (cases w)
  case (Reserving now wid items)
  have "moved_by (sum_where quantity (\<lambda>it. fst (take_units now wid it) = k) (lock_order items wid)) (m k) (m' k)"
    by (rule updates_move [OF _ one_update_moves(1)]) (use assms Reserving in simp_all)
  moreover have "sum_where quantity P (lock_order items wid) = sum_where quantity P items" for P
    by (rule sum_where_mset) (simp add: lock_order_def)
  ultimately show ?thesis by (simp add: Reserving units_moved_def)
next
  case (Handing_back now items)
  let ?its = "sort_key (\<lambda>r. (rel_warehouse_id r, rel_product_id r)) items"
  have "moved_by (sum_where (\<lambda>r. - rel_quantity r) (\<lambda>r. fst (give_units now r) = k) ?its) (m k) (m' k)"
    by (rule updates_move [OF _ one_update_moves(2)]) (use assms Handing_back in simp_all)
  moreover have "sum_where (\<lambda>r. - rel_quantity r) P xs = - sum_where rel_quantity P xs" for P and xs :: "released_item list"
    by (induction xs) auto
  moreover have "sum_where rel_quantity P ?its = sum_where rel_quantity P items" for P
    by (rule sum_where_mset) simp
  ultimately show ?thesis by (simp add: Handing_back units_moved_def)
qed

lemma plans_move:
  assumes "run_updates (concat (map (\<lambda>j. stock_plan (ws ! j)) js)) m = Some m'"
  shows "moved_by (sum_list (map (\<lambda>j. units_moved k (ws ! j)) js)) (m k) (m' k)"
  using assms
proof (induction js arbitrary: m)
  case (Cons j js)
  from Cons.prems obtain m1 where "run_updates (stock_plan (ws ! j)) m = Some m1"
    "run_updates (concat (map (\<lambda>j. stock_plan (ws ! j)) js)) m1 = Some m'"
    by (auto simp: run_updates_append split: option.splits)
  from moved_by_trans [OF plan_moves [OF this(1)] Cons.IH [OF this(2)]] show ?case by simp
qed (simp add: moved_by_0)

end
