(* ===== verification/Claims.thy ===== *)
theory Claims
  imports Contention
begin

text \<open>
  The calls of \<^verbatim>\<open>app/repositories/reservation.py\<close> with all the rows they lock: a release, a
  sweep and the commit of an order's holds first claim rows of \<^verbatim>\<open>stock_reservations\<close> with one
  UPDATE that visits several of them, in an order the statement does not fix, and what the claim
  returns decides which rows of \<^verbatim>\<open>inventory\<close> are updated next. The lemmas say which of these
  calls can be part of a deadlock, and that each of them, run alone, does what its function does.
\<close>

section \<open>Calls\<close>

text \<open>
  The last argument of a claim lists the reservations its statement visits, in the order of the
  visits; a sweep also has the ids its subquery found. The time is that of the transaction.
\<close>

datatype stock_call =
    Reserve_call timestamp uuid "requested_item list"
  | Release_call timestamp uuid "uuid list"
  | Sweep_call timestamp "uuid list" "uuid list"
  | Settle_call timestamp uuid reservation_status "uuid list"

fun claim_scan :: "stock_call \<Rightarrow> uuid list" where
  "claim_scan (Reserve_call now wid items) = []"
| "claim_scan (Release_call now oid scan) = scan"
| "claim_scan (Sweep_call now ids scan) = scan"
| "claim_scan (Settle_call now oid st scan) = scan"

fun claim_where :: "stock_call \<Rightarrow> reservation_row \<Rightarrow> bool" where
  "claim_where (Reserve_call now wid items) r = False"
| "claim_where (Release_call now oid scan) r = (sr_order_id r = oid \<and> sr_status r = Active)"
| "claim_where (Sweep_call now ids scan) r = (sr_status r = Active \<and> sr_id r \<in> set ids)"
| "claim_where (Settle_call now oid st scan) r = (sr_order_id r = oid \<and> sr_status r = Active)"

fun claim_values :: "stock_call \<Rightarrow> reservation_row \<Rightarrow> reservation_row" where
  "claim_values (Reserve_call now wid items) r = r"
| "claim_values (Release_call now oid scan) r = stop_holding Released now r"
| "claim_values (Sweep_call now ids scan) r = stop_holding Expired now r"
| "claim_values (Settle_call now oid st scan) r = stop_holding st now r"

text \<open>The UPDATEs of \<^verbatim>\<open>inventory\<close> that follow, given what the claim returned.\<close>

fun to_move :: "stock_call \<Rightarrow> released_item list \<Rightarrow> stock_update list" where
  "to_move (Reserve_call now wid items) released = stock_plan (Reserving now wid items)"
| "to_move (Release_call now oid scan) released = stock_plan (Handing_back now released)"
| "to_move (Sweep_call now ids scan) released = stock_plan (Handing_back now released)"
| "to_move (Settle_call now oid st scan) released = []"

lemma to_move_sorted: "sorted (map fst (to_move w released))"
  using writers.ascending by (cases w) (simp_all del: stock_plan.simps)

lemma to_move_grows: "length (to_move w (released @ [x])) \<le> Suc (length (to_move w released))"
  by (cases w) simp_all

section \<open>Sessions and rows\<close>

datatype row_key = Hold uuid | Stock "uuid \<times> uuid"

datatype doing = Claiming "uuid list" "released_item list" | Moving "stock_update list"

text \<open>The rows a session has locked, with the versions it found, newest first.\<close>

record stock_session =
  ss_call :: stock_call
  ss_phase :: phase
  ss_doing :: doing
  ss_holds :: "(uuid \<times> reservation_row) list"
  ss_stock :: "((uuid \<times> uuid) \<times> inventory_row) list"

record arena =
  holds_now :: "uuid \<rightharpoonup> reservation_row"
  counters_now :: "uuid \<times> uuid \<rightharpoonup> inventory_row"
  at_work :: "nat \<Rightarrow> stock_session"

definition row_locks :: "stock_session \<Rightarrow> row_key set" where
  "row_locks t = Hold ` fst ` set (ss_holds t) \<union> Stock ` fst ` set (ss_stock t)"

definition taken :: "arena \<Rightarrow> nat \<Rightarrow> row_key \<Rightarrow> bool" where
  "taken c i k \<longleftrightarrow> (\<exists>j. j \<noteq> i \<and> k \<in> row_locks (at_work c j))"

definition put :: "nat \<Rightarrow> stock_session \<Rightarrow> arena \<Rightarrow> arena" where
  "put i t c = c\<lparr>at_work := (at_work c)(i := t)\<rparr>"

definition gone :: "phase \<Rightarrow> stock_session \<Rightarrow> stock_session" where
  "gone p t = t\<lparr>ss_phase := p, ss_holds := [], ss_stock := []\<rparr>"

definition undone :: "stock_session \<Rightarrow> arena \<Rightarrow> arena" where
  "undone t c = c\<lparr>holds_now := holds_now c ++ map_of (rev (ss_holds t)),
     counters_now := counters_now c ++ map_of (rev (ss_stock t))\<rparr>"

section \<open>Steps\<close>

text \<open>
  A claim takes a row that matches (\<open>Claim\<close>) and passes by one that does not. Where it had to wait
  for the row first, PostgreSQL has locked it before it looks at the condition again, so a row that
  is passed by may stay locked (\<open>Pass_locked\<close>) or not (\<open>Pass\<close>); one whose committed version does
  not match is passed by without waiting (\<open>Pass_unseen\<close>). The UPDATEs of \<^verbatim>\<open>inventory\<close> are as in
  theory \<open>Locks\<close>.
\<close>

inductive stock_step :: "arena \<Rightarrow> arena \<Rightarrow> bool" where
  Claim: "t = at_work c i \<Longrightarrow> ss_phase t = Running \<Longrightarrow> ss_doing t = Claiming (r # rs) released \<Longrightarrow>
    \<not> taken c i (Hold r) \<Longrightarrow> holds_now c r = Some v \<Longrightarrow> claim_where (ss_call t) v \<Longrightarrow>
    stock_step c (put i (t\<lparr>ss_doing := Claiming rs (released @ [released_of v]), ss_holds := (r, v) # ss_holds t\<rparr>)
      (c\<lparr>holds_now := (holds_now c)(r \<mapsto> claim_values (ss_call t) v)\<rparr>))"
| Pass: "t = at_work c i \<Longrightarrow> ss_phase t = Running \<Longrightarrow> ss_doing t = Claiming (r # rs) released \<Longrightarrow>
    \<not> taken c i (Hold r) \<Longrightarrow> (\<forall>v. holds_now c r = Some v \<longrightarrow> \<not> claim_where (ss_call t) v) \<Longrightarrow>
    stock_step c (put i (t\<lparr>ss_doing := Claiming rs released\<rparr>) c)"
| Pass_locked: "t = at_work c i \<Longrightarrow> ss_phase t = Running \<Longrightarrow> ss_doing t = Claiming (r # rs) released \<Longrightarrow>
    \<not> taken c i (Hold r) \<Longrightarrow> holds_now c r = Some v \<Longrightarrow> \<not> claim_where (ss_call t) v \<Longrightarrow>
    stock_step c (put i (t\<lparr>ss_doing := Claiming rs released, ss_holds := (r, v) # ss_holds t\<rparr>) c)"
| Pass_unseen: "t = at_work c i \<Longrightarrow> ss_phase t = Running \<Longrightarrow> ss_doing t = Claiming (r # rs) released \<Longrightarrow>
    j \<noteq> i \<Longrightarrow> map_of (rev (ss_holds (at_work c j))) r = Some v \<Longrightarrow> \<not> claim_where (ss_call t) v \<Longrightarrow>
    stock_step c (put i (t\<lparr>ss_doing := Claiming rs released\<rparr>) c)"
| Claimed: "t = at_work c i \<Longrightarrow> ss_phase t = Running \<Longrightarrow> ss_doing t = Claiming [] released \<Longrightarrow>
    stock_step c (put i (t\<lparr>ss_doing := Moving (to_move (ss_call t) released)\<rparr>) c)"
| Move: "t = at_work c i \<Longrightarrow> ss_phase t = Running \<Longrightarrow> ss_doing t = Moving (u # us) \<Longrightarrow>
    \<not> taken c i (Stock (fst u)) \<Longrightarrow> counters_now c (fst u) = Some v \<Longrightarrow> snd u v = Some v' \<Longrightarrow>
    stock_step c (put i (t\<lparr>ss_doing := Moving us, ss_stock := (fst u, v) # ss_stock t\<rparr>)
      (c\<lparr>counters_now := (counters_now c)(fst u \<mapsto> v')\<rparr>))"
| Refuse: "t = at_work c i \<Longrightarrow> ss_phase t = Running \<Longrightarrow> ss_doing t = Moving (u # us) \<Longrightarrow>
    \<not> taken c i (Stock (fst u)) \<Longrightarrow> Option.bind (counters_now c (fst u)) (snd u) = None \<Longrightarrow>
    stock_step c (put i (gone Rolled_back t) (undone t c))"
| Refuse_unseen: "t = at_work c i \<Longrightarrow> ss_phase t = Running \<Longrightarrow> ss_doing t = Moving (u # us) \<Longrightarrow>
    j \<noteq> i \<Longrightarrow> map_of (rev (ss_stock (at_work c j))) (fst u) = Some v \<Longrightarrow> snd u v = None \<Longrightarrow>
    stock_step c (put i (gone Rolled_back t) (undone t c))"
| End: "t = at_work c i \<Longrightarrow> ss_phase t = Running \<Longrightarrow> ss_doing t = Moving [] \<Longrightarrow>
    stock_step c (put i (gone Done t) c)"

text \<open>A session may also die, which rolls it back.\<close>

inductive stock_run :: "arena \<Rightarrow> arena \<Rightarrow> bool" where
  Step: "stock_step c c' \<Longrightarrow> stock_run c c'"
| Die: "t = at_work c i \<Longrightarrow> ss_phase t = Running \<Longrightarrow> stock_run c (put i (gone Rolled_back t) (undone t c))"

definition holds_of :: "reservation_row list \<Rightarrow> uuid \<rightharpoonup> reservation_row" where
  "holds_of rows = map_of (map (\<lambda>r. (sr_id r, r)) rows)"

definition all_at_start :: "db \<Rightarrow> stock_call list \<Rightarrow> arena" where
  "all_at_start d calls =
     \<lparr>holds_now = holds_of (stock_reservations d), counters_now = counters d,
      at_work = (\<lambda>i. if i < length calls
        then \<lparr>ss_call = calls ! i, ss_phase = Running, ss_doing = Claiming (claim_scan (calls ! i)) [], ss_holds = [], ss_stock = []\<rparr>
        else \<lparr>ss_call = Reserve_call 0 0 [], ss_phase = Done, ss_doing = Moving [], ss_holds = [], ss_stock = []\<rparr>)\<rparr>"

definition all_over :: "arena \<Rightarrow> bool" where
  "all_over c \<longleftrightarrow> (\<forall>i. ss_phase (at_work c i) \<noteq> Running)"

definition stuck :: "arena \<Rightarrow> bool" where
  "stuck c \<longleftrightarrow> \<not> all_over c \<and> (\<nexists>c'. stock_step c c')"

text \<open>A session that waits for a reservation that its claim wants next.\<close>

definition waits_in_claim :: "arena \<Rightarrow> nat \<Rightarrow> bool" where
  "waits_in_claim c i \<longleftrightarrow> (\<exists>r rs released. ss_doing (at_work c i) = Claiming (r # rs) released \<and> taken c i (Hold r))"

definition left_of :: "stock_session \<Rightarrow> nat" where
  "left_of t = (if ss_phase t \<noteq> Running then 0 else
     case ss_doing t of
       Claiming rs released \<Rightarrow> 2 + 2 * length rs + length (to_move (ss_call t) released)
     | Moving us \<Rightarrow> 1 + length us)"

definition left_to_do :: "nat \<Rightarrow> arena \<Rightarrow> nat" where
  "left_to_do n c = (\<Sum>i<n. left_of (at_work c i))"

section \<open>The order of the locks\<close>

text \<open>
  A position for every row: reservations come first, in an order \<open>pos\<close> of their own, then the
  counters by warehouse and product. With a constant \<open>pos\<close> nothing is said of the reservations.
\<close>

fun rank :: "(uuid \<Rightarrow> nat) \<Rightarrow> row_key \<Rightarrow> nat \<times> nat \<times> nat" where
  "rank pos (Hold r) = (0, pos r, 0)"
| "rank pos (Stock k) = (1, k)"

definition in_order :: "(uuid \<Rightarrow> nat) \<Rightarrow> stock_session \<Rightarrow> bool" where
  "in_order pos t \<longleftrightarrow>
     (case ss_doing t of
        Claiming rs released \<Rightarrow> set rs \<subseteq> set (claim_scan (ss_call t)) \<and> sorted (map pos rs) \<and> ss_stock t = [] \<and>
          (\<forall>r \<in> fst ` set (ss_holds t). \<forall>r' \<in> set rs. pos r \<le> pos r')
      | Moving us \<Rightarrow> sorted (map fst us) \<and> (\<forall>k \<in> fst ` set (ss_stock t). \<forall>u \<in> set us. k \<le> fst u))"

definition orderly :: "(uuid \<Rightarrow> nat) \<Rightarrow> stock_call list \<Rightarrow> arena \<Rightarrow> bool" where
  "orderly pos calls c \<longleftrightarrow>
     (\<forall>i j. i \<noteq> j \<longrightarrow> row_locks (at_work c i) \<inter> row_locks (at_work c j) = {}) \<and>
     (\<forall>i. ss_phase (at_work c i) \<noteq> Running \<longrightarrow> row_locks (at_work c i) = {}) \<and>
     (\<forall>i. length calls \<le> i \<longrightarrow> ss_phase (at_work c i) \<noteq> Running) \<and>
     (\<forall>i < length calls. ss_call (at_work c i) = calls ! i) \<and>
     (\<forall>i. ss_phase (at_work c i) = Running \<longrightarrow> in_order pos (at_work c i))"

lemma row_locks_simps [simp]:
  "row_locks (t\<lparr>ss_doing := x\<rparr>) = row_locks t"
  "row_locks (t\<lparr>ss_doing := x, ss_holds := (r, v) # ss_holds t\<rparr>) = insert (Hold r) (row_locks t)"
  "row_locks (t\<lparr>ss_doing := x, ss_stock := (k, i) # ss_stock t\<rparr>) = insert (Stock k) (row_locks t)"
  "row_locks (gone p t) = {}"
  by (auto simp: row_locks_def gone_def)

lemma put_simps [simp]:
  "at_work (put i t c) j = (if j = i then t else at_work c j)"
  "holds_now (put i t c) = holds_now c" "counters_now (put i t c) = counters_now c"
  "at_work (undone t c) = at_work c" "at_work (c\<lparr>holds_now := m\<rparr>) = at_work c" "at_work (c\<lparr>counters_now := m'\<rparr>) = at_work c"
  by (simp_all add: put_def undone_def)

lemma gone_simps [simp]: "ss_phase (gone p t) = p" "ss_call (gone p t) = ss_call t"
  by (simp_all add: gone_def)

lemma orderly_start:
  assumes "\<forall>w \<in> set calls. sorted (map pos (claim_scan w))"
  shows "orderly pos calls (all_at_start d calls)"
  using assms by (auto simp: orderly_def all_at_start_def row_locks_def in_order_def)

lemma in_order_moves:
  assumes "in_order pos t"
  shows "ss_doing t = Claiming (r # rs) released \<Longrightarrow> in_order pos (t\<lparr>ss_doing := Claiming rs released'\<rparr>)"
    and "ss_doing t = Claiming (r # rs) released \<Longrightarrow>
      in_order pos (t\<lparr>ss_doing := Claiming rs released', ss_holds := (r, v) # ss_holds t\<rparr>)"
    and "ss_doing t = Claiming [] released \<Longrightarrow> in_order pos (t\<lparr>ss_doing := Moving (to_move w released')\<rparr>)"
    and "ss_doing t = Moving (u # us) \<Longrightarrow> in_order pos (t\<lparr>ss_doing := Moving us, ss_stock := (fst u, x) # ss_stock t\<rparr>)"
  using assms to_move_sorted by (auto simp: in_order_def)

text \<open>
  What any step does to one session: it takes at most one row, which was free, or it ends; and there
  is less left to do.
\<close>

definition advances :: "(uuid \<Rightarrow> nat) \<Rightarrow> arena \<Rightarrow> nat \<Rightarrow> stock_session \<Rightarrow> bool" where
  "advances pos c i t \<longleftrightarrow>
     ss_phase (at_work c i) = Running \<and> ss_call t = ss_call (at_work c i) \<and> left_of t < left_of (at_work c i) \<and>
     (ss_phase t = Running \<and> in_order pos (at_work c i) \<longrightarrow> in_order pos t) \<and>
     (\<forall>k \<in> row_locks t. k \<in> row_locks (at_work c i) \<or> \<not> taken c i k) \<and>
     (ss_phase t \<noteq> Running \<longrightarrow> row_locks t = {})"

lemma gone_advances: "ss_phase (at_work c i) = Running \<Longrightarrow> p \<noteq> Running \<Longrightarrow> advances pos c i (gone p (at_work c i))"
  by (auto simp: advances_def left_of_def split: doing.splits)

lemma step_advances:
  assumes "stock_step c c'"
  obtains i t c0 where "c' = put i t c0" and "at_work c0 = at_work c" and "advances pos c i t"
  using assms
proof cases
  case (Claim t i r rs released v)
  moreover have "length (to_move (ss_call t) (released @ [released_of v])) \<le> Suc (length (to_move (ss_call t) released))"
    by (rule to_move_grows)
  ultimately have "advances pos c i (t\<lparr>ss_doing := Claiming rs (released @ [released_of v]), ss_holds := (r, v) # ss_holds t\<rparr>)"
    by (auto simp: advances_def left_of_def intro: in_order_moves)
  with Claim(1) show thesis
    by (intro that [of i _ "c\<lparr>holds_now := (holds_now c)(r \<mapsto> claim_values (ss_call t) v)\<rparr>"]) simp_all
next
  case (Pass t i r rs released)
  then have "advances pos c i (t\<lparr>ss_doing := Claiming rs released\<rparr>)"
    by (auto simp: advances_def left_of_def intro: in_order_moves)
  with Pass(1) show thesis by (intro that [of i _ c]) simp_all
next
  case (Pass_locked t i r rs released v)
  then have "advances pos c i (t\<lparr>ss_doing := Claiming rs released, ss_holds := (r, v) # ss_holds t\<rparr>)"
    by (auto simp: advances_def left_of_def intro: in_order_moves)
  with Pass_locked(1) show thesis by (intro that [of i _ c]) simp_all
next
  case (Pass_unseen t i r rs released j v)
  then have "advances pos c i (t\<lparr>ss_doing := Claiming rs released\<rparr>)"
    by (auto simp: advances_def left_of_def intro: in_order_moves)
  with Pass_unseen(1) show thesis by (intro that [of i _ c]) simp_all
next
  case (Claimed t i released)
  then have "advances pos c i (t\<lparr>ss_doing := Moving (to_move (ss_call t) released)\<rparr>)"
    by (auto simp: advances_def left_of_def intro: in_order_moves)
  with Claimed(1) show thesis by (intro that [of i _ c]) simp_all
next
  case (Move t i u us v v')
  then have "advances pos c i (t\<lparr>ss_doing := Moving us, ss_stock := (fst u, v) # ss_stock t\<rparr>)"
    by (auto simp: advances_def left_of_def intro: in_order_moves)
  with Move(1) show thesis
    by (intro that [of i _ "c\<lparr>counters_now := (counters_now c)(fst u \<mapsto> v')\<rparr>"]) simp_all
next
  case (Refuse t i u us)
  with gone_advances [of c i Rolled_back pos] show thesis by (intro that [of i _ "undone t c"]) simp_all
next
  case (Refuse_unseen t i u us j v)
  with gone_advances [of c i Rolled_back pos] show thesis by (intro that [of i _ "undone t c"]) simp_all
next
  case (End t i)
  with gone_advances [of c i Done pos] show thesis by (intro that [of i _ c]) simp_all
qed

lemma run_advances:
  assumes "stock_run c c'"
  obtains i t c0 where "c' = put i t c0" and "at_work c0 = at_work c" and "advances pos c i t"
  using assms
proof cases
  case Step
  from step_advances [OF this] that show thesis by metis
next
  case (Die t i)
  with gone_advances [of c i Rolled_back pos] show thesis by (intro that [of i _ "undone t c"]) simp_all
qed

lemma orderly_small: "orderly pos calls c \<Longrightarrow> ss_phase (at_work c i) = Running \<Longrightarrow> i < length calls"
  unfolding orderly_def by (metis not_le)

lemma orderly_put:
  assumes "orderly pos calls c" and "at_work c0 = at_work c" and "advances pos c i t"
  shows "orderly pos calls (put i t c0)"
proof -
  note c = assms(1) [unfolded orderly_def] and t = assms(3) [unfolded advances_def]
  have apart: "row_locks t \<inter> row_locks (at_work c j) = {}" if "j \<noteq> i" for j
  proof -
    have "row_locks (at_work c i) \<inter> row_locks (at_work c j) = {}" using c that by metis
    moreover have "\<not> taken c i k \<Longrightarrow> k \<notin> row_locks (at_work c j)" for k using that by (auto simp: taken_def)
    ultimately show ?thesis using t by blast
  qed
  have "\<forall>j l. j \<noteq> l \<longrightarrow> row_locks (at_work (put i t c0) j) \<inter> row_locks (at_work (put i t c0) l) = {}"
    using c apart by (simp add: assms(2) Int_commute)
  moreover have "i < length calls" using orderly_small [OF assms(1)] t by blast
  ultimately show ?thesis using c t unfolding orderly_def by (simp add: assms(2))
qed

lemma orderly_run: "stock_run\<^sup>*\<^sup>* c c' \<Longrightarrow> orderly pos calls c \<Longrightarrow> orderly pos calls c'"
proof (induction rule: rtranclp_induct)
  case (step c1 c2)
  from run_advances [OF step.hyps(2)] orderly_put [OF step.IH [OF step.prems]] show ?case by metis
qed

text \<open>No schedule goes on for ever.\<close>

lemma run_uses_up:
  assumes "stock_run c c'" and "orderly pos calls c"
  shows "left_to_do (length calls) c' < left_to_do (length calls) c"
proof -
  from run_advances [OF assms(1)] obtain i t c0 where c': "c' = put i t c0" "at_work c0 = at_work c"
    and t: "advances pos c i t" .
  have "i < length calls" using orderly_small [OF assms(2)] t by (simp add: advances_def)
  moreover have "left_of t < left_of (at_work c i)" using t by (simp add: advances_def)
  ultimately show ?thesis
    unfolding left_to_do_def c' put_simps(1) c'(2) by (intro sum_strict_mono_ex1) (auto intro!: bexI [of _ i])
qed

section \<open>Who can be stuck\<close>

text \<open>The row a session wants to lock next.\<close>

fun wanted :: "doing \<Rightarrow> row_key option" where
  "wanted (Claiming (r # rs) released) = Some (Hold r)"
| "wanted (Moving (u # us)) = Some (Stock (fst u))"
| "wanted (Claiming [] released) = None"
| "wanted (Moving []) = None"

lemma stuck_waits:
  assumes "stuck c" and "ss_phase (at_work c i) = Running"
  obtains k where "wanted (ss_doing (at_work c i)) = Some k" and "taken c i k"
proof (cases "ss_doing (at_work c i)" rule: wanted.cases)
  case (1 r rs released)
  have "taken c i (Hold r)"
  proof (rule ccontr)
    assume "\<not> taken c i (Hold r)"
    with 1 assms(2) have "\<exists>c'. stock_step c c'"
      by (cases "holds_now c r") (blast intro: stock_step.Pass stock_step.Claim)+
    with assms(1) show False by (simp add: stuck_def)
  qed
  with 1 show thesis by (intro that) simp_all
next
  case (2 u us)
  have "taken c i (Stock (fst u))"
  proof (rule ccontr)
    assume free: "\<not> taken c i (Stock (fst u))"
    show False
    proof (cases "Option.bind (counters_now c (fst u)) (snd u)")
      case None
      from stock_step.Refuse [OF refl assms(2) 2 free this] assms(1) show False by (auto simp: stuck_def)
    next
      case (Some v')
      then obtain v where "counters_now c (fst u) = Some v" "snd u v = Some v'" by (auto simp: bind_eq_Some_conv)
      from stock_step.Move [OF refl assms(2) 2 free this] assms(1) show False by (auto simp: stuck_def)
    qed
  qed
  with 2 show thesis by (intro that) simp_all
next
  case (3 released)
  from stock_step.Claimed [OF refl assms(2) this] assms(1) show thesis by (auto simp: stuck_def)
next
  case 4
  from stock_step.End [OF refl assms(2) this] assms(1) show thesis by (auto simp: stuck_def)
qed

lemma locks_before_wanted:
  assumes "in_order pos t" and "wanted (ss_doing t) = Some k" and "k' \<in> row_locks t"
  shows "rank pos k' \<le> rank pos k"
  using assms by (cases "ss_doing t" rule: wanted.cases) (auto simp: in_order_def row_locks_def less_eq_prod_def)

text \<open>
  Of the sessions that are all blocked, one wants the row of the highest rank; its holder wants another
  row of the same rank. That can only be two reservations, and not if \<open>pos\<close> tells them apart.
\<close>

lemma stuck_on_equal_ranks:
  assumes "orderly pos calls c" and "stuck c"
  obtains k k' i where "ss_phase (at_work c i) = Running" and "wanted (ss_doing (at_work c i)) = Some k" and "k \<noteq> k'"
    and "rank pos k' = rank pos k"
    and "\<And>j l. ss_phase (at_work c j) = Running \<Longrightarrow> wanted (ss_doing (at_work c j)) = Some l \<Longrightarrow> rank pos l \<le> rank pos k"
proof -
  define R where "R = {i. ss_phase (at_work c i) = Running}"
  have "R \<subseteq> {..< length calls}" using orderly_small [OF assms(1)] by (auto simp: R_def)
  then have fin: "finite R" by (rule finite_subset) simp
  have ne: "R \<noteq> {}" using assms(2) by (auto simp: R_def stuck_def all_over_def)
  let ?want = "\<lambda>i. the (wanted (ss_doing (at_work c i)))"
  have want: "wanted (ss_doing (at_work c i)) = Some (?want i) \<and> taken c i (?want i)" if "i \<in> R" for i
    using stuck_waits [OF assms(2), of i] that by (force simp: R_def)
  let ?top = "Max ((\<lambda>i. rank pos (?want i)) ` R)"
  have "?top \<in> (\<lambda>i. rank pos (?want i)) ` R" using fin ne by (intro Max_in) auto
  then obtain i where i: "i \<in> R" "rank pos (?want i) = ?top" by auto
  have top: "rank pos (?want j) \<le> rank pos (?want i)" if "j \<in> R" for j unfolding i(2) using fin that by (intro Max_ge) auto
  obtain j where j: "j \<noteq> i" "?want i \<in> row_locks (at_work c j)" using want [OF i(1)] by (auto simp: taken_def)
  have jR: "j \<in> R" using assms(1) j(2) by (cases "j \<in> R") (auto simp: orderly_def R_def)
  have "in_order pos (at_work c j)" using assms(1) jR by (simp add: orderly_def R_def)
  from locks_before_wanted [OF this _ j(2)] want [OF jR] top [OF jR]
  have same: "rank pos (?want j) = rank pos (?want i)" by (metis order_antisym)
  obtain l where l: "l \<noteq> j" "?want j \<in> row_locks (at_work c l)" using want [OF jR] by (auto simp: taken_def)
  have "row_locks (at_work c l) \<inter> row_locks (at_work c j) = {}" using assms(1) l(1) by (simp add: orderly_def)
  with j(2) l(2) have "?want i \<noteq> ?want j" by auto
  show thesis
  proof (rule that [of i "?want i" "?want j"])
    show "rank pos l \<le> rank pos (?want i)"
      if "ss_phase (at_work c j) = Running" "wanted (ss_doing (at_work c j)) = Some l" for j l
      using top [of j] that by (simp add: R_def)
  qed (use i(1) want same \<open>?want i \<noteq> ?want j\<close> in \<open>simp_all add: R_def\<close>)
qed

lemma only_claims_wait:
  assumes "orderly pos calls c" and "stuck c" and "ss_phase (at_work c j) = Running"
  shows "waits_in_claim c j"
proof -
  obtain k k' where k: "k \<noteq> k'" "rank pos k' = rank pos k"
    "\<And>j l. ss_phase (at_work c j) = Running \<Longrightarrow> wanted (ss_doing (at_work c j)) = Some l \<Longrightarrow> rank pos l \<le> rank pos k"
    by (rule stuck_on_equal_ranks [OF assms(1,2)]) blast
  then have zero: "fst (rank pos k) = 0" by (cases k; cases k') auto
  obtain l where l: "wanted (ss_doing (at_work c j)) = Some l" "taken c j l" by (rule stuck_waits [OF assms(2,3)])
  with k(3) [OF assms(3)] zero have "fst (rank pos l) = 0" by (fastforce simp: less_eq_prod_def)
  with l show ?thesis
    by (cases "ss_doing (at_work c j)" rule: wanted.cases) (auto simp: waits_in_claim_def)
qed

text \<open>A session that waits in a claim has reservations to claim.\<close>

lemma waiting_claims_something:
  assumes "orderly pos calls c" and "ss_phase (at_work c i) = Running" and "waits_in_claim c i"
  shows "claim_scan (calls ! i) \<noteq> []"
proof -
  have "in_order pos (at_work c i)" "ss_call (at_work c i) = calls ! i"
    using assms(1,2) orderly_small [OF assms(1,2)] by (simp_all add: orderly_def)
  with assms(3) show ?thesis by (auto simp: in_order_def waits_in_claim_def)
qed

lemma ordered_claims_not_stuck:
  assumes "orderly pos calls c" and "inj pos"
  shows "\<not> stuck c"
proof
  assume "stuck c"
  then obtain k k' where "k \<noteq> k'" "rank pos k' = rank pos k" by (rule stuck_on_equal_ranks [OF assms(1)]) blast
  with assms(2) show False by (cases k; cases k') (auto simp: inj_eq)
qed

lemma run_to_the_end:
  "orderly pos calls c \<Longrightarrow> \<exists>c'. stock_step\<^sup>*\<^sup>* c c' \<and> orderly pos calls c' \<and> (all_over c' \<or> stuck c')"
proof (induction "left_to_do (length calls) c" arbitrary: c rule: less_induct)
  case less
  show ?case
  proof (cases "all_over c \<or> stuck c")
    case False
    then obtain c1 where c1: "stock_step c c1" by (auto simp: stuck_def)
    then have run: "stock_run c c1" by (rule Step)
    then have "orderly pos calls c1" using orderly_run [OF r_into_rtranclp less.prems] by blast
    from less.hyps [OF run_uses_up [OF run less.prems] this] c1 show ?thesis by (meson converse_rtranclp_into_rtranclp)
  qed (use less.prems in blast)
qed

section \<open>A call on its own\<close>

definition alone :: "arena \<Rightarrow> bool" where
  "alone c \<longleftrightarrow> (\<forall>j. j \<noteq> 0 \<longrightarrow> row_locks (at_work c j) = {}) \<and> ss_phase (at_work c 0) = Running"

lemma alone_free: "alone c \<Longrightarrow> \<not> taken c 0 k"
  by (auto simp: alone_def taken_def)

lemma moves_alone:
  assumes "run_updates us (counters_now c) = Some m" and "alone c" and "ss_doing (at_work c 0) = Moving us"
  shows "\<exists>c'. stock_step\<^sup>*\<^sup>* c c' \<and> ss_phase (at_work c' 0) = Done \<and> counters_now c' = m \<and> holds_now c' = holds_now c"
  using assms
proof (induction us arbitrary: c)
  case Nil
  let ?c = "put 0 (gone Done (at_work c 0)) c"
  have "stock_step c ?c" by (rule stock_step.End) (use Nil in \<open>simp_all add: alone_def\<close>)
  with Nil(1) show ?case by (intro exI [of _ ?c]) (auto simp: put_def)
next
  case (Cons u us)
  from Cons.prems(1) obtain v v' where v: "counters_now c (fst u) = Some v" "snd u v = Some v'"
    "run_updates us ((counters_now c)(fst u \<mapsto> v')) = Some m"
    by (auto simp: bind_eq_Some_conv split: option.splits)
  let ?t = "(at_work c 0)\<lparr>ss_doing := Moving us, ss_stock := (fst u, v) # ss_stock (at_work c 0)\<rparr>"
  let ?c = "put 0 ?t (c\<lparr>counters_now := (counters_now c)(fst u \<mapsto> v')\<rparr>)"
  have "stock_step c ?c"
    by (rule stock_step.Move) (use Cons.prems v alone_free in \<open>simp_all add: alone_def\<close>)
  moreover have "\<exists>c'. stock_step\<^sup>*\<^sup>* ?c c' \<and> ss_phase (at_work c' 0) = Done \<and> counters_now c' = m \<and> holds_now c' = holds_now ?c"
    by (rule Cons.IH) (use Cons.prems v in \<open>simp_all add: alone_def fun_upd_def\<close>)
  ultimately show ?case by (auto intro: converse_rtranclp_into_rtranclp)
qed

lemma claims_alone:
  assumes "ss_doing (at_work c 0) = Claiming (map sr_id rs) released" and "alone c" and "distinct (map sr_id rs)"
    and "\<forall>r \<in> set rs. holds_now c (sr_id r) = Some r" and "ss_call (at_work c 0) = w"
  shows "\<exists>c'. stock_step\<^sup>*\<^sup>* c c' \<and> alone c' \<and> ss_call (at_work c' 0) = w \<and> counters_now c' = counters_now c \<and>
    ss_doing (at_work c' 0) = Moving (to_move w (released @ map released_of (filter (claim_where w) rs))) \<and>
    holds_now c' = holds_now c ++ map_of (map (\<lambda>r. (sr_id r, claim_values w r)) (filter (claim_where w) rs))"
  using assms
proof (induction rs arbitrary: c released)
  case Nil
  let ?c = "put 0 ((at_work c 0)\<lparr>ss_doing := Moving (to_move w released)\<rparr>) c"
  have "stock_step c ?c" using stock_step.Claimed [of "at_work c 0" c 0 released] Nil by (simp add: alone_def)
  with Nil show ?case by (intro exI [of _ ?c]) (auto simp: put_def alone_def)
next
  case (Cons r rs)
  have free: "\<not> taken c 0 (Hold (sr_id r))" by (rule alone_free [OF Cons.prems(2)])
  show ?case
  proof (cases "claim_where w r")
    case True
    let ?t = "(at_work c 0)\<lparr>ss_doing := Claiming (map sr_id rs) (released @ [released_of r]),
      ss_holds := (sr_id r, r) # ss_holds (at_work c 0)\<rparr>"
    let ?c = "put 0 ?t (c\<lparr>holds_now := (holds_now c)(sr_id r \<mapsto> claim_values w r)\<rparr>)"
    have first: "stock_step c ?c"
      using stock_step.Claim [of "at_work c 0" c 0 "sr_id r" "map sr_id rs" released r] Cons.prems free True
      by (simp add: alone_def)
    have "\<exists>c'. stock_step\<^sup>*\<^sup>* ?c c' \<and> alone c' \<and> ss_call (at_work c' 0) = w \<and> counters_now c' = counters_now ?c \<and>
      ss_doing (at_work c' 0) = Moving (to_move w ((released @ [released_of r]) @ map released_of (filter (claim_where w) rs))) \<and>
      holds_now c' = holds_now ?c ++ map_of (map (\<lambda>r. (sr_id r, claim_values w r)) (filter (claim_where w) rs))"
    proof (rule Cons.IH)
      have "sr_id r' \<noteq> sr_id r" if "r' \<in> set rs" for r' using Cons.prems(3) that by (auto simp: rev_image_eqI)
      then show "\<forall>r' \<in> set rs. holds_now ?c (sr_id r') = Some r'" using Cons.prems(4) by simp
    qed (use Cons.prems in \<open>simp_all add: alone_def\<close>)
    then obtain c' where c': "stock_step\<^sup>*\<^sup>* ?c c'" "alone c'" "ss_call (at_work c' 0) = w" "counters_now c' = counters_now c"
      "ss_doing (at_work c' 0) = Moving (to_move w (released @ map released_of (filter (claim_where w) (r # rs))))"
      "holds_now c' = (holds_now c)(sr_id r \<mapsto> claim_values w r) ++
         map_of (map (\<lambda>r. (sr_id r, claim_values w r)) (filter (claim_where w) rs))"
      using True Cons.prems(5) by auto
    have "map_of (map (\<lambda>r. (sr_id r, claim_values w r)) (filter (claim_where w) rs)) (sr_id r) = None"
      using Cons.prems(3) by (auto simp: map_of_eq_None_iff image_iff)
    then have "holds_now c' = holds_now c ++
        map_of (map (\<lambda>r. (sr_id r, claim_values w r)) (filter (claim_where w) (r # rs)))"
      unfolding c'(6) using True by (auto simp: fun_eq_iff map_add_def split: option.split)
    with c'(2-5) converse_rtranclp_into_rtranclp [where r = stock_step, OF first c'(1)] show ?thesis by blast
  next
    case False
    let ?c = "put 0 ((at_work c 0)\<lparr>ss_doing := Claiming (map sr_id rs) released\<rparr>) c"
    have first: "stock_step c ?c"
      using stock_step.Pass [of "at_work c 0" c 0 "sr_id r" "map sr_id rs" released] Cons.prems free False
      by (simp add: alone_def)
    have "\<exists>c'. stock_step\<^sup>*\<^sup>* ?c c' \<and> alone c' \<and> ss_call (at_work c' 0) = w \<and> counters_now c' = counters_now ?c \<and>
      ss_doing (at_work c' 0) = Moving (to_move w (released @ map released_of (filter (claim_where w) rs))) \<and>
      holds_now c' = holds_now ?c ++ map_of (map (\<lambda>r. (sr_id r, claim_values w r)) (filter (claim_where w) rs))"
      by (rule Cons.IH) (use Cons.prems in \<open>simp_all add: alone_def\<close>)
    then obtain c' where c': "stock_step\<^sup>*\<^sup>* ?c c'" "alone c'" "ss_call (at_work c' 0) = w" "counters_now c' = counters_now c"
      "ss_doing (at_work c' 0) = Moving (to_move w (released @ map released_of (filter (claim_where w) (r # rs))))"
      "holds_now c' = holds_now c ++ map_of (map (\<lambda>r. (sr_id r, claim_values w r)) (filter (claim_where w) (r # rs)))"
      using False by auto
    with converse_rtranclp_into_rtranclp [where r = stock_step, OF first c'(1)] show ?thesis by blast
  qed
qed

lemma claim_values_id [simp]: "sr_id (claim_values w r) = sr_id r"
  by (cases w) (simp_all add: stop_holding_def)

lemma holds_of_upd:
  "distinct (map sr_id rows) \<Longrightarrow> holds_of (upd c (claim_values w) rows) =
     holds_of rows ++ map_of (map (\<lambda>r. (sr_id r, claim_values w r)) (filter c rows))"
proof (induction rows)
  case (Cons r rows)
  then have "map_of (map (\<lambda>r. (sr_id r, claim_values w r)) (filter c rows)) (sr_id r) = None"
    by (auto simp: map_of_eq_None_iff image_iff)
  with Cons show ?case by (auto simp: holds_of_def upd_def fun_eq_iff map_add_def split: option.split)
qed (simp add: holds_of_def upd_def)

lemma call_alone:
  assumes "claim_scan w = map sr_id (stock_reservations d)" and "distinct (map sr_id (stock_reservations d))"
    and "stock_reservations d' = upd (claim_where w) (claim_values w) (stock_reservations d)"
    and "run_updates (to_move w (map released_of (filter (claim_where w) (stock_reservations d)))) (counters d) =
      Some (counters d')"
  shows "\<exists>c. stock_step\<^sup>*\<^sup>* (all_at_start d [w]) c \<and> ss_phase (at_work c 0) = Done \<and>
    counters_now c = counters d' \<and> holds_now c = holds_of (stock_reservations d')"
proof -
  let ?rows = "stock_reservations d"
  let ?c = "all_at_start d [w]"
  have start: "ss_doing (at_work ?c 0) = Claiming (map sr_id ?rows) []" "alone ?c" "ss_call (at_work ?c 0) = w"
    "counters_now ?c = counters d" "holds_now ?c = holds_of ?rows"
    using assms(1) by (simp_all add: all_at_start_def alone_def row_locks_def)
  have "\<forall>r \<in> set ?rows. holds_now ?c (sr_id r) = Some r"
    unfolding start(5) holds_of_def using assms(2) by (auto simp: comp_def intro!: map_of_is_SomeI)
  from claims_alone [OF start(1,2) assms(2) this start(3)] obtain c1 where
    c1: "stock_step\<^sup>*\<^sup>* ?c c1" "alone c1" "counters_now c1 = counters d"
      "ss_doing (at_work c1 0) = Moving (to_move w (map released_of (filter (claim_where w) ?rows)))"
      "holds_now c1 = holds_of (stock_reservations d')"
    unfolding assms(3) holds_of_upd [OF assms(2)] start(4,5) by auto
  from moves_alone [OF _ c1(2,4), of "counters d'"] assms(4) c1(1,3,5) show ?thesis by (metis rtranclp_trans)
qed

text \<open>On a table without other writers each call is what its function does.\<close>

lemma claimed_ids_distinct: "ledger_ok d \<Longrightarrow> distinct (map sr_id (stock_reservations d))"
  by (rule table_ok_distinct [of "reservation_spec d" _ "''pk_stock_reservations''"])
    (auto simp: ledger_ok_def reservation_spec_def)

lemma release_alone:
  assumes "release_reservation oid d = Inr (released, d')" and "ledger_ok d"
  shows "\<exists>c. stock_step\<^sup>*\<^sup>* (all_at_start d [Release_call (db_now d) oid (map sr_id (stock_reservations d))]) c \<and>
    ss_phase (at_work c 0) = Done \<and> counters_now c = counters d' \<and> holds_now c = holds_of (stock_reservations d')"
proof (rule call_alone [OF _ claimed_ids_distinct [OF assms(2)]])
  let ?w = "Release_call (db_now d) oid (map sr_id (stock_reservations d))"
  note e = release_effect [OF assms]
  have w: "claim_where ?w = (\<lambda>r. sr_order_id r = oid \<and> sr_status r = Active)" "claim_values ?w = stop_holding Released (db_now d)"
    by (simp_all add: fun_eq_iff)
  show "stock_reservations d' = upd (claim_where ?w) (claim_values ?w) (stock_reservations d)" unfolding w by (rule e(2))
  show "run_updates (to_move ?w (map released_of (filter (claim_where ?w) (stock_reservations d)))) (counters d) =
      Some (counters d')"
    using settling_follows_plan [OF assms(1) [unfolded release_reservation_def]] assms(2)
    unfolding w e(1) [symmetric] by (simp add: ledger_ok_def del: stock_plan.simps)
qed simp

lemma sweep_alone:
  assumes "sweep_expired batch d = Inr (released, d')" and "ledger_ok d"
  shows "\<exists>c. stock_step\<^sup>*\<^sup>* (all_at_start d [Sweep_call (db_now d) (expired_ids batch d) (map sr_id (stock_reservations d))]) c \<and>
    ss_phase (at_work c 0) = Done \<and> counters_now c = counters d' \<and> holds_now c = holds_of (stock_reservations d')"
proof (rule call_alone [OF _ claimed_ids_distinct [OF assms(2)]])
  let ?w = "Sweep_call (db_now d) (expired_ids batch d) (map sr_id (stock_reservations d))"
  note e = sweep_effect [OF assms]
  have w: "claim_where ?w = (\<lambda>r. sr_status r = Active \<and> sr_id r \<in> set (expired_ids batch d))"
    "claim_values ?w = stop_holding Expired (db_now d)" by (simp_all add: fun_eq_iff)
  show "stock_reservations d' = upd (claim_where ?w) (claim_values ?w) (stock_reservations d)" unfolding w by (rule e(2))
  have "released = map released_of (filter (claim_where ?w) (stock_reservations d))" unfolding w by (rule e(1))
  then show "run_updates (to_move ?w (map released_of (filter (claim_where ?w) (stock_reservations d)))) (counters d) =
      Some (counters d')"
    using settling_follows_plan [OF assms(1) [unfolded sweep_expired_def]] assms(2)
    by (simp add: ledger_ok_def del: stock_plan.simps claim_where.simps)
qed simp

lemma settle_for_order_alone:
  assumes "settle_for_order oid st d = Inr d'" and "ledger_ok d"
  shows "\<exists>c. stock_step\<^sup>*\<^sup>* (all_at_start d [Settle_call (db_now d) oid st (map sr_id (stock_reservations d))]) c \<and>
    ss_phase (at_work c 0) = Done \<and> counters_now c = counters d' \<and> holds_now c = holds_of (stock_reservations d')"
proof (rule call_alone [OF _ claimed_ids_distinct [OF assms(2)]])
  let ?w = "Settle_call (db_now d) oid st (map sr_id (stock_reservations d))"
  have w: "claim_where ?w = (\<lambda>r. sr_order_id r = oid \<and> sr_status r = Active)" "claim_values ?w = stop_holding st (db_now d)"
    by (simp_all add: fun_eq_iff)
  show "stock_reservations d' = upd (claim_where ?w) (claim_values ?w) (stock_reservations d)"
    using assms(1) unfolding w by (auto simp: settle_for_order_def bind_r_Inr update_rows_Inr)
  show "run_updates (to_move ?w (map released_of (filter (claim_where ?w) (stock_reservations d)))) (counters d) =
      Some (counters d')"
    using assms(1) by (auto simp: settle_for_order_def bind_r_Inr counters_def)
qed simp

text \<open>A reservation claims nothing; its new rows are nobody else's.\<close>

lemma reserve_alone:
  assumes "reserve_stock ttl oid wid items d = Inr (res, d')" and "ledger_ok d"
  shows "\<exists>c. stock_step\<^sup>*\<^sup>* (all_at_start d [Reserve_call (db_now d) wid items]) c \<and> ss_phase (at_work c 0) = Done \<and>
    counters_now c = counters d'"
proof -
  let ?w = "Reserve_call (db_now d) wid items"
  let ?c = "all_at_start d [?w]"
  have start: "ss_doing (at_work ?c 0) = Claiming (map sr_id []) []" "alone ?c" "ss_call (at_work ?c 0) = ?w"
    "counters_now ?c = counters d"
    by (simp_all add: all_at_start_def alone_def row_locks_def)
  from claims_alone [OF start(1,2) _ _ start(3)] obtain c1 where
    c1: "stock_step\<^sup>*\<^sup>* ?c c1" "alone c1" "counters_now c1 = counters d"
      "ss_doing (at_work c1 0) = Moving (stock_plan (Reserving (db_now d) wid items))"
    unfolding start(4) by auto
  from moves_alone [OF _ c1(2,4), of "counters d'"] reserving_follows_plan [OF assms] c1(1,3) show ?thesis
    by (metis rtranclp_trans)
qed

text \<open>Two claims that visit two reservations of one overdue order in opposite orders.\<close>

lemma release_and_sweep_can_deadlock:
  assumes rows: "holds_of (stock_reservations d) a = Some ra" "holds_of (stock_reservations d) b = Some rb" and "a \<noteq> b"
    and wh: "claim_where (Release_call now oid [a, b]) ra" "claim_where (Release_call now oid [a, b]) rb"
      "claim_where (Sweep_call now' ids [b, a]) ra" "claim_where (Sweep_call now' ids [b, a]) rb"
  shows "\<exists>c. stock_run\<^sup>*\<^sup>* (all_at_start d [Release_call now oid [a, b], Sweep_call now' ids [b, a]]) c \<and> stuck c"
proof -
  let ?w0 = "Release_call now oid [a, b]" and ?w1 = "Sweep_call now' ids [b, a]"
  let ?c0 = "all_at_start d [?w0, ?w1]"
  let ?s = "(at_work ?c0 0)\<lparr>ss_doing := Claiming [b] ([] @ [released_of ra]), ss_holds := (a, ra) # ss_holds (at_work ?c0 0)\<rparr>"
  let ?c1 = "put 0 ?s (?c0\<lparr>holds_now := (holds_now ?c0)(a \<mapsto> claim_values (ss_call (at_work ?c0 0)) ra)\<rparr>)"
  let ?t = "(at_work ?c1 1)\<lparr>ss_doing := Claiming [a] ([] @ [released_of rb]), ss_holds := (b, rb) # ss_holds (at_work ?c1 1)\<rparr>"
  let ?c2 = "put 1 ?t (?c1\<lparr>holds_now := (holds_now ?c1)(b \<mapsto> claim_values (ss_call (at_work ?c1 1)) rb)\<rparr>)"
  have "stock_step ?c0 ?c1"
    by (rule stock_step.Claim) (use rows wh in \<open>auto simp: all_at_start_def taken_def row_locks_def\<close>)
  moreover have "stock_step ?c1 ?c2"
    by (rule stock_step.Claim) (use rows wh \<open>a \<noteq> b\<close> in \<open>auto simp: all_at_start_def taken_def row_locks_def put_def\<close>)
  moreover have "stuck ?c2"
  proof -
    have w: "at_work ?c2 = (\<lambda>j. if j = 0 then ?s else if j = 1 then ?t else at_work ?c0 2)"
      by (auto simp: fun_eq_iff put_def all_at_start_def)
    have "\<not> stock_step ?c2 c" for c
    proof
      assume "stock_step ?c2 c"
      then show False
        by (cases rule: stock_step.cases)
          (unfold taken_def row_locks_def w, use \<open>a \<noteq> b\<close> wh in \<open>auto simp: all_at_start_def split: if_splits\<close>)
    qed
    moreover have "\<not> all_over ?c2" by (auto simp: all_over_def w all_at_start_def)
    ultimately show ?thesis by (simp add: stuck_def)
  qed
  ultimately show ?thesis by (meson Step r_into_rtranclp rtranclp_trans)
qed

end
