(* ===== verification/Contention_Properties.thy ===== *)
theory Contention_Properties
  imports Claims Demo
begin

text \<open>
  The properties of concurrent writers of stock, statement by statement, with the demo shop as the
  place where each is applied.
\<close>

section \<open>Deadlocks\<close>

text \<open>
  C6: only claims can deadlock. Any number of reservations, releases, sweeps and commits, with all
  the rows of \<^verbatim>\<open>stock_reservations\<close> and \<^verbatim>\<open>inventory\<close> they lock, interleaved row by row with
  crashes anywhere. Whenever nobody can go on, every unfinished session is inside a claim and waits
  for a reservation that another one has locked: no session that updates \<^verbatim>\<open>inventory\<close> is ever part
  of a deadlock, and a reservation of new stock, which claims nothing, always ends. If the claims
  visit the reservations in some common order, then somebody can always go on and all can be run to
  their end. And no schedule goes on for ever.
\<close>

theorem only_claims_can_deadlock:
  assumes "stock_run\<^sup>*\<^sup>* (all_at_start d calls) c"
  shows "(stuck c \<longrightarrow> (\<forall>i. ss_phase (at_work c i) = Running \<longrightarrow> waits_in_claim c i \<and> claim_scan (calls ! i) \<noteq> [])) \<and>
    (\<exists>c'. stock_step\<^sup>*\<^sup>* c c' \<and> (\<forall>i. ss_phase (at_work c' i) = Running \<longrightarrow> waits_in_claim c' i)) \<and>
    (\<forall>pos :: uuid \<Rightarrow> nat. inj pos \<and> (\<forall>w \<in> set calls. sorted (map pos (claim_scan w))) \<longrightarrow>
      \<not> stuck c \<and> (\<exists>c'. stock_step\<^sup>*\<^sup>* c c' \<and> all_over c')) \<and>
    (\<forall>c'. stock_run c c' \<longrightarrow> left_to_do (length calls) c' < left_to_do (length calls) c)"
proof (intro conjI)
  have ord: "orderly (\<lambda>_. 0) calls c" by (rule orderly_run [OF assms orderly_start]) (simp add: map_replicate_const)
  show "stuck c \<longrightarrow> (\<forall>i. ss_phase (at_work c i) = Running \<longrightarrow> waits_in_claim c i \<and> claim_scan (calls ! i) \<noteq> [])"
    using only_claims_wait [OF ord] waiting_claims_something [OF ord] by blast
  show "\<exists>c'. stock_step\<^sup>*\<^sup>* c c' \<and> (\<forall>i. ss_phase (at_work c' i) = Running \<longrightarrow> waits_in_claim c' i)"
    using run_to_the_end [OF ord] only_claims_wait by (metis all_over_def)
  show "\<forall>c'. stock_run c c' \<longrightarrow> left_to_do (length calls) c' < left_to_do (length calls) c"
    using run_uses_up [OF _ ord] by blast
  show "\<forall>pos :: uuid \<Rightarrow> nat. inj pos \<and> (\<forall>w \<in> set calls. sorted (map pos (claim_scan w))) \<longrightarrow>
      \<not> stuck c \<and> (\<exists>c'. stock_step\<^sup>*\<^sup>* c c' \<and> all_over c')"
  proof (intro allI impI)
    fix pos :: "uuid \<Rightarrow> nat"
    assume pos: "inj pos \<and> (\<forall>w \<in> set calls. sorted (map pos (claim_scan w)))"
    then have "orderly pos calls c" by (intro orderly_run [OF assms orderly_start]) simp
    with run_to_the_end [OF this] ordered_claims_not_stuck pos
    show "\<not> stuck c \<and> (\<exists>c'. stock_step\<^sup>*\<^sup>* c c' \<and> all_over c')" by metis
  qed
qed

text \<open>An order's release and the sweep of the same holds, in the order of their ids, beside a new order.\<close>

theorem only_claims_can_deadlock_witness:
  "\<exists>c. stock_step\<^sup>*\<^sup>* (all_at_start demo_db1
      [Reserve_call 0 20 demo_items, Release_call 0 101 [105, 106], Sweep_call 0 [106, 105] [105, 106]]) c \<and> all_over c"
proof -
  have "inj (id :: nat \<Rightarrow> nat) \<and> (\<forall>w \<in> set [Reserve_call 0 20 demo_items, Release_call 0 101 [105, 106],
      Sweep_call 0 [106, 105] [105, 106]]. sorted (map id (claim_scan w)))" by simp
  with only_claims_can_deadlock [OF rtranclp.rtrancl_refl [of stock_run]] show ?thesis by blast
qed

section \<open>Updates under row locks\<close>

text \<open>
  C4: concurrent writers lose no update. When any number of reservations, releases and sweeps have
  ended, each having committed or rolled back, the table is what the committed ones leave when they
  run one after the other in the order of their commits; and at each warehouse each product's counter
  is what it was and what the committed ones took or gave back, within what is on hand.
\<close>

theorem concurrent_writers_lose_no_update:
  assumes "contend\<^sup>*\<^sup>* (starting (counters d) (map stock_plan ws)) c" and "all_ended c"
    and "table_ok (inventory_spec d) (inventory d)"
  shows "distinct (commits c) \<and> set (commits c) = {j. j < length ws \<and> phase_of (sessions c j) = Done} \<and>
    run_updates (concat (map (\<lambda>j. stock_plan (ws ! j)) (commits c))) (counters d) = Some (current c) \<and>
    (\<forall>i \<in> set (inventory d). \<exists>i'. current c (inv_key i) = Some i' \<and> on_hand i' = on_hand i \<and>
       reserved i' = reserved i + (\<Sum>j | j < length ws \<and> phase_of (sessions c j) = Done. units_moved (inv_key i) (ws ! j)) \<and>
       0 \<le> reserved i' \<and> reserved i' \<le> on_hand i)"
proof -
  note s = serial_at_the_end [OF contend_serial [OF assms(1)] assms(2)]
  have dist: "distinct (commits c)" and
    fin: "set (commits c) = {j. j < length ws \<and> phase_of (sessions c j) = Done}" using s(1,2) by simp_all
  have "map ((!) (map stock_plan ws)) (commits c) = map (\<lambda>j. stock_plan (ws ! j)) (commits c)"
    using fin by (intro map_cong) auto
  with s(3) have run: "run_updates (concat (map (\<lambda>j. stock_plan (ws ! j)) (commits c))) (counters d) = Some (current c)"
    by simp
  have "\<exists>i'. current c (inv_key i) = Some i' \<and> on_hand i' = on_hand i \<and>
      reserved i' = reserved i + (\<Sum>j | j < length ws \<and> phase_of (sessions c j) = Done. units_moved (inv_key i) (ws ! j)) \<and>
      0 \<le> reserved i' \<and> reserved i' \<le> on_hand i" if i: "i \<in> set (inventory d)" for i
  proof -
    have "counters d (inv_key i) = Some i" by (rule counters_member [OF inventory_keys_distinct [OF assms(3)] i])
    moreover have "counters_fit i"
      using assms(3) i by (auto simp: table_ok_def list_all_iff intro: counters_fit_row)
    ultimately show ?thesis
      using plans_move [OF run, of "inv_key i"] sum_list_distinct_conv_sum_set [OF dist] fin
      by (auto simp: moved_by_def counters_fit_def split: option.splits)
  qed
  with dist fin run show ?thesis by blast
qed

text \<open>Two orders of two units each, of three in stock: the second waits for the first, and is refused.\<close>

definition demo_pair :: "requested_item list" where
  "demo_pair = [\<lparr>product_id = 11, quantity = 2\<rparr>]"

lemma demo_race:
  "\<exists>c. contend\<^sup>*\<^sup>* (starting (counters demo_db) (map stock_plan [Reserving 0 20 demo_pair, Reserving 0 20 demo_pair])) c \<and>
     all_ended c \<and> phase_of (sessions c 0) = Done \<and> phase_of (sessions c 1) = Rolled_back"
proof -
  let ?u = "take_units 0 20 \<lparr>product_id = 11, quantity = 2\<rparr>"
  let ?r = "demo_stock 31 20 11 3"
  let ?c0 = "starting (counters demo_db) (map stock_plan [Reserving 0 20 demo_pair, Reserving 0 20 demo_pair])"
  let ?s = "(sessions ?c0 0)\<lparr>executed := executed (sessions ?c0 0) @ [?u], todo := [], found := (fst ?u, ?r) # found (sessions ?c0 0)\<rparr>"
  let ?c1 = "?c0\<lparr>current := (current ?c0)(fst ?u \<mapsto> ?r\<lparr>reserved := 2\<rparr>), sessions := (sessions ?c0)(0 := ?s)\<rparr>"
  let ?c2 = "?c1\<lparr>sessions := (sessions ?c1)(0 := ended Done (sessions ?c1 0)), commits := commits ?c1 @ [0]\<rparr>"
  let ?c3 = "?c2\<lparr>current := roll_back (sessions ?c2 1) (current ?c2), sessions := (sessions ?c2)(1 := ended Rolled_back (sessions ?c2 1))\<rparr>"
  have plan: "stock_plan (Reserving 0 20 demo_pair) = [?u]" by (simp add: demo_pair_def lock_order_def)
  have row: "counters demo_db (20, 11) = Some ?r" by (simp add: counters_def by_key_def demo_db_def demo_stock_def)
  have "work ?c0 ?c1"
    by (rule work.Update) (use plan row in \<open>auto simp: starting_def others_lock_def locked_def take_units_def checked_def
        counters_fit_def fits_int4_def demo_stock_def\<close>)
  moreover have "work ?c1 ?c2" by (rule work.Commit) (simp_all add: starting_def)
  moreover have "work ?c2 ?c3"
    by (rule work.Unmatched [where u = ?u and us = "[]"]) (use plan in \<open>auto simp: starting_def others_lock_def locked_def
        take_units_def demo_stock_def ended_def\<close>)
  ultimately have "contend\<^sup>*\<^sup>* ?c0 ?c3" by (meson Work r_into_rtranclp rtranclp_trans)
  then show ?thesis by (rule exI [of _ ?c3, OF conjI]) (auto simp: all_ended_def starting_def)
qed

theorem concurrent_writers_lose_no_update_witness:
  "\<exists>c i. contend\<^sup>*\<^sup>* (starting (counters demo_db) (map stock_plan [Reserving 0 20 demo_pair, Reserving 0 20 demo_pair])) c \<and>
     all_ended c \<and> current c (20, 11) = Some i \<and> on_hand i = 3 \<and> reserved i = 2"
proof -
  let ?ws = "[Reserving 0 20 demo_pair, Reserving 0 20 demo_pair]"
  obtain c where c: "contend\<^sup>*\<^sup>* (starting (counters demo_db) (map stock_plan ?ws)) c" "all_ended c"
    "phase_of (sessions c 0) = Done" "phase_of (sessions c 1) = Rolled_back"
    using demo_race by blast
  have "{j. j < length ?ws \<and> phase_of (sessions c j) = Done} = {0}"
    using c(3,4) by (auto simp: less_Suc_eq)
  with concurrent_writers_lose_no_update [OF c(1,2) demo_inventory_ok] c(1,2) show ?thesis
    by (intro exI [of _ c]) (auto simp: demo_db_def demo_stock_def units_moved_def demo_pair_def)
qed

section \<open>The plans are the code's\<close>

text \<open>
  C17: a plan is what its operation does. When \<open>reserve_stock\<close> returns, the stock table is as the plan
  of its UPDATEs leaves it; when it refuses for lack of stock, its plan stops at a row that does not
  match; and when a release or a sweep returns, the table is as the plan of the released quantities
  leaves it.
\<close>

theorem stock_operations_follow_their_plans:
  assumes "ledger_ok d"
  shows "(\<forall>res d'. reserve_stock ttl oid wid items d = Inr (res, d') \<longrightarrow>
      run_updates (stock_plan (Reserving (db_now d) wid items)) (counters d) = Some (counters d')) \<and>
    (\<forall>e. reserve_stock ttl oid wid items d = Inl (DomainError e) \<longrightarrow>
      run_updates (stock_plan (Reserving (db_now d) wid items)) (counters d) = None) \<and>
    (\<forall>released d'. release_reservation oid d = Inr (released, d') \<or> sweep_expired batch d = Inr (released, d') \<longrightarrow>
      run_updates (stock_plan (Handing_back (db_now d) released)) (counters d) = Some (counters d'))"
  using assms reserving_follows_plan refusing_follows_plan
    settling_follows_plan [of _ _ d] unfolding release_reservation_def sweep_expired_def ledger_ok_def by blast

theorem stock_operations_follow_their_plans_witness:
  "\<exists>released d'. release_reservation 101 demo_db1 = Inr (released, d') \<and>
     run_updates (stock_plan (Handing_back (db_now demo_db1) released)) (counters demo_db1) = Some (counters d')"
  using stock_operations_follow_their_plans [OF demo_ledger1, of 900 101 20 demo_items 500]
    release_succeeds [OF demo_ledger1, of 101] by blast

section \<open>The seed script\<close>

text \<open>
  C37: the seed script is outside that order. It updates the stock rows in the order in which it lists
  them, so beside a reservation of a keyboard and a mouse at MAD-01 it can deadlock whenever the
  mouse has the smaller id: each of the two has locked the row that the other needs next.
\<close>

theorem reseeding_can_deadlock:
  assumes vs: "inventory_values pids wids = Inr vs"
    and ids: "pids ''SKU-KEYB'' = Some k" "pids ''SKU-MOUSE'' = Some m" "wids ''MAD-01'' = Some w" and less: "m < k"
    and rows: "counters d (w, k) = Some ik" "counters d (w, m) = Some im" "counters_fit ik" "counters_fit im"
    and stock: "reserved ik < on_hand ik" "reserved im < on_hand im" "reserved ik \<le> 50" "reserved im \<le> 40"
  shows "\<exists>c. contend\<^sup>*\<^sup>* (starting (counters d) [stock_plan (Reserving now w [\<lparr>product_id = k, quantity = 1\<rparr>,
      \<lparr>product_id = m, quantity = 1\<rparr>]), reseed_plan vs]) c \<and> deadlocked c"
proof -
  obtain vs' where vs': "vs = (w, k, 50, 5) # (w, m, 40, 0) # vs'"
    using vs by (auto simp: inventory_values_def INVENTORY_def the_id_def ids bind_r_Inr)
  let ?m = "\<lparr>product_id = m, quantity = 1\<rparr>" and ?k = "\<lparr>product_id = k, quantity = 1\<rparr>"
  have plans: "stock_plan (Reserving now w [?k, ?m]) = [take_units now w ?m, take_units now w ?k]"
    "reseed_plan vs = reseed_units (w, k, 50, 5) # reseed_units (w, m, 40, 0) # map reseed_units vs'"
    using less by (simp_all add: lock_order_def reseed_plan_def vs')
  show ?thesis
    unfolding plans
    by (rule crossed_orders_deadlock [where a = ik and b = im])
      (use rows stock less in \<open>auto simp: take_units_def reseed_units_def set_stock_def seed_stock_def
        checked_def counters_fit_def fits_int4_def\<close>)
qed

text \<open>Ids as a seeded shop may have them, with the mouse before the keyboard.\<close>

definition demo_pids :: "string \<rightharpoonup> uuid" where
  "demo_pids = [''SKU-KEYB'' \<mapsto> 11, ''SKU-MOUSE'' \<mapsto> 10, ''SKU-MON27'' \<mapsto> 12, ''SKU-DOCK'' \<mapsto> 13, ''SKU-CABLE'' \<mapsto> 14]"

definition demo_wids :: "string \<rightharpoonup> uuid" where
  "demo_wids = [''MAD-01'' \<mapsto> 20, ''BCN-01'' \<mapsto> 21, ''VLC-01'' \<mapsto> 22, ''SVQ-01'' \<mapsto> 23]"

theorem reseeding_can_deadlock_witness:
  "\<exists>vs c. inventory_values demo_pids demo_wids = Inr vs \<and>
     contend\<^sup>*\<^sup>* (starting (counters demo_db) [stock_plan (Reserving 0 20 [\<lparr>product_id = 11, quantity = 1\<rparr>,
       \<lparr>product_id = 10, quantity = 1\<rparr>]), reseed_plan vs]) c \<and> deadlocked c"
proof -
  obtain vs where vs: "inventory_values demo_pids demo_wids = Inr vs"
    by (simp add: inventory_values_def INVENTORY_def the_id_def demo_pids_def demo_wids_def)
  from reseeding_can_deadlock [OF vs, of 11 10 20 demo_db "demo_stock 31 20 11 3" "demo_stock 30 20 10 5" 0]
  show ?thesis using vs
    by (auto simp: demo_pids_def demo_wids_def counters_def by_key_def demo_db_def demo_stock_def counters_fit_def fits_int4_def)
qed

end
