(* ===== verification/Ini.thy ===== *)
theory Ini
  imports Prelude "HOL-Library.AList"
begin

text \<open>
  What \<^verbatim>\<open>migrations/env.py\<close> uses of the standard library's \<^verbatim>\<open>configparser\<close>, through alembic's
  \<^verbatim>\<open>Config\<close>: an option is checked for its use of the percent sign when it is set, and every option
  of a section is interpolated when the section is read.
\<close>

section \<open>Options and references\<close>

datatype ini_error =
    Invalid_interpolation
  | Interpolation_syntax string
  | Interpolation_missing string
  | Interpolation_depth

type_synonym ini_section = "(string \<times> string) list"

text \<open>
  A reference is a percent sign, a name in parentheses and an \<^verbatim>\<open>s\<close>. \<open>reference\<close> splits one off
  the front of a text.
\<close>

definition reference :: "string \<Rightarrow> (string \<times> string) option" where
  "reference s =
     (let name = takeWhile (\<lambda>c. c \<noteq> CHR '')'') (drop 2 s); after = drop (2 + length name) s
      in if take 2 s = ''%('' \<and> name \<noteq> [] \<and> take 2 after = '')s'' then Some (name, drop 2 after) else None)"

lemma reference_shorter: "reference s = Some (name, after) \<Longrightarrow> length after < length s"
  by (cases s) (auto simp: reference_def Let_def split: if_split_asm)

lemma reference_percent: "reference s = Some (name, after) \<Longrightarrow> take 2 s = ''%(''"
  by (auto simp: reference_def Let_def split: if_split_asm)

section \<open>Setting an option\<close>

text \<open>The check drops doubled percent signs and then references, and refuses what is left of any.\<close>

fun drop_doubled :: "string \<Rightarrow> string" where
  "drop_doubled (a # b # s) =
     (if a = CHR ''%'' \<and> b = CHR ''%'' then drop_doubled s else a # drop_doubled (b # s))"
| "drop_doubled s = s"

function drop_references :: "string \<Rightarrow> string" where
  "drop_references s =
     (case reference s of
        Some (_, after) \<Rightarrow> drop_references after
      | None \<Rightarrow> (case s of [] \<Rightarrow> [] | c # t \<Rightarrow> c # drop_references t))"
  by auto
termination by (relation "measure length") (auto dest: reference_shorter)

declare drop_references.simps [simp del]

definition before_set :: "string \<Rightarrow> ini_error + string" where
  "before_set v = (if CHR ''%'' \<in> set (drop_references (drop_doubled v)) then Inl Invalid_interpolation else Inr v)"

definition set_option :: "string \<Rightarrow> string \<Rightarrow> ini_section \<Rightarrow> ini_error + ini_section" where
  "set_option name v sec = bind_r (before_set v) (\<lambda>v'. Inr (AList.update name v' sec))"

section \<open>Reading a section\<close>

text \<open>
  A doubled percent sign stands for one, a reference for the option of that name in the same section,
  itself interpolated if need be and at most ten deep; any other percent sign is an error. \<open>depth\<close>
  is how many levels are left, \<open>lower\<close> is \<^verbatim>\<open>str.lower\<close>, which a name goes through.
\<close>

function interpolate :: "(string \<Rightarrow> string) \<Rightarrow> (string \<rightharpoonup> string) \<Rightarrow> nat \<Rightarrow> string \<Rightarrow> ini_error + string" where
  "interpolate lower options depth s =
     (if depth = 0 then Inl Interpolation_depth else
      case s of
        [] \<Rightarrow> Inr []
      | c # t \<Rightarrow>
          if c \<noteq> CHR ''%'' then bind_r (interpolate lower options depth t) (\<lambda>r. Inr (c # r))
          else if take 1 t = ''%'' then bind_r (interpolate lower options depth (drop 1 t)) (\<lambda>r. Inr (CHR ''%'' # r))
          else if take 1 t = ''('' then
            (case reference s of
               None \<Rightarrow> Inl (Interpolation_syntax s)
             | Some (name, after) \<Rightarrow>
                 (case options (lower name) of
                    None \<Rightarrow> Inl (Interpolation_missing (lower name))
                  | Some v \<Rightarrow>
                      bind_r (if CHR ''%'' \<in> set v then interpolate lower options (depth - 1) v else Inr v) (\<lambda>r1.
                      bind_r (interpolate lower options depth after) (\<lambda>r2. Inr (r1 @ r2)))))
          else Inl (Interpolation_syntax s))"
  by auto
termination
  by (relation "measures [\<lambda>(_, _, depth, _). depth, \<lambda>(_, _, _, s). length s]") (auto dest: reference_shorter)

declare interpolate.simps [simp del]

definition before_get :: "(string \<Rightarrow> string) \<Rightarrow> ini_section \<Rightarrow> string \<Rightarrow> ini_error + string" where
  "before_get lower sec v = interpolate lower (map_of sec) 10 v"

definition get_section :: "(string \<Rightarrow> string) \<Rightarrow> ini_section \<Rightarrow> ini_error + ini_section" where
  "get_section lower sec = map_r (\<lambda>(name, v). bind_r (before_get lower sec v) (\<lambda>r. Inr (name, r))) sec"

section \<open>Which texts are left alone\<close>

lemma drop_doubled_plain: "CHR ''%'' \<notin> set a \<Longrightarrow> drop_doubled (a @ s) = a @ drop_doubled s"
proof (induction a)
  case (Cons c a)
  then show ?case by (cases "a @ s") auto
qed simp

lemma drop_references_plain: "CHR ''%'' \<notin> set a \<Longrightarrow> drop_references (a @ s) = a @ drop_references s"
proof (induction a)
  case (Cons c a)
  then have "reference (c # a @ s) = None" by (auto simp: reference_def Let_def)
  with Cons show ?case by (simp add: drop_references.simps [of "c # a @ s"])
qed simp

lemma before_set_plain: "CHR ''%'' \<notin> set v \<Longrightarrow> before_set v = Inr v"
  using drop_doubled_plain [of v "[]"] drop_references_plain [of v "[]"]
  by (simp add: before_set_def drop_references.simps [of "[]"] reference_def)

lemma interpolate_Nil: "0 < depth \<Longrightarrow> interpolate lower options depth [] = Inr []"
  by (simp add: interpolate.simps)

lemmas interpolate_Cons = interpolate.simps [of _ _ _ "c # t" for c t]

lemma interpolate_plain:
  "0 < depth \<Longrightarrow> CHR ''%'' \<notin> set v \<Longrightarrow> interpolate lower options depth v = Inr v"
proof (induction v)
  case (Cons c v)
  then have "c \<noteq> CHR ''%''" by auto
  with Cons show ?case by (simp add: interpolate_Cons)
qed (simp add: interpolate_Nil)

lemma get_section_plain:
  assumes "\<forall>(name, v) \<in> set sec. CHR ''%'' \<notin> set v"
  shows "get_section lower sec = Inr sec"
proof -
  have "get_section lower sec = Inr sec \<longleftrightarrow>
      list_all2 (\<lambda>x y. (\<lambda>(name, v). bind_r (before_get lower sec v) (\<lambda>r. Inr (name, r))) x = Inr y) sec sec"
    unfolding get_section_def by (rule map_r_Inr)
  moreover have "list_all2 (\<lambda>x y. (\<lambda>(name, v). bind_r (before_get lower sec v) (\<lambda>r. Inr (name, r))) x = Inr y) sec sec"
    using assms by (intro list.rel_refl_strong) (auto simp: before_get_def interpolate_plain)
  ultimately show ?thesis by simp
qed

text \<open>A percent sign that nothing follows which makes sense of it is refused.\<close>

lemma before_set_bare_percent:
  assumes "CHR ''%'' \<notin> set a" and "take 1 s \<noteq> ''%''" and "take 1 s \<noteq> ''(''"
  shows "before_set (a @ CHR ''%'' # s) = Inl Invalid_interpolation"
proof -
  have dd: "drop_doubled (CHR ''%'' # s) = CHR ''%'' # drop_doubled s" using assms(2) by (cases s) simp_all
  have "take 1 (drop_doubled s) \<noteq> ''(''" using assms(2,3) by (cases s rule: drop_doubled.cases) auto
  then have "reference (CHR ''%'' # drop_doubled s) = None"
    using reference_percent by (cases "drop_doubled s") (auto simp: reference_def Let_def)
  then show ?thesis
    by (simp add: before_set_def drop_doubled_plain [OF assms(1)] dd drop_references_plain [OF assms(1)]
        drop_references.simps [of "CHR ''%'' # drop_doubled s"])
qed

text \<open>Doubling every percent sign is what alembic asks for: it is accepted and read back as it was.\<close>

definition doubled :: "string \<Rightarrow> string" where
  "doubled s = concat (map (\<lambda>c. if c = CHR ''%'' then ''%%'' else [c]) s)"

lemma before_set_doubled: "before_set (doubled s) = Inr (doubled s)"
proof -
  have dd: "drop_doubled (doubled s) = filter (\<lambda>c. c \<noteq> CHR ''%'') s"
    unfolding doubled_def
  proof (induction s)
    case (Cons c s)
    then show ?case
      using drop_doubled_plain [of "[c]" "concat (map (\<lambda>c. if c = CHR ''%'' then ''%%'' else [c]) s)"] by simp
  qed simp
  show ?thesis
    using drop_references_plain [of "filter (\<lambda>c. c \<noteq> CHR ''%'') s" "[]"]
    by (simp add: before_set_def dd drop_references.simps [of "[]"] reference_def)
qed

lemma interpolate_doubled: "0 < depth \<Longrightarrow> interpolate lower options depth (doubled s) = Inr s"
  by (induction s) (simp_all add: doubled_def interpolate_Nil interpolate_Cons)

end
