(* ===== verification/Migration_Env.thy ===== *)
theory Migration_Env
  imports Ini Application Migrated
begin

text \<open>
  \<^verbatim>\<open>migrations/env.py\<close>, which alembic runs for every command: it puts the settings' URL into
  alembic's configuration, and then either writes the pending revisions out as a script or connects
  with what it reads back from the configuration and runs them. \<open>ini\<close> is the main section of
  \<^verbatim>\<open>alembic.ini\<close>, \<open>steps\<close> are the revisions alembic has selected, and \<open>connect\<close> gives the catalog
  that an engine opens, if it opens one.
\<close>

section \<open>The environment\<close>

datatype env_error = Ini_error ini_error | Key_error string | Connection_refused

datatype pool_class = Null_pool | Queue_pool

text \<open>What an engine is created with: the options named \<^verbatim>\<open>sqlalchemy.*\<close>, and the keywords.\<close>

record migration_engine =
  me_url :: string
  me_options :: ini_section
  me_poolclass :: pool_class
  me_search_path :: string

datatype env_run =
    Script string "ddl list"
  | Migrated migration_engine "(ddl_error + unit) \<times> catalog"

definition set_main_option :: "settings \<Rightarrow> ini_section \<Rightarrow> env_error + ini_section" where
  "set_main_option cfg ini = map_sum Ini_error id (set_option ''sqlalchemy.url'' (database_url cfg) ini)"

definition async_engine_from_config :: "ini_section \<Rightarrow> env_error + migration_engine" where
  "async_engine_from_config conf =
     (let options = map (map_prod (drop 11) id) (filter (\<lambda>(name, _). take 11 name = ''sqlalchemy.'') conf)
      in case map_of options ''url'' of
           None \<Rightarrow> Inl (Key_error ''url'')
         | Some url \<Rightarrow> Inr \<lparr>me_url = url, me_options = filter (\<lambda>(name, _). name \<noteq> ''url'') options,
                           me_poolclass = Null_pool, me_search_path = ''public''\<rparr>)"

definition run_async_migrations ::
  "(string \<Rightarrow> string) \<Rightarrow> ini_section \<Rightarrow> ddl list \<Rightarrow> (migration_engine \<Rightarrow> catalog option) \<Rightarrow> env_error + env_run" where
  "run_async_migrations lower ini steps connect =
     bind_r (map_sum Ini_error id (get_section lower ini)) (\<lambda>conf.
     bind_r (async_engine_from_config conf) (\<lambda>engine.
       case connect engine of
         None \<Rightarrow> Inl Connection_refused
       | Some c \<Rightarrow> Inr (Migrated engine (do_run_migrations steps c))))"

definition run_migrations_offline :: "settings \<Rightarrow> ddl list \<Rightarrow> env_run" where
  "run_migrations_offline cfg steps = Script (database_url cfg) steps"

definition migration_env ::
  "(string \<Rightarrow> string) \<Rightarrow> settings \<Rightarrow> ini_section \<Rightarrow> bool \<Rightarrow> ddl list \<Rightarrow> (migration_engine \<Rightarrow> catalog option) \<Rightarrow>
     env_error + env_run" where
  "migration_env lower cfg ini offline steps connect =
     bind_r (set_main_option cfg ini) (\<lambda>ini'.
       if offline then Inr (run_migrations_offline cfg steps)
       else run_async_migrations lower ini' steps connect)"

section \<open>The URL\<close>

lemma nat_str_digits: "c \<in> set (nat_str n) \<Longrightarrow> 48 \<le> (of_char c :: nat) \<and> (of_char c :: nat) \<le> 57"
proof (induction n rule: nat_str.induct)
  case (1 n)
  have digit: "of_char (char_of (48 + m) :: char) = 48 + m" if "m < 10" for m :: nat
    using that by (simp add: of_char_of)
  show ?case
  proof (cases "n < 10")
    case True
    with 1 digit [of n] show ?thesis by (simp add: nat_str.simps [of n])
  next
    case False
    with 1 digit [of "n mod 10"] show ?thesis by (auto simp: nat_str.simps [of n])
  qed
qed

lemma int_str_no_percent: "CHR ''%'' \<notin> set (int_str i)"
  using nat_str_digits [of "CHR ''%''"] by (auto simp: int_str_def)

definition percent_free :: "settings \<Rightarrow> bool" where
  "percent_free cfg \<longleftrightarrow> list_all (\<lambda>s. CHR ''%'' \<notin> set s)
     [postgres_user cfg, postgres_password cfg, postgres_host cfg, postgres_db cfg]"

lemma percent_free_url: "percent_free cfg \<Longrightarrow> CHR ''%'' \<notin> set (database_url cfg)"
  by (simp add: percent_free_def database_url_def int_str_no_percent)

lemma update_new: "k \<notin> fst ` set xs \<Longrightarrow> AList.update k v xs = xs @ [(k, v)]"
  by (induction xs) auto

text \<open>A section with nothing to interpolate and no option of SQLAlchemy's, like that of \<^verbatim>\<open>alembic.ini\<close>.\<close>

definition plain_section :: "ini_section \<Rightarrow> bool" where
  "plain_section ini \<longleftrightarrow> list_all (\<lambda>(name, v). CHR ''%'' \<notin> set v \<and> take 11 name \<noteq> ''sqlalchemy.'') ini"

lemma set_main_option_plain:
  assumes "plain_section ini" and "percent_free cfg"
  shows "set_main_option cfg ini = Inr (ini @ [(''sqlalchemy.url'', database_url cfg)])"
proof -
  have "''sqlalchemy.url'' \<notin> fst ` set ini" using assms(1) by (force simp: plain_section_def list_all_iff)
  from update_new [OF this] show ?thesis
    by (simp add: set_main_option_def set_option_def before_set_plain [OF percent_free_url [OF assms(2)]])
qed

abbreviation pinned_engine :: "string \<Rightarrow> migration_engine" where
  "pinned_engine url \<equiv> \<lparr>me_url = url, me_options = [], me_poolclass = Null_pool, me_search_path = ''public''\<rparr>"

lemma online_run_plain:
  assumes "plain_section ini" and "CHR ''%'' \<notin> set url"
  shows "run_async_migrations lower (ini @ [(''sqlalchemy.url'', url)]) steps connect =
    (case connect (pinned_engine url) of None \<Rightarrow> Inl Connection_refused
     | Some c \<Rightarrow> Inr (Migrated (pinned_engine url) (do_run_migrations steps c)))"
proof -
  have "get_section lower (ini @ [(''sqlalchemy.url'', url)]) = Inr (ini @ [(''sqlalchemy.url'', url)])"
    using assms by (intro get_section_plain) (auto simp: plain_section_def list_all_iff)
  moreover have "filter (\<lambda>(name, _). take 11 name = ''sqlalchemy.'') ini = []"
    using assms(1) by (auto simp: plain_section_def list_all_iff filter_empty_conv)
  ultimately show ?thesis by (simp add: run_async_migrations_def async_engine_from_config_def)
qed

lemma bare_percent_password:
  assumes "postgres_password cfg = a @ CHR ''%'' # b" and "CHR ''%'' \<notin> set (postgres_user cfg @ a)"
    and "take 1 b \<noteq> ''%''" and "take 1 b \<noteq> ''(''"
  shows "set_main_option cfg ini = Inl (Ini_error Invalid_interpolation)"
proof -
  let ?rest = "''@'' @ postgres_host cfg @ '':'' @ int_str (postgres_port cfg) @ ''/'' @ postgres_db cfg"
  have "database_url cfg = (''postgresql+asyncpg://'' @ postgres_user cfg @ '':'' @ a) @ CHR ''%'' # (b @ ?rest)"
    by (simp add: database_url_def assms(1))
  moreover have "take 1 (b @ ?rest) \<noteq> ''%'' \<and> take 1 (b @ ?rest) \<noteq> ''(''" using assms(3,4) by (cases b) simp_all
  ultimately have "before_set (database_url cfg) = Inl Invalid_interpolation"
    using before_set_bare_percent [of "''postgresql+asyncpg://'' @ postgres_user cfg @ '':'' @ a" "b @ ?rest"] assms(2) by simp
  then show ?thesis by (simp add: set_main_option_def set_option_def)
qed

section \<open>Where the migrations run\<close>

text \<open>
  C36: migrations run where the application connects. If no percent sign occurs in the settings, an
  online run connects to the very URL of the application's engine, without a pool and with the search
  path pinned, and runs the selected revisions there in one transaction, and an offline run only
  writes them out. A password with a bare percent sign, as every percent-encoded one has, makes both
  raise before they connect to anything, while the application's engine takes that URL as it is.
\<close>

theorem migrations_connect_where_the_application_does:
  assumes "plain_section ini"
  shows "(percent_free cfg \<longrightarrow>
      migration_env lower cfg ini True steps connect = Inr (Script (eo_url (engine_of cfg)) steps) \<and>
      migration_env lower cfg ini False steps connect =
        (case connect (pinned_engine (eo_url (engine_of cfg))) of None \<Rightarrow> Inl Connection_refused
         | Some c \<Rightarrow> Inr (Migrated (pinned_engine (eo_url (engine_of cfg))) (do_run_migrations steps c)))) \<and>
    (\<forall>a b. postgres_password cfg = a @ CHR ''%'' # b \<and> CHR ''%'' \<notin> set (postgres_user cfg @ a) \<and>
        take 1 b \<noteq> ''%'' \<and> take 1 b \<noteq> ''('' \<longrightarrow>
      migration_env lower cfg ini offline steps connect = Inl (Ini_error Invalid_interpolation))"
proof -
  have url: "eo_url (engine_of cfg) = database_url cfg" by (simp add: engine_of_def)
  note [simp] = set_main_option_plain [OF assms] online_run_plain [OF assms percent_free_url]
  show ?thesis using bare_percent_password [of cfg _ _ ini]
    unfolding url by (auto simp: migration_env_def run_migrations_offline_def)
qed

text \<open>The section of \<^verbatim>\<open>alembic.ini\<close>, and the settings with the password \<^verbatim>\<open>p@ss\<close> percent-encoded.\<close>

definition alembic_ini :: ini_section where
  "alembic_ini = [(''script_location'', ''migrations''), (''prepend_sys_path'', ''.''), (''version_path_separator'', ''os'')]"

theorem migrations_connect_where_the_application_does_witness:
  "migration_env id default_settings alembic_ini False (pending_upgrades None) (\<lambda>_. Some (no_schema {})) =
     Inr (Migrated (pinned_engine ''postgresql+asyncpg://canals:canals@db:5432/canals'') (Inr (), at_head {''postgis''})) \<and>
   migration_env id (default_settings\<lparr>postgres_password := ''p%40ss''\<rparr>) alembic_ini False (pending_upgrades None)
     (\<lambda>_. Some (no_schema {})) = Inl (Ini_error Invalid_interpolation)"
proof -
  have ini: "plain_section alembic_ini" by (simp add: plain_section_def alembic_ini_def)
  have cfg: "percent_free default_settings" by (simp add: percent_free_def default_settings_def)
  have url: "eo_url (engine_of default_settings) = ''postgresql+asyncpg://canals:canals@db:5432/canals''"
    by (simp add: engine_of_def database_url_def default_settings_def int_str_def nat_str.simps char_of_def bit_iff_odd)
  have run: "do_run_migrations (pending_upgrades None) (no_schema {}) = (Inr (), at_head {''postgis''})"
    by (simp add: do_run_migrations_Inr up_0001 up_0002 up_0003)
  from migrations_connect_where_the_application_does [OF ini, of default_settings] cfg
  have "migration_env id default_settings alembic_ini False (pending_upgrades None) (\<lambda>_. Some (no_schema {})) =
     Inr (Migrated (pinned_engine ''postgresql+asyncpg://canals:canals@db:5432/canals'') (Inr (), at_head {''postgis''}))"
    unfolding url by (simp add: run [simplified])
  moreover have "migration_env id (default_settings\<lparr>postgres_password := ''p%40ss''\<rparr>) alembic_ini False (pending_upgrades None)
     (\<lambda>_. Some (no_schema {})) = Inl (Ini_error Invalid_interpolation)"
    by (rule migrations_connect_where_the_application_does [OF ini, THEN conjunct2, rule_format, of _ "''p''" "''40ss''"])
      (simp add: default_settings_def)
  ultimately show ?thesis ..
qed

end
