(* ===== verification/Spec2Isabelle.thy ===== *)
theory Spec2Isabelle
  imports Stock_Properties Order_Properties Edge_Properties Schema_Properties Seed_Properties Answer_Properties
    System_Properties Application_Properties Contention_Properties Migration_Env
begin

text \<open>
  The order-fulfilment service under \<^verbatim>\<open>src/\<close>: a \<^verbatim>\<open>POST /orders\<close> request picks the
  nearest warehouse that stocks the whole basket, reserves the stock, charges a card and confirms
  the order, as a saga of two database transactions around the charge; three jobs sweep expired
  holds, publish the outbox and look at unresolved payments.

  \<^bold>\<open>The parts and where they are.\<close> Bottom up:

  \<^item> \<open>Prelude\<close>: results (\<open>exc + 'a\<close> and \<open>bind_r\<close>, \<open>fold_r\<close>), rows of a table
    (\<open>upd\<close>, \<open>sum_where\<close>), transactions that roll back (\<open>in_transaction\<close>) and the locale
    \<open>contended\<close> for a claim that only one of many callers may win.
  \<^item> \<open>Domain\<close>, \<open>Text\<close>: \<^verbatim>\<open>app/domain\<close>, \<^verbatim>\<open>app/db/geo.py\<close> and the wire form of
    an order; how UUIDs, numbers and error messages print.
  \<^item> \<open>Sql\<close>, \<open>Schema\<close>: what one INSERT or UPDATE does to a table with its column types,
    CHECKs, unique and foreign keys, and \<^verbatim>\<open>app/models\<close> as rows and such tables.
  \<^item> \<open>Orders\<close>, \<open>Reservations\<close>, \<open>Selection\<close>, \<open>Idempotency\<close>, \<open>Payments\<close>,
    \<open>Outbox\<close>: \<^verbatim>\<open>app/repositories\<close> and \<^verbatim>\<open>app/services/warehouse_selection.py\<close>, each method a
    function on the database. \<open>Ledger\<close> and \<open>Stocking\<close> prove what the reservation methods do to the
    pair of counters and receipts; \<open>stock_operation\<close> is their common contract, and
    \<open>managed\<close> what whoever manages prices and stock may do beside them.
  \<^item> \<open>Locks\<close>, \<open>Contention\<close>, \<open>Claims\<close>: row locks at READ COMMITTED, statement by statement: transactions
    that UPDATE one row after another, wait for each other and crash (\<open>contend\<close>). Whatever ends is a
    serial run in the order of the commits, and the locale \<open>lock_discipline\<close> shows that sessions with
    ordered locks are never all blocked. Reserving and handing back are such sessions
    (\<open>stock_plan\<close>, the interpretation \<open>writers\<close>) and the lists of their UPDATEs are proved to be what
    \<open>reserve_stock\<close> and \<open>settle\<close> do; the seed script's list is not ordered. \<open>Claims\<close> adds the rows of
    \<^verbatim>\<open>stock_reservations\<close> that a release, a sweep or a commit claims first, in no fixed order
    (\<open>stock_step\<close>): each call run alone is its function, and a deadlock is one of claims only.
  \<^item> \<open>Creation\<close>, \<open>Availability\<close>: \<^verbatim>\<open>app/services/order_creation.py\<close>, what it
    leaves behind, when it cannot fail, and what happens when the stock it selected is gone. Its
    SELECTs read the databases \<open>seen\<close> and \<open>priced\<close>, which may be older than the one it writes.
  \<^item> \<open>Provider\<close>: the payment port as the locale \<open>payment_port\<close>, and
    \<^verbatim>\<open>app/adapters/payment_mock.py\<close> as its interpretation.
  \<^item> \<open>Checkout\<close>, \<open>Settlement\<close>: \<^verbatim>\<open>app/services/order_checkout.py\<close>, the effect of each
    half and when the second half succeeds.
  \<^item> \<open>Sessions\<close>: the same saga on the request's session, with \<^verbatim>\<open>_assert_no_transaction\<close>.
    SQLAlchemy's session is the parameter \<open>session_api\<close>, what is documented of it the predicate
    \<open>documented\<close>.
  \<^item> \<open>System\<close>: any number of checkouts in flight with the sweeper, the relay, changes of
    prices and stock levels, and the clock, as an inductive step relation with one invariant for all
    of its tables and the provider.
    \<open>Consistency\<close>: every step keeps the tables' declarations and the ids unused, and a checkout
    that has its answer can land. \<open>Saga_Book\<close>: what the saga promises, as a book of orders with
    seven kinds of line, and the simulation by which every step of \<open>System\<close> is one line of the book
    or none.
  \<^item> \<open>Jobs\<close>: \<^verbatim>\<open>app/jobs\<close>, with the drain loops as partial functions proved to end.
  \<^item> \<open>Request\<close>, \<open>Api\<close>: \<^verbatim>\<open>app/schemas\<close>, \<^verbatim>\<open>app/api/errors.py\<close> and the
    route, from a parsed body to the response. \<open>Transport\<close>: the exception handlers and
    \<^verbatim>\<open>app/api/middleware.py\<close> as layers around the route, the lines they log
    (\<^verbatim>\<open>app/api/logging.py\<close>) and \<^verbatim>\<open>app/api/routes/health.py\<close>.
  \<^item> \<open>Doubles\<close>, \<open>Geocoder\<close>: floating point as exact rationals with rounding to the nearest
    double, and \<^verbatim>\<open>app/adapters/geocoding_mock.py\<close> with the normalized address key it hashes.
  \<^item> \<open>Catalog\<close>, \<open>Migrations\<close>, \<open>Metadata\<close>, \<open>Migrated\<close>: DDL statements on a
    catalog, the three revisions under \<^verbatim>\<open>migrations/versions\<close>, the tables, indexes and enums that
    \<^verbatim>\<open>app/models\<close> declares under the naming convention, and the catalog after each revision.
  \<^item> \<open>Seeds\<close>, \<open>Seeding\<close>: \<^verbatim>\<open>app/seeds.py\<close>, its statement as the locale \<open>upsertion\<close>
    that the products, warehouses and inventory interpret, and what each step leaves behind.
  \<^item> \<open>Application\<close>: \<^verbatim>\<open>app/config.py\<close>, what \<^verbatim>\<open>app/db/session.py\<close> and
    \<^verbatim>\<open>app/main.py\<close> read of it, and \<^verbatim>\<open>app/api/deps.py\<close>: the route with the adapters that are
    wired in.
  \<^item> \<open>Ini\<close>, \<open>Migration_Env\<close>: what \<^verbatim>\<open>migrations/env.py\<close> uses of Python's
    \<^verbatim>\<open>configparser\<close>, the environment's online and offline run, and where they lead.
  \<^item> \<open>Demo\<close>, \<open>Demo_System\<close>: one small shop on which every theorem with hypotheses is applied.
  \<^item> \<open>Stock_Properties\<close>, \<open>Order_Properties\<close>, \<open>Saga_Properties\<close>, \<open>Edge_Properties\<close>,
    \<open>Schema_Properties\<close>, \<open>Seed_Properties\<close>, \<open>Answer_Properties\<close>, \<open>System_Properties\<close>,
    \<open>Application_Properties\<close>, \<open>Contention_Properties\<close> and this theory: the properties.

  \<^bold>\<open>State.\<close> \<open>db\<close> is the database: one list of rows per table, the transaction's clock
  (\<^verbatim>\<open>now()\<close>) and the sequence of UUIDs that \<^verbatim>\<open>gen_random_uuid()\<close> will return. A method
  takes the database to an exception or to a result and the new database; an exception rolls back to
  where the transaction began. In \<open>System\<close> a transaction's writes are one step, while what the
  creation selects from may be any earlier states; that the writers of stock interleave statement by
  statement to the same effect is proved in \<open>Contention_Properties\<close>. Fresh UUIDs (\<open>uuids_fresh\<close>) are a hypothesis where an operation must succeed.

  \<^bold>\<open>Bounds.\<close> Columns of type \<^verbatim>\<open>integer\<close> and \<^verbatim>\<open>bigint\<close> keep their range as a type check
  of the column that raises \<open>DataError\<close>; arithmetic is on unbounded integers as in Python. The drain
  loops are partial functions with their termination as theorems. The search for the spacing of doubles is
  bounded by the 2045 binary exponents a double can have, and the interpolation of an option by the ten
  levels that \<^verbatim>\<open>configparser\<close> allows.

  \<^bold>\<open>Parameters.\<close> Code that is not under \<^verbatim>\<open>src/\<close>: PostGIS distances and the collation
  (\<open>postgis\<close>), the geocoder and the payment provider behind their ports, SQLAlchemy's session, SHA-256, and
  Python's Unicode tables of digits (\<open>ucd\<close>) and case (\<open>case_maps\<close>). \<open>Application\<close> bundles them as one
  \<open>platform\<close>; the values pydantic reads from the environment are the record \<open>settings\<close>.

  \<^bold>\<open>Not modelled.\<close> The logging configuration that \<^verbatim>\<open>migrations/env.py\<close> loads and the
  options of alembic that only its autogeneration reads; the log lines of services and jobs and what the scripts print; Pydantic's parsing of
  JSON into fields and of the environment into settings; the connection pool behind the engine's
  options; how the ORM loads the relationships that \<open>get_for_response\<close> joins; PostgreSQL's
  deadlock detector; locks on rows of tables other than \<^verbatim>\<open>inventory\<close> and
  \<^verbatim>\<open>stock_reservations\<close>; and the overflow of dates, which an absurd
  \<^verbatim>\<open>RESERVATION_TTL_SECONDS\<close> would cause: times are unbounded integers.
\<close>

section \<open>The shop as a whole\<close>

text \<open>
  Properties of every state that checkouts, the sweeper, the outbox relay, changes of prices and
  stock levels and the clock can reach from a shop without orders, whatever the interleaving.
\<close>

lemma reachable_db_inv: "initial s \<Longrightarrow> reachable env s t \<Longrightarrow> db_inv (sys_db t)"
  using reachable_inv initial_inv by (auto simp: sys_inv_def)

text \<open>
  C1: the shop never oversells. However checkouts, sweeps and crashes interleave, at every warehouse
  and for every product the units held by active and committed reservations are at most what the
  counter says, and the counter is at most what is on hand.
\<close>

theorem shop_never_oversells:
  assumes "initial s" and "reachable env s t" and "i \<in> set (inventory (sys_db t))"
  shows "0 \<le> held (sys_db t) (inv_warehouse_id i) (inv_product_id i) \<and>
    held (sys_db t) (inv_warehouse_id i) (inv_product_id i) \<le> reserved i \<and> reserved i \<le> on_hand i"
proof -
  have led: "ledger_ok (sys_db t)"
    using reachable_db_inv [OF assms(1,2)] by (simp add: db_inv_def)
  then have inv: "table_ok (inventory_spec (sys_db t)) (inventory (sys_db t))" by (simp add: ledger_ok_def)
  have "0 \<le> held (sys_db t) w p" for w p
    using led unfolding held_def
    by (intro sum_where_nonneg) (auto simp: ledger_ok_def table_ok_def list_all_iff reservation_row_ok)
  moreover have "reserved_at (sys_db t) (inv_warehouse_id i) (inv_product_id i) = reserved i"
    by (rule reserved_at_row [OF inventory_keys_distinct [OF inv] assms(3)])
  moreover have "reserved i \<le> on_hand i"
    using table_ok_bounds [OF inv] assms(3) by (simp add: inventory_bounds_def list_all_iff)
  ultimately show ?thesis using led unfolding ledger_ok_iff by metis
qed

theorem shop_never_oversells_witness:
  "held demo_db1 20 10 \<le> 2 \<and> (\<exists>s. reachable demo_env demo_system s \<and> sys_db s = demo_db1)"
  using shop_never_oversells [OF demo_initial Next [OF Here demo_begins],
      of "(demo_stock 30 20 10 5)\<lparr>reserved := 2\<rparr>"] Next [OF Here demo_begins]
  by (auto simp: demo_db1_def demo_stock_def)

text \<open>
  C16: the audit trail is complete. In every reachable state the status of each order is where its
  history rows end when they are replayed from nothing: the first creates it as pending, each other
  row starts where the previous one ended and is an edge of the state machine, and no history row
  is without its order.
\<close>

theorem history_explains_every_order:
  assumes "initial s" and "reachable env s t"
  shows "(\<forall>r \<in> set (orders (sys_db t)).
      replay None (history_of (sys_db t) (o_id r)) = Some (Some (o_status r))) \<and>
    (\<forall>h \<in> set (order_status_history (sys_db t)). h_order_id h \<in> o_id ` set (orders (sys_db t)))"
  using reachable_db_inv [OF assms] by (simp add: db_inv_def history_ok_def)

theorem history_explains_every_order_witness:
  "\<exists>s. reachable demo_env demo_system s \<and> map o_status (orders (sys_db s)) = [Confirmed] \<and>
     replay None (history_of (sys_db s) 101) = Some (Some Confirmed)"
proof -
  obtain s r where r: "reachable demo_env demo_system s" "orders (sys_db s) = [r]" "o_status r = Confirmed" "o_id r = 101"
    using demo_run by blast
  with history_explains_every_order [OF demo_initial r(1)] show ?thesis by (intro exI [of _ s]) simp
qed

text \<open>
  C2: money and orders agree. In every reachable state the orders with a succeeded payment are the
  confirmed orders, one payment each, the events in the outbox announce the same orders, once each,
  and every payment is for the total and in the currency of its order.
\<close>

theorem money_matches_orders:
  assumes "initial s" and "reachable env s t"
  shows "mset (map pay_order_id (filter (\<lambda>p. pay_status p = Payment_succeeded) (payments (sys_db t)))) =
      mset (map o_id (filter (\<lambda>r. o_status r = Confirmed) (orders (sys_db t)))) \<and>
    mset (map aggregate_id (outbox (sys_db t))) =
      mset (map o_id (filter (\<lambda>r. o_status r = Confirmed) (orders (sys_db t)))) \<and>
    (\<forall>p \<in> set (payments (sys_db t)). \<exists>r \<in> set (orders (sys_db t)).
       o_id r = pay_order_id p \<and> o_total_minor r = amount_minor p \<and> o_currency r = pay_currency p)"
  using reachable_db_inv [OF assms] by (simp add: db_inv_def money_ok_def)

theorem money_matches_orders_witness:
  "\<exists>s. reachable demo_env demo_system s \<and> mset (map aggregate_id (outbox (sys_db s))) = {#101#}"
proof -
  obtain s r where r: "reachable demo_env demo_system s" "orders (sys_db s) = [r]" "o_status r = Confirmed" "o_id r = 101"
    using demo_run by blast
  with money_matches_orders [OF demo_initial r(1)] show ?thesis by (intro exI [of _ s]) simp
qed

text \<open>
  stock is held for live orders only. In every reachable state an active reservation belongs to
  a reserved order and a committed one to a confirmed order; an order whose payment failed holds
  nothing.
\<close>

theorem stock_is_held_for_live_orders:
  assumes "initial s" and "reachable env s t" and "r \<in> set (stock_reservations (sys_db t))"
  shows "\<exists>ord \<in> set (orders (sys_db t)). o_id ord = sr_order_id r \<and>
    (sr_status r = Active \<longrightarrow> o_status ord = Reserved) \<and>
    (sr_status r = Committed \<longrightarrow> o_status ord = Confirmed) \<and>
    (o_status ord = Payment_failed \<longrightarrow> \<not> holding r)"
  using reachable_db_inv [OF assms(1,2)] assms(3)
  unfolding db_inv_def holds_ok_def holding_def by fastforce

theorem stock_is_held_for_live_orders_witness:
  "\<exists>s r. reachable demo_env demo_system s \<and> r \<in> set (stock_reservations (sys_db s)) \<and>
     sr_status r = Committed \<and> (\<exists>ord \<in> set (orders (sys_db s)). o_id ord = sr_order_id r \<and> o_status ord = Confirmed)"
proof -
  obtain s r a b where r: "reachable demo_env demo_system s"
    "stock_reservations (sys_db s) = [a, b]" "sr_status a = Committed"
    using demo_run by blast
  with stock_is_held_for_live_orders [OF demo_initial r(1), of a] show ?thesis
    by (intro exI [of _ s] exI [of _ a]) auto
qed

text \<open>
  C8: no order is charged twice, and the database says of a payment what the provider said. In
  every reachable state the provider has been charged at most once under each key and only under
  keys that are ids of orders; a confirmed order has been charged with success, and an order whose
  payment failed was declined.
\<close>

theorem no_order_is_charged_twice:
  assumes "initial s" and "reachable env s t"
  shows "distinct (charged_keys (sys_provider t)) \<and>
    (\<forall>k \<in> set (charged_keys (sys_provider t)). \<exists>r \<in> set (orders (sys_db t)). k = uuid_str (o_id r)) \<and>
    (\<forall>r \<in> set (orders (sys_db t)).
       (o_status r = Confirmed \<longrightarrow> (\<exists>a. get_by_idempotency_key (uuid_str (o_id r)) (sys_provider t) = Some a \<and>
          outcome a = Outcome_succeeded)) \<and>
       (o_status r = Payment_failed \<longrightarrow> (\<exists>a. get_by_idempotency_key (uuid_str (o_id r)) (sys_provider t) = Some a \<and>
          outcome a = Outcome_declined)))"
proof -
  have "provider_ok (sys_db t) (flights t) (sys_provider t)"
    using reachable_inv [OF assms(2) initial_inv [OF assms(1)]] by (simp add: sys_inv_def)
  then show ?thesis
    unfolding provider_ok_def mock_sound_def list_all_iff get_by_idempotency_key_def by blast
qed

theorem no_order_is_charged_twice_witness:
  "\<exists>s r. reachable demo_env demo_system s \<and> r \<in> set (orders (sys_db s)) \<and> o_status r = Confirmed \<and>
     charged_keys (sys_provider s) = [uuid_str 101] \<and>
     (\<exists>a. get_by_idempotency_key (uuid_str (o_id r)) (sys_provider s) = Some a \<and> outcome a = Outcome_succeeded)"
proof -
  obtain s r where r: "reachable demo_env demo_system s" "orders (sys_db s) = [r]" "o_status r = Confirmed"
    "sys_provider s = demo_charged" using demo_run by blast
  with no_order_is_charged_twice [OF demo_initial r(1)] show ?thesis
    by (intro exI [of _ s] exI [of _ r] conjI) (simp_all add: demo_charged_keys)
qed

end
